(* ===== verification/Prelude.thy ===== *)
theory Prelude
  imports Main "HOL-Library.Word" "HOL-Library.Signed_Division" "HOL-Library.While_Combinator"
    "HOL-Library.Monad_Syntax"
begin

text \<open>
  Shared vocabulary of the development.

  \<^item> Machine integers: the C types \<^verbatim>\<open>uint8_t\<close>, \<^verbatim>\<open>uint16_t\<close>, \<^verbatim>\<open>uint32_t\<close> are words; a C
    \<^verbatim>\<open>int\<close> whose value cannot leave the 32-bit range is an HOL \<^typ>\<open>int\<close>, with C's
    truncating division and remainder (\<open>sdiv\<close>, \<open>smod\<close>).
  \<^item> Arrays: an array is a list; an access outside the array is undefined behaviour in C and
    is the value \<^const>\<open>None\<close> here (\<open>arr_get\<close>, \<open>arr_set\<close>), so a theorem that an operation returns
    \<^const>\<open>Some\<close> includes that it stays inside its arrays.
  \<^item> Loops that run a counter through an array are \<open>fold\<close>s and recursions over lists; loops with
    a condition are \<^const>\<open>while\<close>.
\<close>

section \<open>Types and proof collections\<close>

type_synonym u8 = "8 word"
type_synonym u16 = "16 word"
type_synonym u32 = "32 word"

named_theorems fsm_simps "facts about the finite state machine tables"
named_theorems inv_intros "introduction rules of component invariants"

section \<open>C arithmetic\<close>

lemma sdiv_nonneg [simp]: "0 \<le> a \<Longrightarrow> 0 \<le> b \<Longrightarrow> (a::int) sdiv b = a div b"
  by (cases "b = 0"; cases "a = 0") (auto simp: signed_divide_int_def sgn_if)

lemma smod_add_range:
  fixes a r :: int
  assumes "0 < r"
  shows "(if a smod r < 0 then a smod r + r else a smod r) = a mod r"
proof (cases "0 \<le> a")
  case True
  then have "a smod r = a mod r"
    using assms by (cases "a = 0") (simp_all add: signed_modulo_int_def minus_div_mult_eq_mod sgn_if)
  then show ?thesis using pos_mod_sign [OF assms, of a] by simp
next
  case False
  define b where "b = - a"
  have ab: "a = - b" "0 < b" using False by (simp_all add: b_def)
  have "a smod r = - (b mod r)"
    using assms ab by (simp add: signed_modulo_int_def signed_divide_int_def minus_div_mult_eq_mod)
  moreover have "a mod r = (if b mod r = 0 then 0 else r - b mod r)"
    unfolding ab by (simp add: zmod_zminus1_eq_if)
  moreover have "0 \<le> b mod r" using assms by simp
  ultimately show ?thesis by auto
qed

section \<open>Array accesses\<close>

definition arr_get :: "'a list \<Rightarrow> int \<Rightarrow> 'a option" where
  "arr_get xs i = (if 0 \<le> i \<and> i < int (length xs) then Some (xs ! nat i) else None)"

definition arr_set :: "'a list \<Rightarrow> int \<Rightarrow> 'a \<Rightarrow> 'a list option" where
  "arr_set xs i v = (if 0 \<le> i \<and> i < int (length xs) then Some (xs[nat i := v]) else None)"

lemma arr_get_nat [simp]: "n < length xs \<Longrightarrow> arr_get xs (int n) = Some (xs ! n)"
  by (simp add: arr_get_def)

lemma arr_set_nat [simp]: "n < length xs \<Longrightarrow> arr_set xs (int n) v = Some (xs[n := v])"
  by (simp add: arr_set_def)

lemma arr_set_length: "arr_set xs i v = Some ys \<Longrightarrow> length ys = length xs"
  by (auto simp: arr_set_def split: if_splits)

section \<open>Lists\<close>

lemma length_filter_card:
  "distinct xs \<Longrightarrow> length (filter P xs) = card {x \<in> set xs. P x}"
  by (metis distinct_card distinct_filter set_filter)

lemma half_length_less: "n \<le> length xs div 2 \<Longrightarrow> xs \<noteq> [] \<Longrightarrow> n < length xs"
  by (cases xs) auto

lemma fold_count:
  "fold (\<lambda>x n. if P x then n + 1 else n) xs (k::int) = k + int (length (filter P xs))"
  by (induction xs arbitrary: k) auto

end
