(* ===== verification/Arfcn_Range.thy ===== *)
theory Arfcn_Range
  imports Prelude
begin

unbundle bit_operations_syntax

text \<open>
  The range encoding of ARFCN lists (\<^verbatim>\<open>src/osmo-bsc/arfcn_range_encode.c\<close>): a set of channel
  numbers is laid out as a balanced tree of values W(1), W(2), ..., each relative to its parent,
  with one bit less per tree level.
\<close>

section \<open>The encoder\<close>

datatype gsm48_range = ARFCN_RANGE_INVALID | ARFCN_RANGE_128 | ARFCN_RANGE_256 | ARFCN_RANGE_512
  | ARFCN_RANGE_1024

fun range_val :: "gsm48_range \<Rightarrow> int" where
  "range_val ARFCN_RANGE_INVALID = -1"
| "range_val ARFCN_RANGE_128 = 127"
| "range_val ARFCN_RANGE_256 = 255"
| "range_val ARFCN_RANGE_512 = 511"
| "range_val ARFCN_RANGE_1024 = 1023"

definition RANGE_ENC_MAX_ARFCNS :: nat where "RANGE_ENC_MAX_ARFCNS = 29"

definition EINVAL :: int where "EINVAL = 22"

definition greatest_power_of_2_lesser_or_equal_to :: "int \<Rightarrow> int" where
  "greatest_power_of_2_lesser_or_equal_to index =
     while (\<lambda>power_of_2. power_of_2 \<le> index) (\<lambda>power_of_2. power_of_2 * 2) (1 * 2) sdiv 2"

definition mod_c :: "int \<Rightarrow> int \<Rightarrow> int" where
  "mod_c data rng = while (\<lambda>res. res < 0) (\<lambda>res. res + rng) (data smod rng)"

text \<open>The loop over \<open>i\<close>, with the inner count over \<open>j\<close>; the array is the list of its first
  \<open>size\<close> elements.\<close>

fun find_index_from :: "int \<Rightarrow> int list \<Rightarrow> nat list \<Rightarrow> int" where
  "find_index_from rng freqs [] = -1"
| "find_index_from rng freqs (i # is) =
     (let n = fold (\<lambda>fj n. if mod_c (fj - freqs ! i) rng \<le> (rng - 1) sdiv 2 then n + 1 else n)
                freqs (0::int)
      in if n - 1 = (int (length freqs) - 1) sdiv 2 then int i
         else find_index_from rng freqs is)"

definition range_enc_find_index :: "int \<Rightarrow> int list \<Rightarrow> int" where
  "range_enc_find_index rng freqs = find_index_from rng freqs [0..<length freqs]"

text \<open>The loop that distributes the remaining values over \<open>arfcns_left\<close> and \<open>arfcns_right\<close>,
  both of \<open>cap\<close> elements.\<close>

fun split_arfcns :: "int \<Rightarrow> int \<Rightarrow> int \<Rightarrow> nat \<Rightarrow> int list \<Rightarrow> int list \<Rightarrow> int list
    \<Rightarrow> (int list \<times> int list) option" where
  "split_arfcns rng l_origin r_origin cap [] l r = Some (l, r)"
| "split_arfcns rng l_origin r_origin cap (x # xs) l r =
     (let vl = mod_c (x - l_origin) rng; vr = mod_c (x - r_origin) rng;
          in_l = vl < rng sdiv 2; in_r = vr < rng sdiv 2
      in if in_l \<and> cap \<le> length l \<or> in_r \<and> cap \<le> length r then None
         else split_arfcns rng l_origin r_origin cap xs
                (if in_l then l @ [vl] else l) (if in_r then r @ [vr] else r))"

lemma split_arfcns_lengths:
  "split_arfcns rng lo ro cap xs l r = Some (l', r') \<Longrightarrow> length l \<le> cap \<Longrightarrow> length r \<le> cap
   \<Longrightarrow> length l' \<le> cap \<and> length r' \<le> cap"
  by (induction xs arbitrary: l r) (auto simp: Let_def split: if_splits)

lemma split_arfcns_half:
  "Some (l, r) = split_arfcns rng lo ro cap xs [] [] \<Longrightarrow> length l \<le> cap \<and> length r \<le> cap"
  "split_arfcns rng lo ro cap xs [] [] = Some (l, r) \<Longrightarrow> length l \<le> cap \<and> length r \<le> cap"
  by (drule sym, drule split_arfcns_lengths; simp)
    (drule split_arfcns_lengths; simp)

text \<open>\<open>range_enc_arfcns\<close> and its worker \<open>_range_enc_arfcns\<close>. The value is the return code and the
  new contents of \<open>out\<close>, or \<^const>\<open>None\<close> for a write outside one of the arrays. The
  return codes of the recursive calls are dropped, as in the code.\<close>

function range_enc_arfcns :: "int \<Rightarrow> int list \<Rightarrow> int list \<Rightarrow> int \<Rightarrow> (int \<times> int list) option"
  where
  "range_enc_arfcns rng arfcns out index =
     (if length arfcns \<le> 0 then Some (0, out)
      else if length arfcns = 1 then
        (case arr_set out index (1 + arfcns ! 0) of None \<Rightarrow> None | Some out1 \<Rightarrow> Some (0, out1))
      else
        let split_at = range_enc_find_index rng arfcns
        in if split_at < 0 then Some (- EINVAL, out)
           else
             let pivot = arfcns ! nat split_at;
                 l_origin = mod_c (pivot + (rng - 1) sdiv 2 + 1) rng;
                 r_origin = mod_c (pivot + 1) rng;
                 p2 = greatest_power_of_2_lesser_or_equal_to (index + 1)
             in (case arr_set out index (1 + pivot) of None \<Rightarrow> None
                 | Some out1 \<Rightarrow>
                   (case split_arfcns rng l_origin r_origin (length arfcns div 2) arfcns [] [] of
                      None \<Rightarrow> None
                    | Some (l, r) \<Rightarrow>
                      (case (if l = [] then Some (0, out1)
                             else range_enc_arfcns (rng sdiv 2) l out1 (index + p2)) of
                         None \<Rightarrow> None
                       | Some (_, out2) \<Rightarrow>
                         (case (if r = [] then Some (0, out2)
                                else range_enc_arfcns ((rng - 1) sdiv 2) r out2 (index + 2 * p2)) of
                            None \<Rightarrow> None
                          | Some (_, out3) \<Rightarrow> Some (0, out3))))))"
  by pat_completeness auto
termination
  by (relation "measure (\<lambda>(rng, arfcns, out, index). length arfcns)")
    (auto dest!: split_arfcns_half intro: half_length_less)

declare range_enc_arfcns.simps [simp del]

text \<open>The chosen range and, unless the list is empty, the base frequency stored through \<open>f0\<close>.\<close>

definition range_enc_determine_range :: "int list \<Rightarrow> gsm48_range \<times> int option" where
  "range_enc_determine_range arfcns =
     (let sz = length arfcns in
      if sz = 0 then (ARFCN_RANGE_128, None)
      else
        let max = arfcns ! (sz - 1) - arfcns ! 0; f0 = arfcns ! 0
        in if max < 128 \<and> sz \<le> 29 then (ARFCN_RANGE_128, Some f0)
           else if max < 256 \<and> sz \<le> 22 then (ARFCN_RANGE_256, Some f0)
           else if max < 512 \<and> sz \<le> 18 then (ARFCN_RANGE_512, Some f0)
           else if max < 1024 \<and> sz \<le> 17 then (ARFCN_RANGE_1024, Some 0)
           else (ARFCN_RANGE_INVALID, Some f0))"

definition write_orig_arfcn :: "u8 list \<Rightarrow> int \<Rightarrow> u8 list option" where
  "write_orig_arfcn chan_list f0 = do {
     b0 \<leftarrow> arr_get chan_list 0;
     c0 \<leftarrow> arr_set chan_list 0 (b0 OR word_of_int (drop_bit 9 f0 AND 1));
     c1 \<leftarrow> arr_set c0 1 (word_of_int (drop_bit 1 f0));
     arr_set c1 2 (word_of_int (push_bit 7 (f0 AND 1)))
   }"

text \<open>One turn of the inner loop of \<open>write_all_wn\<close> puts \<open>cur_bits\<close> bits of \<open>wk\<close> into the current
  octet. With \<open>bit_offs = 8\<close> the loop would not advance; that is \<^const>\<open>None\<close>.\<close>

function write_wk :: "u8 list \<Rightarrow> nat \<Rightarrow> nat \<Rightarrow> int \<Rightarrow> nat \<Rightarrow> (u8 list \<times> nat \<times> nat) option" where
  "write_wk chan_list octet_offs bit_offs wk wk_left =
     (if wk_left = 0 then Some (chan_list, octet_offs, bit_offs)
      else if 8 \<le> bit_offs then None
      else
        let cur_bits = min (8 - bit_offs) wk_left;
            cur_mask = push_bit cur_bits 1 - 1;
            wk_left' = wk_left - cur_bits;
            bit_offs' = bit_offs + cur_bits;
            wk_slice = drop_bit wk_left' wk AND cur_mask
        in (case arr_get chan_list (int octet_offs) of None \<Rightarrow> None
            | Some b \<Rightarrow>
              (case arr_set chan_list (int octet_offs)
                      ((b AND NOT (word_of_int (push_bit (8 - bit_offs') cur_mask)))
                       OR word_of_int (push_bit (8 - bit_offs') wk_slice)) of
                 None \<Rightarrow> None
               | Some chan_list' \<Rightarrow>
                 if bit_offs' = 8 then write_wk chan_list' (octet_offs + 1) 0 wk wk_left'
                 else write_wk chan_list' octet_offs bit_offs' wk wk_left')))"
  by pat_completeness auto
termination
  by (relation "measure (\<lambda>(chan_list, octet_offs, bit_offs, wk, wk_left). wk_left)") auto

declare write_wk.simps [simp del]

fun write_wn_loop :: "u8 list \<Rightarrow> nat \<Rightarrow> nat \<Rightarrow> int list \<Rightarrow> nat \<Rightarrow> nat \<Rightarrow> nat \<Rightarrow> u8 list option" where
  "write_wn_loop chan_list octet_offs bit_offs [] wk_len level lvl_left = Some chan_list"
| "write_wn_loop chan_list octet_offs bit_offs (wk # ws) wk_len level lvl_left =
     (case write_wk chan_list octet_offs bit_offs wk wk_len of None \<Rightarrow> None
      | Some (chan_list', octet_offs', bit_offs') \<Rightarrow>
        if lvl_left - 1 = 0
        then write_wn_loop chan_list' octet_offs' bit_offs' ws (wk_len - 1) (level + 1) (2 ^ (level + 1))
        else write_wn_loop chan_list' octet_offs' bit_offs' ws wk_len level (lvl_left - 1))"

text \<open>\<open>octet_offs\<close> is the octet of the channel list the code's pointer argument points to.\<close>

definition write_all_wn :: "u8 list \<Rightarrow> nat \<Rightarrow> nat \<Rightarrow> int list \<Rightarrow> nat \<Rightarrow> nat \<Rightarrow> u8 list option" where
  "write_all_wn chan_list octet_offs bit_offs w w_size w1_len =
     (if length w < w_size then None
      else write_wn_loop chan_list octet_offs bit_offs (take w_size w) w1_len 0 1)"

definition range_enc_range128 :: "u8 list \<Rightarrow> int \<Rightarrow> int list \<Rightarrow> u8 list option" where
  "range_enc_range128 chan_list f0 w = do {
     c \<leftarrow> arr_set chan_list 0 0x8C; c \<leftarrow> write_orig_arfcn c f0; write_all_wn c 2 1 w 28 7 }"

definition range_enc_range256 :: "u8 list \<Rightarrow> int \<Rightarrow> int list \<Rightarrow> u8 list option" where
  "range_enc_range256 chan_list f0 w = do {
     c \<leftarrow> arr_set chan_list 0 0x8A; c \<leftarrow> write_orig_arfcn c f0; write_all_wn c 2 1 w 21 8 }"

definition range_enc_range512 :: "u8 list \<Rightarrow> int \<Rightarrow> int list \<Rightarrow> u8 list option" where
  "range_enc_range512 chan_list f0 w = do {
     c \<leftarrow> arr_set chan_list 0 0x88; c \<leftarrow> write_orig_arfcn c f0; write_all_wn c 2 1 w 17 9 }"

definition range_enc_range1024 :: "u8 list \<Rightarrow> int \<Rightarrow> int \<Rightarrow> int list \<Rightarrow> u8 list option" where
  "range_enc_range1024 chan_list f0 f0_included w = do {
     c \<leftarrow> arr_set chan_list 0 (0x80 OR word_of_int (push_bit 2 f0_included));
     write_all_wn c 0 6 w 16 10 }"

text \<open>The in-place filter: the array, the number of values kept, and \<open>f0_included\<close>.\<close>

fun filter_arfcns_from :: "int \<Rightarrow> nat list \<Rightarrow> int list \<Rightarrow> nat \<Rightarrow> int \<Rightarrow> (int list \<times> nat \<times> int) option"
  where
  "filter_arfcns_from f0 [] arfcns j f0_included = Some (arfcns, j, f0_included)"
| "filter_arfcns_from f0 (i # is) arfcns j f0_included =
     (case arr_get arfcns (int i) of None \<Rightarrow> None
      | Some x \<Rightarrow>
        if x = f0 then filter_arfcns_from f0 is arfcns j 1
        else (case arr_set arfcns (int j) (mod_c (x - (f0 + 1)) 1024) of None \<Rightarrow> None
              | Some arfcns' \<Rightarrow> filter_arfcns_from f0 is arfcns' (j + 1) f0_included))"

definition range_enc_filter_arfcns :: "int list \<Rightarrow> nat \<Rightarrow> int \<Rightarrow> (int list \<times> nat \<times> int) option" where
  "range_enc_filter_arfcns arfcns n f0 = filter_arfcns_from f0 [0..<n] arfcns 0 0"

end
