(* ===== verification/Freq_List.thy ===== *)
theory Freq_List
  imports Arfcn_Range
begin

unbundle bit_operations_syntax

text \<open>
  Frequency lists in system information messages (\<^verbatim>\<open>src/osmo-bsc/system_information.c\<close>): which ARFCNs
  a message carries, and the choice between the bit map 0, variable bit map and range formats.

  Three things of libosmocore are arguments: \<open>arfcn2band\<close> stands for \<open>gsm_arfcn2band_rc\<close> (\<^const>\<open>None\<close> for
  its error return), and a bit vector is given by \<open>bv\<close>, the value of \<open>bitvec_get_bit_pos\<close> at a
  position, and \<open>nbits\<close>, eight times its \<open>data_len\<close>.
\<close>

section \<open>Which ARFCNs are selected\<close>

datatype gsm_band = GSM_BAND_850 | GSM_BAND_900 | GSM_BAND_1800 | GSM_BAND_1900 | GSM_BAND_450
  | GSM_BAND_480 | GSM_BAND_750 | GSM_BAND_810

record si_bts =
  band :: gsm_band
  c0_arfcn :: int
  force_combined_si_set :: bool
  force_combined_si :: bool
  model_force_combined_si :: bool

definition band_compatible :: "(int \<Rightarrow> gsm_band option) \<Rightarrow> si_bts \<Rightarrow> int \<Rightarrow> bool" where
  "band_compatible arfcn2band bts arfcn =
     (case arfcn2band arfcn of None \<Rightarrow> False
      | Some b \<Rightarrow> b = band bts \<or> b = GSM_BAND_1800 \<and> band bts = GSM_BAND_1900)"

definition is_dcs_net :: "si_bts \<Rightarrow> bool" where
  "is_dcs_net bts = (band bts \<noteq> GSM_BAND_850 \<and> band bts \<noteq> GSM_BAND_1900)"

definition use_arfcn :: "(int \<Rightarrow> gsm_band option) \<Rightarrow> si_bts \<Rightarrow> bool \<Rightarrow> bool \<Rightarrow> bool \<Rightarrow> int \<Rightarrow> bool" where
  "use_arfcn arfcn2band bts bis ter pgsm arfcn =
     (if (if force_combined_si_set bts then force_combined_si bts else model_force_combined_si bts)
      then \<not> bis \<and> \<not> ter
      else if \<not> bis \<and> \<not> ter \<and> band_compatible arfcn2band bts arfcn then True
      else if bis \<and> pgsm \<and> band_compatible arfcn2band bts arfcn \<and> (arfcn < 1 \<or> 124 < arfcn) then True
      else if ter \<and> \<not> band_compatible arfcn2band bts arfcn then True
      else False)"

section \<open>The three formats\<close>

definition GSM48_CELL_CHAN_DESC_SIZE :: int where "GSM48_CELL_CHAN_DESC_SIZE = 16"

definition ERANGE :: int where "ERANGE = 34"

text \<open>Each function gives its return code and the new channel list; \<^const>\<open>None\<close> is a write outside it.\<close>

definition freq_list_bm0_set_arfcn :: "u8 list \<Rightarrow> int \<Rightarrow> (int \<times> u8 list) option" where
  "freq_list_bm0_set_arfcn chan_list arfcn =
     (if 124 < arfcn \<or> arfcn < 1 then Some (- EINVAL, chan_list)
      else
        let arfcn = arfcn - 1; byte = arfcn sdiv 8; bit = arfcn smod 8;
            pos = GSM48_CELL_CHAN_DESC_SIZE - 1 - byte
        in do { b \<leftarrow> arr_get chan_list pos;
                chan_list \<leftarrow> arr_set chan_list pos (b OR push_bit (nat bit) 1);
                Some (0, chan_list) })"

definition freq_list_bmrel_set_arfcn :: "u8 list \<Rightarrow> int \<Rightarrow> (int \<times> u8 list) option" where
  "freq_list_bmrel_set_arfcn chan_list arfcn = do {
     b0 \<leftarrow> arr_get chan_list 0; b1 \<leftarrow> arr_get chan_list 1; b2 \<leftarrow> arr_get chan_list 2;
     let min_arfcn = push_bit 9 (uint b0 AND 1) OR push_bit 1 (uint b1) OR (drop_bit 7 (uint b2) AND 1);
     if arfcn = min_arfcn then Some (0, chan_list)
     else if 111 < (arfcn - min_arfcn) AND 1023 then Some (- EINVAL, chan_list)
     else
       let bitno = (arfcn - min_arfcn) AND 1023; byte = bitno sdiv 8; bit = bitno smod 8
       in do { b \<leftarrow> arr_get chan_list (2 + byte);
               chan_list \<leftarrow> arr_set chan_list (2 + byte) (b OR push_bit (nat (7 - bit)) 1);
               Some (0, chan_list) }
   }"

text \<open>The loops over the bit vector run over the list of its positions and stop at the first
  error.\<close>

fun set_arfcns :: "(u8 list \<Rightarrow> int \<Rightarrow> (int \<times> u8 list) option) \<Rightarrow> (int \<Rightarrow> bool) \<Rightarrow> int list \<Rightarrow> u8 list
    \<Rightarrow> (int \<times> u8 list) option" where
  "set_arfcns set_arfcn sel [] chan_list = Some (0, chan_list)"
| "set_arfcns set_arfcn sel (i # is) chan_list =
     (if sel i then
        (case set_arfcn chan_list i of None \<Rightarrow> None
         | Some (rc, chan_list) \<Rightarrow>
           if rc < 0 then Some (rc, chan_list) else set_arfcns set_arfcn sel is chan_list)
      else set_arfcns set_arfcn sel is chan_list)"

definition enc_freq_lst_var_bitmap :: "(int \<Rightarrow> gsm_band option) \<Rightarrow> u8 list \<Rightarrow> (int \<Rightarrow> bool) \<Rightarrow> int
    \<Rightarrow> si_bts \<Rightarrow> bool \<Rightarrow> bool \<Rightarrow> int \<Rightarrow> bool \<Rightarrow> (int \<times> u8 list) option" where
  "enc_freq_lst_var_bitmap arfcn2band chan_list bv nbits bts bis ter min_a pgsm = do {
     chan_list \<leftarrow> arr_set chan_list 0 (0x8e OR word_of_int (drop_bit 9 min_a AND 1));
     chan_list \<leftarrow> arr_set chan_list 1 (word_of_int (drop_bit 1 min_a));
     chan_list \<leftarrow> arr_set chan_list 2 (word_of_int (push_bit 7 (min_a AND 1)));
     set_arfcns freq_list_bmrel_set_arfcn
       (\<lambda>i. bv i \<and> (\<not> bis \<and> \<not> ter \<and> band_compatible arfcn2band bts i
          \<or> bis \<and> pgsm \<and> band_compatible arfcn2band bts i \<and> (i < 1 \<or> 124 < i)
          \<or> ter \<and> \<not> band_compatible arfcn2band bts i))
       [0..nbits - 1] chan_list
   }"

text \<open>The switch over the range at the end of \<open>range_encode\<close>.\<close>

definition range_encode_switch :: "gsm48_range \<Rightarrow> int \<Rightarrow> int \<Rightarrow> int list \<Rightarrow> u8 list \<Rightarrow> (int \<times> u8 list) option" where
  "range_encode_switch r f0 f0_included w chan_list =
     (case r of
         ARFCN_RANGE_128 \<Rightarrow> map_option (Pair 0) (range_enc_range128 chan_list f0 w)
       | ARFCN_RANGE_256 \<Rightarrow> map_option (Pair 0) (range_enc_range256 chan_list f0 w)
       | ARFCN_RANGE_512 \<Rightarrow> map_option (Pair 0) (range_enc_range512 chan_list f0 w)
       | ARFCN_RANGE_1024 \<Rightarrow> map_option (Pair 0) (range_enc_range1024 chan_list f0 f0_included w)
       | ARFCN_RANGE_INVALID \<Rightarrow> Some (- ERANGE, chan_list))"

text \<open>\<open>range_encode\<close> filters the array in place and then encodes its first \<open>arfcns_used\<close> elements: the
  number of elements the filter kept is not used.\<close>

definition range_encode :: "gsm48_range \<Rightarrow> int list \<Rightarrow> nat \<Rightarrow> int list \<Rightarrow> int \<Rightarrow> u8 list
    \<Rightarrow> (int \<times> u8 list) option" where
  "range_encode r arfcns arfcns_used w f0 chan_list = do {
     (arfcns, kept, f0_included) \<leftarrow> range_enc_filter_arfcns arfcns arfcns_used f0;
     (rc, w) \<leftarrow> range_enc_arfcns (range_val r) (take arfcns_used arfcns) w 0;
     if rc < 0 then Some (rc, chan_list) else range_encode_switch r f0 f0_included w chan_list
   }"

text \<open>The selection loop of \<open>enc_freq_lst_range\<close>: \<open>Some (Inl rc)\<close> is its early return.\<close>

fun collect_arfcns :: "(int \<Rightarrow> bool) \<Rightarrow> int list \<Rightarrow> int list \<Rightarrow> nat \<Rightarrow> (int + int list \<times> nat) option" where
  "collect_arfcns sel [] arfcns arfcns_used = Some (Inr (arfcns, arfcns_used))"
| "collect_arfcns sel (i # is) arfcns arfcns_used =
     (if length arfcns < arfcns_used then Some (Inl (- 1))
      else if sel i then
        (case arr_set arfcns (int arfcns_used) i of None \<Rightarrow> None
         | Some arfcns \<Rightarrow> collect_arfcns sel is arfcns (arfcns_used + 1))
      else collect_arfcns sel is arfcns arfcns_used)"

text \<open>The local arrays \<open>arfcns\<close> and \<open>w\<close> have \<open>RANGE_ENC_MAX_ARFCNS\<close> elements. \<open>arfcns\<close> and \<open>f0\<close> are
  uninitialised; their initial values are the arguments \<open>arfcns0\<close> and \<open>f0_init\<close>.\<close>

definition enc_freq_lst_range :: "(int \<Rightarrow> gsm_band option) \<Rightarrow> int list \<Rightarrow> int \<Rightarrow> u8 list \<Rightarrow> (int \<Rightarrow> bool)
    \<Rightarrow> int \<Rightarrow> si_bts \<Rightarrow> bool \<Rightarrow> bool \<Rightarrow> bool \<Rightarrow> (int \<times> u8 list) option" where
  "enc_freq_lst_range arfcn2band arfcns0 f0_init chan_list bv nbits bts bis ter pgsm =
     (case collect_arfcns (\<lambda>i. bv i \<and> use_arfcn arfcn2band bts bis ter pgsm i) [0..nbits - 1]
             (take RANGE_ENC_MAX_ARFCNS arfcns0) 0 of
        None \<Rightarrow> None
      | Some (Inl rc) \<Rightarrow> Some (rc, chan_list)
      | Some (Inr (arfcns, arfcns_used)) \<Rightarrow>
        let (r, f0) = range_enc_determine_range (take arfcns_used arfcns)
        in if r = ARFCN_RANGE_INVALID then Some (- 2, chan_list)
           else range_encode r arfcns arfcns_used (replicate RANGE_ENC_MAX_ARFCNS 0)
                  (case f0 of None \<Rightarrow> f0_init | Some f \<Rightarrow> f) chan_list)"

section \<open>The frequency list\<close>

text \<open>One turn of the loop that counts the selected ARFCNs and finds the circular minimum and
  maximum, where 955..1023 come before 0..885.\<close>

definition min_step :: "int \<Rightarrow> int \<Rightarrow> int" where
  "min_step i m0 =
     (let m1 = (if m0 < 0 then i else m0);
          m2 = (if 955 \<le> i \<and> m1 < 955 then i else m1);
          m3 = (if 955 \<le> i \<and> 955 \<le> m2 \<and> i < m2 then i else m2)
      in if i < 955 \<and> m3 < 955 \<and> i < m3 then i else m3)"

definition max_step :: "int \<Rightarrow> int \<Rightarrow> int" where
  "max_step i m0 =
     (let m1 = (if m0 < 0 then i else m0);
          m2 = (if i < 955 \<and> 955 \<le> m1 then i else m1);
          m3 = (if 955 \<le> i \<and> 955 \<le> m2 \<and> m2 < i then i else m2)
      in if i < 955 \<and> m3 < 955 \<and> m3 < i then i else m3)"

definition minmax_step :: "int \<Rightarrow> int \<times> int \<Rightarrow> int \<times> int" where
  "minmax_step i mm = (min_step i (fst mm), max_step i (snd mm))"

definition bitvec2freq_list :: "(int \<Rightarrow> gsm_band option) \<Rightarrow> int list \<Rightarrow> int \<Rightarrow> u8 list \<Rightarrow> (int \<Rightarrow> bool)
    \<Rightarrow> int \<Rightarrow> si_bts \<Rightarrow> bool \<Rightarrow> bool \<Rightarrow> (int \<times> u8 list) option" where
  "bitvec2freq_list arfcn2band arfcns0 f0_init chan_list bv nbits bts bis ter =
     (if length chan_list < 16 then None
      else
        let chan_list = replicate 16 0 @ drop 16 chan_list;
            pgsm = (band bts = GSM_BAND_900 \<and> 1 \<le> c0_arfcn bts \<and> c0_arfcn bts \<le> 124)
        in if \<not> bis \<and> \<not> ter \<and> pgsm then
             set_arfcns freq_list_bm0_set_arfcn (\<lambda>i. 1 \<le> i \<and> i \<le> 124 \<and> bv i) [0..nbits - 1]
               (chan_list[0 := 0])
           else
             let (min_a, max_a) = fold (\<lambda>i mm. if bv i \<and> use_arfcn arfcn2band bts bis ter pgsm i
                                then minmax_step i mm else mm) [0..nbits - 1] (- 1, - 1)
             in if max_a = - 1 then Some (0, chan_list[0 := 0])
                else if (max_a - min_a) AND 1023 \<le> 111 then
                  enc_freq_lst_var_bitmap arfcn2band chan_list bv nbits bts bis ter min_a pgsm
                else
                  (case enc_freq_lst_range arfcn2band arfcns0 f0_init chan_list bv nbits bts bis ter pgsm of
                     None \<Rightarrow> None
                   | Some (rc, chan_list) \<Rightarrow>
                     if 0 \<le> rc then Some (0, chan_list) else Some (- EINVAL, chan_list)))"

end
