(* ===== verification/Circular.thy ===== *)
theory Circular
  imports Main
begin

text \<open>
  Points on a circle of odd length \<open>R = 2 * m + 1\<close>: in every finite set of points there is one that
  has exactly half of the others (rounded down) in the half circle ahead of it. The range
  encoding splits its values at such a point.
\<close>

section \<open>Distances ahead\<close>

definition ahead :: "int \<Rightarrow> int \<Rightarrow> int \<Rightarrow> int" where
  "ahead R x y = (y - x) mod R"

definition half_ahead :: "int \<Rightarrow> int set \<Rightarrow> int \<Rightarrow> int set" where
  "half_ahead m S x = {y \<in> S. y \<noteq> x \<and> ahead (2 * m + 1) x y \<le> m}"

lemma ahead_nonneg: "0 < R \<Longrightarrow> 0 \<le> ahead R x y" and ahead_less: "0 < R \<Longrightarrow> ahead R x y < R"
  by (simp_all add: ahead_def)

lemma ahead_eq_0:
  assumes "x \<in> {0..<R}" "y \<in> {0..<R}"
  shows "ahead R x y = 0 \<longleftrightarrow> x = y"
proof
  assume "ahead R x y = 0"
  then have "R dvd y - x" by (simp add: ahead_def dvd_eq_mod_eq_0)
  then have "x mod R = y mod R" by (simp add: mod_eq_dvd_iff dvd_diff_commute)
  then show "x = y" using assms by simp
qed (simp add: ahead_def)

lemma ahead_pos: "x \<in> {0..<R} \<Longrightarrow> y \<in> {0..<R} \<Longrightarrow> x \<noteq> y \<Longrightarrow> 0 < ahead R x y"
  using ahead_eq_0 [of x R y] ahead_nonneg [of R x y] by fastforce

lemma ahead_swap:
  assumes "x \<in> {0..<R}" "y \<in> {0..<R}" "x \<noteq> y"
  shows "ahead R y x = R - ahead R x y"
proof -
  have "(x - y) mod R = (if (y - x) mod R = 0 then 0 else R - (y - x) mod R)"
    using zmod_zminus1_eq_if [of "y - x" R] by simp
  then show ?thesis
    using ahead_pos [OF assms] by (simp add: ahead_def)
qed

lemma ahead_diff:
  assumes "0 < R" "ahead R x y \<le> ahead R x z"
  shows "ahead R y z = ahead R x z - ahead R x y"
proof -
  have "ahead R y z = (ahead R x z - ahead R x y) mod R"
    by (simp add: ahead_def mod_diff_eq)
  also have "\<dots> = ahead R x z - ahead R x y"
    using assms ahead_less [of R x z] ahead_nonneg [of R x y] by simp
  finally show ?thesis .
qed

section \<open>The half-circle relation is a tournament\<close>

lemma half_ahead_total:
  assumes "x \<in> {0..<2*m+1}" "y \<in> {0..<2*m+1}" "x \<noteq> y"
  shows "ahead (2*m+1) y x \<le> m \<longleftrightarrow> \<not> ahead (2*m+1) x y \<le> m"
  using ahead_swap [OF assms] by linarith

lemma half_ahead_finite [simp]: "finite S \<Longrightarrow> finite (half_ahead m S x)"
  by (simp add: half_ahead_def)

lemma sum_half_ahead:
  assumes fin: "finite S" and S: "S \<subseteq> {0..<2*m+1}"
  shows "2 * (\<Sum>x\<in>S. card (half_ahead m S x)) = card S * (card S - 1)"
proof -
  let ?P = "{(x, y). x \<in> S \<and> y \<in> half_ahead m S x}"
  let ?Q = "{(x, y). x \<in> S \<and> y \<in> S \<and> x \<noteq> y}"
  have P: "?P = Sigma S (half_ahead m S)" by auto
  have finP: "finite ?P" unfolding P using fin by (intro finite_SigmaI) auto
  have tot: "ahead (2*m+1) y x \<le> m \<longleftrightarrow> \<not> ahead (2*m+1) x y \<le> m"
    if "x \<in> S" "y \<in> S" "x \<noteq> y" for x y
    using half_ahead_total [of x m y] that S by blast
  have Q: "?Q = ?P \<union> prod.swap ` ?P"
    by (auto simp: half_ahead_def image_iff) (use tot in blast)+
  have disj: "?P \<inter> prod.swap ` ?P = {}"
    by (auto simp: half_ahead_def) (use tot in blast)+
  have "card ?P = (\<Sum>x\<in>S. card (half_ahead m S x))"
    unfolding P using fin by (subst card_SigmaI) auto
  moreover have "card (prod.swap ` ?P) = card ?P"
    by (rule card_image) (auto intro: inj_onI)
  moreover have "card ?Q = card ?P + card (prod.swap ` ?P)"
    unfolding Q using disj finP by (simp add: card_Un_disjoint)
  moreover have "card ?Q = card S * (card S - 1)"
  proof -
    have "?Q = Sigma S (\<lambda>x. S - {x})" by auto
    then show ?thesis using fin by (simp add: card_SigmaI)
  qed
  ultimately show ?thesis by simp
qed

section \<open>A balanced split point exists\<close>

text \<open>The next point of \<open>S\<close> ahead of \<open>x\<close> loses at most itself from the half circle.\<close>

lemma next_point_half:
  assumes fin: "finite S" and S: "S \<subseteq> {0..<2*m+1}" and x: "x \<in> S" and y: "y \<in> S" "y \<noteq> x"
    and nearest: "\<And>z. z \<in> S \<Longrightarrow> z \<noteq> x \<Longrightarrow> ahead (2*m+1) x y \<le> ahead (2*m+1) x z"
  shows "card (half_ahead m S x) \<le> card (half_ahead m S y) + 1"
proof -
  let ?R = "2 * m + 1"
  have R: "0 < ?R" using S x by auto
  have pos: "0 < ahead ?R x y" using S x y by (intro ahead_pos) auto
  have "half_ahead m S x \<subseteq> insert y (half_ahead m S y)"
  proof
    fix z assume z: "z \<in> half_ahead m S x"
    then have zS: "z \<in> S" "z \<noteq> x" "ahead ?R x z \<le> m" by (auto simp: half_ahead_def)
    from ahead_diff [OF R nearest [OF zS(1,2)]] pos zS(3) have "ahead ?R y z \<le> m" by linarith
    with zS(1) show "z \<in> insert y (half_ahead m S y)" by (auto simp: half_ahead_def)
  qed
  then have "card (half_ahead m S x) \<le> card (insert y (half_ahead m S y))"
    using fin by (intro card_mono) auto
  also have "\<dots> \<le> card (half_ahead m S y) + 1"
    using fin by (simp add: card_insert_if)
  finally show ?thesis .
qed

lemma nearest_exists:
  assumes "finite S" "x \<in> S" "\<exists>y\<in>S. y \<noteq> x"
  obtains y where "y \<in> S" "y \<noteq> x" "\<And>z. z \<in> S \<Longrightarrow> z \<noteq> x \<Longrightarrow> ahead R x y \<le> ahead R x z"
proof -
  have "finite (S - {x})" "S - {x} \<noteq> {}" using assms by auto
  then obtain y where "is_arg_min (ahead R x) (\<lambda>y. y \<in> S - {x}) y"
    using ex_is_arg_min_if_finite by blast
  then show ?thesis using that by (auto simp: is_arg_min_linorder)
qed

text \<open>If no point has exactly \<open>k\<close> points ahead, the points with more than \<open>k\<close> are closed under
  going to the next point, so they are all points.\<close>

lemma no_crossing:
  assumes fin: "finite S" and S: "S \<subseteq> {0..<2*m+1}"
    and none: "\<And>x. x \<in> S \<Longrightarrow> card (half_ahead m S x) \<noteq> k"
    and h: "h \<in> S" "k < card (half_ahead m S h)"
  shows "\<forall>l\<in>S. k < card (half_ahead m S l)"
proof (rule ccontr)
  let ?R = "2 * m + 1"
  assume "\<not> (\<forall>l\<in>S. k < card (half_ahead m S l))"
  then obtain l0 where l0: "l0 \<in> S" "card (half_ahead m S l0) < k"
    using none by force
  define D where "D = {nat (ahead ?R x l) | x l. x \<in> S \<and> l \<in> S
      \<and> k < card (half_ahead m S x) \<and> card (half_ahead m S l) < k}"
  have R: "0 < ?R" using S h by auto
  have "D \<noteq> {}" using h l0 by (auto simp: D_def)
  then have "(LEAST d. d \<in> D) \<in> D" by (metis LeastI ex_in_conv)
  then obtain x l where xl: "x \<in> S" "l \<in> S" "k < card (half_ahead m S x)"
      "card (half_ahead m S l) < k" and least: "nat (ahead ?R x l) = (LEAST d. d \<in> D)"
    by (auto simp: D_def)
  have "l \<noteq> x" using xl by auto
  then obtain y where y: "y \<in> S" "y \<noteq> x"
      and near: "\<And>z. z \<in> S \<Longrightarrow> z \<noteq> x \<Longrightarrow> ahead ?R x y \<le> ahead ?R x z"
    using nearest_exists [OF fin xl(1)] xl(2) by metis
  have "k \<le> card (half_ahead m S y)"
    using next_point_half [OF fin S xl(1) y near] xl(3) by linarith
  then have ky: "k < card (half_ahead m S y)" using none [OF y(1)] by linarith
  have d: "ahead ?R y l = ahead ?R x l - ahead ?R x y"
    using ahead_diff [OF R near [OF xl(2) \<open>l \<noteq> x\<close>]] .
  have "0 < ahead ?R x y" using S xl y by (intro ahead_pos) auto
  then have "nat (ahead ?R y l) < nat (ahead ?R x l)"
    using d ahead_nonneg [OF R, of y l] by linarith
  moreover have "nat (ahead ?R y l) \<in> D" using xl y ky by (auto simp: D_def)
  ultimately show False using least not_less_Least by metis
qed

theorem balanced_point_exists:
  assumes fin: "finite S" and S: "S \<subseteq> {0..<2*m+1}" and ne: "S \<noteq> {}"
  shows "\<exists>x\<in>S. card (half_ahead m S x) = (card S - 1) div 2"
proof (rule ccontr)
  define k where "k = (card S - 1) div 2"
  let ?c = "\<lambda>x. card (half_ahead m S x)"
  assume "\<not> ?thesis"
  then have none: "\<And>x. x \<in> S \<Longrightarrow> ?c x \<noteq> k" by (auto simp: k_def)
  have card: "0 < card S" using fin ne by (simp add: card_gt_0_iff)
  have sum2: "2 * sum ?c S = card S * (card S - 1)" by (rule sum_half_ahead [OF fin S])
  have k: "2 * k \<le> card S - 1" "card S \<le> 2 * (k + 1)" by (auto simp: k_def)
  show False
  proof (cases "\<exists>h\<in>S. k < ?c h")
    case True
    then obtain h where h: "h \<in> S" "k < ?c h" by blast
    have "k + 1 \<le> ?c l" if "l \<in> S" for l
      using no_crossing [OF fin S none h] that by (simp add: Suc_le_eq)
    then have "card S * (k + 1) \<le> sum ?c S"
      using sum_bounded_below [of S "k + 1" ?c] by simp
    moreover have "card S * card S \<le> card S * (2 * (k + 1))"
      using k(2) by (rule mult_le_mono2)
    ultimately have "card S * card S \<le> card S * (card S - 1)"
      using sum2 by (simp add: algebra_simps)
    then show False using card by simp
  next
    case False
    have low: "?c l < k" if "l \<in> S" for l
      using False none [OF that] that linorder_neqE_nat by blast
    obtain l where "l \<in> S" using ne by blast
    from low [OF this] have kpos: "0 < k" by simp
    have "?c l \<le> k - 1" if "l \<in> S" for l using low [OF that] by linarith
    then have "sum ?c S \<le> card S * (k - 1)"
      using sum_bounded_above [of S ?c "k - 1"] by simp
    then have "2 * sum ?c S \<le> card S * (2 * (k - 1))" by simp
    also have "\<dots> < card S * (card S - 1)"
      using card k(1) kpos by simp
    finally show False using sum2 by simp
  qed
qed

end
