(* ===== verification/Arfcn_Range_Proof.thy ===== *)
theory Arfcn_Range_Proof
  imports Arfcn_Range Circular
begin

unbundle bit_operations_syntax

text \<open>
  Correctness of the range encoding: a split point always exists, the encoder stays inside its
  arrays, each W value fits the bits of its tree level, the bit writer puts exactly the W values at
  their place, and a decoder after 3GPP TS 44.018 annex J recovers the frequencies.
\<close>

section \<open>The helpers compute what their names say\<close>

lemma mod_c_eq [simp]: "0 < r \<Longrightarrow> mod_c a r = a mod r"
proof -
  assume r: "0 < r"
  have b: "- r < a smod r"
    using smod_int_range [of r a] r by auto
  have "mod_c a r = (if a smod r < 0 then a smod r + r else a smod r)"
    using b by (simp add: mod_c_def while_unfold)
  then show ?thesis using smod_add_range [OF r] by simp
qed

lemma gp2_while:
  assumes "2 ^ k \<le> idx" "idx < 2 ^ Suc k"
  shows "j \<le> Suc k \<Longrightarrow> while (\<lambda>p. p \<le> idx) (\<lambda>p. p * 2) ((2::int) ^ j) = 2 ^ Suc k"
proof (induction "Suc k - j" arbitrary: j)
  case 0
  then have "j = Suc k" by simp
  then show ?case using assms by (simp add: while_unfold)
next
  case (Suc d)
  then have j: "j \<le> k" by simp
  have "(2::int) ^ j \<le> 2 ^ k" using j by (intro power_increasing) auto
  then have le: "(2::int) ^ j \<le> idx" using assms by linarith
  have "while (\<lambda>p. p \<le> idx) (\<lambda>p. p * 2) ((2::int) ^ j) = while (\<lambda>p. p \<le> idx) (\<lambda>p. p * 2) (2 ^ Suc j)"
    using le by (subst while_unfold) (simp add: mult.commute)
  also have "\<dots> = 2 ^ Suc k" using Suc by (intro Suc.hyps(1)) auto
  finally show ?case .
qed

lemma greatest_power_of_2_eq:
  assumes "2 ^ k \<le> idx" "idx < 2 ^ Suc k"
  shows "greatest_power_of_2_lesser_or_equal_to idx = 2 ^ k"
  using gp2_while [OF assms, of 1] by (simp add: greatest_power_of_2_lesser_or_equal_to_def)

lemma find_index_from_some:
  assumes "\<exists>i\<in>set is. int (length (filter (\<lambda>fj. mod_c (fj - freqs ! i) rng \<le> (rng - 1) sdiv 2) freqs)) - 1
      = (int (length freqs) - 1) sdiv 2"
  shows "\<exists>i\<in>set is. find_index_from rng freqs is = int i \<and>
     int (length (filter (\<lambda>fj. mod_c (fj - freqs ! i) rng \<le> (rng - 1) sdiv 2) freqs)) - 1
      = (int (length freqs) - 1) sdiv 2"
  using assms by (induction "is") (auto simp: fold_count)

lemma count_half_ahead:
  assumes "distinct xs" "set xs \<subseteq> {0..<2*m+1}" "p \<in> set xs"
  shows "length (filter (\<lambda>x. mod_c (x - p) (2*m+1) \<le> m) xs) = Suc (card (half_ahead m (set xs) p))"
proof -
  have R: "0 < 2*m+1" "0 \<le> m" using assms(2,3) by auto
  have "{x \<in> set xs. (x - p) mod (2*m+1) \<le> m} = insert p (half_ahead m (set xs) p)"
    using assms(3) R by (auto simp: half_ahead_def ahead_def)
  moreover have "p \<notin> half_ahead m (set xs) p" by (simp add: half_ahead_def)
  ultimately show ?thesis
    using length_filter_card [OF assms(1), of "\<lambda>x. (x - p) mod (2*m+1) \<le> m"] R by simp
qed

text \<open>The split index always exists for distinct values inside an odd range.\<close>

lemma range_enc_find_index_exists:
  assumes "distinct xs" "set xs \<subseteq> {0..<2*m+1}" "xs \<noteq> []"
  shows "\<exists>i<length xs. range_enc_find_index (2*m+1) xs = int i
     \<and> card (half_ahead m (set xs) (xs ! i)) = (length xs - 1) div 2"
proof -
  have m: "0 \<le> m" using assms(2,3) by (cases xs) auto
  have len: "(int (length xs) - 1) sdiv 2 = int ((length xs - 1) div 2)"
    using assms(3) by (cases xs) (simp_all add: zdiv_int)
  have cnt: "int (length (filter (\<lambda>fj. mod_c (fj - xs ! i) (2*m+1) \<le> (2*m+1 - 1) sdiv 2) xs)) - 1
      = int (card (half_ahead m (set xs) (xs ! i)))" if "i < length xs" for i
    using count_half_ahead [OF assms(1,2), of "xs ! i"] that m by simp
  obtain x where "x \<in> set xs" "card (half_ahead m (set xs) x) = (length xs - 1) div 2"
    using balanced_point_exists [of "set xs" m] assms by (auto simp: distinct_card)
  then obtain i where "i < length xs" "card (half_ahead m (set xs) (xs ! i)) = (length xs - 1) div 2"
    by (auto simp: in_set_conv_nth)
  then have "\<exists>i\<in>set [0..<length xs].
     int (length (filter (\<lambda>fj. mod_c (fj - xs ! i) (2*m+1) \<le> (2*m+1 - 1) sdiv 2) xs)) - 1
      = (int (length xs) - 1) sdiv 2"
    using cnt len by auto
  from find_index_from_some [OF this] cnt len show ?thesis
    unfolding range_enc_find_index_def by auto
qed

lemma split_arfcns_eq:
  assumes "length l + length (filter (\<lambda>x. mod_c (x - lo) rng < rng sdiv 2) xs) \<le> cap"
    and "length r + length (filter (\<lambda>x. mod_c (x - ro) rng < rng sdiv 2) xs) \<le> cap"
  shows "split_arfcns rng lo ro cap xs l r =
     Some (l @ map (\<lambda>x. mod_c (x - lo) rng) (filter (\<lambda>x. mod_c (x - lo) rng < rng sdiv 2) xs),
           r @ map (\<lambda>x. mod_c (x - ro) rng) (filter (\<lambda>x. mod_c (x - ro) rng < rng sdiv 2) xs))"
  using assms by (induction xs arbitrary: l r) (auto simp: Let_def)

lemma right_value:
  assumes "0 \<le> m"
  shows "(x - (p + 1) mod (2*m+1)) mod (2*m+1)
    = (if ahead (2*m+1) p x = 0 then 2*m else ahead (2*m+1) p x - 1)"
proof -
  let ?R = "2*m+1" and ?a = "ahead (2*m+1) p x"
  have "(x - (p + 1) mod ?R) mod ?R = (?a - 1) mod ?R"
    by (simp add: ahead_def mod_simps algebra_simps)
  also have "\<dots> = (if ?a = 0 then 2*m else ?a - 1)"
    using ahead_nonneg [of ?R p x] ahead_less [of ?R p x] assms by (auto simp: zmod_minus1)
  finally show ?thesis .
qed

lemma left_value:
  assumes "0 \<le> m"
  shows "(x - (p + m + 1) mod (2*m+1)) mod (2*m+1)
    = (if ahead (2*m+1) p x \<le> m then ahead (2*m+1) p x + m else ahead (2*m+1) p x - (m + 1))"
proof -
  let ?R = "2*m+1" and ?a = "ahead (2*m+1) p x"
  have a: "0 \<le> ?a" "?a < ?R" using ahead_nonneg [of ?R p x] ahead_less [of ?R p x] assms by auto
  have "(x - (p + m + 1) mod ?R) mod ?R = (?a - (m + 1)) mod ?R"
    by (simp add: ahead_def mod_simps algebra_simps)
  also have "\<dots> = (if ?a \<le> m then ?a + m else ?a - (m + 1))"
  proof (cases "?a \<le> m")
    case True
    have "?a + m = (?a - (m + 1)) + ?R" by simp
    then have "(?a - (m + 1)) mod ?R = (?a + m) mod ?R" by (simp only: mod_add_self2)
    then show ?thesis using True a by simp
  next
    case False
    then show ?thesis using a by simp
  qed
  finally show ?thesis .
qed

lemma ahead_back: "p \<in> {0..<R} \<Longrightarrow> x \<in> {0..<R} \<Longrightarrow> (ahead R p x + p) mod R = x"
  by (simp add: ahead_def mod_simps)

text \<open>The two halves around a balanced pivot: they fit their arrays, are again distinct values of
  the halved range, and give bk the values they came from.\<close>

lemma split_balanced:
  fixes m :: int
  defines "R \<equiv> 2*m+1"
  assumes xs: "distinct xs" "set xs \<subseteq> {0..<R}" "p \<in> set xs"
    and bal: "card (half_ahead m (set xs) p) = (length xs - 1) div 2"
  shows "\<exists>l r. split_arfcns R (mod_c (p + (R - 1) sdiv 2 + 1) R) (mod_c (p + 1) R)
           (length xs div 2) xs [] [] = Some (l, r)
     \<and> length l = length xs div 2 \<and> length r = (length xs - 1) div 2
     \<and> distinct l \<and> distinct r \<and> set l \<subseteq> {0..<m} \<and> set r \<subseteq> {0..<m}
     \<and> set xs = {p} \<union> (\<lambda>x. (x + p + (m + 1)) mod R) ` set l \<union> (\<lambda>x. (x + p + 1) mod R) ` set r"
proof -
  let ?a = "ahead R p"
  have m: "0 \<le> m" using xs by (auto simp: R_def)
  have R: "0 < R" using m by (simp add: R_def)
  have half: "R sdiv 2 = m" "(R - 1) sdiv 2 = m" using m by (auto simp: R_def)
  have a0: "?a x = 0 \<longleftrightarrow> x = p" if "x \<in> set xs" for x
    using ahead_eq_0 [OF subsetD [OF xs(2) xs(3)] subsetD [OF xs(2) that]] by auto
  have ap: "?a p = 0" by (simp add: ahead_def)
  have ab: "0 \<le> ?a x" "?a x \<le> 2*m" for x
    using ahead_nonneg [OF R] ahead_less [OF R, of p x] by (auto simp: R_def)
  define fl where "fl = filter (\<lambda>x. m < ?a x) xs"
  define fr where "fr = filter (\<lambda>x. x \<noteq> p \<and> ?a x \<le> m) xs"
  have lv: "mod_c (x - mod_c (p + (R - 1) sdiv 2 + 1) R) R
      = (if ?a x \<le> m then ?a x + m else ?a x - (m + 1))" for x
    using left_value [OF m, of x p] R half by (simp add: R_def)
  have rv: "mod_c (x - mod_c (p + 1) R) R = (if ?a x = 0 then 2*m else ?a x - 1)" for x
    using right_value [OF m, of x p] R by (simp add: R_def)
  have "mod_c (x - mod_c (p + (R - 1) sdiv 2 + 1) R) R < R sdiv 2 \<longleftrightarrow> m < ?a x" for x
    unfolding lv half(1) using ab(1) [of x] ab(2) [of x] by auto
  then have fl_eq: "filter (\<lambda>x. mod_c (x - mod_c (p + (R - 1) sdiv 2 + 1) R) R < R sdiv 2) xs = fl"
    by (simp add: fl_def)
  have "mod_c (x - mod_c (p + 1) R) R < R sdiv 2 \<longleftrightarrow> x \<noteq> p \<and> ?a x \<le> m" if "x \<in> set xs" for x
    unfolding rv half(1) using a0 [OF that] m by auto
  then have fr_eq: "filter (\<lambda>x. mod_c (x - mod_c (p + 1) R) R < R sdiv 2) xs = fr"
    unfolding fr_def by (intro filter_cong) auto
  have cr: "length fr = (length xs - 1) div 2"
    using bal length_filter_card [OF xs(1), of "\<lambda>x. x \<noteq> p \<and> ?a x \<le> m"]
    by (simp add: fr_def half_ahead_def R_def)
  have part: "set fl = set xs - insert p (set fr)" "set fr \<subseteq> set xs - {p}"
    using m ap by (auto simp: fl_def fr_def)
  have dist: "distinct fl" "distinct fr" using xs by (auto simp: fl_def fr_def)
  have "card (set xs - insert p (set fr)) = card (set xs) - card (insert p (set fr))"
    using part(2) xs(3) by (intro card_Diff_subset) auto
  also have "card (insert p (set fr)) = Suc (card (set fr))"
    using part(2) by (subst card_insert_disjoint) auto
  finally have "length fl = length xs - Suc (length fr)"
    using part(1) distinct_card [OF dist(1)] distinct_card [OF dist(2)] distinct_card [OF xs(1)]
    by simp
  with cr have cl: "length fl = length xs div 2" using xs(3) by (cases xs) auto
  let ?l = "map (\<lambda>x. ?a x - (m + 1)) fl" and ?r = "map (\<lambda>x. ?a x - 1) fr"
  have inj: "inj_on ?a (set xs)"
    by (rule inj_onI) (metis ahead_back subsetD xs(2) xs(3))
  have "split_arfcns R (mod_c (p + (R - 1) sdiv 2 + 1) R) (mod_c (p + 1) R)
           (length xs div 2) xs [] [] = Some (?l, ?r)"
  proof -
    have "map (\<lambda>x. mod_c (x - mod_c (p + (R - 1) sdiv 2 + 1) R) R) fl = ?l"
      by (simp add: lv fl_def)
    moreover have "map (\<lambda>x. mod_c (x - mod_c (p + 1) R) R) fr = ?r"
      using a0 by (auto simp: rv fr_def)
    ultimately show ?thesis
      using split_arfcns_eq [of "[]" "mod_c (p + (R - 1) sdiv 2 + 1) R" R xs "length xs div 2" "[]"
          "mod_c (p + 1) R"] cl cr by (simp add: fl_eq fr_eq)
  qed
  moreover have "length ?l = length xs div 2" "length ?r = (length xs - 1) div 2"
    using cl cr by simp_all
  moreover have "distinct ?l" "distinct ?r"
    using dist inj_on_subset [OF inj, of "set fl"] inj_on_subset [OF inj, of "set fr"] part
    by (auto simp: distinct_map inj_on_def)
  moreover have "set ?l \<subseteq> {0..<m}" 
  proof -
    have "?a x - (m + 1) \<in> {0..<m}" if "m < ?a x" for x using that ab(2) [of x] by auto
    then show ?thesis by (auto simp: fl_def)
  qed
  moreover have "set ?r \<subseteq> {0..<m}" 
  proof -
    have "?a x - 1 \<in> {0..<m}" if "x \<in> set xs" "x \<noteq> p" "?a x \<le> m" for x
      using that a0 [OF that(1)] ab(1) [of x] by auto
    then show ?thesis by (auto simp: fr_def)
  qed
  moreover have "set xs = {p} \<union> (\<lambda>x. (x + p + (m + 1)) mod R) ` set ?l \<union> (\<lambda>x. (x + p + 1) mod R) ` set ?r"
  proof -
    have bk: "(?a x + p) mod R = x" if "x \<in> set xs" for x
      by (rule ahead_back [OF subsetD [OF xs(2) xs(3)] subsetD [OF xs(2) that]])
    have "(\<lambda>x. (x + p + (m + 1)) mod R) ` set ?l = set fl"
      using bk part(1) by (force simp: image_image algebra_simps)
    moreover have "(\<lambda>x. (x + p + 1) mod R) ` set ?r = set fr"
      using bk part(2) by (force simp: image_image algebra_simps)
    ultimately show ?thesis using part xs(3) by auto
  qed
  ultimately show ?thesis by blast
qed

section \<open>Decoding\<close>

text \<open>The inverse of the encoding, after 3GPP TS 44.018 annex J: the value at tree position \<open>i\<close> of
  level \<open>k\<close> splits a range of \<open>2 ^ n - 1\<close>; the subtrees hold the values behind and ahead of it.\<close>

fun range_dec :: "nat \<Rightarrow> int list \<Rightarrow> nat \<Rightarrow> nat \<Rightarrow> int list" where
  "range_dec 0 w k i = []"
| "range_dec (Suc n) w k i =
     (if length w \<le> i \<or> w ! i = 0 then []
      else
        let p = w ! i - 1; R = 2 ^ Suc n - 1
        in p # map (\<lambda>x. (x + p + 2 ^ n) mod R) (range_dec n w (k + 1) (i + 2 ^ k))
             @ map (\<lambda>x. (x + p + 1) mod R) (range_dec n w (k + 1) (i + 2 * 2 ^ k)))"

text \<open>The tree positions below \<open>i\<close> (at level \<open>k\<close>) are those at a multiple of \<open>2 ^ k\<close> from it.\<close>

definition subtree :: "nat \<Rightarrow> nat \<Rightarrow> nat \<Rightarrow> nat set" where
  "subtree k i s = {i + j * 2 ^ k | j. j < s}"

lemma subtree_0 [simp]: "subtree k i 0 = {}" by (simp add: subtree_def)

lemma subtree_root: "0 < s \<Longrightarrow> i \<in> subtree k i s"
  by (auto simp: subtree_def intro!: exI [of _ 0])

lemma subtree_left: "q \<in> subtree (Suc k) (i + 2 ^ k) s \<Longrightarrow> s \<le> t div 2 \<Longrightarrow> q \<in> subtree k i t"
proof -
  assume q: "q \<in> subtree (Suc k) (i + 2 ^ k) s" and "s \<le> t div 2"
  then obtain j where "q = i + 2 ^ k + j * 2 ^ Suc k" "j < t div 2" by (auto simp: subtree_def)
  then have "q = i + (2 * j + 1) * 2 ^ k" "2 * j + 1 < t" by (auto simp: algebra_simps)
  then show ?thesis unfolding subtree_def by blast
qed

lemma subtree_right:
  "q \<in> subtree (Suc k) (i + 2 * 2 ^ k) s \<Longrightarrow> s \<le> (t - 1) div 2 \<Longrightarrow> q \<in> subtree k i t"
proof -
  assume q: "q \<in> subtree (Suc k) (i + 2 * 2 ^ k) s" and "s \<le> (t - 1) div 2"
  then obtain j where "q = i + 2 * 2 ^ k + j * 2 ^ Suc k" "j < (t - 1) div 2"
    by (auto simp: subtree_def)
  then have "q = i + (2 * j + 2) * 2 ^ k" "2 * j + 2 < t" by (auto simp: algebra_simps)
  then show ?thesis unfolding subtree_def by blast
qed

lemma subtree_disjoint:
  "subtree (Suc k) (i + 2 ^ k) s \<inter> subtree (Suc k) (i + 2 * 2 ^ k) t = {}"
proof -
  have False if "i + 2 ^ k + j * 2 ^ Suc k = i + 2 * 2 ^ k + j' * (2::nat) ^ Suc k" for j j'
  proof -
    from that have "(1 + 2 * j) * 2 ^ k = (2 + 2 * j') * (2::nat) ^ k" by (simp add: algebra_simps)
    then have "1 + 2 * j = 2 + 2 * j' \<or> (2::nat) ^ k = 0" by (simp only: mult_cancel2)
    then have "1 + 2 * j = 2 + 2 * j'" by simp
    then show False by presburger
  qed
  then show ?thesis by (fastforce simp: subtree_def)
qed

lemma subtree_root_notin:
  "i \<notin> subtree (Suc k) (i + 2 ^ k) s" "i \<notin> subtree (Suc k) (i + 2 * 2 ^ k) s"
  by (auto simp: subtree_def)

lemma subtree_cases:
  assumes "q \<in> subtree k i s"
  obtains "q = i" | "q \<in> subtree (Suc k) (i + 2 ^ k) (s div 2)"
    | "q \<in> subtree (Suc k) (i + 2 * 2 ^ k) ((s - 1) div 2)"
proof -
  from assms obtain j where j: "q = i + j * 2 ^ k" "j < s" by (auto simp: subtree_def)
  consider "j = 0" | c where "j = 2 * c + 1" | c where "j = 2 * c + 2"
    by (metis add.commute add_cancel_right_right even_Suc oddE evenE not0_implies_Suc
        add_2_eq_Suc' Suc_eq_plus1 mult_Suc_right one_add_one)
  then show ?thesis
  proof cases
    case 1
    then show ?thesis using j that(1) by simp
  next
    case 2
    then have "q = i + 2 ^ k + c * 2 ^ Suc k" "c < s div 2" using j by (auto simp: algebra_simps)
    then show ?thesis using that(2) by (auto simp: subtree_def)
  next
    case 3
    then have "q = i + 2 * 2 ^ k + c * 2 ^ Suc k" "c < (s - 1) div 2"
      using j by (auto simp: algebra_simps)
    then show ?thesis using that(3) by (auto simp: subtree_def)
  qed
qed

lemma range_dec_cong:
  "length w = length w' \<Longrightarrow> (\<And>s q. q \<in> subtree k i s \<Longrightarrow> q < length w \<Longrightarrow> w ! q = w' ! q)
   \<Longrightarrow> range_dec n w k i = range_dec n w' k i"
proof (induction n arbitrary: k i)
  case 0
  then show ?case by simp
next
  case (Suc n)
  have l: "range_dec n w (Suc k) (i + 2 ^ k) = range_dec n w' (Suc k) (i + 2 ^ k)"
    using Suc.prems subtree_left [of _ k i _ "2 * _"] by (intro Suc.IH) (auto, blast)
  have r: "range_dec n w (Suc k) (i + 2 * 2 ^ k) = range_dec n w' (Suc k) (i + 2 * 2 ^ k)"
    using Suc.prems subtree_right [of _ k i _ "2 * _ + 1"] by (intro Suc.IH) (auto, blast)
  have "i < length w \<Longrightarrow> w ! i = w' ! i"
    using Suc.prems(2) [of i 1] subtree_root by auto
  then show ?case using l r Suc.prems(1) by (auto simp: Let_def)
qed

text \<open>What one call of the encoder establishes for its subtree of \<open>out\<close>.\<close>

definition enc_ok :: "nat \<Rightarrow> int list \<Rightarrow> int list \<Rightarrow> nat \<Rightarrow> nat \<Rightarrow> int list \<Rightarrow> bool" where
  "enc_ok n xs out k i out' \<longleftrightarrow>
     length out' = length out
   \<and> (\<forall>q < length out. q \<notin> subtree k i (length xs) \<longrightarrow> out' ! q = out ! q)
   \<and> (\<forall>q \<in> subtree k i (length xs). \<forall>L. 2 ^ L \<le> q + 1 \<and> q + 1 < 2 ^ Suc L \<longrightarrow>
        0 < out' ! q \<and> out' ! q < 2 ^ (n + k - L))
   \<and> set (range_dec n out' k i) = set xs"

lemma level_unique:
  assumes "(2::nat) ^ k \<le> q" "q < 2 ^ Suc k" "2 ^ L \<le> q" "q < 2 ^ Suc L"
  shows "L = k"
proof (rule ccontr)
  assume "L \<noteq> k"
  then have "Suc k \<le> L \<or> Suc L \<le> k" by linarith
  then have "(2::nat) ^ Suc k \<le> 2 ^ L \<or> (2::nat) ^ Suc L \<le> 2 ^ k"
    by (meson one_le_numeral power_increasing)
  with assms show False by linarith
qed

lemma range_dec_absent: "length w \<le> i \<or> w ! i = 0 \<Longrightarrow> range_dec n w k i = []"
  by (cases n) auto

lemma enc_ok_empty: "length out \<le> i \<or> out ! i = 0 \<Longrightarrow> enc_ok n [] out k i out"
  by (simp add: enc_ok_def range_dec_absent)

lemma enc_ok_single:
  assumes i: "i < length out" "2 ^ k \<le> i + 1" "i + 1 < 2 ^ Suc k"
    and zero: "\<And>s q. q \<in> subtree k i s \<Longrightarrow> q < length out \<Longrightarrow> out ! q = 0"
    and x: "0 \<le> x" "x < 2 ^ Suc n - 1"
  shows "enc_ok (Suc n) [x] out k i (out[i := 1 + x])"
proof -
  let ?out = "out[i := 1 + x]"
  have off: "length ?out \<le> j \<or> ?out ! j = 0" if j: "j \<noteq> i" "j \<in> subtree k i s" for j s
  proof (cases "j < length out")
    case True
    then show ?thesis using zero j by simp
  next
    case False
    then show ?thesis by simp
  qed
  have sub: "i + 2 ^ k \<in> subtree k i 2" "i + 2 * 2 ^ k \<in> subtree k i 3"
    by (auto simp: subtree_def)
  have "range_dec n ?out (k + 1) (i + 2 ^ k) = []" "range_dec n ?out (k + 1) (i + 2 * 2 ^ k) = []"
    by (rule range_dec_absent, rule off [OF _ sub(1)], simp)
      (rule range_dec_absent, rule off [OF _ sub(2)], simp)
  then have dec: "set (range_dec (Suc n) ?out k i) = {x}"
    using i x by (simp add: Let_def)
  have sub1: "subtree k i (length [x]) = {i}" by (auto simp: subtree_def)
  have val: "0 < ?out ! i \<and> ?out ! i < 2 ^ (Suc n + k - L)"
    if L: "2 ^ L \<le> i + 1 \<and> i + 1 < 2 ^ Suc L" for L
  proof -
    have "L = k" using level_unique [OF i(2,3)] L by blast
    then show ?thesis using i(1) x by simp
  qed
  show ?thesis
    unfolding enc_ok_def sub1 using val dec by (simp del: range_dec.simps)
qed

text \<open>Putting a node together with its two subtrees.\<close>

lemma enc_ok_node:
  fixes m :: int
  assumes i: "i < length out" "2 ^ k \<le> i + 1" "i + 1 < 2 ^ Suc k"
    and inb: "\<And>q. q \<in> subtree k i (length xs) \<Longrightarrow> q < length out"
    and p: "0 \<le> p" "p < 2 ^ Suc n - 1"
    and o1: "out1 = out[i := 1 + p]"
    and l: "enc_ok n l out1 (Suc k) (i + 2 ^ k) out2"
    and r: "enc_ok n r out2 (Suc k) (i + 2 * 2 ^ k) out3"
    and len: "length l = length xs div 2" "length r = (length xs - 1) div 2" "xs \<noteq> []"
    and xs: "set xs = {p} \<union> (\<lambda>x. (x + p + 2 ^ n) mod (2 ^ Suc n - 1)) ` set l
        \<union> (\<lambda>x. (x + p + 1) mod (2 ^ Suc n - 1)) ` set r"
  shows "enc_ok (Suc n) xs out k i out3"
proof -
  let ?L = "subtree (Suc k) (i + 2 ^ k)" and ?Rt = "subtree (Suc k) (i + 2 * 2 ^ k)"
  have lens: "length out2 = length out" "length out3 = length out"
    using l r o1 by (auto simp: enc_ok_def)
  have f2: "out2 ! q = out1 ! q" if "q < length out" "q \<notin> ?L (length l)" for q
    using l that o1 by (auto simp: enc_ok_def)
  have f3: "out3 ! q = out2 ! q" if "q < length out" "q \<notin> ?Rt (length r)" for q
    using r that lens by (auto simp: enc_ok_def)
  have root: "out3 ! i = 1 + p"
    using f2 [of i] f3 [of i] i o1 subtree_root_notin by auto
  have decl: "range_dec n out3 (Suc k) (i + 2 ^ k) = range_dec n out2 (Suc k) (i + 2 ^ k)"
  proof (rule range_dec_cong)
    show "length out3 = length out2" using lens by simp
    show "out3 ! q = out2 ! q" if "q \<in> ?L s" "q < length out3" for s q
      using f3 [of q] that lens subtree_disjoint [of k i s "length r"] by auto
  qed
  have "set (range_dec (Suc n) out3 k i) = set xs"
    using root i p l r lens decl xs by (auto simp: enc_ok_def Let_def)
  moreover have "out3 ! q = out ! q" if q: "q < length out" "q \<notin> subtree k i (length xs)" for q
  proof -
    have "q \<notin> ?L (length l)" using subtree_left [of q k i "length l" "length xs"] len q by auto
    moreover have "q \<notin> ?Rt (length r)" using subtree_right [of q k i "length r" "length xs"] len q by auto
    moreover have "q \<noteq> i" using subtree_root [of "length xs" i k] len q by auto
    ultimately show ?thesis using f2 f3 q o1 by auto
  qed
  moreover have "0 < out3 ! q \<and> out3 ! q < 2 ^ (Suc n + k - L)"
    if q: "q \<in> subtree k i (length xs)" and L: "2 ^ L \<le> q + 1" "q + 1 < 2 ^ Suc L" for q L
  proof -
    have bl: "0 < out2 ! q \<and> out2 ! q < 2 ^ (n + Suc k - L)" if "q \<in> ?L (length l)"
      using l that L by (simp add: enc_ok_def)
    have br: "0 < out3 ! q \<and> out3 ! q < 2 ^ (n + Suc k - L)" if "q \<in> ?Rt (length r)"
      using r that L by (simp add: enc_ok_def)
    from q consider "q = i" | "q \<in> ?L (length l)" | "q \<in> ?Rt (length r)"
      unfolding len by (rule subtree_cases)
    then show ?thesis
    proof cases
      case 1
      then have "L = k" using level_unique [OF i(2,3)] L by simp
      then show ?thesis using 1 root p by simp
    next
      case 2
      then have "q < length out" "q \<notin> ?Rt (length r)"
        using q inb subtree_disjoint [of k i "length l" "length r"] by auto
      then show ?thesis using bl [OF 2] f3 by simp
    next
      case 3
      then show ?thesis using br by simp
    qed
  qed
  ultimately show ?thesis unfolding enc_ok_def using lens(2) by blast
qed

theorem range_enc_arfcns_ok:
  assumes "distinct xs" "set xs \<subseteq> {0..<2 ^ n - 1}"
    and "2 ^ k \<le> i + 1" "i + 1 < 2 ^ Suc k"
    and "\<And>q. q \<in> subtree k i (length xs) \<Longrightarrow> q < length out"
    and "\<And>s q. q \<in> subtree k i s \<Longrightarrow> q < length out \<Longrightarrow> out ! q = 0"
  shows "\<exists>out'. range_enc_arfcns (2 ^ n - 1) xs out (int i) = Some (0, out') \<and> enc_ok n xs out k i out'"
  using assms
proof (induction n arbitrary: xs out k i)
  case 0
  then have "xs = []" by simp
  moreover have "length out \<le> i \<or> out ! i = 0"
    using 0(6) [of i 1] subtree_root [of 1 i k] by (meson linorder_not_less zero_less_one)
  ultimately show ?case using enc_ok_empty by (auto simp: range_enc_arfcns.simps)
next
  case (Suc n)
  note prems = Suc.prems
  have absent: "length out \<le> i \<or> out ! i = 0"
    using prems(6) [of i 1] subtree_root [of 1 i k] by (meson linorder_not_less zero_less_one)
  consider "xs = []" | x where "xs = [x]" | "2 \<le> length xs"
    by (metis One_nat_def Suc_1 Suc_leI length_0_conv length_Suc_conv less_2_cases_iff linorder_not_le)
  then show ?case
  proof cases
    case 1
    then show ?thesis using absent enc_ok_empty by (auto simp: range_enc_arfcns.simps)
  next
    case (2 x)
    then have i: "i < length out" using prems(5) [of i] subtree_root [of 1 i k] by simp
    have "enc_ok (Suc n) [x] out k i (out[i := 1 + x])"
      using 2 prems by (intro enc_ok_single i) auto
    then show ?thesis using 2 i by (simp add: range_enc_arfcns.simps)
  next
    case 3
    define m where "m = (2::int) ^ n - 1"
    have R: "2 ^ Suc n - 1 = 2 * m + 1" by (simp add: m_def)
    have xs: "distinct xs" "set xs \<subseteq> {0..<2*m+1}" "xs \<noteq> []" using prems 3 R by auto
    obtain a where a: "a < length xs" "range_enc_find_index (2*m+1) xs = int a"
        "card (half_ahead m (set xs) (xs ! a)) = (length xs - 1) div 2"
      using range_enc_find_index_exists [OF xs] by blast
    let ?p = "xs ! a"
    obtain l r where split: "split_arfcns (2*m+1) (mod_c (?p + (2*m+1 - 1) sdiv 2 + 1) (2*m+1))
          (mod_c (?p + 1) (2*m+1)) (length xs div 2) xs [] [] = Some (l, r)"
        and len: "length l = length xs div 2" "length r = (length xs - 1) div 2"
        and lr: "distinct l" "distinct r" "set l \<subseteq> {0..<m}" "set r \<subseteq> {0..<m}"
        and img: "set xs = {?p} \<union> (\<lambda>x. (x + ?p + (m + 1)) mod (2*m+1)) ` set l
           \<union> (\<lambda>x. (x + ?p + 1) mod (2*m+1)) ` set r"
      using split_balanced [OF xs(1,2) nth_mem [OF a(1)] a(3)] by blast
    have i: "i < length out" using prems(5) [of i] subtree_root [of "length xs" i k] xs(3) by simp
    have m: "0 \<le> m" using xs(2) a(1) nth_mem by fastforce
    have gp: "greatest_power_of_2_lesser_or_equal_to (int i + 1) = 2 ^ k"
      using prems(3,4) by (intro greatest_power_of_2_eq) (simp_all add: of_nat_less_iff [symmetric, where 'a=int]
           of_nat_le_iff [symmetric, where 'a=int] del: of_nat_less_iff of_nat_le_iff)
    let ?out1 = "out[i := 1 + ?p]"
    have zl: "?out1 ! q = 0" if "q \<in> subtree (Suc k) (i + 2 ^ k) s" "q < length ?out1" for s q
    proof -
      have "q \<noteq> i" using that(1) subtree_root_notin(1) by blast
      then show ?thesis using prems(6) [OF subtree_left [OF that(1), of "2 * s"]] that by simp
    qed
    have "\<exists>out'. range_enc_arfcns (2 ^ n - 1) l ?out1 (int (i + 2 ^ k)) = Some (0, out')
        \<and> enc_ok n l ?out1 (Suc k) (i + 2 ^ k) out'"
      using lr prems(3,4) zl subtree_left [of _ k i "length l" "length xs"] len prems(5)
      by (intro Suc.IH) (auto simp: m_def)
    then obtain out2 where o2: "range_enc_arfcns (2 ^ n - 1) l ?out1 (int (i + 2 ^ k)) = Some (0, out2)"
        "enc_ok n l ?out1 (Suc k) (i + 2 ^ k) out2" by blast
    have zr: "out2 ! q = 0" if "q \<in> subtree (Suc k) (i + 2 * 2 ^ k) s" "q < length out2" for s q
    proof -
      have "q \<noteq> i" "q \<notin> subtree (Suc k) (i + 2 ^ k) (length l)"
        using that(1) subtree_root_notin(2) subtree_disjoint by blast+
      then show ?thesis
        using prems(6) [OF subtree_right [OF that(1), of "2 * s + 1"]] that o2(2)
        by (simp add: enc_ok_def)
    qed
    have "\<exists>out'. range_enc_arfcns (2 ^ n - 1) r out2 (int (i + 2 * 2 ^ k)) = Some (0, out')
        \<and> enc_ok n r out2 (Suc k) (i + 2 * 2 ^ k) out'"
      using lr prems(3,4) zr subtree_right [of _ k i "length r" "length xs"] len prems(5) o2(2)
      by (intro Suc.IH) (auto simp: m_def enc_ok_def)
    then obtain out3 where o3: "range_enc_arfcns (2 ^ n - 1) r out2 (int (i + 2 * 2 ^ k)) = Some (0, out3)"
        "enc_ok n r out2 (Suc k) (i + 2 * 2 ^ k) out3" by blast
    have "enc_ok (Suc n) xs out k i out3"
      using o2(2) o3(2) img len xs prems(5) a(1) i prems(3,4)
      by (intro enc_ok_node [of i out k xs ?p n ?out1 l out2 r]) (auto simp: m_def)
    moreover have "range_enc_arfcns (2 ^ Suc n - 1) xs out (int i) = Some (0, out3)"
    proof -
      have "l \<noteq> []" using len 3 by auto
      moreover have "r = [] \<Longrightarrow> out3 = out2" using o3(1) by (simp add: range_enc_arfcns.simps)
      moreover have "2 ^ n - 1 = m" by (simp add: m_def)
      ultimately show ?thesis
        unfolding R using 3 xs(3) a(2) i split o2(1) o3(1) gp m
        by (subst range_enc_arfcns.simps) (simp add: Let_def del: mod_c_eq)
    qed
    ultimately show ?thesis by blast
  qed
qed

text \<open>At the root: the encoder fills W(1) .. W(size), each within the bits of its tree level, and
  the decoder recovers the values.\<close>

definition w_fits :: "nat \<Rightarrow> int list \<Rightarrow> bool" where
  "w_fits n w \<longleftrightarrow> (\<forall>q < length w. \<forall>L. 2 ^ L \<le> q + 1 \<and> q + 1 < 2 ^ Suc L \<longrightarrow>
      0 \<le> w ! q \<and> w ! q < 2 ^ (n - L))"

lemma range_enc_arfcns_root:
  assumes xs: "distinct xs" "set xs \<subseteq> {0..<2 ^ n - 1}" and len: "length xs \<le> N"
  shows "\<exists>w. range_enc_arfcns (2 ^ n - 1) xs (replicate N 0) 0 = Some (0, w) \<and> length w = N
      \<and> set (range_dec n w 0 0) = set xs \<and> w_fits n w
      \<and> (\<forall>q < N. 0 < w ! q \<longleftrightarrow> q < length xs)"
proof -
  have st: "subtree 0 0 s = {..<s}" for s by (auto simp: subtree_def)
  obtain w where w: "range_enc_arfcns (2 ^ n - 1) xs (replicate N 0) (int 0) = Some (0, w)"
      "enc_ok n xs (replicate N 0) 0 0 w"
    using range_enc_arfcns_ok [OF xs, of 0 0 "replicate N 0"] len unfolding st by fastforce
  have lev: "\<exists>L. 2 ^ L \<le> q + 1 \<and> q + 1 < 2 ^ Suc L" for q :: nat
    using ex_power_ivl1 [of 2 "q + 1"] by auto
  have zero: "w ! q = 0" if "q < N" "length xs \<le> q" for q
    using w(2) that by (auto simp: enc_ok_def st)
  have pos: "0 < w ! q" if "q < length xs" for q
    using w(2) that lev [of q] unfolding enc_ok_def st by blast
  have "w_fits n w"
    unfolding w_fits_def
  proof (intro allI impI)
    fix q L assume "q < length w" and L: "2 ^ L \<le> q + 1 \<and> q + 1 < 2 ^ Suc L"
    then show "0 \<le> w ! q \<and> w ! q < 2 ^ (n - L)"
      using w(2) zero [of q] unfolding enc_ok_def st by (cases "q < length xs") (auto intro: less_imp_le)
  qed
  moreover have "\<forall>q < N. 0 < w ! q \<longleftrightarrow> q < length xs"
    using pos zero by (metis linorder_not_less order_less_irrefl)
  ultimately show ?thesis using w by (auto simp: enc_ok_def)
qed

section \<open>Writing the W values as bits\<close>

text \<open>Bit \<open>p\<close> of an octet string, counted from the most significant bit of the first octet.\<close>

definition bit_at :: "u8 list \<Rightarrow> nat \<Rightarrow> bool" where
  "bit_at c p = bit (c ! (p div 8)) (7 - p mod 8)"

lemma bit_at_update:
  "k < length c \<Longrightarrow> bit_at (c[k := b]) p = (if p div 8 = k then bit b (7 - p mod 8) else bit_at c p)"
  by (simp add: bit_at_def nth_list_update)

lemma slice_byte_bit:
  fixes b :: u8
  assumes "off + cur \<le> 8" "t < 8"
  shows "bit ((b AND NOT (word_of_int (push_bit (8 - (off + cur)) (push_bit cur 1 - 1))))
              OR word_of_int (push_bit (8 - (off + cur)) (drop_bit left wk AND (push_bit cur 1 - 1)))) (7 - t)
    \<longleftrightarrow> (if off \<le> t \<and> t < off + cur then bit wk (left + (off + cur) - 1 - t) else bit b (7 - t))"
proof -
  have m: "push_bit cur 1 - 1 = (mask cur :: int)" by (simp add: mask_eq_exp_minus_1 push_bit_of_1)
  have "left + (7 - t - (8 - (off + cur))) = left + (off + cur) - 1 - t" if "t < off + cur"
    using that assms by simp
  then show ?thesis
    unfolding m using assms
    by (auto simp: bit_simps not_le not_less)
qed

lemma write_wk_ok:
  assumes "off < 8" "8 * oct + off + left \<le> 8 * length c"
  shows "\<exists>c' oct' off'. write_wk c oct off wk left = Some (c', oct', off') \<and> length c' = length c
     \<and> off' < 8 \<and> 8 * oct' + off' = 8 * oct + off + left
     \<and> (\<forall>p < 8 * length c. bit_at c' p =
          (if 8 * oct + off \<le> p \<and> p < 8 * oct + off + left then bit wk (8 * oct + off + left - 1 - p)
           else bit_at c p))"
  using assms
proof (induction left arbitrary: c oct off rule: less_induct)
  case (less left)
  show ?case
  proof (cases "left = 0")
    case True
    then show ?thesis using less.prems by (auto simp: write_wk.simps [of c])
  next
    case False
    define cur where "cur = min (8 - off) left"
    define b where "b = ((c ! oct) AND NOT (word_of_int (push_bit (8 - (off + cur)) (push_bit cur 1 - 1))))
              OR word_of_int (push_bit (8 - (off + cur)) (drop_bit (left - cur) wk AND (push_bit cur 1 - 1)))"
    let ?c = "c[oct := b]"
    have cur: "0 < cur" "off + cur \<le> 8" "cur \<le> left" using False less.prems by (auto simp: cur_def)
    have oct: "oct < length c" using False less.prems by simp
    have step: "write_wk c oct off wk left =
        (if off + cur = 8 then write_wk ?c (oct + 1) 0 wk (left - cur)
         else write_wk ?c oct (off + cur) wk (left - cur))"
      using False less.prems oct
      by (subst write_wk.simps) (simp add: Let_def cur_def b_def)
    have bits: "bit_at ?c p = (if 8 * oct + off \<le> p \<and> p < 8 * oct + off + cur
        then bit wk (8 * oct + off + left - 1 - p) else bit_at c p)" for p
    proof (cases "p div 8 = oct")
      case True
      define t where "t = p mod 8"
      have p: "p = 8 * oct + t" "t < 8" using True by (auto simp: t_def)
      then show ?thesis
        using slice_byte_bit [OF cur(2) p(2), of "c ! oct" "left - cur" wk] cur oct
        by (auto simp: bit_at_update b_def bit_at_def add.commute)
    next
      case False
      then show ?thesis using cur oct by (auto simp: bit_at_update)
    qed
    define oct1 where "oct1 = (if off + cur = 8 then oct + 1 else oct)"
    define off1 where "off1 = (if off + cur = 8 then 0 else off + cur)"
    have n: "write_wk c oct off wk left = write_wk ?c oct1 off1 wk (left - cur)"
        "off1 < 8" "8 * oct1 + off1 = 8 * oct + off + cur"
      using step cur by (auto simp: oct1_def off1_def)
    have "left - cur < left" "8 * oct1 + off1 + (left - cur) \<le> 8 * length ?c"
      using cur n less.prems by auto
    from less.IH [OF this(1) n(2) this(2)] obtain c' oct' off' where
        w: "write_wk ?c oct1 off1 wk (left - cur) = Some (c', oct', off')" "length c' = length c"
        "off' < 8" "8 * oct' + off' = 8 * oct1 + off1 + (left - cur)" and
        w5: "\<And>p. p < 8 * length c \<Longrightarrow> bit_at c' p =
          (if 8 * oct1 + off1 \<le> p \<and> p < 8 * oct1 + off1 + (left - cur)
           then bit wk (8 * oct1 + off1 + (left - cur) - 1 - p) else bit_at ?c p)"
      by auto
    have "8 * oct1 + off1 + (left - cur) = 8 * oct + off + left" using n(3) cur by simp
    then show ?thesis using w w5 n cur by (simp add: bits add.assoc)
  qed
qed

text \<open>The bit string of the W values: most significant bit first, one bit less per tree level.\<close>

definition msb_bits :: "nat \<Rightarrow> int \<Rightarrow> bool list" where
  "msb_bits n x = map (\<lambda>j. bit x (n - 1 - j)) [0..<n]"

fun wn_bits :: "int list \<Rightarrow> nat \<Rightarrow> nat \<Rightarrow> nat \<Rightarrow> bool list" where
  "wn_bits [] wk_len level lvl_left = []"
| "wn_bits (wk # ws) wk_len level lvl_left =
     msb_bits wk_len wk @
     (if lvl_left - 1 = 0 then wn_bits ws (wk_len - 1) (level + 1) (2 ^ (level + 1))
      else wn_bits ws wk_len level (lvl_left - 1))"

lemma length_msb_bits [simp]: "length (msb_bits n x) = n" by (simp add: msb_bits_def)

lemma nth_msb_bits: "j < n \<Longrightarrow> msb_bits n x ! j = bit x (n - 1 - j)" by (simp add: msb_bits_def)

definition bits_from :: "u8 list \<Rightarrow> nat \<Rightarrow> nat \<Rightarrow> bool list" where
  "bits_from c p n = map (\<lambda>j. bit_at c (p + j)) [0..<n]"

text \<open>\<open>c'\<close> is \<open>c\<close> with the bit string \<open>bs\<close> written at bit position \<open>p\<close>.\<close>

definition put_bits :: "u8 list \<Rightarrow> nat \<Rightarrow> bool list \<Rightarrow> u8 list \<Rightarrow> bool" where
  "put_bits c p bs c' \<longleftrightarrow> length c' = length c \<and>
     (\<forall>q < 8 * length c. bit_at c' q = (if p \<le> q \<and> q < p + length bs then bs ! (q - p) else bit_at c q))"

lemma put_bits_append:
  "put_bits c p bs c1 \<Longrightarrow> put_bits c1 (p + length bs) bs' c2 \<Longrightarrow> put_bits c p (bs @ bs') c2"
  by (auto simp: put_bits_def nth_append)

lemma put_bits_Nil: "put_bits c p [] c"
  by (auto simp: put_bits_def)

lemma write_wk_put:
  assumes "off < 8" "8 * oct + off + left \<le> 8 * length c"
  shows "\<exists>c' oct' off'. write_wk c oct off wk left = Some (c', oct', off')
     \<and> off' < 8 \<and> 8 * oct' + off' = 8 * oct + off + left \<and> put_bits c (8 * oct + off) (msb_bits left wk) c'"
proof -
  obtain c' oct' off' where w: "write_wk c oct off wk left = Some (c', oct', off')" "length c' = length c"
     "off' < 8" "8 * oct' + off' = 8 * oct + off + left"
     "\<And>p. p < 8 * length c \<Longrightarrow> bit_at c' p =
          (if 8 * oct + off \<le> p \<and> p < 8 * oct + off + left then bit wk (8 * oct + off + left - 1 - p)
           else bit_at c p)"
    using write_wk_ok [OF assms] by blast
  then have "put_bits c (8 * oct + off) (msb_bits left wk) c'"
    by (auto simp: put_bits_def nth_msb_bits add.commute)
  with w show ?thesis by blast
qed

lemma write_wn_loop_put:
  assumes "off < 8" "8 * oct + off + length (wn_bits ws len lvl lft) \<le> 8 * length c"
  shows "\<exists>c'. write_wn_loop c oct off ws len lvl lft = Some c'
     \<and> put_bits c (8 * oct + off) (wn_bits ws len lvl lft) c'"
  using assms
proof (induction c oct off ws len lvl lft rule: write_wn_loop.induct)
  case (1 c oct off len lvl lft)
  then show ?case by (simp add: put_bits_Nil)
next
  case (2 c oct off wk ws len lvl lft)
  obtain c1 oct1 off1 where w: "write_wk c oct off wk len = Some (c1, oct1, off1)" "off1 < 8"
      "8 * oct1 + off1 = 8 * oct + off + len" "put_bits c (8 * oct + off) (msb_bits len wk) c1"
    using write_wk_put [of off oct len c wk] 2(3,4) by auto
  have len: "length c1 = length c" using w(4) by (simp add: put_bits_def)
  show ?case
  proof (cases "lft - 1 = 0")
    case True
    then obtain c2 where "write_wn_loop c1 oct1 off1 ws (len - 1) (lvl + 1) (2 ^ (lvl + 1)) = Some c2"
        "put_bits c1 (8 * oct1 + off1) (wn_bits ws (len - 1) (lvl + 1) (2 ^ (lvl + 1))) c2"
      using 2(1) [OF w(1)] w(2,3) 2(4) len by auto
    then show ?thesis using True w put_bits_append [OF w(4)] by simp
  next
    case False
    then obtain c2 where "write_wn_loop c1 oct1 off1 ws len lvl (lft - 1) = Some c2"
        "put_bits c1 (8 * oct1 + off1) (wn_bits ws len lvl (lft - 1)) c2"
      using 2(2) [OF w(1)] w(2,3) 2(4) len by auto
    then show ?thesis using False w put_bits_append [OF w(4)] by simp
  qed
qed

section \<open>Reading the W values back\<close>

definition msb_val :: "bool list \<Rightarrow> int" where
  "msb_val bs = horner_sum of_bool 2 (rev bs)"

fun read_wn :: "nat \<Rightarrow> bool list \<Rightarrow> nat \<Rightarrow> nat \<Rightarrow> nat \<Rightarrow> int list" where
  "read_wn 0 bs wk_len level lvl_left = []"
| "read_wn (Suc n) bs wk_len level lvl_left =
     msb_val (take wk_len bs) #
     (if lvl_left - 1 = 0 then read_wn n (drop wk_len bs) (wk_len - 1) (level + 1) (2 ^ (level + 1))
      else read_wn n (drop wk_len bs) wk_len level (lvl_left - 1))"

lemma rev_msb_bits: "rev (msb_bits n x) = map (bit x) [0..<n]"
  by (rule nth_equalityI) (simp_all add: msb_bits_def rev_nth)

lemma msb_val_bits: "msb_val (msb_bits n x) = take_bit n x"
  unfolding msb_val_def rev_msb_bits by (simp add: horner_sum_bit_eq_take_bit)

fun wn_fit :: "int list \<Rightarrow> nat \<Rightarrow> nat \<Rightarrow> nat \<Rightarrow> bool" where
  "wn_fit [] wk_len level lvl_left = True"
| "wn_fit (wk # ws) wk_len level lvl_left =
     (0 \<le> wk \<and> wk < 2 ^ wk_len \<and>
     (if lvl_left - 1 = 0 then wn_fit ws (wk_len - 1) (level + 1) (2 ^ (level + 1))
      else wn_fit ws wk_len level (lvl_left - 1)))"

lemma read_wn_bits:
  "wn_fit ws len lvl lft \<Longrightarrow> read_wn (length ws) (wn_bits ws len lvl lft @ rest) len lvl lft = ws"
  by (induction ws arbitrary: len lvl lft) (auto simp: msb_val_bits take_bit_int_eq_self_iff)

lemma wn_fit_levels:
  assumes "\<And>j L. j < length ws \<Longrightarrow> 2 ^ L \<le> k + j \<Longrightarrow> k + j < 2 ^ Suc L \<Longrightarrow> 0 \<le> ws ! j \<and> ws ! j < 2 ^ (n - L)"
    and "k + lft = 2 ^ Suc lvl" "1 \<le> lft" "lft \<le> 2 ^ lvl"
  shows "wn_fit ws (n - lvl) lvl lft"
  using assms
proof (induction ws arbitrary: k lvl lft)
  case Nil
  then show ?case by simp
next
  case (Cons wk ws)
  have hd: "0 \<le> wk" "wk < 2 ^ (n - lvl)" using Cons.prems(1) [of 0 lvl] Cons.prems(2-4) by auto
  have tl: "0 \<le> ws ! j \<and> ws ! j < 2 ^ (n - L)"
    if "j < length ws" "2 ^ L \<le> Suc k + j" "Suc k + j < 2 ^ Suc L" for j L
    using Cons.prems(1) [of "Suc j" L] that by simp
  show ?case
  proof (cases "lft = 1")
    case True
    then have "wn_fit ws (n - Suc lvl) (Suc lvl) (2 ^ Suc lvl)"
      using Cons.prems by (intro Cons.IH [of "Suc k"] tl) auto
    then show ?thesis using hd True by simp
  next
    case False
    then have "wn_fit ws (n - lvl) lvl (lft - 1)"
      using Cons.prems by (intro Cons.IH [of "Suc k"] tl) auto
    then show ?thesis using hd False Cons.prems(3) by simp
  qed
qed

lemma w_fits_wn_fit: "w_fits n w \<Longrightarrow> wn_fit (take N w) n 0 1"
  using wn_fit_levels [of "take N w" 1 n 1 0] by (auto simp: w_fits_def)

text \<open>Writing the values and reading them back.\<close>

lemma put_bits_from:
  assumes "put_bits c p bs c'" "p + length bs \<le> 8 * length c"
  shows "bits_from c' p (length bs) = bs"
  using assms by (intro nth_equalityI) (auto simp: put_bits_def bits_from_def)

lemma write_all_wn_read:
  assumes fit: "w_fits len w" and size: "N \<le> length w" and off: "off < 8"
    and room: "8 * oct + off + length (wn_bits (take N w) len 0 1) \<le> 8 * length c"
  shows "\<exists>c'. write_all_wn c oct off w N len = Some c' \<and> length c' = length c
     \<and> (\<forall>q < 8 * oct + off. bit_at c' q = bit_at c q)
     \<and> read_wn N (bits_from c' (8 * oct + off) (length (wn_bits (take N w) len 0 1))) len 0 1 = take N w"
proof -
  obtain c' where c': "write_wn_loop c oct off (take N w) len 0 1 = Some c'"
      "put_bits c (8 * oct + off) (wn_bits (take N w) len 0 1) c'"
    using write_wn_loop_put [OF off room] by blast
  have "read_wn N (wn_bits (take N w) len 0 1) len 0 1 = take N w"
    using read_wn_bits [OF w_fits_wn_fit [OF fit], of N "[]"] size by simp
  moreover have "\<forall>q < 8 * oct + off. bit_at c' q = bit_at c q"
    using c'(2) room by (auto simp: put_bits_def)
  ultimately show ?thesis
    using c' size put_bits_from [OF c'(2) room] by (auto simp: write_all_wn_def put_bits_def)
qed

end
