(* ===== verification/Freq_List_Proof.thy ===== *)
theory Freq_List_Proof
  imports Freq_List Arfcn_Range_Proof
begin

unbundle bit_operations_syntax

text \<open>
  Correctness of the frequency lists: a decoder after 3GPP TS 44.018, 10.5.2.13, and for each format
  that decoding what the code produced gives the ARFCNs that were to be carried. The range format is
  correct for the sequence filter, encode, write; \<open>range_encode\<close>, which runs that sequence with the
  unfiltered count, is not.
\<close>

section \<open>Decoding a frequency list\<close>

definition chan_f0 :: "u8 list \<Rightarrow> int" where "chan_f0 c = msb_val (bits_from c 7 10)"

definition dec_range :: "nat \<Rightarrow> nat \<Rightarrow> nat \<Rightarrow> u8 list \<Rightarrow> int list" where
  "dec_range n N len c = chan_f0 c # map (\<lambda>x. (x + (chan_f0 c + 1)) mod 1024)
     (range_dec n (read_wn N (bits_from c 17 len) n 0 1) 0 0)"

definition dec_range1024 :: "u8 list \<Rightarrow> int list" where
  "dec_range1024 c = (if bit_at c 5 then [0] else []) @ map (\<lambda>x. (x + (0 + 1)) mod 1024)
     (range_dec 10 (read_wn 16 (bits_from c 6 122) 10 0 1) 0 0)"

definition dec_bm0 :: "u8 list \<Rightarrow> int list" where
  "dec_bm0 c = filter (\<lambda>i. bit_at c (128 - nat i)) [1..124]"

definition dec_var_bitmap :: "u8 list \<Rightarrow> int list" where
  "dec_var_bitmap c = chan_f0 c # map (\<lambda>k. (chan_f0 c + k) mod 1024) (filter (\<lambda>k. bit_at c (16 + nat k)) [1..111])"

text \<open>The format identifier in the first octet (3GPP TS 44.018, 10.5.2.13.1).\<close>

definition dec_freq_list :: "u8 list \<Rightarrow> int list" where
  "dec_freq_list c =
     (if \<not> bit_at c 0 \<and> \<not> bit_at c 1 then dec_bm0 c
      else if bit_at c 0 \<and> \<not> bit_at c 1 then
        if \<not> bit_at c 4 then dec_range1024 c
        else if \<not> bit_at c 5 \<and> \<not> bit_at c 6 then dec_range 9 17 111 c
        else if \<not> bit_at c 5 \<and> bit_at c 6 then dec_range 8 21 110 c
        else if bit_at c 5 \<and> \<not> bit_at c 6 then dec_range 7 28 110 c
        else dec_var_bitmap c
      else [])"

section \<open>The range formats\<close>

lemma filter_arfcns_from_ok:
  assumes "j \<le> i" "i \<le> length arr"
  shows "\<exists>arr' j'. filter_arfcns_from f0 [i..<length arr] arr j inc =
       Some (arr', j', if f0 \<in> set (drop i arr) then 1 else inc) \<and> length arr' = length arr
     \<and> j' = j + length (filter (\<lambda>x. x \<noteq> f0) (drop i arr))
     \<and> take j' arr' = take j arr @ map (\<lambda>x. (x - (f0 + 1)) mod 1024) (filter (\<lambda>x. x \<noteq> f0) (drop i arr))"
  using assms
proof (induction "length arr - i" arbitrary: i j arr inc)
  case 0
  then show ?case by simp
next
  case (Suc d)
  then have i: "i < length arr" by simp
  have up: "[i..<length arr] = i # [Suc i..<length arr]" using i by (rule upt_conv_Cons)
  have dr: "drop i arr = arr ! i # drop (Suc i) arr" using i by (rule Cons_nth_drop_Suc [symmetric])
  show ?case
  proof (cases "arr ! i = f0")
    case True
    then show ?thesis
      using Suc.hyps(1) [of arr "Suc i" j 1] Suc.hyps(2) Suc.prems i by (auto simp: up dr)
  next
    case False
    let ?v = "(arr ! i - (f0 + 1)) mod 1024"
    have "take (Suc j) (arr[j := ?v]) = take j arr @ [?v]"
      using Suc.prems i by (simp add: take_Suc_conv_app_nth)
    moreover have "drop (Suc i) (arr[j := ?v]) = drop (Suc i) arr"
      using Suc.prems by simp
    ultimately show ?thesis
      using Suc.hyps(1) [of "arr[j := ?v]" "Suc i" "Suc j" inc] Suc.hyps(2) Suc.prems i False
      by (auto simp: up dr)
  qed
qed

lemma range_enc_filter_arfcns_ok:
  "\<exists>arr'. range_enc_filter_arfcns fs (length fs) f0 =
       Some (arr', length (filter (\<lambda>x. x \<noteq> f0) fs), if f0 \<in> set fs then 1 else 0) \<and> length arr' = length fs
     \<and> take (length (filter (\<lambda>x. x \<noteq> f0) fs)) arr'
         = map (\<lambda>x. (x - (f0 + 1)) mod 1024) (filter (\<lambda>x. x \<noteq> f0) fs)"
  using filter_arfcns_from_ok [of 0 0 fs f0 0] by (auto simp: range_enc_filter_arfcns_def)

lemma range_dec_take:
  "(\<And>q. N \<le> q \<Longrightarrow> q < length w \<Longrightarrow> w ! q = 0) \<Longrightarrow> range_dec n (take N w) k i = range_dec n w k i"
proof (induction n arbitrary: k i)
  case 0
  then show ?case by simp
next
  case (Suc n)
  have "length (take N w) \<le> i \<or> take N w ! i = 0 \<longleftrightarrow> length w \<le> i \<or> w ! i = 0"
    using Suc.prems [of i] by (cases "i < N"; cases "i < length w") auto
  moreover have "take N w ! i = w ! i" if "\<not> length (take N w) \<le> i" using that by simp
  ultimately show ?case using Suc.IH Suc.prems by (auto simp: Let_def)
qed

definition arfcns_fit :: "nat \<Rightarrow> int \<Rightarrow> int list \<Rightarrow> bool" where
  "arfcns_fit n f0 fs \<longleftrightarrow> distinct fs \<and> set fs \<subseteq> {0..<1024}
     \<and> (\<forall>f \<in> set fs. f \<noteq> f0 \<longrightarrow> (f - (f0 + 1)) mod 1024 < 2 ^ n - 1)"

lemma filter_encode:
  assumes fit: "arfcns_fit n f0 fs" and N: "length (filter (\<lambda>x. x \<noteq> f0) fs) \<le> N" "N \<le> 29"
  shows "\<exists>arr kept w. range_enc_filter_arfcns fs (length fs) f0 = Some (arr, kept, if f0 \<in> set fs then 1 else 0)
     \<and> range_enc_arfcns (2 ^ n - 1) (take kept arr) (replicate RANGE_ENC_MAX_ARFCNS 0) 0 = Some (0, w)
     \<and> length w = 29 \<and> w_fits n w
     \<and> (\<lambda>x. (x + (f0 + 1)) mod 1024) ` set (range_dec n (take N w) 0 0) = set fs - {f0}"
proof -
  let ?g = "filter (\<lambda>x. x \<noteq> f0) fs" and ?h = "\<lambda>x. (x - (f0 + 1)) mod 1024"
  obtain arr where arr: "range_enc_filter_arfcns fs (length fs) f0 = Some (arr, length ?g, if f0 \<in> set fs then 1 else 0)"
      "take (length ?g) arr = map ?h ?g"
    using range_enc_filter_arfcns_ok [of fs f0] by blast
  have bk: "(?h x + (f0 + 1)) mod 1024 = x" if "x \<in> set fs" for x
  proof -
    have "x mod 1024 = x" using that fit by (auto simp: arfcns_fit_def)
    then show ?thesis by (simp add: mod_add_left_eq)
  qed
  have "distinct (map ?h ?g)"
    using fit bk by (auto simp: distinct_map arfcns_fit_def intro!: inj_onI) (metis bk)
  moreover have "set (map ?h ?g) \<subseteq> {0..<2 ^ n - 1}" using fit by (auto simp: arfcns_fit_def)
  ultimately obtain w where w: "range_enc_arfcns (2 ^ n - 1) (map ?h ?g) (replicate 29 0) 0 = Some (0, w)"
      "length w = 29" "set (range_dec n w 0 0) = set (map ?h ?g)" "w_fits n w"
      "\<forall>q < 29. 0 < w ! q \<longleftrightarrow> q < length (map ?h ?g)"
    using range_enc_arfcns_root [of "map ?h ?g" n 29] N by auto
  have nn: "0 \<le> w ! q" if "q < 29" for q
    using w(2,4) that ex_power_ivl1 [of 2 "q + 1"] by (auto simp: w_fits_def)
  have "w ! q = 0" if "N \<le> q" "q < length w" for q
    using w(2,5) nn [of q] N that by fastforce
  then have "set (range_dec n (take N w) 0 0) = ?h ` (set fs - {f0})"
    using w(3) range_dec_take [of N w n 0 0] by auto
  then have "(\<lambda>x. (x + (f0 + 1)) mod 1024) ` set (range_dec n (take N w) 0 0) = set fs - {f0}"
    using bk by (auto simp: image_image)
  with arr w show ?thesis by (auto simp: RANGE_ENC_MAX_ARFCNS_def)
qed

lemma length_wn_bits_cong:
  "length ws = length ws' \<Longrightarrow> length (wn_bits ws len lvl lft) = length (wn_bits ws' len lvl lft)"
  by (induction ws ws' arbitrary: len lvl lft rule: list_induct2) auto

lemma wn_bits_lengths:
  "length w = 29 \<Longrightarrow> length (wn_bits (take 28 w) 7 0 1) = 110"
  "length w = 29 \<Longrightarrow> length (wn_bits (take 21 w) 8 0 1) = 110"
  "length w = 29 \<Longrightarrow> length (wn_bits (take 17 w) 9 0 1) = 111"
  "length w = 29 \<Longrightarrow> length (wn_bits (take 16 w) 10 0 1) = 122"
  using length_wn_bits_cong [of "take 28 w" "replicate 28 0" 7 0 1]
    length_wn_bits_cong [of "take 21 w" "replicate 21 0" 8 0 1]
    length_wn_bits_cong [of "take 17 w" "replicate 17 0" 9 0 1]
    length_wn_bits_cong [of "take 16 w" "replicate 16 0" 10 0 1]
  by (simp_all add: numeral_eq_Suc)

lemma bits_from_cong: "(\<And>q. p \<le> q \<Longrightarrow> q < p + n \<Longrightarrow> bit_at c q = bit_at c' q) \<Longrightarrow> bits_from c p n = bits_from c' p n"
  by (simp add: bits_from_def)

text \<open>The header octets: format bits at positions 0..6, the base frequency at 7..16.\<close>

lemma write_orig_arfcn_ok:
  assumes "3 \<le> length c" "\<not> bit h 0"
  shows "\<exists>c'. (do { c1 \<leftarrow> arr_set c 0 h; write_orig_arfcn c1 f0 }) = Some c' \<and> length c' = length c
     \<and> (\<forall>q < 7. bit_at c' q = bit h (7 - q)) \<and> bits_from c' 7 10 = msb_bits 10 f0
     \<and> (\<forall>q \<ge> 17. bit_at c' q = (24 \<le> q \<and> bit_at c q))"
proof -
  obtain a b d r where c: "c = a # b # d # r"
    using assms(1) by (metis One_nat_def Suc_le_length_iff numeral_3_eq_3)
  let ?c = "(h OR word_of_int (drop_bit 9 f0 AND 1)) # word_of_int (drop_bit 1 f0)
      # word_of_int (push_bit 7 (f0 AND 1)) # r"
  have e: "(do { c1 \<leftarrow> arr_set c 0 h; write_orig_arfcn c1 f0 }) = Some ?c"
    by (simp add: c write_orig_arfcn_def arr_set_def arr_get_def numeral_2_eq_2)
  have "bit_at ?c q = bit h (7 - q)" if "q < 7" for q
  proof -
    have "q div 8 = 0" "q mod 8 = q" using that by auto
    then show ?thesis using that by (auto simp: bit_at_def bit_simps)
  qed
  moreover have "bit_at ?c q = (24 \<le> q \<and> bit_at c q)" if "17 \<le> q" for q
  proof (cases "24 \<le> q")
    case True
    then have "3 \<le> q div 8" by (simp add: less_eq_div_iff_mult_less_eq)
    then obtain k where "q div 8 = 3 + k" using le_Suc_ex by blast
    then have "q div 8 = Suc (Suc (Suc k))" by simp
    then show ?thesis using True by (simp add: bit_at_def c)
  next
    case False
    then have "q div 8 = 2" "q mod 8 = q - 16" using that by (auto simp: div_nat_eqI mod_nat_eqI)
    then show ?thesis using that False by (auto simp: bit_at_def bit_simps numeral_2_eq_2)
  qed
  moreover have "bits_from ?c 7 10 = msb_bits 10 f0"
  proof (rule nth_equalityI)
    show "length (bits_from ?c 7 10) = length (msb_bits 10 f0)" by (simp add: bits_from_def)
    fix j assume "j < length (bits_from ?c 7 10)"
    then have j: "j < 10" by (simp add: bits_from_def)
    have "bit_at ?c (7 + j) = bit f0 (9 - j)"
    proof -
      consider "j = 0" | "1 \<le> j" "j \<le> 8" | "j = 9" using j by linarith
      then show ?thesis
      proof cases
        case 1
        then show ?thesis using assms(2) by (simp add: bit_at_def bit_simps)
      next
        case 2
        then have "(7 + j) div 8 = 1" "(7 + j) mod 8 = j - 1" by (auto simp: div_nat_eqI mod_nat_eqI)
        moreover have "9 - j = Suc (8 - j)" using 2 by simp
        ultimately show ?thesis using 2 by (simp add: bit_at_def bit_simps)
      next
        case 3
        then show ?thesis by (simp add: bit_at_def bit_simps numeral_2_eq_2)
      qed
    qed
    then show "bits_from ?c 7 10 ! j = msb_bits 10 f0 ! j" using j by (simp add: bits_from_def nth_msb_bits)
  qed
  ultimately show ?thesis using e by (simp add: c)
qed

lemma chan_f0_write:
  "bits_from c 7 10 = msb_bits 10 f0 \<Longrightarrow> 0 \<le> f0 \<Longrightarrow> f0 < 1024 \<Longrightarrow> chan_f0 c = f0"
  by (simp add: chan_f0_def msb_val_bits take_bit_int_eq_self)

text \<open>Header, base frequency and W values of the 128, 256 and 512 formats.\<close>

lemma range_enc_write:
  assumes c: "length c = 16" and h: "\<not> bit h 0" and f0: "0 \<le> f0" "f0 < 1024"
    and fit: "w_fits n w" and len: "N \<le> length w" "length (wn_bits (take N w) n 0 1) = b" "b \<le> 111"
  shows "\<exists>c'. (do { c1 \<leftarrow> arr_set c 0 h; c2 \<leftarrow> write_orig_arfcn c1 f0; write_all_wn c2 2 1 w N n }) = Some c'
     \<and> length c' = 16 \<and> (\<forall>q < 7. bit_at c' q = bit h (7 - q)) \<and> chan_f0 c' = f0
     \<and> read_wn N (bits_from c' 17 b) n 0 1 = take N w"
proof -
  obtain c2 where c2: "(do { c1 \<leftarrow> arr_set c 0 h; write_orig_arfcn c1 f0 }) = Some c2" "length c2 = 16"
      "\<forall>q < 7. bit_at c2 q = bit h (7 - q)" "bits_from c2 7 10 = msb_bits 10 f0"
    using write_orig_arfcn_ok [of c h f0] c h by auto
  obtain c' where c': "write_all_wn c2 2 1 w N n = Some c'" "length c' = 16"
      "\<forall>q < 17. bit_at c' q = bit_at c2 q" "read_wn N (bits_from c' 17 b) n 0 1 = take N w"
    using write_all_wn_read [OF fit len(1), of 1 2 c2] c2(2) len(2,3) by auto
  have "bits_from c' 7 10 = bits_from c2 7 10" using c'(3) by (intro bits_from_cong) auto
  then have "chan_f0 c' = f0" using c2(4) f0 by (intro chan_f0_write) auto
  moreover have "(do { c1 \<leftarrow> arr_set c 0 h; c2 \<leftarrow> write_orig_arfcn c1 f0; write_all_wn c2 2 1 w N n }) = Some c'"
    using c2(1) c'(1) by (cases "arr_set c 0 h") auto
  ultimately show ?thesis using c' c2(3) by auto
qed

lemma arfcns_fit_f0: "arfcns_fit n f0 fs \<Longrightarrow> f0 \<in> set fs \<Longrightarrow> 0 \<le> f0 \<and> f0 < 1024"
  by (auto simp: arfcns_fit_def)

fun range_bits :: "gsm48_range \<Rightarrow> nat" where
  "range_bits ARFCN_RANGE_128 = 7"
| "range_bits ARFCN_RANGE_256 = 8"
| "range_bits ARFCN_RANGE_512 = 9"
| "range_bits ARFCN_RANGE_1024 = 10"
| "range_bits ARFCN_RANGE_INVALID = 0"

fun range_max_w :: "gsm48_range \<Rightarrow> nat" where
  "range_max_w ARFCN_RANGE_128 = 28"
| "range_max_w ARFCN_RANGE_256 = 21"
| "range_max_w ARFCN_RANGE_512 = 17"
| "range_max_w ARFCN_RANGE_1024 = 16"
| "range_max_w ARFCN_RANGE_INVALID = 0"

lemma range_encode_switch_ok:
  assumes r: "r \<noteq> ARFCN_RANGE_INVALID" and c: "length c = 16" and f0: "0 \<le> f0" "f0 < 1024"
    and w: "w_fits (range_bits r) w" "length w = 29"
    and dec: "(\<lambda>x. (x + (f0 + 1)) mod 1024) ` set (range_dec (range_bits r) (take (range_max_w r) w) 0 0) = S - {f0}"
    and inc: "if r = ARFCN_RANGE_1024 then f0 = 0 \<and> inc = (if 0 \<in> S then 1 else 0) else f0 \<in> S"
  shows "\<exists>c'. range_encode_switch r f0 inc w c = Some (0, c') \<and> length c' = 16 \<and> set (dec_freq_list c') = S"
proof (cases r)
  case ARFCN_RANGE_128
  obtain c' where c': "range_enc_range128 c f0 w = Some c'" "length c' = 16"
      "\<forall>q < 7. bit_at c' q = bit (0x8C :: u8) (7 - q)" "chan_f0 c' = f0"
      "read_wn 28 (bits_from c' 17 110) 7 0 1 = take 28 w"
    using range_enc_write [OF c _ f0, of "0x8C" 7 w 28 110] w ARFCN_RANGE_128 wn_bits_lengths(1) [OF w(2)]
    by (auto simp: range_enc_range128_def)
  then have "dec_freq_list c' = dec_range 7 28 110 c'" by (simp add: dec_freq_list_def)
  then show ?thesis
    using c' dec inc ARFCN_RANGE_128 by (auto simp: range_encode_switch_def dec_range_def)
next
  case ARFCN_RANGE_256
  obtain c' where c': "range_enc_range256 c f0 w = Some c'" "length c' = 16"
      "\<forall>q < 7. bit_at c' q = bit (0x8A :: u8) (7 - q)" "chan_f0 c' = f0"
      "read_wn 21 (bits_from c' 17 110) 8 0 1 = take 21 w"
    using range_enc_write [OF c _ f0, of "0x8A" 8 w 21 110] w ARFCN_RANGE_256 wn_bits_lengths(2) [OF w(2)]
    by (auto simp: range_enc_range256_def)
  then have "dec_freq_list c' = dec_range 8 21 110 c'" by (simp add: dec_freq_list_def)
  then show ?thesis
    using c' dec inc ARFCN_RANGE_256 by (auto simp: range_encode_switch_def dec_range_def)
next
  case ARFCN_RANGE_512
  obtain c' where c': "range_enc_range512 c f0 w = Some c'" "length c' = 16"
      "\<forall>q < 7. bit_at c' q = bit (0x88 :: u8) (7 - q)" "chan_f0 c' = f0"
      "read_wn 17 (bits_from c' 17 111) 9 0 1 = take 17 w"
    using range_enc_write [OF c _ f0, of "0x88" 9 w 17 111] w ARFCN_RANGE_512 wn_bits_lengths(3) [OF w(2)]
    by (auto simp: range_enc_range512_def)
  then have "dec_freq_list c' = dec_range 9 17 111 c'" by (simp add: dec_freq_list_def)
  then show ?thesis
    using c' dec inc ARFCN_RANGE_512 by (auto simp: range_encode_switch_def dec_range_def)
next
  case ARFCN_RANGE_1024
  let ?h = "0x80 OR word_of_int (push_bit 2 inc) :: u8"
  have set0: "arr_set c 0 ?h = Some (c[0 := ?h])" using c by (simp add: arr_set_def)
  obtain c' where c': "write_all_wn (c[0 := ?h]) 0 6 w 16 10 = Some c'" "length c' = 16"
      "\<forall>q < 6. bit_at c' q = bit_at (c[0 := ?h]) q" "read_wn 16 (bits_from c' 6 122) 10 0 1 = take 16 w"
    using write_all_wn_read [of 10 w 16 6 0 "c[0 := ?h]"] w c ARFCN_RANGE_1024 wn_bits_lengths(4) [OF w(2)]
    by auto
  have bits: "bit_at c' q = bit ?h (7 - q)" if "q < 6" for q
    using c'(3) c that by (simp add: bit_at_update bit_at_def)
  have "dec_freq_list c' = dec_range1024 c'"
    using bits [of 0] bits [of 1] bits [of 4] inc ARFCN_RANGE_1024
    by (auto simp: dec_freq_list_def bit_simps)
  moreover have "bit_at c' 5 \<longleftrightarrow> 0 \<in> S"
    using bits [of 5] inc ARFCN_RANGE_1024 by (auto simp: bit_simps)
  ultimately show ?thesis
    using c' dec inc set0 ARFCN_RANGE_1024
    by (auto simp: range_encode_switch_def dec_range1024_def range_enc_range1024_def)
qed (use r in simp)



text \<open>\<open>range_encode\<close> ignores how many values the filter kept and encodes a stale array element: for
  the ARFCNs 512, 600 and 635 the octets it writes announce 513 as well.\<close>

lemma range_encode_adds_frequency:
  "case range_encode ARFCN_RANGE_128 ([512, 600, 635] @ replicate 26 0) 3 (replicate 29 0) 512 (replicate 16 0)
     of None \<Rightarrow> False | Some (rc, c) \<Rightarrow> rc = 0 \<and> set (dec_freq_list c) = {512, 513, 600, 635}"
  by code_simp

lemma collect_arfcns_eq:
  assumes "used \<le> length arr"
  shows "collect_arfcns sel is arr used =
    (if used + length (filter sel is) \<le> length arr
     then Some (Inr (take used arr @ filter sel is @ drop (used + length (filter sel is)) arr,
                     used + length (filter sel is)))
     else None)"
  using assms
proof (induction "is" arbitrary: arr used)
  case Nil
  then show ?case by simp
next
  case (Cons i "is")
  show ?case
  proof (cases "sel i \<and> used < length arr")
    case True
    then have "take (Suc used) (arr[used := i]) = take used arr @ [i]"
      by (simp add: take_Suc_conv_app_nth)
    then show ?thesis using True Cons.IH [of "Suc used" "arr[used := i]"] by auto
  next
    case False
    then show ?thesis using Cons by (auto simp: arr_set_def)
  qed
qed

section \<open>The bit map formats\<close>

lemma bit_or_shift_byte:
  fixes b :: u8
  shows "k < 8 \<Longrightarrow> t < 8 \<Longrightarrow> bit (b OR 2 ^ k) t \<longleftrightarrow> t = k \<or> bit b t"
  by (auto simp: bit_simps)

lemma bit_at_or:
  assumes "k < length c" "t < 8"
  shows "bit_at (c[k := c ! k OR push_bit (7 - t) 1]) p \<longleftrightarrow> p = 8 * k + t \<or> bit_at c p"
proof (cases "p div 8 = k")
  case True
  then have "p = 8 * k + t \<longleftrightarrow> p mod 8 = t" using mult_div_mod_eq [of 8 p] by linarith
  moreover have "7 - p mod 8 = 7 - t \<longleftrightarrow> p mod 8 = t" using assms(2) by auto
  ultimately show ?thesis
    using True assms bit_or_shift_byte [of "7 - t" "7 - p mod 8" "c ! k"]
    by (auto simp: bit_at_update bit_at_def)
next
  case False
  then show ?thesis using assms by (auto simp: bit_at_update)
qed

lemma bm0_set_ok:
  assumes "length c = 16" "1 \<le> i" "i \<le> 124"
  shows "\<exists>c'. freq_list_bm0_set_arfcn c i = Some (0, c') \<and> length c' = 16
     \<and> (\<forall>p. bit_at c' p \<longleftrightarrow> p = 128 - nat i \<or> bit_at c p)"
proof -
  define j where "j = nat (i - 1)"
  have j: "i = int j + 1" "j < 124" using assms by (auto simp: j_def)
  let ?k = "15 - j div 8"
  have k: "(15::int) - (i - 1) sdiv 8 = int ?k" "?k < length c" "nat ((i - 1) smod 8) = j mod 8"
    using j assms(1) by (auto simp: zdiv_int of_nat_diff signed_modulo_int_def sgn_if minus_div_mult_eq_mod nat_mod_distrib)
  have "j = 8 * (j div 8) + j mod 8" "j mod 8 < 8" "j div 8 \<le> 15" using j by auto
  moreover have "nat i = Suc j" using j by simp
  ultimately have "128 - nat i = 8 * ?k + (7 - j mod 8)" by linarith
  then have "\<forall>p. bit_at (c[?k := c ! ?k OR push_bit (j mod 8) 1]) p \<longleftrightarrow> p = 128 - nat i \<or> bit_at c p"
    using bit_at_or [OF k(2), of "7 - j mod 8"] by auto
  then show ?thesis
    using assms k by (auto simp: freq_list_bm0_set_arfcn_def Let_def GSM48_CELL_CHAN_DESC_SIZE_def)
qed

lemma set_arfcns_bm0:
  assumes "length c = 16" "\<forall>i \<in> set is. sel i \<longrightarrow> 1 \<le> i \<and> i \<le> 124"
  shows "\<exists>c'. set_arfcns freq_list_bm0_set_arfcn sel is c = Some (0, c') \<and> length c' = 16
     \<and> (\<forall>p. bit_at c' p \<longleftrightarrow> (\<exists>i \<in> set is. sel i \<and> p = 128 - nat i) \<or> bit_at c p)"
  using assms
proof (induction "is" arbitrary: c)
  case Nil
  then show ?case by simp
next
  case (Cons i "is")
  show ?case
  proof (cases "sel i")
    case True
    then obtain c1 where c1: "freq_list_bm0_set_arfcn c i = Some (0, c1)" "length c1 = 16"
        "\<And>p. bit_at c1 p \<longleftrightarrow> p = 128 - nat i \<or> bit_at c p"
      using bm0_set_ok Cons.prems by fastforce
    then show ?thesis using Cons.IH [OF c1(2)] Cons.prems True by auto
  next
    case False
    then show ?thesis using Cons by auto
  qed
qed

lemma bit_at_zero: "p < 8 * n \<Longrightarrow> \<not> bit_at (replicate n 0) p"
  by (simp add: bit_at_def)

text \<open>For a P-GSM cell the list generated for SI2/SI5 is the bit map 0 of exactly the ARFCNs 1..124
  that are set in the bit vector.\<close>

lemma bitvec2freq_list_bm0:
  assumes "band bts = GSM_BAND_900" "1 \<le> c0_arfcn bts" "c0_arfcn bts \<le> 124" "length c = 16" "125 \<le> nbits"
  shows "\<exists>c'. bitvec2freq_list arfcn2band arfcns0 f0_init c bv nbits bts False False = Some (0, c')
     \<and> length c' = 16 \<and> set (dec_freq_list c') = {i. 1 \<le> i \<and> i \<le> 124 \<and> bv i}"
proof -
  let ?sel = "\<lambda>i. 1 \<le> i \<and> i \<le> 124 \<and> bv i"
  have z: "(replicate 16 (0::u8))[0 := 0] = replicate 16 0" by (simp add: numeral_eq_Suc)
  obtain c' where c': "set_arfcns freq_list_bm0_set_arfcn ?sel [0..nbits - 1] (replicate 16 0) = Some (0, c')"
      "length c' = 16"
      "\<And>p. bit_at c' p \<longleftrightarrow> (\<exists>i \<in> set [0..nbits - 1]. ?sel i \<and> p = 128 - nat i) \<or> bit_at (replicate 16 0) p"
    using set_arfcns_bm0 [of "replicate 16 0" "[0..nbits - 1]" ?sel] by auto
  have at: "bit_at c' (128 - nat i) \<longleftrightarrow> bv i" if "1 \<le> i" "i \<le> 124" for i
  proof -
    have "128 - nat i = 128 - nat j \<longleftrightarrow> j = i" if "1 \<le> j" "j \<le> 124" for j
      using that \<open>1 \<le> i\<close> \<open>i \<le> 124\<close> by auto
    moreover have "\<not> bit_at (replicate 16 0) (128 - nat i)" using that by (intro bit_at_zero) auto
    ultimately show ?thesis using c'(3) that assms(5) by auto
  qed
  have "\<not> bit_at c' 0 \<and> \<not> bit_at c' 1"
    using c'(3) [of 0] c'(3) [of 1] bit_at_zero [of 0 16] bit_at_zero [of 1 16] by auto
  then have "set (dec_freq_list c') = {i. 1 \<le> i \<and> i \<le> 124 \<and> bv i}"
    using at by (auto simp: dec_freq_list_def dec_bm0_def)
  moreover have "bitvec2freq_list arfcn2band arfcns0 f0_init c bv nbits bts False False = Some (0, c')"
    using assms c'(1) z by (simp add: bitvec2freq_list_def)
  ultimately show ?thesis using c'(2) by blast
qed

lemma header_f0:
  "push_bit 9 (uint (c ! 0) AND 1) OR push_bit 1 (uint (c ! 1)) OR (drop_bit 7 (uint (c ! 2)) AND 1) = chan_f0 c"
proof (rule bit_eqI)
  fix n
  have "bit (chan_f0 c) n \<longleftrightarrow> n < 10 \<and> bit_at c (16 - n)"
    by (auto simp: chan_f0_def msb_val_def bit_horner_sum_bit_iff bits_from_def rev_nth)
  also have "\<dots> \<longleftrightarrow> n = 9 \<and> bit (c ! 0) 0 \<or> 1 \<le> n \<and> n \<le> 8 \<and> bit (c ! 1) (n - 1) \<or> n = 0 \<and> bit (c ! 2) 7"
  proof -
    consider "n = 0" | "1 \<le> n" "n \<le> 8" | "n = 9" | "9 < n" by linarith
    then show ?thesis
    proof cases
      case 2
      then have "(16 - n) div 8 = 1" "(16 - n) mod 8 = 8 - n" by (auto simp: div_nat_eqI mod_nat_eqI)
      then show ?thesis using 2 by (simp add: bit_at_def)
    qed (auto simp: bit_at_def)
  qed
  also have "\<dots> \<longleftrightarrow> bit (push_bit 9 (uint (c ! 0) AND 1) OR push_bit 1 (uint (c ! 1)) OR (drop_bit 7 (uint (c ! 2)) AND 1)) n"
  proof -
    show ?thesis
      by (simp only: bit_or_iff bit_and_iff bit_push_bit_iff_int bit_drop_bit_eq o_def bit_1_iff bit_uint_iff) auto
  qed
  finally show "bit (push_bit 9 (uint (c ! 0) AND 1) OR push_bit 1 (uint (c ! 1)) OR (drop_bit 7 (uint (c ! 2)) AND 1)) n
      \<longleftrightarrow> bit (chan_f0 c) n" by blast
qed

lemma and_1023: "(x::int) AND 1023 = x mod 1024"
  using take_bit_eq_mod [of 10 x] take_bit_eq_mask [of 10 x] by (simp add: mask_eq_exp_minus_1)

lemma bmrel_set_ok:
  assumes c: "length c = 16" "chan_f0 c = m" and i: "0 \<le> i" "i < 1024" "(i - m) mod 1024 \<le> 111"
    and m: "0 \<le> m" "m < 1024"
  shows "\<exists>c'. freq_list_bmrel_set_arfcn c i = Some (0, c') \<and> length c' = 16
     \<and> (\<forall>p. bit_at c' p \<longleftrightarrow> (i \<noteq> m \<and> p = 16 + nat ((i - m) mod 1024)) \<or> bit_at c p)"
proof -
  define d where "d = nat ((i - m) mod 1024)"
  have d: "(i - m) mod 1024 = int d" "d \<le> 111" using i(3) by (auto simp: d_def)
  let ?k = "2 + d div 8"
  have k: "(2::int) + int d sdiv 8 = int ?k" "?k < length c" "nat (7 - int d smod 8) = 7 - d mod 8"
    using d(2) c(1)
    by (auto simp: zdiv_int signed_modulo_int_def sgn_if minus_div_mult_eq_mod nat_diff_distrib nat_mod_distrib)
  have "\<forall>p. bit_at (c[?k := c ! ?k OR push_bit (7 - d mod 8) 1]) p \<longleftrightarrow> p = 16 + d \<or> bit_at c p"
    using bit_at_or [OF k(2), of "d mod 8"] by (auto simp: algebra_simps)
  moreover have "arr_get c 0 = Some (c ! 0)" "arr_get c 1 = Some (c ! 1)" "arr_get c 2 = Some (c ! 2)"
    using c(1) by (auto simp: arr_get_def)
  moreover have "arr_get c (2 + int (d div 8)) = Some (c ! ?k)"
    "arr_set c (2 + int (d div 8)) v = Some (c[?k := v])" for v
    using k(2) by (auto simp: arr_get_def arr_set_def nat_add_distrib)
  ultimately show ?thesis
    using c k d header_f0 [of c]
    by (auto simp: freq_list_bmrel_set_arfcn_def and_1023 Let_def simp flip: One_nat_def)
qed

lemma set_arfcns_bmrel:
  assumes "length c = 16" "chan_f0 c = m" "0 \<le> m" "m < 1024"
    and "\<forall>i \<in> set is. sel i \<longrightarrow> 0 \<le> i \<and> i < 1024 \<and> (i - m) mod 1024 \<le> 111"
  shows "\<exists>c'. set_arfcns freq_list_bmrel_set_arfcn sel is c = Some (0, c') \<and> length c' = 16
     \<and> (\<forall>p. bit_at c' p \<longleftrightarrow> (\<exists>i \<in> set is. sel i \<and> i \<noteq> m \<and> p = 16 + nat ((i - m) mod 1024)) \<or> bit_at c p)"
  using assms
proof (induction "is" arbitrary: c)
  case Nil
  then show ?case by simp
next
  case (Cons i "is")
  show ?case
  proof (cases "sel i")
    case True
    then have si: "0 \<le> i" "i < 1024" "(i - m) mod 1024 \<le> 111" using Cons.prems by auto
    obtain c1 where c1: "freq_list_bmrel_set_arfcn c i = Some (0, c1)" "length c1 = 16"
        "\<And>p. bit_at c1 p \<longleftrightarrow> (i \<noteq> m \<and> p = 16 + nat ((i - m) mod 1024)) \<or> bit_at c p"
      using bmrel_set_ok [OF Cons.prems(1,2) si Cons.prems(3,4)] by auto
    have "nat ((i - m) mod 1024) \<noteq> 0" if "i \<noteq> m"
      using that si Cons.prems(3,4) ahead_pos [of m 1024 i] by (simp add: ahead_def)
    then have "bits_from c1 7 10 = bits_from c 7 10" by (intro bits_from_cong) (auto simp: c1(3))
    then have "chan_f0 c1 = m" using Cons.prems(2) by (simp add: chan_f0_def)
    then show ?thesis using Cons.IH [OF c1(2)] Cons.prems True c1 by auto
  next
    case False
    then show ?thesis using Cons by auto
  qed
qed

section \<open>The circular minimum and maximum\<close>

definition circ :: "int \<Rightarrow> int" where "circ i = (i - 955) mod 1024"

lemma circ_eq: "0 \<le> i \<Longrightarrow> i < 1024 \<Longrightarrow> circ i = (if 955 \<le> i then i - 955 else i + 69)"
proof -
  assume "0 \<le> i" "i < 1024"
  moreover have "i + 69 = i - 955 + 1024" by simp
  then have "(i - 955) mod 1024 = (i + 69) mod 1024" by (simp only: mod_add_self2)
  ultimately show ?thesis by (auto simp: circ_def)
qed

lemma minmax_step_first: "0 \<le> i \<Longrightarrow> minmax_step i (- 1, - 1) = (i, i)"
  by (simp add: minmax_step_def min_step_def max_step_def)

lemma minmax_step_next:
  assumes "0 \<le> i" "i < 1024" "0 \<le> mn" "mn < 1024" "0 \<le> mx" "mx < 1024"
  shows "minmax_step i (mn, mx) = (if circ i < circ mn then i else mn, if circ mx < circ i then i else mx)"
proof -
  have "min_step i mn = (if circ i < circ mn then i else mn)"
    using assms by (simp add: min_step_def Let_def circ_eq)
  moreover have "max_step i mx = (if circ mx < circ i then i else mx)"
    using assms by (simp add: max_step_def Let_def circ_eq)
  ultimately show ?thesis by (simp add: minmax_step_def)
qed

lemma minmax_fold:
  assumes "\<forall>i \<in> set is. 0 \<le> i \<and> i < 1024" "mn \<in> {0..<1024}" "mx \<in> {0..<1024}"
  shows "\<exists>mn' mx'. fold (\<lambda>i mm. if sel i then minmax_step i mm else mm) is (mn, mx) = (mn', mx')
    \<and> mn' \<in> insert mn {i \<in> set is. sel i} \<and> mx' \<in> insert mx {i \<in> set is. sel i}
    \<and> (\<forall>i \<in> insert mn {i \<in> set is. sel i}. circ mn' \<le> circ i)
    \<and> (\<forall>i \<in> insert mx {i \<in> set is. sel i}. circ i \<le> circ mx')"
  using assms
proof (induction "is" arbitrary: mn mx)
  case Nil
  then show ?case by simp
next
  case (Cons i "is")
  show ?case
  proof (cases "sel i")
    case True
    let ?mn = "if circ i < circ mn then i else mn" and ?mx = "if circ mx < circ i then i else mx"
    have step: "minmax_step i (mn, mx) = (?mn, ?mx)" using Cons.prems by (intro minmax_step_next) auto
    have "\<forall>i \<in> set is. 0 \<le> i \<and> i < 1024" "?mn \<in> {0..<1024}" "?mx \<in> {0..<1024}"
      using Cons.prems by auto
    from Cons.IH [OF this] obtain mn' mx' where
      ih: "fold (\<lambda>i mm. if sel i then minmax_step i mm else mm) is (?mn, ?mx) = (mn', mx')"
        "mn' \<in> insert ?mn {i \<in> set is. sel i}" "mx' \<in> insert ?mx {i \<in> set is. sel i}"
        "\<forall>i \<in> insert ?mn {i \<in> set is. sel i}. circ mn' \<le> circ i"
        "\<forall>i \<in> insert ?mx {i \<in> set is. sel i}. circ i \<le> circ mx'" by blast
    show ?thesis
    proof (intro exI conjI)
      show "fold (\<lambda>i mm. if sel i then minmax_step i mm else mm) (i # is) (mn, mx) = (mn', mx')"
        using True step ih(1) by simp
      show "mn' \<in> insert mn {j \<in> set (i # is). sel j}" "mx' \<in> insert mx {j \<in> set (i # is). sel j}"
        using True ih(2,3) by (auto split: if_splits)
      show "\<forall>j \<in> insert mn {j \<in> set (i # is). sel j}. circ mn' \<le> circ j"
        using ih(4) by (fastforce split: if_splits)
      show "\<forall>j \<in> insert mx {j \<in> set (i # is). sel j}. circ j \<le> circ mx'"
        using ih(5) by (fastforce split: if_splits)
    qed
  next
    case False
    then have "{j \<in> set (i # is). sel j} = {j \<in> set is. sel j}" by auto
    then show ?thesis using Cons.IH [of mn mx] Cons.prems False by simp
  qed
qed

lemma minmax_fold_start:
  assumes "\<forall>i \<in> set is. 0 \<le> i \<and> i < 1024" and S: "S = {i \<in> set is. sel i}"
  shows "S = {} \<and> fold (\<lambda>i mm. if sel i then minmax_step i mm else mm) is (- 1, - 1) = (- 1, - 1)
    \<or> (\<exists>mn \<in> S. \<exists>mx \<in> S. fold (\<lambda>i mm. if sel i then minmax_step i mm else mm) is (- 1, - 1) = (mn, mx)
         \<and> (\<forall>i \<in> S. circ mn \<le> circ i \<and> circ i \<le> circ mx))"
  using assms(1) unfolding S
proof (induction "is")
  case Nil
  then show ?case by simp
next
  case (Cons i "is")
  show ?case
  proof (cases "sel i")
    case True
    have "\<forall>i \<in> set is. 0 \<le> i \<and> i < 1024" "i \<in> {0..<1024}" using Cons.prems by auto
    from minmax_fold [OF this this(2), of sel] obtain mn mx where
      "fold (\<lambda>i mm. if sel i then minmax_step i mm else mm) is (i, i) = (mn, mx)"
      "mn \<in> insert i {i \<in> set is. sel i}" "mx \<in> insert i {i \<in> set is. sel i}"
      "\<forall>j \<in> insert i {i \<in> set is. sel i}. circ mn \<le> circ j"
      "\<forall>j \<in> insert i {i \<in> set is. sel i}. circ j \<le> circ mx" by blast
    moreover have "{j \<in> set (i # is). sel j} = insert i {j \<in> set is. sel j}" using True by auto
    ultimately show ?thesis using True Cons.prems by (auto simp: minmax_step_first)
  next
    case False
    then have "{j \<in> set (i # is). sel j} = {j \<in> set is. sel j}" by auto
    then show ?thesis using Cons False by simp
  qed
qed

lemma circ_diff: "circ j \<le> circ i \<Longrightarrow> (i - j) mod 1024 = circ i - circ j"
  using ahead_diff [of 1024 955 j i] by (simp add: ahead_def circ_def)

lemma var_bitmap_ok:
  assumes c: "c = replicate 16 0" and m: "m \<in> S" "0 \<le> m" "m < 1024"
    and S: "S = {i \<in> set is. sel i}" "\<And>i. i \<in> S \<Longrightarrow> 0 \<le> i \<and> i < 1024 \<and> (i - m) mod 1024 \<le> 111"
    and hd: "(do { c1 \<leftarrow> arr_set c 0 0x8e; write_orig_arfcn c1 m }) = Some c2"
  shows "\<exists>c'. set_arfcns freq_list_bmrel_set_arfcn sel is c2 = Some (0, c') \<and> length c' = 16
     \<and> set (dec_freq_list c') = S"
proof -
  have c2: "length c2 = 16" "\<forall>q < 7. bit_at c2 q = bit (0x8e :: u8) (7 - q)"
      "bits_from c2 7 10 = msb_bits 10 m" "\<And>q. 17 \<le> q \<Longrightarrow> bit_at c2 q = (24 \<le> q \<and> bit_at c q)"
    using write_orig_arfcn_ok [of c "0x8e" m] hd c by auto
  have f2: "chan_f0 c2 = m" using chan_f0_write [OF c2(3) m(2,3)] .
  obtain c' where c': "set_arfcns freq_list_bmrel_set_arfcn sel is c2 = Some (0, c')" "length c' = 16"
      "\<And>p. bit_at c' p \<longleftrightarrow> (\<exists>i \<in> set is. sel i \<and> i \<noteq> m \<and> p = 16 + nat ((i - m) mod 1024)) \<or> bit_at c2 p"
    using set_arfcns_bmrel [OF c2(1) f2 m(2,3)] S by blast
  have pos: "0 < (i - m) mod 1024" if "i \<in> S" "i \<noteq> m" for i
    using ahead_pos [of m 1024 i] S(2) [OF that(1)] m that(2) by (simp add: ahead_def)
  have low: "bit_at c' p = bit_at c2 p" if "p < 17" for p
    using c'(3) [of p] that pos S(1) by fastforce
  have "bits_from c' 7 10 = bits_from c2 7 10" using low by (intro bits_from_cong) auto
  then have f': "chan_f0 c' = m" using f2 by (simp add: chan_f0_def)
  have high: "bit_at c' (16 + nat k) \<longleftrightarrow> (\<exists>i \<in> S. i \<noteq> m \<and> k = (i - m) mod 1024)" if "1 \<le> k" "k \<le> 111" for k
  proof -
    have "\<not> bit_at c2 (16 + nat k)" using c2(4) [of "16 + nat k"] that bit_at_zero [of "16 + nat k" 16] c by auto
    moreover have "nat k = nat ((i - m) mod 1024) \<longleftrightarrow> k = (i - m) mod 1024" for i
      using that by (auto simp: nat_eq_iff2)
    ultimately show ?thesis using c'(3) [of "16 + nat k"] S(1) by auto
  qed
  have bk: "(m + (i - m) mod 1024) mod 1024 = i" if "i \<in> S" for i
    using S(2) [OF that] by (simp add: mod_add_right_eq)
  have "dec_freq_list c' = dec_var_bitmap c'" using low c2(2) by (simp add: dec_freq_list_def)
  moreover have "set (dec_var_bitmap c') = S"
  proof
    show "set (dec_var_bitmap c') \<subseteq> S"
      using m bk high by (auto simp: dec_var_bitmap_def f')
    show "S \<subseteq> set (dec_var_bitmap c')"
    proof
      fix i assume i: "i \<in> S"
      show "i \<in> set (dec_var_bitmap c')"
      proof (cases "i = m")
        case False
        then have "bit_at c' (16 + nat ((i - m) mod 1024))" using high [of "(i - m) mod 1024"] pos [OF i] S(2) [OF i] i by auto
        moreover have "i = (m + (i - m) mod 1024) mod 1024" using bk [OF i] by simp
        ultimately show ?thesis
          using pos [OF i False] S(2) [OF i] unfolding dec_var_bitmap_def f' by fastforce
      qed (simp add: dec_var_bitmap_def f')
    qed
  qed
  ultimately show ?thesis using c' by auto
qed

text \<open>Property C23. When the selected ARFCNs lie within 111 of each other on the circle that starts at 955, and no
  combined SI is forced, the generated list is a variable bit map that decodes to exactly the selected
  ARFCNs; the circular minimum found by the loop is the base of the bit map.\<close>

theorem bitvec2freq_list_var_bitmap:
  assumes c: "length c = 16" and nb: "nbits \<le> 1024"
    and pgsm: "pgsm = (band bts = GSM_BAND_900 \<and> 1 \<le> c0_arfcn bts \<and> c0_arfcn bts \<le> 124)"
    and no_bm0: "bis \<or> ter \<or> \<not> pgsm"
    and comb: "\<not> (if force_combined_si_set bts then force_combined_si bts else model_force_combined_si bts)"
    and S: "S = {i. 0 \<le> i \<and> i < nbits \<and> bv i \<and> use_arfcn arfcn2band bts bis ter pgsm i}" "S \<noteq> {}"
    and spread: "\<And>i j. i \<in> S \<Longrightarrow> j \<in> S \<Longrightarrow> circ i - circ j \<le> 111"
  shows "\<exists>c'. bitvec2freq_list arfcn2band arfcns0 f0_init c bv nbits bts bis ter = Some (0, c')
     \<and> length c' = 16 \<and> set (dec_freq_list c') = S"
proof -
  let ?sel = "\<lambda>i. bv i \<and> use_arfcn arfcn2band bts bis ter pgsm i"
  have S': "S = {i \<in> set [0..nbits - 1]. ?sel i}" using S(1) by auto
  obtain mn mx where mm: "mn \<in> S" "mx \<in> S"
      "fold (\<lambda>i mm. if ?sel i then minmax_step i mm else mm) [0..nbits - 1] (- 1, - 1) = (mn, mx)"
      "\<And>i. i \<in> S \<Longrightarrow> circ mn \<le> circ i" "\<And>i. i \<in> S \<Longrightarrow> circ i \<le> circ mx"
    using minmax_fold_start [OF _ S'] S(2) nb by auto
  have rng: "0 \<le> i \<and> i < 1024" if "i \<in> S" for i using that S(1) nb by auto
  have near: "(i - mn) mod 1024 \<le> 111" if "i \<in> S" for i
    using circ_diff [OF mm(4) [OF that]] spread [OF that mm(1)] by simp
  let ?z = "replicate 16 (0::u8)"
  obtain c2 where hd: "(do { c1 \<leftarrow> arr_set ?z 0 0x8e; write_orig_arfcn c1 mn }) = Some c2"
    using write_orig_arfcn_ok [of ?z "0x8e" mn] by auto
  obtain c' where c': "set_arfcns freq_list_bmrel_set_arfcn ?sel [0..nbits - 1] c2 = Some (0, c')"
      "length c' = 16" "set (dec_freq_list c') = S"
    using var_bitmap_ok [OF refl mm(1) _ _ S' _ hd] rng [OF mm(1)] rng near by auto
  have sel_eq: "(\<lambda>i. bv i \<and> (\<not> bis \<and> \<not> ter \<and> band_compatible arfcn2band bts i
          \<or> bis \<and> pgsm \<and> band_compatible arfcn2band bts i \<and> (i < 1 \<or> 124 < i)
          \<or> ter \<and> \<not> band_compatible arfcn2band bts i)) = ?sel"
    using comb by (auto simp: use_arfcn_def fun_eq_iff)
  have "enc_freq_lst_var_bitmap arfcn2band ?z bv nbits bts bis ter mn pgsm = Some (0, c')"
    using hd c'(1) unfolding enc_freq_lst_var_bitmap_def sel_eq
    by (auto simp: write_orig_arfcn_def arr_set_def arr_get_def)
  moreover have "(mx - mn) mod 1024 \<le> 111" "mx \<noteq> - 1" using near [OF mm(2)] rng [OF mm(2)] by auto
  ultimately have "bitvec2freq_list arfcn2band arfcns0 f0_init c bv nbits bts bis ter = Some (0, c')"
    using mm(3) c no_bm0 unfolding bitvec2freq_list_def pgsm [symmetric] Let_def
    by (auto simp: and_1023)
  then show ?thesis using c' by blast
qed


definition witness_bts :: "gsm_band \<Rightarrow> int \<Rightarrow> si_bts" where
  "witness_bts b c0 = \<lparr>band = b, c0_arfcn = c0, force_combined_si_set = False, force_combined_si = False,
     model_force_combined_si = False\<rparr>"

theorem bitvec2freq_list_var_bitmap_witness:
  "\<exists>c'. bitvec2freq_list (\<lambda>_. Some GSM_BAND_1800) [] 0 (replicate 16 0) (\<lambda>i. i = 600 \<or> i = 620) 1024
        (witness_bts GSM_BAND_1800 600) False False = Some (0, c')
     \<and> length c' = 16 \<and> set (dec_freq_list c') = {600, 620}"
  by (rule bitvec2freq_list_var_bitmap [where pgsm = False])
    (auto simp: witness_bts_def use_arfcn_def band_compatible_def circ_def)

text \<open>When the filter removes nothing (the 1024 format without ARFCN 0, at most 16
  values), \<open>range_encode\<close> itself is correct: it returns 0 and the octets decode to the ARFCNs it was
  given.\<close>

lemma range_encode_1024_roundtrip:
  assumes fs: "sorted_wrt (<) fs" "set fs \<subseteq> {1..<1024}" "length fs \<le> 16" and c: "length c = 16"
  shows "\<exists>c'. range_encode ARFCN_RANGE_1024 fs (length fs) (replicate RANGE_ENC_MAX_ARFCNS 0) 0 c = Some (0, c')
     \<and> length c' = 16 \<and> set (dec_freq_list c') = set fs"
proof -
  have no0: "0 \<notin> set fs" "filter (\<lambda>x. x \<noteq> 0) fs = fs" using fs(2) by (auto simp: filter_id_conv)
  have fit: "arfcns_fit 10 0 fs"
    using fs(1,2) by (auto simp: arfcns_fit_def strict_sorted_iff)
  obtain arr kept w where e: "range_enc_filter_arfcns fs (length fs) 0 = Some (arr, kept, 0)"
      "range_enc_arfcns 1023 (take kept arr) (replicate RANGE_ENC_MAX_ARFCNS 0) 0 = Some (0, w)"
      "length w = 29" "w_fits 10 w"
      "(\<lambda>x. (x + (0 + 1)) mod 1024) ` set (range_dec 10 (take 16 w) 0 0) = set fs - {0}"
    using filter_encode [OF fit, of 16] fs(3) no0 by auto
  have "kept = length fs" using range_enc_filter_arfcns_ok [of fs 0] e(1) no0 by auto
  moreover obtain c' where "range_encode_switch ARFCN_RANGE_1024 0 0 w c = Some (0, c')" "length c' = 16"
      "set (dec_freq_list c') = set fs"
    using range_encode_switch_ok [of ARFCN_RANGE_1024 c 0 w "set fs" 0] c e no0 by auto
  ultimately show ?thesis using e by (simp add: range_encode_def)
qed

text \<open>\<open>enc_freq_lst_range\<close> never takes its early return for too many ARFCNs: with 30 or
  more selected ones it has written behind the end of \<open>arfcns\<close> before the check can see it.\<close>

lemma enc_freq_lst_range_overflow:
  assumes "length arfcns0 = RANGE_ENC_MAX_ARFCNS"
    and "RANGE_ENC_MAX_ARFCNS < length (filter (\<lambda>i. bv i \<and> use_arfcn arfcn2band bts bis ter pgsm i) [0..nbits - 1])"
  shows "enc_freq_lst_range arfcn2band arfcns0 f0_init c bv nbits bts bis ter pgsm = None"
  using assms by (simp add: enc_freq_lst_range_def collect_arfcns_eq)

text \<open>\<open>range_enc_determine_range\<close> accepts 17 ARFCNs for the 1024 format even if ARFCN 0 is
  not one of them, but the format has room for 16 values besides ARFCN 0: one frequency is silently
  lost.\<close>

lemma range1024_loses_frequency:
  "let fs = map (\<lambda>i. 60 * i + 1) [0..16]
   in range_enc_determine_range fs = (ARFCN_RANGE_1024, Some 0)
    \<and> (case range_encode ARFCN_RANGE_1024 fs 17 (replicate RANGE_ENC_MAX_ARFCNS 0) 0 (replicate 16 0) of
         None \<Rightarrow> False
       | Some (rc, c) \<Rightarrow> rc = 0 \<and> length (dec_freq_list c) = 16 \<and> set (dec_freq_list c) \<subseteq> set fs)"
  by code_simp

end
