(* ===== verification/Gsm_Data.thy ===== *)
theory Gsm_Data
  imports Prelude
begin

unbundle bit_operations_syntax

text \<open>
  The data model of the base station controller, \<^verbatim>\<open>gsm_data.h\<close> and \<^verbatim>\<open>gsm_data.c\<close>: channel kinds,
  logical channels (lchans), timeslots, transceivers (TRX) and base stations (BTS), and the pure
  functions on them.  A pointer to an lchan inside its timeslot is its index in \<open>lchans\<close>; the
  state machine instance of an lchan or a timeslot is an option, \<^const>\<open>None\<close> standing for the null
  pointer.  The enumerations of channel kinds come from libosmocore; only their constructors are
  used, never their numbers.
\<close>

section \<open>Channel kinds\<close>

datatype gsm_phys_chan_config =
    GSM_PCHAN_NONE | GSM_PCHAN_CCCH | GSM_PCHAN_CCCH_SDCCH4 | GSM_PCHAN_TCH_F | GSM_PCHAN_TCH_H
  | GSM_PCHAN_SDCCH8_SACCH8C | GSM_PCHAN_PDCH | GSM_PCHAN_TCH_F_PDCH | GSM_PCHAN_UNKNOWN
  | GSM_PCHAN_CCCH_SDCCH4_CBCH | GSM_PCHAN_SDCCH8_SACCH8C_CBCH | GSM_PCHAN_TCH_F_TCH_H_PDCH

datatype gsm_chan_t =
    GSM_LCHAN_NONE | GSM_LCHAN_SDCCH | GSM_LCHAN_TCH_F | GSM_LCHAN_TCH_H | GSM_LCHAN_UNKNOWN
  | GSM_LCHAN_CCCH | GSM_LCHAN_PDTCH | GSM_LCHAN_CBCH

datatype gsm48_chan_mode =
    GSM48_CMODE_SIGN | GSM48_CMODE_SPEECH_V1 | GSM48_CMODE_SPEECH_EFR | GSM48_CMODE_SPEECH_AMR
  | GSM48_CMODE_DATA_14k5 | GSM48_CMODE_DATA_12k0 | GSM48_CMODE_DATA_6k0 | GSM48_CMODE_DATA_3k6

datatype channel_rate = CH_RATE_SDCCH | CH_RATE_HALF | CH_RATE_FULL

datatype gsm_bts_type =
    GSM_BTS_TYPE_UNKNOWN | GSM_BTS_TYPE_BS11 | GSM_BTS_TYPE_NANOBTS | GSM_BTS_TYPE_RBS2000
  | GSM_BTS_TYPE_NOKIA_SITE | GSM_BTS_TYPE_OSMOBTS

datatype bts_gprs_mode = BTS_GPRS_NONE | BTS_GPRS_GPRS | BTS_GPRS_EGPRS

text \<open>Subslots of a physical channel; the table has no entry for \<^verbatim>\<open>GSM_PCHAN_UNKNOWN\<close>, which is 0.\<close>

fun pchan_subslots :: "gsm_phys_chan_config \<Rightarrow> nat" where
  "pchan_subslots GSM_PCHAN_CCCH_SDCCH4 = 4"
| "pchan_subslots GSM_PCHAN_TCH_F = 1"
| "pchan_subslots GSM_PCHAN_TCH_H = 2"
| "pchan_subslots GSM_PCHAN_SDCCH8_SACCH8C = 8"
| "pchan_subslots GSM_PCHAN_CCCH_SDCCH4_CBCH = 4"
| "pchan_subslots GSM_PCHAN_SDCCH8_SACCH8C_CBCH = 8"
| "pchan_subslots GSM_PCHAN_TCH_F_TCH_H_PDCH = 2"
| "pchan_subslots GSM_PCHAN_TCH_F_PDCH = 1"
| "pchan_subslots _ = 0"

fun pchan_is_tch :: "gsm_phys_chan_config \<Rightarrow> bool" where
  "pchan_is_tch GSM_PCHAN_TCH_F = True"
| "pchan_is_tch GSM_PCHAN_TCH_H = True"
| "pchan_is_tch _ = False"

text \<open>The logical channel type of a physical channel; \<^const>\<open>None\<close> is the code's -1.\<close>

fun gsm_lchan_type_by_pchan :: "gsm_phys_chan_config \<Rightarrow> gsm_chan_t option" where
  "gsm_lchan_type_by_pchan GSM_PCHAN_TCH_F = Some GSM_LCHAN_TCH_F"
| "gsm_lchan_type_by_pchan GSM_PCHAN_TCH_H = Some GSM_LCHAN_TCH_H"
| "gsm_lchan_type_by_pchan GSM_PCHAN_SDCCH8_SACCH8C = Some GSM_LCHAN_SDCCH"
| "gsm_lchan_type_by_pchan GSM_PCHAN_SDCCH8_SACCH8C_CBCH = Some GSM_LCHAN_SDCCH"
| "gsm_lchan_type_by_pchan GSM_PCHAN_CCCH_SDCCH4 = Some GSM_LCHAN_SDCCH"
| "gsm_lchan_type_by_pchan GSM_PCHAN_CCCH_SDCCH4_CBCH = Some GSM_LCHAN_SDCCH"
| "gsm_lchan_type_by_pchan _ = None"

fun gsm_pchan_by_lchan_type :: "gsm_chan_t \<Rightarrow> gsm_phys_chan_config" where
  "gsm_pchan_by_lchan_type GSM_LCHAN_TCH_F = GSM_PCHAN_TCH_F"
| "gsm_pchan_by_lchan_type GSM_LCHAN_TCH_H = GSM_PCHAN_TCH_H"
| "gsm_pchan_by_lchan_type GSM_LCHAN_NONE = GSM_PCHAN_PDCH"
| "gsm_pchan_by_lchan_type GSM_LCHAN_PDTCH = GSM_PCHAN_PDCH"
| "gsm_pchan_by_lchan_type _ = GSM_PCHAN_UNKNOWN"

section \<open>Logical channels\<close>

datatype lchan_fsm_state =
    LCHAN_ST_UNUSED | LCHAN_ST_CBCH | LCHAN_ST_WAIT_TS_READY | LCHAN_ST_WAIT_ACTIV_ACK
  | LCHAN_ST_WAIT_RLL_RTP_ESTABLISH | LCHAN_ST_ESTABLISHED | LCHAN_ST_WAIT_RLL_RTP_RELEASED
  | LCHAN_ST_WAIT_BEFORE_RF_RELEASE | LCHAN_ST_WAIT_RF_RELEASE_ACK | LCHAN_ST_WAIT_AFTER_ERROR
  | LCHAN_ST_BORKEN

datatype lchan_activate_mode =
    FOR_NONE | FOR_MS_CHANNEL_REQUEST | FOR_ASSIGNMENT | FOR_HANDOVER | FOR_VTY

text \<open>
  A reference to an lchan anywhere in the network: the numbers of its BTS, TRX, timeslot and lchan.
  Subscriber connections are referred to by a number.
\<close>

type_synonym lchan_ref = "nat \<times> nat \<times> nat \<times> nat"
type_synonym conn_ref = nat

text \<open>
  Error causes and channel modes of the radio signalling link, as far as the code names them; the
  numbers are constants of libosmocore.
\<close>

datatype rsl_cause =
    RSL_ERR_EQUIPMENT_FAIL | RSL_ERR_RCH_ALR_ACTV_ALLOC | RSL_ERR_INTERWORKING
  | RSL_ERR_IE_NONEXIST | RSL_ERR_other nat

datatype rsl_cmod_spd = RSL_CMOD_SPD_none | RSL_CMOD_SPD_SIGN | RSL_CMOD_SPD_SPEECH

datatype rsl_act_type =
    RSL_ACT_INTRA_IMM_ASS | RSL_ACT_INTRA_NORM_ASS | RSL_ACT_INTER_ASYNC | RSL_ACT_INTER_SYNC

record gsm_encr =
  alg_id :: u8
  enc_key :: "u8 list"

record lchan_activate_info =
  activ_for :: lchan_activate_mode
  for_conn :: "conn_ref option"
  ai_chan_mode :: gsm48_chan_mode
  ai_encr :: gsm_encr
  ai_s15_s0 :: u16
  requires_voice_stream :: bool
  wait_before_switching_rtp :: bool
  msc_assigned_cic :: u16
  re_use_mgw_endpoint_from_lchan :: "lchan_ref option"

record lchan_fi =
  lf_state :: lchan_fsm_state
  lf_T :: "nat option"

record gsm_lchan =
  lc_nr :: nat
  last_error :: "string option"
  lc_fi :: "lchan_fi option"
  fi_rtp :: bool
  mgw_endpoint_ci_bts :: "nat option"
  act_info :: lchan_activate_info
  activ_ack :: bool
  immediate_assignment_sent :: bool
  concluded :: bool
  rel_requested :: bool
  do_rr_release :: bool
  in_error :: bool
  rsl_error_cause :: rsl_cause
  in_release_handler :: bool
  is_csfb :: bool
  lc_type :: gsm_chan_t
  rsl_cmode :: rsl_cmod_spd
  tch_mode :: gsm48_chan_mode
  bs_power :: u8
  ms_power :: u8
  lc_encr :: gsm_encr
  mr_ms_lv :: "u8 list"
  mr_bts_lv :: "u8 list"
  lc_s15_s0 :: u16
  sapis :: "u8 list"
  rqd_ta :: u8
  rqd_ref :: "nat option"
  lc_conn :: "conn_ref option"
  meas_rep_last_seen_nr :: u8

definition TS_MAX_LCHAN :: nat where "TS_MAX_LCHAN = 8"

definition no_encr :: gsm_encr where "no_encr = \<lparr> alg_id = 0, enc_key = [] \<rparr>"

definition no_info :: lchan_activate_info where
  "no_info = \<lparr> activ_for = FOR_NONE, for_conn = None, ai_chan_mode = GSM48_CMODE_SIGN,
     ai_encr = no_encr, ai_s15_s0 = 0, requires_voice_stream = False,
     wait_before_switching_rtp = False, msc_assigned_cic = 0,
     re_use_mgw_endpoint_from_lchan = None \<rparr>"

text \<open>All bytes zero except the number, the instance and the last error.\<close>

definition zero_lchan :: "nat \<Rightarrow> lchan_fi option \<Rightarrow> string option \<Rightarrow> gsm_lchan" where
  "zero_lchan n f err = \<lparr> lc_nr = n, last_error = err, lc_fi = f, fi_rtp = False,
     mgw_endpoint_ci_bts = None, act_info = no_info, activ_ack = False,
     immediate_assignment_sent = False, concluded = False, rel_requested = False,
     do_rr_release = False, in_error = False, rsl_error_cause = RSL_ERR_other 0, in_release_handler = False,
     is_csfb = False, lc_type = GSM_LCHAN_NONE, rsl_cmode = RSL_CMOD_SPD_none, tch_mode = GSM48_CMODE_SIGN,
     bs_power = 0, ms_power = 0, lc_encr = no_encr, mr_ms_lv = replicate 7 0,
     mr_bts_lv = replicate 7 0, lc_s15_s0 = 0, sapis = replicate 8 0, rqd_ta = 0, rqd_ref = None,
     lc_conn = None, meas_rep_last_seen_nr = 0 \<rparr>"

definition lchan_state_is :: "gsm_lchan \<Rightarrow> lchan_fsm_state \<Rightarrow> bool" where
  "lchan_state_is lchan st \<longleftrightarrow>
     (lc_fi lchan = None \<and> st = LCHAN_ST_UNUSED) \<or>
     (case lc_fi lchan of None \<Rightarrow> False | Some f \<Rightarrow> lf_state f = st)"

section \<open>Managed objects\<close>

datatype nm_opstate = NM_OPSTATE_DISABLED | NM_OPSTATE_ENABLED | NM_OPSTATE_NULL

text \<open>Availability: OK, the value 0xff, or any other value.\<close>

datatype nm_avstate = NM_AVSTATE_OK | NM_AVSTATE_0xff | NM_AVSTATE_other

record gsm_nm_state =
  operational :: nm_opstate
  availability :: nm_avstate

definition nm_is_running :: "gsm_nm_state \<Rightarrow> bool" where
  "nm_is_running s \<longleftrightarrow> operational s = NM_OPSTATE_ENABLED \<and>
     (availability s = NM_AVSTATE_OK \<or> availability s = NM_AVSTATE_0xff)"

section \<open>Timeslots\<close>

datatype ts_fsm_state =
    TS_ST_NOT_INITIALIZED | TS_ST_UNUSED | TS_ST_WAIT_PDCH_ACT | TS_ST_PDCH
  | TS_ST_WAIT_PDCH_DEACT | TS_ST_IN_USE | TS_ST_BORKEN

record ts_fi =
  tf_state :: ts_fsm_state
  tf_T :: "nat option"

record gsm_bts_trx_ts =
  ts_nr :: nat
  ts_fi :: "ts_fi option"
  last_errmsg :: "string option"
  pchan_from_config :: gsm_phys_chan_config
  pchan_on_init :: gsm_phys_chan_config
  pchan_is :: gsm_phys_chan_config
  pdch_act_allowed :: bool
  is_oml_ready :: bool
  is_rsl_ready :: bool
  ts_mo :: gsm_nm_state
  lchans :: "gsm_lchan list"

text \<open>The loop condition of \<^verbatim>\<open>ts_as_pchan_for_each_lchan\<close> at the lchan with index \<open>i\<close>.\<close>

definition lchan_iter_cond :: "gsm_bts_trx_ts \<Rightarrow> nat \<Rightarrow> gsm_phys_chan_config \<Rightarrow> bool" where
  "lchan_iter_cond ts i as_pchan \<longleftrightarrow>
     i < length (lchans ts) \<and> lc_fi (lchans ts ! i) \<noteq> None \<and> lc_nr (lchans ts ! i) < pchan_subslots as_pchan"

text \<open>The lchans a loop visits whose body changes nothing.\<close>

definition ts_as_pchan_for_each_lchan :: "gsm_bts_trx_ts \<Rightarrow> gsm_phys_chan_config \<Rightarrow> nat list" where
  "ts_as_pchan_for_each_lchan ts as_pchan =
     takeWhile (\<lambda>i. lchan_iter_cond ts i as_pchan) [0..<TS_MAX_LCHAN]"

definition ts_for_each_lchan :: "gsm_bts_trx_ts \<Rightarrow> nat list" where
  "ts_for_each_lchan ts = ts_as_pchan_for_each_lchan ts (pchan_is ts)"

definition ts_for_each_potential_lchan :: "gsm_bts_trx_ts \<Rightarrow> nat list" where
  "ts_for_each_potential_lchan ts = ts_as_pchan_for_each_lchan ts (pchan_on_init ts)"

text \<open>The state of an lchan that is known to have an instance.\<close>

definition lc_state :: "gsm_bts_trx_ts \<Rightarrow> nat \<Rightarrow> lchan_fsm_state" where
  "lc_state ts i = lf_state (the (lc_fi (lchans ts ! i)))"

definition ts_is_tch :: "gsm_bts_trx_ts \<Rightarrow> bool" where
  "ts_is_tch ts = pchan_is_tch (pchan_is ts)"

fun pchan_capable :: "gsm_phys_chan_config \<Rightarrow> gsm_phys_chan_config \<Rightarrow> bool" where
  "pchan_capable GSM_PCHAN_TCH_F_PDCH pchan = (pchan \<in> {GSM_PCHAN_TCH_F, GSM_PCHAN_PDCH})"
| "pchan_capable GSM_PCHAN_TCH_F_TCH_H_PDCH pchan =
     (pchan \<in> {GSM_PCHAN_TCH_F, GSM_PCHAN_TCH_H, GSM_PCHAN_PDCH})"
| "pchan_capable GSM_PCHAN_CCCH_SDCCH4_CBCH pchan =
     (pchan \<in> {GSM_PCHAN_CCCH_SDCCH4_CBCH, GSM_PCHAN_CCCH_SDCCH4, GSM_PCHAN_CCCH})"
| "pchan_capable GSM_PCHAN_CCCH_SDCCH4 pchan =
     (pchan \<in> {GSM_PCHAN_CCCH_SDCCH4, GSM_PCHAN_CCCH})"
| "pchan_capable GSM_PCHAN_SDCCH8_SACCH8C_CBCH pchan =
     (pchan \<in> {GSM_PCHAN_SDCCH8_SACCH8C_CBCH, GSM_PCHAN_SDCCH8_SACCH8C})"
| "pchan_capable p pchan = (p = pchan)"

definition ts_is_capable_of_pchan :: "gsm_bts_trx_ts \<Rightarrow> gsm_phys_chan_config \<Rightarrow> bool" where
  "ts_is_capable_of_pchan ts pchan = pchan_capable (pchan_on_init ts) pchan"

fun lchant_capable :: "gsm_phys_chan_config \<Rightarrow> gsm_chan_t \<Rightarrow> bool" where
  "lchant_capable GSM_PCHAN_TCH_F t = (t = GSM_LCHAN_TCH_F)"
| "lchant_capable GSM_PCHAN_TCH_H t = (t = GSM_LCHAN_TCH_H)"
| "lchant_capable GSM_PCHAN_TCH_F_PDCH t = (t \<in> {GSM_LCHAN_TCH_F, GSM_LCHAN_PDTCH})"
| "lchant_capable GSM_PCHAN_TCH_F_TCH_H_PDCH t =
     (t \<in> {GSM_LCHAN_TCH_F, GSM_LCHAN_TCH_H, GSM_LCHAN_PDTCH})"
| "lchant_capable GSM_PCHAN_PDCH t = (t = GSM_LCHAN_PDTCH)"
| "lchant_capable GSM_PCHAN_CCCH t = (t = GSM_LCHAN_CCCH)"
| "lchant_capable GSM_PCHAN_CCCH_SDCCH4_CBCH t = (t \<in> {GSM_LCHAN_CCCH, GSM_LCHAN_SDCCH})"
| "lchant_capable GSM_PCHAN_CCCH_SDCCH4 t = (t \<in> {GSM_LCHAN_CCCH, GSM_LCHAN_SDCCH})"
| "lchant_capable GSM_PCHAN_SDCCH8_SACCH8C t = (t \<in> {GSM_LCHAN_CCCH, GSM_LCHAN_SDCCH})"
| "lchant_capable GSM_PCHAN_SDCCH8_SACCH8C_CBCH t = (t \<in> {GSM_LCHAN_CCCH, GSM_LCHAN_SDCCH})"
| "lchant_capable _ t = False"

definition ts_is_capable_of_lchant :: "gsm_bts_trx_ts \<Rightarrow> gsm_chan_t \<Rightarrow> bool" where
  "ts_is_capable_of_lchant ts t = lchant_capable (pchan_on_init ts) t"

section \<open>Transceivers and base stations\<close>

record gsm_bts_trx =
  trx_nr :: nat
  trx_mo :: gsm_nm_state
  bb_transc_mo :: gsm_nm_state
  trx_arfcn :: u16
  trx_ts :: "gsm_bts_trx_ts list"

record gsm_bts =
  bts_nr :: u8
  bts_type :: gsm_bts_type
  bts_mo :: gsm_nm_state
  oml_link :: bool
  gprs_mode :: bts_gprs_mode
  chan_alloc_reverse :: bool
  location_area_code :: u16
  cell_identity :: u16
  infinite_radio_link_timeout :: bool
  radio_link_timeout :: int
  depends_on :: "u32 list"
  local_neighbors :: "u8 list"
  trx_list :: "gsm_bts_trx list"

fun is_ipaccess_type :: "gsm_bts_type \<Rightarrow> bool" where
  "is_ipaccess_type GSM_BTS_TYPE_NANOBTS = True"
| "is_ipaccess_type GSM_BTS_TYPE_OSMOBTS = True"
| "is_ipaccess_type _ = False"

definition is_ipaccess_bts :: "gsm_bts \<Rightarrow> bool" where
  "is_ipaccess_bts bts = is_ipaccess_type (bts_type bts)"

definition trx_is_usable :: "gsm_bts_type \<Rightarrow> gsm_bts_trx \<Rightarrow> bool" where
  "trx_is_usable bt trx =
     (if is_ipaccess_type bt
      then nm_is_running (trx_mo trx) \<and> nm_is_running (bb_transc_mo trx)
      else True)"

definition ts_is_usable :: "gsm_bts_type \<Rightarrow> gsm_bts_trx \<Rightarrow> gsm_bts_trx_ts \<Rightarrow> bool" where
  "ts_is_usable bt trx ts =
     (if \<not> trx_is_usable bt trx then False
      else case ts_fi ts of
        None \<Rightarrow> False
      | Some f \<Rightarrow> tf_state f \<notin> {TS_ST_NOT_INITIALIZED, TS_ST_BORKEN})"

text \<open>One round of the loop of \<^verbatim>\<open>trx_count_free_ts\<close>.\<close>

definition count_free_ts :: "gsm_bts_type \<Rightarrow> gsm_bts_trx \<Rightarrow> gsm_phys_chan_config \<Rightarrow> gsm_bts_trx_ts \<Rightarrow> nat" where
  "count_free_ts bt trx pchan ts =
     (if \<not> ts_is_usable bt trx ts then 0
      else if pchan_is ts = GSM_PCHAN_PDCH then
        (case pchan_on_init ts of
           GSM_PCHAN_TCH_F_PDCH \<Rightarrow> (if pchan = GSM_PCHAN_TCH_F then 1 else 0)
         | GSM_PCHAN_TCH_F_TCH_H_PDCH \<Rightarrow>
             (if pchan = GSM_PCHAN_TCH_F then 1 else if pchan = GSM_PCHAN_TCH_H then 2 else 0)
         | _ \<Rightarrow> 0)
      else if pchan_is ts \<noteq> pchan then 0
      else length (filter (\<lambda>i. lchan_state_is (lchans ts ! i) LCHAN_ST_UNUSED) (ts_for_each_lchan ts)))"

definition trx_count_free_ts :: "gsm_bts_type \<Rightarrow> gsm_bts_trx \<Rightarrow> gsm_phys_chan_config \<Rightarrow> nat" where
  "trx_count_free_ts bt trx pchan =
     (if \<not> trx_is_usable bt trx then 0
      else fold (\<lambda>ts count. count + count_free_ts bt trx pchan ts) (trx_ts trx) 0)"

definition bts_count_free_ts :: "gsm_bts \<Rightarrow> gsm_phys_chan_config \<Rightarrow> nat" where
  "bts_count_free_ts bts pchan =
     fold (\<lambda>trx count. count + trx_count_free_ts (bts_type bts) trx pchan) (trx_list bts) 0"

text \<open>Initial timeslots of a new TRX, with their machines and without lchan instances.\<close>

definition alloc_ts :: "nat \<Rightarrow> gsm_bts_trx_ts" where
  "alloc_ts k = \<lparr> ts_nr = k, ts_fi = Some \<lparr> tf_state = TS_ST_NOT_INITIALIZED, tf_T = None \<rparr>,
     last_errmsg = None, pchan_from_config = GSM_PCHAN_NONE, pchan_on_init = GSM_PCHAN_NONE,
     pchan_is = GSM_PCHAN_NONE, pdch_act_allowed = False, is_oml_ready = False,
     is_rsl_ready = False, ts_mo = \<lparr> operational = NM_OPSTATE_NULL, availability = NM_AVSTATE_other \<rparr>,
     lchans = map (\<lambda>l. zero_lchan l None None) [0..<TS_MAX_LCHAN] \<rparr>"

definition gsm_bts_trx_alloc :: "gsm_bts \<Rightarrow> gsm_bts" where
  "gsm_bts_trx_alloc bts = bts\<lparr> trx_list := trx_list bts @
     [\<lparr> trx_nr = length (trx_list bts),
        trx_mo = \<lparr> operational = NM_OPSTATE_NULL, availability = NM_AVSTATE_other \<rparr>,
        bb_transc_mo = \<lparr> operational = NM_OPSTATE_NULL, availability = NM_AVSTATE_other \<rparr>,
        trx_arfcn = 0,
        trx_ts = map alloc_ts [0..<8] \<rparr>] \<rparr>"

section \<open>Dependencies between base stations\<close>

definition depends_calc_index_bit :: "nat \<Rightarrow> nat \<times> nat" where
  "depends_calc_index_bit nr = (nr div (8 * 4), nr mod (8 * 4))"

definition bts_depend_mark :: "gsm_bts \<Rightarrow> nat \<Rightarrow> gsm_bts option" where
  "bts_depend_mark bts dep =
     (let (idx, b) = depends_calc_index_bit dep in
      arr_get (depends_on bts) (int idx) \<bind> (\<lambda>w.
      arr_set (depends_on bts) (int idx) (w OR push_bit b 1) \<bind> (\<lambda>d.
      Some (bts\<lparr> depends_on := d \<rparr>))))"

definition bts_depend_clear :: "gsm_bts \<Rightarrow> nat \<Rightarrow> gsm_bts option" where
  "bts_depend_clear bts dep =
     (let (idx, b) = depends_calc_index_bit dep in
      arr_get (depends_on bts) (int idx) \<bind> (\<lambda>w.
      arr_set (depends_on bts) (int idx) (w AND NOT (push_bit b 1)) \<bind> (\<lambda>d.
      Some (bts\<lparr> depends_on := d \<rparr>))))"

definition bts_depend_is_depedency :: "gsm_bts \<Rightarrow> gsm_bts \<Rightarrow> bool option" where
  "bts_depend_is_depedency base other =
     (let (idx, b) = depends_calc_index_bit (unat (bts_nr other)) in
      arr_get (depends_on base) (int idx) \<bind> (\<lambda>w. Some (w AND push_bit b 1 > 0)))"

definition bts_is_online :: "gsm_bts \<Rightarrow> bool" where
  "bts_is_online bts =
     (if \<not> is_ipaccess_bts bts then True
      else if \<not> oml_link bts then False
      else operational (bts_mo bts) = NM_OPSTATE_ENABLED)"

fun bts_depend_check :: "gsm_bts \<Rightarrow> gsm_bts list \<Rightarrow> bool option" where
  "bts_depend_check bts [] = Some True"
| "bts_depend_check bts (other # rest) =
     bts_depend_is_depedency bts other \<bind> (\<lambda>dep.
       if \<not> dep then bts_depend_check bts rest
       else if bts_is_online other then bts_depend_check bts rest
       else Some False)"

section \<open>Radio link timeout and classmark\<close>

definition gsm_bts_get_radio_link_timeout :: "gsm_bts \<Rightarrow> int" where
  "gsm_bts_get_radio_link_timeout bts =
     (if infinite_radio_link_timeout bts then -1 else (radio_link_timeout bts + 1) * 4)"

text \<open>The cell option is a field of 4 bits.\<close>

definition gsm_bts_set_radio_link_timeout :: "gsm_bts \<Rightarrow> int \<Rightarrow> gsm_bts" where
  "gsm_bts_set_radio_link_timeout bts value =
     (if value < 0 then bts\<lparr> infinite_radio_link_timeout := True \<rparr>
      else let value = (if value < 4 then 4 else value);
               value = (if value > 64 then 64 else value)
           in bts\<lparr> infinite_radio_link_timeout := False,
                   radio_link_timeout := (value div 4 - 1) mod 16 \<rparr>)"

record gsm_classmark =
  classmark1_set :: bool
  classmark1_rev_lev :: nat
  classmark2_len :: nat
  classmark2 :: "u8 list"

definition classmark_is_r99 :: "gsm_classmark \<Rightarrow> bool" where
  "classmark_is_r99 cm =
     (let rev_lev = (if classmark1_set cm then classmark1_rev_lev cm
                     else if classmark2_len cm > 0 then unat (drop_bit 5 (classmark2 cm ! 0) AND 3)
                     else 0)
      in rev_lev \<ge> 2)"

section \<open>Local neighbors\<close>

definition gsm_bts_local_neighbor_add :: "gsm_bts \<Rightarrow> u8 \<Rightarrow> gsm_bts \<times> int" where
  "gsm_bts_local_neighbor_add bts neighbor =
     (if bts_nr bts = neighbor then (bts, -22)
      else if neighbor \<in> set (local_neighbors bts) then (bts, 0)
      else (bts\<lparr> local_neighbors := local_neighbors bts @ [neighbor] \<rparr>, 1))"

definition gsm_bts_local_neighbor_del :: "gsm_bts \<Rightarrow> u8 \<Rightarrow> gsm_bts \<times> int" where
  "gsm_bts_local_neighbor_del bts neighbor =
     (if neighbor \<notin> set (local_neighbors bts) then (bts, 0)
      else (bts\<lparr> local_neighbors := remove1 neighbor (local_neighbors bts) \<rparr>, 1))"

section \<open>Channel numbers\<close>

text \<open>
  The channel number element of the radio signalling link, \<^verbatim>\<open>cbits << 3 | ts_nr\<close>.  The value of the
  Osmocom PDCH channel number and the mask of the channel bits are constants of libosmocore and
  arguments here.  \<^const>\<open>None\<close> is a failed assertion.
\<close>

definition CCCH_LCHAN :: nat where "CCCH_LCHAN = 4"

definition pchan_cbits :: "u8 \<Rightarrow> gsm_phys_chan_config \<Rightarrow> nat \<Rightarrow> u8 option" where
  "pchan_cbits osmo_pdch pchan lchan_nr =
     (case pchan of
        GSM_PCHAN_TCH_F \<Rightarrow> if lchan_nr = 0 then Some 1 else None
      | GSM_PCHAN_TCH_F_PDCH \<Rightarrow> if lchan_nr = 0 then Some 1 else None
      | GSM_PCHAN_PDCH \<Rightarrow> if lchan_nr = 0 then Some (drop_bit 3 osmo_pdch) else None
      | GSM_PCHAN_TCH_H \<Rightarrow> if lchan_nr < 2 then Some (2 + of_nat lchan_nr) else None
      | GSM_PCHAN_CCCH_SDCCH4 \<Rightarrow>
          if lchan_nr = CCCH_LCHAN \<or> lchan_nr < 4 then Some (4 + of_nat lchan_nr) else None
      | GSM_PCHAN_CCCH_SDCCH4_CBCH \<Rightarrow>
          if lchan_nr = CCCH_LCHAN \<or> lchan_nr < 4 then Some (4 + of_nat lchan_nr) else None
      | GSM_PCHAN_SDCCH8_SACCH8C \<Rightarrow> if lchan_nr < 8 then Some (8 + of_nat lchan_nr) else None
      | GSM_PCHAN_SDCCH8_SACCH8C_CBCH \<Rightarrow> if lchan_nr < 8 then Some (8 + of_nat lchan_nr) else None
      | _ \<Rightarrow> if lchan_nr = 0 then Some 0x10 else None)"

definition gsm_pchan2chan_nr :: "u8 \<Rightarrow> gsm_phys_chan_config \<Rightarrow> u8 \<Rightarrow> nat \<Rightarrow> u8 option" where
  "gsm_pchan2chan_nr osmo_pdch pchan tsnr lchan_nr =
     pchan_cbits osmo_pdch pchan lchan_nr \<bind> (\<lambda>cbits.
       Some (push_bit 3 cbits OR (tsnr AND 7)))"

definition gsm_lchan2chan_nr :: "u8 \<Rightarrow> gsm_bts_trx_ts \<Rightarrow> nat \<Rightarrow> u8 option" where
  "gsm_lchan2chan_nr osmo_pdch ts i =
     gsm_pchan2chan_nr osmo_pdch (pchan_is ts) (of_nat (ts_nr ts)) (lc_nr (lchans ts ! i))"

text \<open>
  \<open>rsl_lchan_lookup\<close> returns the timeslot and lchan index and the code put into \<^verbatim>\<open>*rc\<close>;
  \<^const>\<open>None\<close> is the null pointer.
\<close>

definition EINVAL :: int where "EINVAL = 22"

definition rsl_lchan_lookup :: "u8 \<Rightarrow> u8 \<Rightarrow> gsm_bts_trx \<Rightarrow> u8 \<Rightarrow> ((nat \<times> nat) \<times> int) option" where
  "rsl_lchan_lookup osmo_pdch nr_mask trx chan_nr =
     (let tsn = unat (chan_nr AND 7);
          cbits = drop_bit 3 chan_nr;
          ts = trx_ts trx ! tsn;
          found = (\<lambda>idx ok. Some ((tsn, unat (idx :: u8)), if ok then 0 else - EINVAL))
      in if cbits = 1 then
           found 0 (ts_is_capable_of_pchan ts GSM_PCHAN_TCH_F \<or> pchan_on_init ts = GSM_PCHAN_PDCH)
         else if cbits AND 0x1e = 2 then
           found (cbits AND 1) (ts_is_capable_of_pchan ts GSM_PCHAN_TCH_H)
         else if cbits AND 0x1c = 4 then
           found (cbits AND 3) (ts_is_capable_of_pchan ts GSM_PCHAN_CCCH_SDCCH4)
         else if cbits AND 0x18 = 8 then
           found (cbits AND 7) (ts_is_capable_of_pchan ts GSM_PCHAN_SDCCH8_SACCH8C)
         else if cbits = 0x10 \<or> cbits = 0x11 \<or> cbits = 0x12 then
           found 0 (ts_is_capable_of_pchan ts GSM_PCHAN_CCCH)
         else if chan_nr AND nr_mask = osmo_pdch then
           found 0 (pchan_on_init ts = GSM_PCHAN_TCH_F_TCH_H_PDCH)
         else None)"

definition gsm_bts_get_cbch :: "gsm_bts \<Rightarrow> (nat \<times> nat) option" where
  "gsm_bts_get_cbch bts =
     (let c0 = trx_list bts ! 0 in
      if pchan_from_config (trx_ts c0 ! 0) = GSM_PCHAN_CCCH_SDCCH4_CBCH then Some (0, 2)
      else case filter (\<lambda>i. pchan_from_config (trx_ts c0 ! i) = GSM_PCHAN_SDCCH8_SACCH8C_CBCH) [0..<8] of
             [] \<Rightarrow> None
           | i # _ \<Rightarrow> Some (i, 2))"

end
