(* ===== verification/Osmo_Fsm.thy ===== *)
theory Osmo_Fsm
  imports Prelude
begin

unbundle bit_operations_syntax

text \<open>
  The finite state machine engine the components are written against.

  The engine (\<^verbatim>\<open>osmo_fsm_inst_dispatch\<close>, \<^verbatim>\<open>osmo_fsm_inst_state_chg\<close>) belongs to libosmocore and is
  not part of the repository.  It is an argument of every definition that uses it, a record of two
  functions over the state \<^typ>\<open>'s\<close> of a machine and its surroundings; what the repository relies
  on is the named hypothesis \<open>fsm_contract\<close>, the documented behaviour: an event reaches the
  all-state action when its bit is set in the all-state mask, else the action of the current state
  when its bit is set in that state's event mask, else it is refused with a negative code; a
  transition is taken only when the bit of the new state is set in the current state's mask.

  Results are values of \<open>res\<close>: \<open>Ok\<close>, or \<open>Abort\<close> for a failed \<^verbatim>\<open>OSMO_ASSERT\<close> or a dereferenced
  null pointer, or \<open>Deep\<close> when the bound on nested dispatches is used up.
\<close>

section \<open>Results of handlers\<close>

datatype 'a res = Ok (the_ok: 'a) | Abort | Deep

primrec rbind :: "'a res \<Rightarrow> ('a \<Rightarrow> 'b res) \<Rightarrow> 'b res" where
  "rbind (Ok a) f = f a"
| "rbind Abort f = Abort"
| "rbind Deep f = Deep"

text \<open>Sequencing of handlers, and iteration over a list.\<close>

primrec steps :: "('s \<Rightarrow> 's res) list \<Rightarrow> 's \<Rightarrow> 's res" where
  "steps [] = Ok"
| "steps (f # fs) = (\<lambda>s. rbind (f s) (steps fs))"

primrec for_each :: "'a list \<Rightarrow> ('a \<Rightarrow> 's \<Rightarrow> 's res) \<Rightarrow> 's \<Rightarrow> 's res" where
  "for_each [] f = Ok"
| "for_each (x # xs) f = (\<lambda>s. rbind (f x s) (for_each xs f))"

lemma rbind_Ok_right [simp]: "rbind m Ok = m"
  by (cases m) simp_all

definition osmo_assert :: "bool \<Rightarrow> 's \<Rightarrow> 's res" where
  "osmo_assert b s = (if b then Ok s else Abort)"

lemma rbind_Ok_iff [simp]: "rbind m f = Ok b \<longleftrightarrow> (\<exists>a. m = Ok a \<and> f a = Ok b)"
  by (cases m) auto

lemma rbind_Abort_iff [simp]: "rbind m f = Abort \<longleftrightarrow> m = Abort \<or> (\<exists>a. m = Ok a \<and> f a = Abort)"
  by (cases m) auto

lemma rbind_Deep_iff [simp]: "rbind m f = Deep \<longleftrightarrow> m = Deep \<or> (\<exists>a. m = Ok a \<and> f a = Deep)"
  by (cases m) auto

section \<open>Postconditions\<close>

text \<open>
  \<open>post m Q\<close>: the handler returned, without a failed assertion and within the bound on nested
  dispatches, and the new state satisfies \<open>Q\<close>.
\<close>

definition post :: "'a res \<Rightarrow> ('a \<Rightarrow> bool) \<Rightarrow> bool" where
  "post m Q \<longleftrightarrow> (case m of Ok a \<Rightarrow> Q a | Abort \<Rightarrow> False | Deep \<Rightarrow> False)"

lemma post_Ok [simp]: "post (Ok a) Q = Q a" and post_Abort [simp]: "\<not> post Abort Q"
  and post_Deep [simp]: "\<not> post Deep Q"
  by (simp_all add: post_def)

lemma post_iff: "post m Q \<longleftrightarrow> (\<exists>a. m = Ok a \<and> Q a)"
  by (cases m) simp_all

lemma post_rbind: "post (rbind m f) Q \<longleftrightarrow> post m (\<lambda>a. post (f a) Q)"
  by (cases m) simp_all

lemma post_mono: "post m P \<Longrightarrow> (\<And>a. P a \<Longrightarrow> Q a) \<Longrightarrow> post m Q"
  by (cases m) simp_all

lemma post_OkD: "post m Q \<Longrightarrow> m = Ok a \<Longrightarrow> Q a"
  by simp

lemma post_conj: "post m (\<lambda>a. P a \<and> Q a) \<longleftrightarrow> post m P \<and> post m Q"
  by (cases m) simp_all

lemma post_for_each:
  assumes "\<And>x s. x \<in> set xs \<Longrightarrow> I s \<Longrightarrow> post (f x s) I" "I s"
  shows "post (for_each xs f s) I"
  using assms by (induction xs arbitrary: s) (auto simp: post_rbind intro: post_mono)

lemma post_osmo_assert [simp]: "post (osmo_assert b s) Q \<longleftrightarrow> b \<and> Q s"
  by (simp add: osmo_assert_def)

text \<open>
  \<open>pst b m Q\<close> is \<open>post m Q\<close> when \<open>b\<close> is false; when \<open>b\<close> is true the handler may also have failed an
  assertion or used a null pointer, but not have exceeded the bound on nested calls.
\<close>

definition pst :: "bool \<Rightarrow> 'a res \<Rightarrow> ('a \<Rightarrow> bool) \<Rightarrow> bool" where
  "pst b m Q \<longleftrightarrow> (case m of Ok a \<Rightarrow> Q a | Abort \<Rightarrow> b | Deep \<Rightarrow> False)"

lemma pst_Ok [simp]: "pst b (Ok a) Q = Q a" and pst_Abort [simp]: "pst b Abort Q = b"
  and pst_Deep [simp]: "\<not> pst b Deep Q"
  by (simp_all add: pst_def)

lemma pst_strict: "pst False m Q = post m Q"
  by (simp add: pst_def post_def)

lemma pst_rbind: "pst b (rbind m f) Q \<longleftrightarrow> pst b m (\<lambda>a. pst b (f a) Q)"
  by (cases m) simp_all

lemma pst_mono: "pst b m P \<Longrightarrow> (\<And>a. P a \<Longrightarrow> Q a) \<Longrightarrow> pst b m Q"
  by (cases m) simp_all

lemma pstE:
  assumes "pst b m Q"
  obtains (ok) a where "m = Ok a" "Q a" | (failed) "b" "m = Abort"
  using assms by (cases m) auto

lemma pst_for_each:
  assumes "\<And>x s. x \<in> set xs \<Longrightarrow> I s \<Longrightarrow> pst b (f x s) I" "I s"
  shows "pst b (for_each xs f s) I"
  using assms by (induction xs arbitrary: s) (auto simp: pst_rbind intro: pst_mono)

lemma pst_osmo_assert [simp]: "pst b (osmo_assert p s) Q \<longleftrightarrow> (if p then Q s else b)"
  by (simp add: osmo_assert_def)

section \<open>The engine\<close>

record 's fsm_engine =
  fsm_dispatch :: "u32 \<Rightarrow> u32 \<Rightarrow> nat \<Rightarrow> ('s \<Rightarrow> 's res) \<Rightarrow> ('s \<Rightarrow> 's res) \<Rightarrow> 's \<Rightarrow> (int \<times> 's) res"
  fsm_state_chg :: "u32 \<Rightarrow> nat \<Rightarrow> ('s \<Rightarrow> 's res) \<Rightarrow> 's \<Rightarrow> 's res"
  fsm_term :: "('s \<Rightarrow> 's res) \<Rightarrow> ('s \<Rightarrow> 's res) \<Rightarrow> 's \<Rightarrow> 's res"

text \<open>
  The arguments of \<open>fsm_dispatch\<close> are the all-state event mask, the event mask of the current
  state, the event, the all-state action and the action of the current state; those of
  \<open>fsm_state_chg\<close> are the mask of permitted next states, the new state and what entering it does
  (setting the state and its timer, then its \<^verbatim>\<open>onenter\<close>); those of \<open>fsm_term\<close> are the cleanup of
  the machine and the dispatch of the termination event to its parent.
\<close>

definition fsm_contract :: "'s fsm_engine \<Rightarrow> bool" where
  "fsm_contract e \<longleftrightarrow>
     (\<forall>am im ev aact act s. ev < 32 \<longrightarrow>
        fsm_dispatch e am im ev aact act s =
          (if bit am ev then rbind (aact s) (\<lambda>s'. Ok (0, s'))
           else if bit im ev then rbind (act s) (\<lambda>s'. Ok (0, s'))
           else Ok (-1, s))) \<and>
     (\<forall>om n enter s. n < 32 \<longrightarrow>
        fsm_state_chg e om n enter s = (if bit om n then enter s else Ok s)) \<and>
     (\<forall>cleanup notify s. fsm_term e cleanup notify s = rbind (cleanup s) notify)"

lemma fsm_contract_dispatch:
  "fsm_contract e \<Longrightarrow> ev < 32 \<Longrightarrow> fsm_dispatch e am im ev aact act s =
     (if bit am ev then rbind (aact s) (\<lambda>s'. Ok (0, s'))
      else if bit im ev then rbind (act s) (\<lambda>s'. Ok (0, s')) else Ok (-1, s))"
  by (simp add: fsm_contract_def)

lemma fsm_contract_state_chg:
  "fsm_contract e \<Longrightarrow> n < 32 \<Longrightarrow>
     fsm_state_chg e om n enter s = (if bit om n then enter s else Ok s)"
  by (simp add: fsm_contract_def)

lemma fsm_contract_term: "fsm_contract e \<Longrightarrow> fsm_term e cleanup notify s = rbind (cleanup s) notify"
  by (simp add: fsm_contract_def)

text \<open>A concrete engine that meets the contract, for evaluating the model on inputs.\<close>

definition example_engine :: "'s fsm_engine" where
  "example_engine =
     \<lparr> fsm_dispatch = (\<lambda>am im ev aact act s.
         if bit am ev then rbind (aact s) (\<lambda>s'. Ok (0, s'))
         else if bit im ev then rbind (act s) (\<lambda>s'. Ok (0, s')) else Ok (-1, s)),
       fsm_state_chg = (\<lambda>om n enter s. if bit om n then enter s else Ok s),
       fsm_term = (\<lambda>cleanup notify s. rbind (cleanup s) notify) \<rparr>"

lemma example_engine_contract: "fsm_contract example_engine"
  by (simp add: fsm_contract_def example_engine_def)

text \<open>The macro \<^verbatim>\<open>S(x)\<close>, \<^verbatim>\<open>1 << (x)\<close>, and a mask built with it.\<close>

fun S_mask :: "nat list \<Rightarrow> u32" where
  "S_mask [] = 0"
| "S_mask (x # xs) = push_bit x 1 OR S_mask xs"

lemma bit_S [fsm_simps]: "bit (push_bit x 1 :: u32) n \<longleftrightarrow> n = x \<and> n < 32"
  by (simp only: bit_push_bit_iff bit_1_iff) (auto simp: not_le)

lemma bit_S_mask [fsm_simps]: "bit (S_mask xs) n \<longleftrightarrow> n \<in> set xs \<and> n < 32"
proof (induction xs)
  case Nil
  show ?case by simp
next
  case (Cons x xs)
  show ?case by (simp only: S_mask.simps bit_or_iff bit_S Cons.IH) auto
qed

declare S_mask.simps [simp del]

end
