(* ===== verification/Ts_Base.thy ===== *)
theory Ts_Base
  imports Gsm_Data Osmo_Fsm
begin

text \<open>
  What the timeslot machine (\<^verbatim>\<open>timeslot_fsm.c\<close>) and the lchan machine (\<^verbatim>\<open>lchan_fsm.c\<close>) share: their
  events, the enumeration numbers of states and events, the tables of event and transition masks,
  and the state they work on.  That state (\<open>ts_world\<close>) is one timeslot with its eight lchans, the
  facts of its BTS the machines read, and the list of effects on other parts of the program, in
  the order in which they were caused.
\<close>

section \<open>Events and their numbers\<close>

datatype ts_fsm_event =
    TS_EV_OML_READY | TS_EV_OML_DOWN | TS_EV_RSL_READY | TS_EV_RSL_DOWN | TS_EV_LCHAN_REQUESTED
  | TS_EV_LCHAN_UNUSED | TS_EV_PDCH_ACT_ACK | TS_EV_PDCH_ACT_NACK | TS_EV_PDCH_DEACT_ACK
  | TS_EV_PDCH_DEACT_NACK

datatype lchan_fsm_event =
    LCHAN_EV_ACTIVATE | LCHAN_EV_TS_READY | LCHAN_EV_TS_ERROR | LCHAN_EV_RSL_CHAN_ACTIV_ACK
  | LCHAN_EV_RSL_CHAN_ACTIV_NACK | LCHAN_EV_RLL_ESTABLISH_IND | LCHAN_EV_RTP_READY
  | LCHAN_EV_RTP_ERROR | LCHAN_EV_RTP_RELEASED | LCHAN_EV_RLL_REL_IND | LCHAN_EV_RLL_REL_CONF
  | LCHAN_EV_RSL_RF_CHAN_REL_ACK | LCHAN_EV_RLL_ERR_IND | LCHAN_EV_CHAN_MODE_MODIF_ACK
  | LCHAN_EV_CHAN_MODE_MODIF_ERROR

text \<open>The data pointer of an lchan event: nothing, an activation request, an error cause, a link id.\<close>

datatype lchan_ev_data =
    No_data | D_info lchan_activate_info | D_cause rsl_cause | D_link_id u8

fun ts_st_nr :: "ts_fsm_state \<Rightarrow> nat" where
  "ts_st_nr TS_ST_NOT_INITIALIZED = 0"
| "ts_st_nr TS_ST_UNUSED = 1"
| "ts_st_nr TS_ST_WAIT_PDCH_ACT = 2"
| "ts_st_nr TS_ST_PDCH = 3"
| "ts_st_nr TS_ST_WAIT_PDCH_DEACT = 4"
| "ts_st_nr TS_ST_IN_USE = 5"
| "ts_st_nr TS_ST_BORKEN = 6"

fun ts_ev_nr :: "ts_fsm_event \<Rightarrow> nat" where
  "ts_ev_nr TS_EV_OML_READY = 0"
| "ts_ev_nr TS_EV_OML_DOWN = 1"
| "ts_ev_nr TS_EV_RSL_READY = 2"
| "ts_ev_nr TS_EV_RSL_DOWN = 3"
| "ts_ev_nr TS_EV_LCHAN_REQUESTED = 4"
| "ts_ev_nr TS_EV_LCHAN_UNUSED = 5"
| "ts_ev_nr TS_EV_PDCH_ACT_ACK = 6"
| "ts_ev_nr TS_EV_PDCH_ACT_NACK = 7"
| "ts_ev_nr TS_EV_PDCH_DEACT_ACK = 8"
| "ts_ev_nr TS_EV_PDCH_DEACT_NACK = 9"

fun lchan_st_nr :: "lchan_fsm_state \<Rightarrow> nat" where
  "lchan_st_nr LCHAN_ST_UNUSED = 0"
| "lchan_st_nr LCHAN_ST_CBCH = 1"
| "lchan_st_nr LCHAN_ST_WAIT_TS_READY = 2"
| "lchan_st_nr LCHAN_ST_WAIT_ACTIV_ACK = 3"
| "lchan_st_nr LCHAN_ST_WAIT_RLL_RTP_ESTABLISH = 4"
| "lchan_st_nr LCHAN_ST_ESTABLISHED = 5"
| "lchan_st_nr LCHAN_ST_WAIT_RLL_RTP_RELEASED = 6"
| "lchan_st_nr LCHAN_ST_WAIT_BEFORE_RF_RELEASE = 7"
| "lchan_st_nr LCHAN_ST_WAIT_RF_RELEASE_ACK = 8"
| "lchan_st_nr LCHAN_ST_WAIT_AFTER_ERROR = 9"
| "lchan_st_nr LCHAN_ST_BORKEN = 10"

fun lchan_ev_nr :: "lchan_fsm_event \<Rightarrow> nat" where
  "lchan_ev_nr LCHAN_EV_ACTIVATE = 0"
| "lchan_ev_nr LCHAN_EV_TS_READY = 1"
| "lchan_ev_nr LCHAN_EV_TS_ERROR = 2"
| "lchan_ev_nr LCHAN_EV_RSL_CHAN_ACTIV_ACK = 3"
| "lchan_ev_nr LCHAN_EV_RSL_CHAN_ACTIV_NACK = 4"
| "lchan_ev_nr LCHAN_EV_RLL_ESTABLISH_IND = 5"
| "lchan_ev_nr LCHAN_EV_RTP_READY = 6"
| "lchan_ev_nr LCHAN_EV_RTP_ERROR = 7"
| "lchan_ev_nr LCHAN_EV_RTP_RELEASED = 8"
| "lchan_ev_nr LCHAN_EV_RLL_REL_IND = 9"
| "lchan_ev_nr LCHAN_EV_RLL_REL_CONF = 10"
| "lchan_ev_nr LCHAN_EV_RSL_RF_CHAN_REL_ACK = 11"
| "lchan_ev_nr LCHAN_EV_RLL_ERR_IND = 12"
| "lchan_ev_nr LCHAN_EV_CHAN_MODE_MODIF_ACK = 13"
| "lchan_ev_nr LCHAN_EV_CHAN_MODE_MODIF_ERROR = 14"

lemma ts_st_nr_less [simp]: "ts_st_nr st < 32"
  by (cases st) simp_all

lemma ts_ev_nr_less [simp]: "ts_ev_nr ev < 32"
  by (cases ev) simp_all

lemma lchan_st_nr_less [simp]: "lchan_st_nr st < 32"
  by (cases st) simp_all

lemma lchan_ev_nr_less [simp]: "lchan_ev_nr ev < 32"
  by (cases ev) simp_all

lemma ts_st_nr_inj [simp]: "ts_st_nr a = ts_st_nr b \<longleftrightarrow> a = b"
  by (cases a; cases b) simp_all

lemma ts_ev_nr_inj [simp]: "ts_ev_nr a = ts_ev_nr b \<longleftrightarrow> a = b"
  by (cases a; cases b) simp_all

lemma lchan_st_nr_inj [simp]: "lchan_st_nr a = lchan_st_nr b \<longleftrightarrow> a = b"
  by (cases a; cases b) simp_all

lemma lchan_ev_nr_inj [simp]: "lchan_ev_nr a = lchan_ev_nr b \<longleftrightarrow> a = b"
  by (cases a; cases b) simp_all

section \<open>The mask tables\<close>

fun ts_in_events :: "ts_fsm_state \<Rightarrow> ts_fsm_event list" where
  "ts_in_events TS_ST_NOT_INITIALIZED =
     [TS_EV_OML_READY, TS_EV_RSL_READY, TS_EV_LCHAN_REQUESTED, TS_EV_LCHAN_UNUSED]"
| "ts_in_events TS_ST_UNUSED = [TS_EV_LCHAN_REQUESTED, TS_EV_LCHAN_UNUSED]"
| "ts_in_events TS_ST_WAIT_PDCH_ACT =
     [TS_EV_PDCH_ACT_ACK, TS_EV_PDCH_ACT_NACK, TS_EV_LCHAN_REQUESTED, TS_EV_LCHAN_UNUSED]"
| "ts_in_events TS_ST_PDCH = [TS_EV_LCHAN_REQUESTED, TS_EV_LCHAN_UNUSED]"
| "ts_in_events TS_ST_WAIT_PDCH_DEACT =
     [TS_EV_PDCH_DEACT_ACK, TS_EV_PDCH_DEACT_NACK, TS_EV_LCHAN_REQUESTED, TS_EV_LCHAN_UNUSED]"
| "ts_in_events TS_ST_IN_USE = [TS_EV_LCHAN_REQUESTED, TS_EV_LCHAN_UNUSED]"
| "ts_in_events TS_ST_BORKEN = [TS_EV_LCHAN_REQUESTED, TS_EV_LCHAN_UNUSED]"

fun ts_out_states :: "ts_fsm_state \<Rightarrow> ts_fsm_state list" where
  "ts_out_states TS_ST_NOT_INITIALIZED = [TS_ST_UNUSED, TS_ST_BORKEN]"
| "ts_out_states TS_ST_UNUSED =
     [TS_ST_WAIT_PDCH_ACT, TS_ST_IN_USE, TS_ST_NOT_INITIALIZED, TS_ST_BORKEN]"
| "ts_out_states TS_ST_WAIT_PDCH_ACT =
     [TS_ST_PDCH, TS_ST_UNUSED, TS_ST_BORKEN, TS_ST_NOT_INITIALIZED]"
| "ts_out_states TS_ST_PDCH = [TS_ST_WAIT_PDCH_DEACT, TS_ST_NOT_INITIALIZED, TS_ST_BORKEN]"
| "ts_out_states TS_ST_WAIT_PDCH_DEACT =
     [TS_ST_IN_USE, TS_ST_UNUSED, TS_ST_BORKEN, TS_ST_NOT_INITIALIZED, TS_ST_BORKEN]"
| "ts_out_states TS_ST_IN_USE = [TS_ST_UNUSED, TS_ST_NOT_INITIALIZED, TS_ST_BORKEN]"
| "ts_out_states TS_ST_BORKEN = [TS_ST_NOT_INITIALIZED]"

definition ts_in_event_mask :: "ts_fsm_state \<Rightarrow> u32" where
  "ts_in_event_mask st = S_mask (map ts_ev_nr (ts_in_events st))"

definition ts_out_state_mask :: "ts_fsm_state \<Rightarrow> u32" where
  "ts_out_state_mask st = S_mask (map ts_st_nr (ts_out_states st))"

definition ts_allstate_event_mask :: u32 where
  "ts_allstate_event_mask = S_mask (map ts_ev_nr [TS_EV_OML_DOWN, TS_EV_RSL_DOWN])"

fun lchan_in_events :: "lchan_fsm_state \<Rightarrow> lchan_fsm_event list" where
  "lchan_in_events LCHAN_ST_UNUSED = [LCHAN_EV_ACTIVATE]"
| "lchan_in_events LCHAN_ST_CBCH = []"
| "lchan_in_events LCHAN_ST_WAIT_TS_READY =
     [LCHAN_EV_TS_READY, LCHAN_EV_RTP_ERROR, LCHAN_EV_RTP_RELEASED]"
| "lchan_in_events LCHAN_ST_WAIT_ACTIV_ACK =
     [LCHAN_EV_RSL_CHAN_ACTIV_ACK, LCHAN_EV_RSL_CHAN_ACTIV_NACK, LCHAN_EV_RTP_ERROR,
      LCHAN_EV_RTP_RELEASED]"
| "lchan_in_events LCHAN_ST_WAIT_RLL_RTP_ESTABLISH =
     [LCHAN_EV_RLL_ESTABLISH_IND, LCHAN_EV_RTP_READY, LCHAN_EV_RTP_ERROR, LCHAN_EV_RTP_RELEASED]"
| "lchan_in_events LCHAN_ST_ESTABLISHED =
     [LCHAN_EV_RLL_REL_IND, LCHAN_EV_RLL_REL_CONF, LCHAN_EV_RLL_ESTABLISH_IND, LCHAN_EV_RTP_ERROR,
      LCHAN_EV_RTP_RELEASED]"
| "lchan_in_events LCHAN_ST_WAIT_RLL_RTP_RELEASED =
     [LCHAN_EV_RLL_REL_IND, LCHAN_EV_RLL_REL_CONF, LCHAN_EV_RTP_ERROR, LCHAN_EV_RTP_RELEASED]"
| "lchan_in_events LCHAN_ST_WAIT_BEFORE_RF_RELEASE = [LCHAN_EV_RLL_REL_IND, LCHAN_EV_RTP_RELEASED]"
| "lchan_in_events LCHAN_ST_WAIT_RF_RELEASE_ACK =
     [LCHAN_EV_RSL_RF_CHAN_REL_ACK, LCHAN_EV_RTP_RELEASED]"
| "lchan_in_events LCHAN_ST_WAIT_AFTER_ERROR = [LCHAN_EV_RTP_RELEASED]"
| "lchan_in_events LCHAN_ST_BORKEN =
     [LCHAN_EV_RSL_CHAN_ACTIV_ACK, LCHAN_EV_RSL_CHAN_ACTIV_NACK, LCHAN_EV_RSL_RF_CHAN_REL_ACK,
      LCHAN_EV_RTP_ERROR, LCHAN_EV_RTP_RELEASED]"

fun lchan_out_states :: "lchan_fsm_state \<Rightarrow> lchan_fsm_state list" where
  "lchan_out_states LCHAN_ST_UNUSED = [LCHAN_ST_WAIT_TS_READY, LCHAN_ST_CBCH, LCHAN_ST_BORKEN]"
| "lchan_out_states LCHAN_ST_CBCH = [LCHAN_ST_UNUSED]"
| "lchan_out_states LCHAN_ST_WAIT_TS_READY =
     [LCHAN_ST_UNUSED, LCHAN_ST_WAIT_ACTIV_ACK, LCHAN_ST_WAIT_RLL_RTP_RELEASED]"
| "lchan_out_states LCHAN_ST_WAIT_ACTIV_ACK =
     [LCHAN_ST_UNUSED, LCHAN_ST_WAIT_RLL_RTP_ESTABLISH, LCHAN_ST_BORKEN,
      LCHAN_ST_WAIT_RF_RELEASE_ACK]"
| "lchan_out_states LCHAN_ST_WAIT_RLL_RTP_ESTABLISH =
     [LCHAN_ST_UNUSED, LCHAN_ST_ESTABLISHED, LCHAN_ST_WAIT_RF_RELEASE_ACK,
      LCHAN_ST_WAIT_RLL_RTP_RELEASED]"
| "lchan_out_states LCHAN_ST_ESTABLISHED =
     [LCHAN_ST_UNUSED, LCHAN_ST_WAIT_RLL_RTP_RELEASED, LCHAN_ST_WAIT_BEFORE_RF_RELEASE,
      LCHAN_ST_WAIT_RF_RELEASE_ACK]"
| "lchan_out_states LCHAN_ST_WAIT_RLL_RTP_RELEASED =
     [LCHAN_ST_UNUSED, LCHAN_ST_WAIT_BEFORE_RF_RELEASE, LCHAN_ST_WAIT_RF_RELEASE_ACK]"
| "lchan_out_states LCHAN_ST_WAIT_BEFORE_RF_RELEASE =
     [LCHAN_ST_UNUSED, LCHAN_ST_WAIT_RF_RELEASE_ACK]"
| "lchan_out_states LCHAN_ST_WAIT_RF_RELEASE_ACK =
     [LCHAN_ST_UNUSED, LCHAN_ST_WAIT_AFTER_ERROR, LCHAN_ST_BORKEN]"
| "lchan_out_states LCHAN_ST_WAIT_AFTER_ERROR = [LCHAN_ST_UNUSED]"
| "lchan_out_states LCHAN_ST_BORKEN = [LCHAN_ST_UNUSED, LCHAN_ST_WAIT_AFTER_ERROR]"

definition lchan_in_event_mask :: "lchan_fsm_state \<Rightarrow> u32" where
  "lchan_in_event_mask st = S_mask (map lchan_ev_nr (lchan_in_events st))"

definition lchan_out_state_mask :: "lchan_fsm_state \<Rightarrow> u32" where
  "lchan_out_state_mask st = S_mask (map lchan_st_nr (lchan_out_states st))"

definition lchan_allstate_event_mask :: u32 where
  "lchan_allstate_event_mask = S_mask (map lchan_ev_nr [LCHAN_EV_TS_ERROR])"

lemma ts_in_event_mask_bit [fsm_simps]:
  "bit (ts_in_event_mask st) (ts_ev_nr ev) \<longleftrightarrow> ev \<in> set (ts_in_events st)"
  by (simp add: ts_in_event_mask_def bit_S_mask image_iff)

lemma ts_out_state_mask_bit [fsm_simps]:
  "bit (ts_out_state_mask st) (ts_st_nr st') \<longleftrightarrow> st' \<in> set (ts_out_states st)"
  by (simp add: ts_out_state_mask_def bit_S_mask image_iff)

lemma ts_allstate_event_mask_bit [fsm_simps]:
  "bit ts_allstate_event_mask (ts_ev_nr ev) \<longleftrightarrow> ev = TS_EV_OML_DOWN \<or> ev = TS_EV_RSL_DOWN"
  by (cases ev) (simp_all add: ts_allstate_event_mask_def bit_S_mask)

lemma lchan_in_event_mask_bit [fsm_simps]:
  "bit (lchan_in_event_mask st) (lchan_ev_nr ev) \<longleftrightarrow> ev \<in> set (lchan_in_events st)"
  by (simp add: lchan_in_event_mask_def bit_S_mask image_iff)

lemma lchan_out_state_mask_bit [fsm_simps]:
  "bit (lchan_out_state_mask st) (lchan_st_nr st') \<longleftrightarrow> st' \<in> set (lchan_out_states st)"
  by (simp add: lchan_out_state_mask_def bit_S_mask image_iff)

lemma lchan_allstate_event_mask_bit [fsm_simps]:
  "bit lchan_allstate_event_mask (lchan_ev_nr ev) \<longleftrightarrow> ev = LCHAN_EV_TS_ERROR"
  by (cases ev) (simp_all add: lchan_allstate_event_mask_def bit_S_mask)

declare ts_st_nr.simps [simp del] ts_ev_nr.simps [simp del]
declare lchan_st_nr.simps [simp del] lchan_ev_nr.simps [simp del]

section \<open>The world of a timeslot\<close>

text \<open>
  Effects on other parts of the program.  \<open>Tx_rsl\<close> is a message put on the radio signalling link;
  dispatches to the assignment and handover machines, to the connection and to the RTP machine
  are handed to the parameters of the lchan machine, not recorded here.
\<close>

datatype rsl_msg =
    Osmocom_pdch bool nat          \<comment> \<open>activate?, timeslot: RSL_CHAN_ACTIV or RF_CHAN_REL for the PDCH\<close>
  | Ipacc_pdch bool nat            \<comment> \<open>activate?, timeslot: IPAC_PDCH_ACT or IPAC_PDCH_DEACT\<close>
  | Chan_activ nat rsl_act_type u8          \<comment> \<open>lchan, activation type, handover reference\<close>
  | Imm_assignment nat
  | Imm_ass_rej nat
  | Rf_chan_release nat
  | Deact_sacch nat
  | Release_request nat u8         \<comment> \<open>lchan, link id\<close>
  | Rr_release nat

datatype effect = Tx_rsl rsl_msg | Pcu_info_update | Ctr_inc string

record ts_world =
  w_ts :: gsm_bts_trx_ts
  w_gprs_mode :: bts_gprs_mode
  w_nokia_no_loc_rel_cnf :: bool
  w_out :: "effect list"

definition emit :: "effect \<Rightarrow> ts_world \<Rightarrow> ts_world" where
  "emit e w = w\<lparr> w_out := w_out w @ [e] \<rparr>"

definition upd_ts :: "(gsm_bts_trx_ts \<Rightarrow> gsm_bts_trx_ts) \<Rightarrow> ts_world \<Rightarrow> ts_world" where
  "upd_ts f w = w\<lparr> w_ts := f (w_ts w) \<rparr>"

definition upd_lchan :: "nat \<Rightarrow> (gsm_lchan \<Rightarrow> gsm_lchan) \<Rightarrow> ts_world \<Rightarrow> ts_world" where
  "upd_lchan i f w = upd_ts (\<lambda>ts. ts\<lparr> lchans := (lchans ts)[i := f (lchans ts ! i)] \<rparr>) w"

abbreviation w_lchan :: "ts_world \<Rightarrow> nat \<Rightarrow> gsm_lchan" where
  "w_lchan w i \<equiv> lchans (w_ts w) ! i"

abbreviation w_on_init :: "ts_world \<Rightarrow> gsm_phys_chan_config" where
  "w_on_init w \<equiv> pchan_on_init (w_ts w)"

abbreviation w_is :: "ts_world \<Rightarrow> gsm_phys_chan_config" where
  "w_is w \<equiv> pchan_is (w_ts w)"

definition ts_state :: "ts_world \<Rightarrow> ts_fsm_state" where
  "ts_state w = tf_state (the (ts_fi (w_ts w)))"

definition lchan_state :: "ts_world \<Rightarrow> nat \<Rightarrow> lchan_fsm_state" where
  "lchan_state w i = lc_state (w_ts w) i"

definition set_ts_state :: "ts_fsm_state \<Rightarrow> nat option \<Rightarrow> ts_world \<Rightarrow> ts_world" where
  "set_ts_state st T = upd_ts (\<lambda>ts. ts\<lparr> ts_fi := Some \<lparr> tf_state = st, tf_T = T \<rparr> \<rparr>)"

definition set_lchan_state :: "nat \<Rightarrow> lchan_fsm_state \<Rightarrow> nat option \<Rightarrow> ts_world \<Rightarrow> ts_world" where
  "set_lchan_state i st T = upd_lchan i (\<lambda>l. l\<lparr> lc_fi := Some \<lparr> lf_state = st, lf_T = T \<rparr> \<rparr>)"

text \<open>
  A loop over the lchans of the timeslot whose body changes the state: the condition of
  \<^verbatim>\<open>ts_as_pchan_for_each_lchan\<close> is evaluated before each round.
\<close>

fun each_lchan_from ::
  "nat \<Rightarrow> nat \<Rightarrow> (gsm_bts_trx_ts \<Rightarrow> gsm_phys_chan_config) \<Rightarrow> (nat \<Rightarrow> ts_world \<Rightarrow> ts_world res)
    \<Rightarrow> ts_world \<Rightarrow> ts_world res" where
  "each_lchan_from 0 i p body w = Ok w"
| "each_lchan_from (Suc k) i p body w =
     (if lchan_iter_cond (w_ts w) i (p (w_ts w))
      then rbind (body i w) (each_lchan_from k (Suc i) p body)
      else Ok w)"

definition each_potential_lchan :: "(nat \<Rightarrow> ts_world \<Rightarrow> ts_world res) \<Rightarrow> ts_world \<Rightarrow> ts_world res" where
  "each_potential_lchan = each_lchan_from TS_MAX_LCHAN 0 pchan_on_init"

lemma pst_each_lchan_from:
  assumes "\<And>i w. lchan_iter_cond (w_ts w) i (p (w_ts w)) \<Longrightarrow> I w \<Longrightarrow> pst b (body i w) I" "I w"
  shows "pst b (each_lchan_from k i p body w) I"
  using assms(2) by (induction k arbitrary: i w) (auto simp: pst_rbind intro: assms(1) pst_mono)

lemma pst_each_potential_lchan:
  assumes "\<And>i w. lchan_iter_cond (w_ts w) i (w_on_init w) \<Longrightarrow> I w \<Longrightarrow> pst b (body i w) I" "I w"
  shows "pst b (each_potential_lchan body w) I"
  unfolding each_potential_lchan_def by (rule pst_each_lchan_from) (use assms in auto)

section \<open>What the machines call\<close>

text \<open>
  The engine and the sending of a message on the signalling link (libosmocore and libosmo-abis) are
  parameters; the dispatch into the lchan machine, its termination and the dispatch into the
  timeslot machine are parameters that the two machines give each other.
\<close>

record ts_env =
  eng :: "ts_world fsm_engine"
  abis_rsl_sendmsg :: "rsl_msg \<Rightarrow> ts_world \<Rightarrow> int"
  lo_dispatch :: "nat \<Rightarrow> lchan_fsm_event \<Rightarrow> lchan_ev_data \<Rightarrow> ts_world \<Rightarrow> ts_world res"
  lo_term :: "nat \<Rightarrow> ts_world \<Rightarrow> ts_world res"

definition tx_rsl :: "ts_env \<Rightarrow> rsl_msg \<Rightarrow> ts_world \<Rightarrow> int \<times> ts_world" where
  "tx_rsl x m w = (abis_rsl_sendmsg x m w, emit (Tx_rsl m) w)"

definition lchan_fsm_alloc :: "nat \<Rightarrow> ts_world \<Rightarrow> ts_world res" where
  "lchan_fsm_alloc i w =
     (if ts_fi (w_ts w) = None \<or> lc_fi (w_lchan w i) \<noteq> None then Abort
      else Ok (set_lchan_state i LCHAN_ST_UNUSED None w))"

end
