(* ===== verification/Timeslot_Fsm.thy ===== *)
theory Timeslot_Fsm
  imports Ts_Base
begin

text \<open>
  The timeslot state machine, \<^verbatim>\<open>timeslot_fsm.c\<close>: it follows the OML and RSL links of a timeslot,
  switches dynamic timeslots between PDCH and TCH, and tells the lchans when they may activate.
  Every handler is one definition.  Entering a state runs its \<^verbatim>\<open>onenter\<close>, which may change the
  state again; these calls are nested only in the order IN_USE, UNUSED, WAIT_PDCH_ACT, BORKEN and
  PDCH, WAIT_PDCH_DEACT, BORKEN, so the definitions follow that order.  The lchan a request carries
  belongs to the timeslot it is sent to, as both call sites send it to \<^verbatim>\<open>lchan->ts->fi\<close>.
\<close>

section \<open>Helpers\<close>

definition T_CHAN_ACT_DEACT :: nat where "T_CHAN_ACT_DEACT = 23001"

datatype lchan_sanity = LCHAN_IS_INSANE | LCHAN_IS_READY_TO_GO | LCHAN_NEEDS_PCHAN_CHANGE

definition is_lchan_sane :: "gsm_bts_trx_ts \<Rightarrow> gsm_lchan \<Rightarrow> lchan_sanity" where
  "is_lchan_sane ts lchan =
     (if lc_fi lchan = None then LCHAN_IS_INSANE
      else if gsm_lchan_type_by_pchan (pchan_is ts) = Some (lc_type lchan) then LCHAN_IS_READY_TO_GO
      else case pchan_on_init ts of
        GSM_PCHAN_TCH_F_TCH_H_PDCH \<Rightarrow>
          (if lc_type lchan = GSM_LCHAN_TCH_H then LCHAN_NEEDS_PCHAN_CHANGE
           else if lc_type lchan = GSM_LCHAN_TCH_F then LCHAN_NEEDS_PCHAN_CHANGE
           else LCHAN_IS_INSANE)
      | GSM_PCHAN_TCH_F_PDCH \<Rightarrow>
          (if lc_type lchan = GSM_LCHAN_TCH_F then LCHAN_NEEDS_PCHAN_CHANGE else LCHAN_IS_INSANE)
      | _ \<Rightarrow> LCHAN_IS_INSANE)"

definition lchan_dispatch :: "ts_env \<Rightarrow> nat \<Rightarrow> lchan_fsm_event \<Rightarrow> ts_world \<Rightarrow> ts_world res" where
  "lchan_dispatch x i ev w =
     (if lc_fi (w_lchan w i) = None then Ok w
      else rbind (lo_dispatch x i ev No_data w)
             (\<lambda>w. osmo_assert (lc_fi (w_lchan w i) \<noteq> None \<and> lchan_state w i \<noteq> LCHAN_ST_WAIT_TS_READY) w))"

definition ts_count_active_lchans :: "gsm_bts_trx_ts \<Rightarrow> nat" where
  "ts_count_active_lchans ts =
     length (filter (\<lambda>i. lc_state ts i \<noteq> LCHAN_ST_UNUSED) (ts_for_each_lchan ts))"

text \<open>The state to select is an option, \<^const>\<open>None\<close> for the code's -1.\<close>

definition ts_lchans_dispatch :: "ts_env \<Rightarrow> lchan_fsm_state option \<Rightarrow> lchan_fsm_event \<Rightarrow> ts_world \<Rightarrow> ts_world res" where
  "ts_lchans_dispatch x st ev =
     each_potential_lchan (\<lambda>i w.
       if (case st of None \<Rightarrow> False | Some q \<Rightarrow> \<not> lchan_state_is (w_lchan w i) q) then Ok w
       else lchan_dispatch x i ev w)"

definition ts_terminate_lchan_fsms :: "ts_env \<Rightarrow> ts_world \<Rightarrow> ts_world res" where
  "ts_terminate_lchan_fsms x = each_potential_lchan (lo_term x)"

definition ts_lchans_waiting :: "gsm_bts_trx_ts \<Rightarrow> nat" where
  "ts_lchans_waiting ts =
     length (filter (\<lambda>i. lc_state ts i = LCHAN_ST_WAIT_TS_READY) (ts_for_each_potential_lchan ts))"

text \<open>A transition: the engine checks it against the mask of the state it leaves.\<close>

definition ts_chg :: "ts_env \<Rightarrow> ts_fsm_state \<Rightarrow> nat option \<Rightarrow> (ts_world \<Rightarrow> ts_world res) \<Rightarrow> ts_world \<Rightarrow> ts_world res" where
  "ts_chg x st T onenter w =
     fsm_state_chg (eng x) (ts_out_state_mask (ts_state w)) (ts_st_nr st)
       (\<lambda>w. onenter (set_ts_state st T w)) w"

text \<open>
  \<open>ts_fsm_error\<close>: \<open>chg\<close> is the transition to the state \<open>st\<close>, with that state's \<^verbatim>\<open>onenter\<close>.
\<close>

definition ts_fsm_error :: "ts_env \<Rightarrow> ts_fsm_state \<Rightarrow> (ts_world \<Rightarrow> ts_world res) \<Rightarrow> string \<Rightarrow> ts_world \<Rightarrow> ts_world res" where
  "ts_fsm_error x st chg msg w =
     steps [\<lambda>w. Ok (upd_ts (\<lambda>ts. ts\<lparr> last_errmsg := Some msg \<rparr>) w),
            ts_lchans_dispatch x (Some LCHAN_ST_WAIT_TS_READY) LCHAN_EV_TS_ERROR,
            \<lambda>w. if ts_state w \<noteq> st then chg w else Ok w] w"

definition ts_error_borken :: "ts_env \<Rightarrow> string \<Rightarrow> ts_world \<Rightarrow> ts_world res" where
  "ts_error_borken x = ts_fsm_error x TS_ST_BORKEN (ts_chg x TS_ST_BORKEN None Ok)"

definition ts_fsm_err_ready_to_go_in_pdch :: "ts_env \<Rightarrow> ts_world \<Rightarrow> ts_world res" where
  "ts_fsm_err_ready_to_go_in_pdch x =
     ts_error_borken x ''Internal error: lchan marked as ready to go, but activating any lchan should need PCHAN switchover''"

fun initial_pchan_is :: "gsm_phys_chan_config \<Rightarrow> gsm_phys_chan_config" where
  "initial_pchan_is GSM_PCHAN_TCH_F_TCH_H_PDCH = GSM_PCHAN_NONE"
| "initial_pchan_is GSM_PCHAN_TCH_F_PDCH = GSM_PCHAN_TCH_F"
| "initial_pchan_is p = p"

definition ts_setup_lchans :: "ts_world \<Rightarrow> ts_world res" where
  "ts_setup_lchans w0 =
     steps [\<lambda>w. Ok (upd_ts (\<lambda>ts. ts\<lparr> pchan_on_init := pchan_from_config ts \<rparr>) w),
            \<lambda>w. for_each [0..<pchan_subslots (w_on_init w)]
                  (\<lambda>i w. if lc_fi (w_lchan w i) \<noteq> None then Ok w else lchan_fsm_alloc i w) w,
            \<lambda>w. Ok (upd_ts (\<lambda>ts. ts\<lparr> pchan_is := initial_pchan_is (pchan_on_init ts) \<rparr>) w)] w0"

section \<open>Sending of PDCH activations\<close>

definition rsl_tx_dyn_ts_pdch_act_deact :: "ts_env \<Rightarrow> bool \<Rightarrow> ts_world \<Rightarrow> int \<times> ts_world" where
  "rsl_tx_dyn_ts_pdch_act_deact x activate w =
     (case w_on_init w of
        GSM_PCHAN_TCH_F_TCH_H_PDCH \<Rightarrow> tx_rsl x (Osmocom_pdch activate (ts_nr (w_ts w))) w
      | GSM_PCHAN_TCH_F_PDCH \<Rightarrow> tx_rsl x (Ipacc_pdch activate (ts_nr (w_ts w))) w
      | _ \<Rightarrow> (- EINVAL, w))"

section \<open>Entering states\<close>

definition ts_fsm_wait_pdch_act_onenter :: "ts_env \<Rightarrow> ts_world \<Rightarrow> ts_world res" where
  "ts_fsm_wait_pdch_act_onenter x w =
     (let (rc, w) = rsl_tx_dyn_ts_pdch_act_deact x True w in
      if rc \<noteq> 0 then ts_error_borken x ''Unable to send PDCH activation'' w else Ok w)"

definition ts_fsm_wait_pdch_deact_onenter :: "ts_env \<Rightarrow> ts_world \<Rightarrow> ts_world res" where
  "ts_fsm_wait_pdch_deact_onenter x w =
     (let (rc, w) = rsl_tx_dyn_ts_pdch_act_deact x False w in
      if rc \<noteq> 0 then ts_error_borken x ''Unable to send PDCH deactivation'' w else Ok w)"

definition ts_fsm_pdch_deact :: "ts_env \<Rightarrow> ts_world \<Rightarrow> ts_world res" where
  "ts_fsm_pdch_deact x =
     ts_chg x TS_ST_WAIT_PDCH_DEACT (Some T_CHAN_ACT_DEACT) (ts_fsm_wait_pdch_deact_onenter x)"

text \<open>The transition of lchan 2 into the state CBCH, which has no \<^verbatim>\<open>onenter\<close>.\<close>

definition lchan_chg_cbch :: "ts_env \<Rightarrow> nat \<Rightarrow> ts_world \<Rightarrow> ts_world res" where
  "lchan_chg_cbch x i w =
     fsm_state_chg (eng x) (lchan_out_state_mask (lchan_state w i)) (lchan_st_nr LCHAN_ST_CBCH)
       (\<lambda>w. Ok (set_lchan_state i LCHAN_ST_CBCH None w)) w"

definition ts_reserve_cbch :: "ts_env \<Rightarrow> ts_world \<Rightarrow> ts_world res" where
  "ts_reserve_cbch x =
     steps [\<lambda>w. osmo_assert (lc_fi (w_lchan w 2) \<noteq> None) w,
            \<lambda>w. Ok (upd_lchan 2 (\<lambda>l. l\<lparr> lc_type := GSM_LCHAN_CBCH \<rparr>) w),
            lchan_chg_cbch x 2]"

definition ts_try_pdch_act :: "ts_env \<Rightarrow> ts_world \<Rightarrow> ts_world res" where
  "ts_try_pdch_act x w =
     (if w_gprs_mode w = BTS_GPRS_NONE then Ok w
      else if \<not> pdch_act_allowed (w_ts w) then Ok w
      else ts_chg x TS_ST_WAIT_PDCH_ACT (Some T_CHAN_ACT_DEACT) (ts_fsm_wait_pdch_act_onenter x) w)"

definition ts_fsm_unused_onenter :: "ts_env \<Rightarrow> ts_world \<Rightarrow> ts_world res" where
  "ts_fsm_unused_onenter x w =
     (if ts_lchans_waiting (w_ts w) \<noteq> 0 then
        ts_error_borken x ''Internal error: entering UNUSED state, but there are lchans waiting'' w
      else case w_on_init w of
        GSM_PCHAN_TCH_F_TCH_H_PDCH \<Rightarrow> ts_try_pdch_act x w
      | GSM_PCHAN_TCH_F_PDCH \<Rightarrow> ts_try_pdch_act x w
      | GSM_PCHAN_CCCH_SDCCH4_CBCH \<Rightarrow> ts_reserve_cbch x w
      | GSM_PCHAN_SDCCH8_SACCH8C_CBCH \<Rightarrow> ts_reserve_cbch x w
      | _ \<Rightarrow> Ok w)"

definition ts_chg_unused :: "ts_env \<Rightarrow> ts_world \<Rightarrow> ts_world res" where
  "ts_chg_unused x = ts_chg x TS_ST_UNUSED None (ts_fsm_unused_onenter x)"

definition ts_fsm_pdch_onenter :: "ts_env \<Rightarrow> ts_world \<Rightarrow> ts_world res" where
  "ts_fsm_pdch_onenter x w =
     (if w_on_init w \<in> {GSM_PCHAN_TCH_F_TCH_H_PDCH, GSM_PCHAN_TCH_F_PDCH, GSM_PCHAN_PDCH} then
        (let w = upd_ts (\<lambda>ts. ts\<lparr> pchan_is := GSM_PCHAN_PDCH \<rparr>) w;
             w = emit Pcu_info_update w
         in if ts_lchans_waiting (w_ts w) \<noteq> 0 then ts_fsm_pdch_deact x w else Ok w)
      else ts_error_borken x ''pchan is incapable of activating PDCH'' w)"

text \<open>
  The loop of \<^verbatim>\<open>ts_fsm_in_use_onenter\<close> that checks the lchans and finds the type to activate.
\<close>

definition in_use_check :: "ts_env \<Rightarrow> nat \<Rightarrow> gsm_chan_t \<Rightarrow> ts_world \<Rightarrow> (gsm_chan_t \<times> ts_world) res" where
  "in_use_check x i act w =
     (if lchan_state_is (w_lchan w i) LCHAN_ST_UNUSED then Ok (act, w)
      else let t = lc_type (w_lchan w i);
               ok = (t \<in> {GSM_LCHAN_TCH_H, GSM_LCHAN_TCH_F, GSM_LCHAN_SDCCH} \<and>
                     ts_is_capable_of_lchant (w_ts w) t)
           in if \<not> ok then
                (if lchan_state_is (w_lchan w i) LCHAN_ST_WAIT_TS_READY
                 then rbind (lchan_dispatch x i LCHAN_EV_TS_ERROR w) (\<lambda>w. Ok (act, w))
                 else Ok (act, w))
              else if act = GSM_LCHAN_NONE then Ok (t, w)
              else if act \<noteq> t then
                rbind (lchan_dispatch x i LCHAN_EV_TS_ERROR w) (\<lambda>w. Ok (act, w))
              else Ok (act, w))"

fun in_use_scan :: "ts_env \<Rightarrow> nat \<Rightarrow> nat \<Rightarrow> gsm_chan_t \<Rightarrow> ts_world \<Rightarrow> (gsm_chan_t \<times> ts_world) res" where
  "in_use_scan x 0 i act w = Ok (act, w)"
| "in_use_scan x (Suc k) i act w =
     (if lchan_iter_cond (w_ts w) i (w_on_init w)
      then rbind (in_use_check x i act w) (\<lambda>(act, w). in_use_scan x k (Suc i) act w)
      else Ok (act, w))"

definition ts_fsm_in_use_onenter :: "ts_env \<Rightarrow> ts_world \<Rightarrow> ts_world res" where
  "ts_fsm_in_use_onenter x w =
     rbind (in_use_scan x TS_MAX_LCHAN 0 GSM_LCHAN_NONE (upd_ts (\<lambda>ts. ts\<lparr> pdch_act_allowed := True \<rparr>) w))
       (\<lambda>(act, w).
          rbind (case act of
              GSM_LCHAN_SDCCH \<Rightarrow> Ok (ts_is_capable_of_lchant (w_ts w) act, w)
            | GSM_LCHAN_TCH_F \<Rightarrow> Ok (ts_is_capable_of_lchant (w_ts w) act, w)
            | GSM_LCHAN_TCH_H \<Rightarrow> Ok (ts_is_capable_of_lchant (w_ts w) act, w)
            | GSM_LCHAN_NONE \<Rightarrow> Ok (False, w)
            | _ \<Rightarrow> rbind (ts_lchans_dispatch x (Some LCHAN_ST_WAIT_TS_READY) LCHAN_EV_TS_ERROR w)
                     (\<lambda>w. Ok (False, w)))
          (\<lambda>(ok, w).
             if \<not> ok then ts_chg_unused x w
             else steps [\<lambda>w. Ok (if w_on_init w = GSM_PCHAN_TCH_F_TCH_H_PDCH
                                 then upd_ts (\<lambda>ts. ts\<lparr> pchan_is := gsm_pchan_by_lchan_type act \<rparr>) w else w),
                         ts_lchans_dispatch x (Some LCHAN_ST_WAIT_TS_READY) LCHAN_EV_TS_READY] w))"

definition ts_chg_in_use :: "ts_env \<Rightarrow> ts_world \<Rightarrow> ts_world res" where
  "ts_chg_in_use x = ts_chg x TS_ST_IN_USE None (ts_fsm_in_use_onenter x)"

definition ts_chg_pdch :: "ts_env \<Rightarrow> ts_world \<Rightarrow> ts_world res" where
  "ts_chg_pdch x = ts_chg x TS_ST_PDCH None (ts_fsm_pdch_onenter x)"

definition ts_chg_not_initialized :: "ts_env \<Rightarrow> ts_world \<Rightarrow> ts_world res" where
  "ts_chg_not_initialized x = ts_chg x TS_ST_NOT_INITIALIZED None Ok"

section \<open>Actions of the states\<close>

definition ts_not_initialized_oml_ready :: "ts_env \<Rightarrow> ts_world \<Rightarrow> ts_world res" where
  "ts_not_initialized_oml_ready x =
     steps [\<lambda>w. Ok (upd_ts (\<lambda>ts. ts\<lparr> pdch_act_allowed := True, is_oml_ready := True \<rparr>) w),
            ts_setup_lchans,
            \<lambda>w. if \<not> is_rsl_ready (w_ts w) then Ok w else ts_chg_unused x w]"

definition ts_not_initialized_rsl_ready :: "ts_env \<Rightarrow> ts_world \<Rightarrow> ts_world res" where
  "ts_not_initialized_rsl_ready x =
     steps [\<lambda>w. Ok (upd_ts (\<lambda>ts. ts\<lparr> pdch_act_allowed := True, is_rsl_ready := True \<rparr>) w),
            \<lambda>w. if \<not> is_oml_ready (w_ts w) then Ok w else ts_chg_unused x w]"

text \<open>
  For a requested lchan the code sends the lchan event \<^verbatim>\<open>LCHAN_EV_TS_ERROR\<close> to the timeslot's own
  machine, where its number is that of \<^verbatim>\<open>TS_EV_RSL_READY\<close>.
\<close>

lemma ts_error_is_rsl_ready: "lchan_ev_nr LCHAN_EV_TS_ERROR = ts_ev_nr TS_EV_RSL_READY"
  by (simp add: ts_ev_nr.simps lchan_ev_nr.simps)

definition ts_fsm_not_initialized :: "ts_env \<Rightarrow> ts_fsm_event \<Rightarrow> nat option \<Rightarrow> ts_world \<Rightarrow> ts_world res" where
  "ts_fsm_not_initialized x ev d w =
     (case ev of
        TS_EV_OML_READY \<Rightarrow> ts_not_initialized_oml_ready x w
      | TS_EV_RSL_READY \<Rightarrow> ts_not_initialized_rsl_ready x w
      | TS_EV_LCHAN_REQUESTED \<Rightarrow>
          (case d of
             None \<Rightarrow> Ok w
           | Some i \<Rightarrow>
               if lc_fi (w_lchan w i) = None then Ok w
               else rbind (fsm_dispatch (eng x) ts_allstate_event_mask (ts_in_event_mask (ts_state w))
                             (lchan_ev_nr LCHAN_EV_TS_ERROR) (\<lambda>w. Abort) (ts_not_initialized_rsl_ready x) w)
                      (\<lambda>(rc, w). Ok w))
      | TS_EV_LCHAN_UNUSED \<Rightarrow> Ok w
      | _ \<Rightarrow> Abort)"

text \<open>A request without an lchan fails the assertion of \<^verbatim>\<open>is_lchan_sane\<close>.\<close>

definition ts_fsm_unused :: "ts_env \<Rightarrow> ts_fsm_event \<Rightarrow> nat option \<Rightarrow> ts_world \<Rightarrow> ts_world res" where
  "ts_fsm_unused x ev d w =
     (case ev of
        TS_EV_LCHAN_REQUESTED \<Rightarrow>
          (case d of
             None \<Rightarrow> Abort
           | Some i \<Rightarrow>
               (case is_lchan_sane (w_ts w) (w_lchan w i) of
                  LCHAN_NEEDS_PCHAN_CHANGE \<Rightarrow> ts_chg_in_use x w
                | LCHAN_IS_READY_TO_GO \<Rightarrow> ts_chg_in_use x w
                | LCHAN_IS_INSANE \<Rightarrow>
                    (if lc_fi (w_lchan w i) = None then Abort
                     else lo_dispatch x i LCHAN_EV_TS_ERROR No_data w)))
      | TS_EV_LCHAN_UNUSED \<Rightarrow> Ok w
      | _ \<Rightarrow> Abort)"

definition ts_fsm_wait_pdch_act :: "ts_env \<Rightarrow> ts_fsm_event \<Rightarrow> nat option \<Rightarrow> ts_world \<Rightarrow> ts_world res" where
  "ts_fsm_wait_pdch_act x ev d w =
     (case ev of
        TS_EV_PDCH_ACT_ACK \<Rightarrow> ts_chg_pdch x w
      | TS_EV_PDCH_ACT_NACK \<Rightarrow>
          steps [\<lambda>w. Ok (emit (Ctr_inc (if w_on_init w = GSM_PCHAN_TCH_F_PDCH then ''BTS_CTR_RSL_IPA_NACK''
                                        else ''BTS_CTR_CHAN_ACT_NACK'')) w),
                 \<lambda>w. Ok (upd_ts (\<lambda>ts. ts\<lparr> pdch_act_allowed := False \<rparr>) w),
                 ts_fsm_error x TS_ST_UNUSED (ts_chg_unused x) ''Received PDCH activation NACK''] w
      | TS_EV_LCHAN_REQUESTED \<Rightarrow>
          (case d of
             None \<Rightarrow> Abort
           | Some i \<Rightarrow>
               (case is_lchan_sane (w_ts w) (w_lchan w i) of
                  LCHAN_IS_READY_TO_GO \<Rightarrow> Ok w
                | LCHAN_NEEDS_PCHAN_CHANGE \<Rightarrow> Ok w
                | LCHAN_IS_INSANE \<Rightarrow> lchan_dispatch x i LCHAN_EV_TS_ERROR w))
      | TS_EV_LCHAN_UNUSED \<Rightarrow> Ok w
      | _ \<Rightarrow> Abort)"

definition ts_fsm_pdch :: "ts_env \<Rightarrow> ts_fsm_event \<Rightarrow> nat option \<Rightarrow> ts_world \<Rightarrow> ts_world res" where
  "ts_fsm_pdch x ev d w =
     (case ev of
        TS_EV_LCHAN_REQUESTED \<Rightarrow>
          (case d of
             None \<Rightarrow> Abort
           | Some i \<Rightarrow>
               (case is_lchan_sane (w_ts w) (w_lchan w i) of
                  LCHAN_NEEDS_PCHAN_CHANGE \<Rightarrow> ts_fsm_pdch_deact x w
                | LCHAN_IS_READY_TO_GO \<Rightarrow> ts_fsm_err_ready_to_go_in_pdch x w
                | LCHAN_IS_INSANE \<Rightarrow> lchan_dispatch x i LCHAN_EV_TS_ERROR w))
      | TS_EV_LCHAN_UNUSED \<Rightarrow> Ok w
      | _ \<Rightarrow> Abort)"

definition ts_pdch_deact_ack :: "ts_env \<Rightarrow> gsm_phys_chan_config \<Rightarrow> ts_world \<Rightarrow> ts_world res" where
  "ts_pdch_deact_ack x p =
     steps [\<lambda>w. Ok (upd_ts (\<lambda>ts. ts\<lparr> pchan_is := p \<rparr>) w),
            ts_chg_in_use x,
            \<lambda>w. Ok (emit Pcu_info_update w)]"

definition ts_fsm_wait_pdch_deact :: "ts_env \<Rightarrow> ts_fsm_event \<Rightarrow> nat option \<Rightarrow> ts_world \<Rightarrow> ts_world res" where
  "ts_fsm_wait_pdch_deact x ev d w =
     (case ev of
        TS_EV_PDCH_DEACT_ACK \<Rightarrow>
          (case w_on_init w of
             GSM_PCHAN_TCH_F_TCH_H_PDCH \<Rightarrow> ts_pdch_deact_ack x GSM_PCHAN_NONE w
           | GSM_PCHAN_TCH_F_PDCH \<Rightarrow> ts_pdch_deact_ack x GSM_PCHAN_TCH_F w
           | _ \<Rightarrow> ts_error_borken x ''pchan is incapable of deactivating PDCH'' w)
      | TS_EV_PDCH_DEACT_NACK \<Rightarrow>
          ts_error_borken x ''Received PDCH deactivation NACK''
            (if w_on_init w = GSM_PCHAN_TCH_F_PDCH then emit (Ctr_inc ''BTS_CTR_RSL_IPA_NACK'') w else w)
      | TS_EV_LCHAN_REQUESTED \<Rightarrow>
          (case d of
             None \<Rightarrow> Abort
           | Some i \<Rightarrow>
               (case is_lchan_sane (w_ts w) (w_lchan w i) of
                  LCHAN_NEEDS_PCHAN_CHANGE \<Rightarrow> Ok w
                | LCHAN_IS_READY_TO_GO \<Rightarrow> ts_fsm_err_ready_to_go_in_pdch x w
                | LCHAN_IS_INSANE \<Rightarrow> lchan_dispatch x i LCHAN_EV_TS_ERROR w))
      | TS_EV_LCHAN_UNUSED \<Rightarrow> Ok w
      | _ \<Rightarrow> Abort)"

definition ts_fsm_in_use :: "ts_env \<Rightarrow> ts_fsm_event \<Rightarrow> nat option \<Rightarrow> ts_world \<Rightarrow> ts_world res" where
  "ts_fsm_in_use x ev d w =
     (case ev of
        TS_EV_LCHAN_UNUSED \<Rightarrow>
          (if ts_count_active_lchans (w_ts w) = 0 then ts_chg_unused x w else Ok w)
      | TS_EV_LCHAN_REQUESTED \<Rightarrow>
          (case d of
             None \<Rightarrow> Abort
           | Some i \<Rightarrow>
               (case is_lchan_sane (w_ts w) (w_lchan w i) of
                  LCHAN_IS_READY_TO_GO \<Rightarrow> lo_dispatch x i LCHAN_EV_TS_READY No_data w
                | LCHAN_NEEDS_PCHAN_CHANGE \<Rightarrow> lchan_dispatch x i LCHAN_EV_TS_ERROR w
                | LCHAN_IS_INSANE \<Rightarrow> lchan_dispatch x i LCHAN_EV_TS_ERROR w))
      | _ \<Rightarrow> Abort)"

definition ts_fsm_borken :: "ts_env \<Rightarrow> ts_fsm_event \<Rightarrow> nat option \<Rightarrow> ts_world \<Rightarrow> ts_world res" where
  "ts_fsm_borken x ev d w =
     (case ev of
        TS_EV_LCHAN_UNUSED \<Rightarrow> Ok w
      | TS_EV_LCHAN_REQUESTED \<Rightarrow>
          (case d of None \<Rightarrow> Abort | Some i \<Rightarrow> lchan_dispatch x i LCHAN_EV_TS_ERROR w)
      | _ \<Rightarrow> Abort)"

fun ts_action :: "ts_fsm_state \<Rightarrow> ts_env \<Rightarrow> ts_fsm_event \<Rightarrow> nat option \<Rightarrow> ts_world \<Rightarrow> ts_world res" where
  "ts_action TS_ST_NOT_INITIALIZED = ts_fsm_not_initialized"
| "ts_action TS_ST_UNUSED = ts_fsm_unused"
| "ts_action TS_ST_WAIT_PDCH_ACT = ts_fsm_wait_pdch_act"
| "ts_action TS_ST_PDCH = ts_fsm_pdch"
| "ts_action TS_ST_WAIT_PDCH_DEACT = ts_fsm_wait_pdch_deact"
| "ts_action TS_ST_IN_USE = ts_fsm_in_use"
| "ts_action TS_ST_BORKEN = ts_fsm_borken"

definition ts_go_not_initialized :: "ts_env \<Rightarrow> ts_world \<Rightarrow> ts_world res" where
  "ts_go_not_initialized x =
     steps [\<lambda>w. if ts_state w \<noteq> TS_ST_NOT_INITIALIZED then ts_chg_not_initialized x w else Ok w,
            \<lambda>w. osmo_assert (ts_state w = TS_ST_NOT_INITIALIZED) w]"

definition ts_fsm_allstate :: "ts_env \<Rightarrow> ts_fsm_event \<Rightarrow> ts_world \<Rightarrow> ts_world res" where
  "ts_fsm_allstate x ev w =
     (case ev of
        TS_EV_OML_DOWN \<Rightarrow>
          steps [\<lambda>w. Ok (upd_ts (\<lambda>ts. ts\<lparr> is_oml_ready := False \<rparr>) w),
                 ts_go_not_initialized x,
                 ts_terminate_lchan_fsms x,
                 \<lambda>w. Ok (upd_ts (\<lambda>ts. ts\<lparr> pchan_is := GSM_PCHAN_NONE, pchan_on_init := GSM_PCHAN_NONE \<rparr>) w)] w
      | TS_EV_RSL_DOWN \<Rightarrow>
          steps [\<lambda>w. Ok (upd_ts (\<lambda>ts. ts\<lparr> is_rsl_ready := False \<rparr>) w),
                 ts_go_not_initialized x,
                 \<lambda>w. Ok (upd_ts (\<lambda>ts. ts\<lparr> pchan_is := GSM_PCHAN_NONE \<rparr>) w),
                 ts_lchans_dispatch x None LCHAN_EV_TS_ERROR] w
      | _ \<Rightarrow> Abort)"

definition ts_fsm_timer_cb :: "ts_env \<Rightarrow> ts_world \<Rightarrow> ts_world res" where
  "ts_fsm_timer_cb x w =
     (case ts_state w of
        TS_ST_WAIT_PDCH_ACT \<Rightarrow> ts_error_borken x ''PDCH activation timeout'' w
      | TS_ST_WAIT_PDCH_DEACT \<Rightarrow> ts_error_borken x ''PDCH deactivation timeout'' w
      | _ \<Rightarrow> ts_error_borken x ''Unknown timeout'' w)"

text \<open>An event sent to the timeslot machine; the code ignores what the dispatch returns.\<close>

definition ts_dispatch :: "ts_env \<Rightarrow> ts_fsm_event \<Rightarrow> nat option \<Rightarrow> ts_world \<Rightarrow> ts_world res" where
  "ts_dispatch x ev d w =
     rbind (fsm_dispatch (eng x) ts_allstate_event_mask (ts_in_event_mask (ts_state w)) (ts_ev_nr ev)
              (ts_fsm_allstate x ev) (ts_action (ts_state w) x ev d) w)
       (\<lambda>(rc, w). Ok w)"

text \<open>With an engine that keeps its contract, the masks decide which handler sees an event.\<close>

lemma ts_dispatch_eq:
  assumes "fsm_contract (eng x)"
  shows "ts_dispatch x ev d w =
    (if ev = TS_EV_OML_DOWN \<or> ev = TS_EV_RSL_DOWN then ts_fsm_allstate x ev w
     else if ev \<in> set (ts_in_events (ts_state w)) then ts_action (ts_state w) x ev d w
     else Ok w)"
proof -
  have *: "rbind (rbind m (\<lambda>s'. Ok (0, s'))) (\<lambda>(rc, w). Ok w) = m" for m :: "ts_world res"
    by (cases m) simp_all
  show ?thesis by (simp add: ts_dispatch_def fsm_contract_dispatch[OF assms] fsm_simps *)
qed

section \<open>Queries\<close>

text \<open>\<open>Some p\<close>: an lchan is waiting for the timeslot to become \<open>p\<close>.\<close>

definition ts_is_lchan_waiting_for_pchan :: "gsm_bts_trx_ts \<Rightarrow> gsm_phys_chan_config option" where
  "ts_is_lchan_waiting_for_pchan ts =
     (case filter (\<lambda>i. lc_state ts i = LCHAN_ST_WAIT_TS_READY) (ts_for_each_potential_lchan ts) of
        [] \<Rightarrow> None
      | i # _ \<Rightarrow> Some (gsm_pchan_by_lchan_type (lc_type (lchans ts ! i))))"

text \<open>
  \<open>Ok (Some p)\<close>: the timeslot is being switched, finally to \<open>p\<close>; \<open>Abort\<close> is the assertion on a
  timeslot that is not dynamic.
\<close>

definition ts_is_pchan_switching :: "gsm_bts_trx_ts \<Rightarrow> gsm_phys_chan_config option res" where
  "ts_is_pchan_switching ts =
     (case ts_fi ts of
        None \<Rightarrow> Abort
      | Some f \<Rightarrow>
          if tf_state f \<in> {TS_ST_NOT_INITIALIZED, TS_ST_BORKEN} then Ok None
          else case ts_is_lchan_waiting_for_pchan ts of
                 Some p \<Rightarrow> Ok (Some p)
               | None \<Rightarrow>
                   (case tf_state f of
                      TS_ST_WAIT_PDCH_ACT \<Rightarrow> Ok (Some GSM_PCHAN_PDCH)
                    | TS_ST_WAIT_PDCH_DEACT \<Rightarrow>
                        (case pchan_on_init ts of
                           GSM_PCHAN_TCH_F_TCH_H_PDCH \<Rightarrow> Ok (Some GSM_PCHAN_NONE)
                         | GSM_PCHAN_TCH_F_PDCH \<Rightarrow> Ok (Some GSM_PCHAN_TCH_F)
                         | _ \<Rightarrow> Abort)
                    | _ \<Rightarrow> Ok None))"

definition ts_usable_as_pchan :: "gsm_bts_type \<Rightarrow> gsm_bts_trx \<Rightarrow> gsm_bts_trx_ts \<Rightarrow> gsm_phys_chan_config \<Rightarrow> bool" where
  "ts_usable_as_pchan bt trx ts as_pchan =
     (if \<not> ts_is_usable bt trx ts then False
      else if tf_state (the (ts_fi ts)) = TS_ST_IN_USE then pchan_is ts = as_pchan
      else case ts_is_lchan_waiting_for_pchan ts of
             Some target \<Rightarrow> target = as_pchan
           | None \<Rightarrow> ts_is_capable_of_pchan ts as_pchan)"

end
