(* ===== verification/Lchan_Fsm.thy ===== *)
theory Lchan_Fsm
  imports Ts_Base
begin

unbundle bit_operations_syntax

text \<open>
  The logical channel state machine, \<^verbatim>\<open>lchan_fsm.c\<close>: activation and release of an lchan, its error
  handling and its timeouts.  Each handler is one definition over the world of the lchan's
  timeslot and the index \<open>i\<close> of the lchan.  Nested \<^verbatim>\<open>onenter\<close> calls occur only in the order
  WAIT_TS_READY or WAIT_ACTIV_ACK to UNUSED, and ESTABLISHED to WAIT_RLL_RTP_RELEASED to
  WAIT_BEFORE_RF_RELEASE or to WAIT_RF_RELEASE_ACK, so the definitions follow that order.

  The machines an lchan reports to (assignment, handover, subscriber connection, RTP) are called
  through the parameter \<open>l_up\<close>, and what the lchan asks of them is the record of queries \<open>l_q\<close>.
  The text of an error is kept without the state name the code puts in front of it.
\<close>

section \<open>What the lchan machine calls\<close>

datatype upcall =
    Assignment_lchan_error conn_ref | Assignment_lchan_active conn_ref
  | Assignment_lchan_established conn_ref
  | Ho_lchan_error conn_ref | Ho_lchan_active conn_ref | Ho_lchan_established conn_ref
  | Gscon_forget_lchan conn_ref | Gscon_lchan_releasing conn_ref
  | Rtp_start | Rtp_lchan_ready | Rtp_release | Rtp_rollback | Rtp_term
  | Mgw_ci_dlcx nat | Rll_indication_rel u8

record lchan_queries =
  q_conn_fi :: "conn_ref \<Rightarrow> ts_world \<Rightarrow> bool"
  q_assignment_fi :: "conn_ref \<Rightarrow> ts_world \<Rightarrow> bool"
  q_assignment_new_lchan :: "conn_ref \<Rightarrow> ts_world \<Rightarrow> nat option"
  q_ho_fi :: "conn_ref \<Rightarrow> ts_world \<Rightarrow> bool"
  q_ho_new_lchan :: "conn_ref \<Rightarrow> ts_world \<Rightarrow> nat option"
  q_ho_async :: "conn_ref \<Rightarrow> ts_world \<Rightarrow> bool"
  q_ho_ref :: "conn_ref \<Rightarrow> ts_world \<Rightarrow> u8"
  q_rtp_established :: "nat \<Rightarrow> ts_world \<Rightarrow> bool"
  q_old_lchan :: "lchan_ref \<Rightarrow> ts_world \<Rightarrow> (bool \<times> u8 \<times> u8 \<times> u8)"
     \<comment> \<open>on the same BTS?, its ms_power, bs_power, rqd_ta\<close>
  q_ms_max_pwr_lvl :: u8
  q_sc_cfg_ok :: "u16 \<Rightarrow> bool"
     \<comment> \<open>the S15-S0 bits give an unambiguous multirate configuration\<close>
  q_mr_config :: "conn_ref \<Rightarrow> nat \<Rightarrow> ts_world \<Rightarrow> (u8 list \<times> u8 list) option"
     \<comment> \<open>the multirate configuration for MS and BTS, when it can be encoded\<close>

record lchan_env =
  l_eng :: "ts_world fsm_engine"
  l_send :: "rsl_msg \<Rightarrow> ts_world \<Rightarrow> int"
  l_td :: "ts_fsm_event \<Rightarrow> nat option \<Rightarrow> ts_world \<Rightarrow> ts_world res"
  l_up :: "upcall \<Rightarrow> nat \<Rightarrow> ts_world \<Rightarrow> ts_world res"
  l_q :: lchan_queries

definition l_tx :: "lchan_env \<Rightarrow> rsl_msg \<Rightarrow> ts_world \<Rightarrow> int \<times> ts_world" where
  "l_tx y m w = (l_send y m w, emit (Tx_rsl m) w)"

text \<open>A message whose return code is not looked at.\<close>

definition l_tx_ign :: "lchan_env \<Rightarrow> rsl_msg \<Rightarrow> ts_world \<Rightarrow> ts_world res" where
  "l_tx_ign y m w = Ok (snd (l_tx y m w))"

section \<open>Small helpers\<close>

definition lchan_may_receive_data :: "gsm_lchan \<Rightarrow> bool" where
  "lchan_may_receive_data lchan =
     (case lc_fi lchan of None \<Rightarrow> False
      | Some f \<Rightarrow> lf_state f \<in> {LCHAN_ST_WAIT_RLL_RTP_ESTABLISH, LCHAN_ST_ESTABLISHED})"

definition lchan_set_last_error :: "nat \<Rightarrow> string option \<Rightarrow> ts_world \<Rightarrow> ts_world" where
  "lchan_set_last_error i msg = upd_lchan i (\<lambda>l. l\<lparr> last_error := msg \<rparr>)"

text \<open>The null pointer dereference of \<^verbatim>\<open>for_conn->assignment.fi\<close> is an \<open>Abort\<close>.\<close>

definition lchan_on_activation_failure ::
  "lchan_env \<Rightarrow> nat \<Rightarrow> lchan_activate_mode \<Rightarrow> conn_ref option \<Rightarrow> ts_world \<Rightarrow> ts_world res" where
  "lchan_on_activation_failure y i activ conn w =
     (if concluded (w_lchan w i) then Ok w
      else let w = upd_lchan i (\<lambda>l. l\<lparr> concluded := True \<rparr>) w in
        (case activ of
           FOR_MS_CHANNEL_REQUEST \<Rightarrow>
             (if \<not> immediate_assignment_sent (w_lchan w i) then l_tx_ign y (Imm_ass_rej i) w else Ok w)
         | FOR_ASSIGNMENT \<Rightarrow>
             (case conn of None \<Rightarrow> Abort | Some c \<Rightarrow> l_up y (Assignment_lchan_error c) i w)
         | FOR_HANDOVER \<Rightarrow>
             (case conn of
                None \<Rightarrow> Ok w
              | Some c \<Rightarrow> if \<not> q_ho_fi (l_q y) c w then Ok w else l_up y (Ho_lchan_error c) i w)
         | _ \<Rightarrow> Ok w))"

fun lchan_fsm_timeouts :: "lchan_fsm_state \<Rightarrow> nat option" where
  "lchan_fsm_timeouts LCHAN_ST_WAIT_TS_READY = Some 23001"
| "lchan_fsm_timeouts LCHAN_ST_WAIT_ACTIV_ACK = Some 23002"
| "lchan_fsm_timeouts LCHAN_ST_WAIT_RLL_RTP_ESTABLISH = Some 3101"
| "lchan_fsm_timeouts LCHAN_ST_WAIT_RLL_RTP_RELEASED = Some 3109"
| "lchan_fsm_timeouts LCHAN_ST_WAIT_BEFORE_RF_RELEASE = Some 3111"
| "lchan_fsm_timeouts LCHAN_ST_WAIT_RF_RELEASE_ACK = Some 3111"
| "lchan_fsm_timeouts LCHAN_ST_WAIT_AFTER_ERROR = Some 993111"
| "lchan_fsm_timeouts _ = None"

definition lchan_chg :: "lchan_env \<Rightarrow> nat \<Rightarrow> lchan_fsm_state \<Rightarrow> (ts_world \<Rightarrow> ts_world res) \<Rightarrow> ts_world \<Rightarrow> ts_world res" where
  "lchan_chg y i st onenter w =
     fsm_state_chg (l_eng y) (lchan_out_state_mask (lchan_state w i)) (lchan_st_nr st)
       (\<lambda>w. onenter (set_lchan_state i st (lchan_fsm_timeouts st) w)) w"

text \<open>\<open>lchan_fail_to\<close>: \<open>chg\<close> is the transition to \<open>st\<close> with that state's \<^verbatim>\<open>onenter\<close>.\<close>

definition lchan_fail_to ::
  "lchan_env \<Rightarrow> nat \<Rightarrow> lchan_fsm_state \<Rightarrow> (ts_world \<Rightarrow> ts_world res) \<Rightarrow> string \<Rightarrow> ts_world \<Rightarrow> ts_world res" where
  "lchan_fail_to y i st chg msg w =
     steps [\<lambda>w. Ok (lchan_set_last_error i (Some msg) w),
            \<lambda>w. lchan_on_activation_failure y i (activ_for (act_info (w_lchan w i))) (lc_conn (w_lchan w i)) w,
            \<lambda>w. if lchan_state w i \<noteq> st then chg w else Ok w] w"

fun lchan_fsm_on_error :: "lchan_fsm_state \<Rightarrow> lchan_fsm_state" where
  "lchan_fsm_on_error LCHAN_ST_UNUSED = LCHAN_ST_UNUSED"
| "lchan_fsm_on_error LCHAN_ST_WAIT_TS_READY = LCHAN_ST_UNUSED"
| "lchan_fsm_on_error LCHAN_ST_WAIT_ACTIV_ACK = LCHAN_ST_BORKEN"
| "lchan_fsm_on_error LCHAN_ST_WAIT_RLL_RTP_ESTABLISH = LCHAN_ST_WAIT_RF_RELEASE_ACK"
| "lchan_fsm_on_error LCHAN_ST_ESTABLISHED = LCHAN_ST_WAIT_RLL_RTP_RELEASED"
| "lchan_fsm_on_error LCHAN_ST_WAIT_RLL_RTP_RELEASED = LCHAN_ST_WAIT_RF_RELEASE_ACK"
| "lchan_fsm_on_error LCHAN_ST_WAIT_BEFORE_RF_RELEASE = LCHAN_ST_WAIT_RF_RELEASE_ACK"
| "lchan_fsm_on_error LCHAN_ST_WAIT_RF_RELEASE_ACK = LCHAN_ST_BORKEN"
| "lchan_fsm_on_error LCHAN_ST_WAIT_AFTER_ERROR = LCHAN_ST_UNUSED"
| "lchan_fsm_on_error LCHAN_ST_BORKEN = LCHAN_ST_BORKEN"
| "lchan_fsm_on_error LCHAN_ST_CBCH = LCHAN_ST_UNUSED"

text \<open>The table has no entry for CBCH; the missing entry is 0, that is UNUSED.\<close>

section \<open>Reset, entering UNUSED and BORKEN\<close>

definition lchan_reset :: "lchan_env \<Rightarrow> nat \<Rightarrow> ts_world \<Rightarrow> ts_world res" where
  "lchan_reset y i =
     steps [\<lambda>w. case lc_conn (w_lchan w i) of None \<Rightarrow> Ok w | Some c \<Rightarrow> l_up y (Gscon_forget_lchan c) i w,
            \<lambda>w. Ok (upd_lchan i (\<lambda>l. l\<lparr> rqd_ref := None \<rparr>) w),
            \<lambda>w. if fi_rtp (w_lchan w i) then l_up y Rtp_term i w else Ok w,
            \<lambda>w. case mgw_endpoint_ci_bts (w_lchan w i) of
                  None \<Rightarrow> Ok w
                | Some ci \<Rightarrow> rbind (l_up y (Mgw_ci_dlcx ci) i w)
                               (\<lambda>w. Ok (upd_lchan i (\<lambda>l. l\<lparr> mgw_endpoint_ci_bts := None \<rparr>) w)),
            \<lambda>w. Ok (upd_lchan i (\<lambda>l. (zero_lchan (lc_nr l) (lc_fi l) (last_error l))
                                        \<lparr> meas_rep_last_seen_nr := 255 \<rparr>) w)]"

definition lchan_fsm_unused_onenter :: "lchan_env \<Rightarrow> nat \<Rightarrow> ts_world \<Rightarrow> ts_world res" where
  "lchan_fsm_unused_onenter y i = steps [lchan_reset y i, l_td y TS_EV_LCHAN_UNUSED (Some i)]"

definition lchan_chg_unused :: "lchan_env \<Rightarrow> nat \<Rightarrow> ts_world \<Rightarrow> ts_world res" where
  "lchan_chg_unused y i = lchan_chg y i LCHAN_ST_UNUSED (lchan_fsm_unused_onenter y i)"

definition lchan_fsm_borken_onenter :: "lchan_env \<Rightarrow> nat \<Rightarrow> ts_world \<Rightarrow> ts_world res" where
  "lchan_fsm_borken_onenter y i = lchan_reset y i"

definition lchan_chg_borken :: "lchan_env \<Rightarrow> nat \<Rightarrow> ts_world \<Rightarrow> ts_world res" where
  "lchan_chg_borken y i = lchan_chg y i LCHAN_ST_BORKEN (lchan_fsm_borken_onenter y i)"

definition lchan_chg_wait_after_error :: "lchan_env \<Rightarrow> nat \<Rightarrow> ts_world \<Rightarrow> ts_world res" where
  "lchan_chg_wait_after_error y i = lchan_chg y i LCHAN_ST_WAIT_AFTER_ERROR Ok"

section \<open>Release states\<close>

definition lchan_forget_conn :: "nat \<Rightarrow> ts_world \<Rightarrow> ts_world" where
  "lchan_forget_conn i = upd_lchan i (\<lambda>l. l\<lparr> act_info := (act_info l)\<lparr> for_conn := None \<rparr>,
     mgw_endpoint_ci_bts := None, lc_conn := None \<rparr>)"

definition lchan_fsm_wait_rf_release_ack_onenter :: "lchan_env \<Rightarrow> nat \<Rightarrow> ts_world \<Rightarrow> ts_world res" where
  "lchan_fsm_wait_rf_release_ack_onenter y i =
     steps [\<lambda>w. case lc_conn (w_lchan w i) of
                  None \<Rightarrow> Ok w
                | Some c \<Rightarrow> rbind (l_up y (Gscon_forget_lchan c) i w) (\<lambda>w. Ok (lchan_forget_conn i w)),
            l_tx_ign y (Rf_chan_release i)]"

definition lchan_chg_wait_rf_release_ack :: "lchan_env \<Rightarrow> nat \<Rightarrow> ts_world \<Rightarrow> ts_world res" where
  "lchan_chg_wait_rf_release_ack y i =
     lchan_chg y i LCHAN_ST_WAIT_RF_RELEASE_ACK (lchan_fsm_wait_rf_release_ack_onenter y i)"

definition lchan_chg_wait_before_rf_release :: "lchan_env \<Rightarrow> nat \<Rightarrow> ts_world \<Rightarrow> ts_world res" where
  "lchan_chg_wait_before_rf_release y i = lchan_chg y i LCHAN_ST_WAIT_BEFORE_RF_RELEASE Ok"

definition LCHAN_SAPI_UNUSED :: u8 where "LCHAN_SAPI_UNUSED = 0"

text \<open>The active SAPIs from \<open>start\<close> on, in the order of \<^verbatim>\<open>for_each_active_sapi\<close>.\<close>

definition active_sapis :: "nat \<Rightarrow> gsm_lchan \<Rightarrow> nat list" where
  "active_sapis start lchan = filter (\<lambda>sapi. sapis lchan ! sapi \<noteq> LCHAN_SAPI_UNUSED) [start..<8]"

definition lchan_active_sapis :: "gsm_lchan \<Rightarrow> nat \<Rightarrow> nat" where
  "lchan_active_sapis lchan start = length (active_sapis start lchan)"

fun should_sacch_deact :: "gsm_phys_chan_config \<Rightarrow> bool" where
  "should_sacch_deact GSM_PCHAN_TCH_F = True"
| "should_sacch_deact GSM_PCHAN_TCH_H = True"
| "should_sacch_deact GSM_PCHAN_CCCH_SDCCH4 = True"
| "should_sacch_deact GSM_PCHAN_CCCH_SDCCH4_CBCH = True"
| "should_sacch_deact GSM_PCHAN_SDCCH8_SACCH8C = True"
| "should_sacch_deact GSM_PCHAN_SDCCH8_SACCH8C_CBCH = True"
| "should_sacch_deact _ = False"

definition lchan_do_release :: "lchan_env \<Rightarrow> nat \<Rightarrow> ts_world \<Rightarrow> ts_world res" where
  "lchan_do_release y i =
     steps [\<lambda>w. if do_rr_release (w_lchan w i) \<and> sapis (w_lchan w i) ! 0 \<noteq> LCHAN_SAPI_UNUSED
                then l_tx_ign y (Rr_release i) w else Ok w,
            \<lambda>w. if fi_rtp (w_lchan w i) then l_up y Rtp_release i w else Ok w,
            \<lambda>w. if should_sacch_deact (w_is w) then l_tx_ign y (Deact_sacch i) w else Ok w]"

text \<open>
  The loop over the active SAPIs from 1 sends a release request for each; the count of them is the
  local variable \<^verbatim>\<open>sapis\<close>.
\<close>

definition lchan_fsm_wait_rll_rtp_released_onenter :: "lchan_env \<Rightarrow> nat \<Rightarrow> ts_world \<Rightarrow> ts_world res" where
  "lchan_fsm_wait_rll_rtp_released_onenter y i w0 =
     rbind (lchan_do_release y i w0) (\<lambda>w.
       let act = active_sapis 1 (w_lchan w i);
           tch = lc_type (w_lchan w i) \<in> {GSM_LCHAN_TCH_F, GSM_LCHAN_TCH_H}
       in rbind (for_each act (\<lambda>sapi. l_tx_ign y (Release_request i
                   (if tch then of_nat sapi OR 0x40 else of_nat sapi))) w) (\<lambda>w.
          let nokia = w_nokia_no_loc_rel_cnf w;
              w = (if nokia
                   then upd_lchan i (\<lambda>l. l\<lparr> sapis := map (\<lambda>s. if s < 1 then sapis l ! s else LCHAN_SAPI_UNUSED) [0..<8] \<rparr>) w
                   else w);
              n = (if nokia then 0 else length act)
          in if n = 0 \<and> \<not> fi_rtp (w_lchan w i) \<and> lchan_state w i = LCHAN_ST_WAIT_RLL_RTP_RELEASED
             then lchan_chg_wait_before_rf_release y i w else Ok w))"

definition lchan_chg_wait_rll_rtp_released :: "lchan_env \<Rightarrow> nat \<Rightarrow> ts_world \<Rightarrow> ts_world res" where
  "lchan_chg_wait_rll_rtp_released y i =
     lchan_chg y i LCHAN_ST_WAIT_RLL_RTP_RELEASED (lchan_fsm_wait_rll_rtp_released_onenter y i)"

text \<open>The transition \<open>lchan_fail\<close> makes: to the state the table gives for the current state.\<close>

definition lchan_error_chg :: "lchan_env \<Rightarrow> nat \<Rightarrow> lchan_fsm_state \<Rightarrow> ts_world \<Rightarrow> ts_world res" where
  "lchan_error_chg y i target =
     (case target of
        LCHAN_ST_UNUSED \<Rightarrow> lchan_chg_unused y i
      | LCHAN_ST_BORKEN \<Rightarrow> lchan_chg_borken y i
      | LCHAN_ST_WAIT_RF_RELEASE_ACK \<Rightarrow> lchan_chg_wait_rf_release_ack y i
      | LCHAN_ST_WAIT_RLL_RTP_RELEASED \<Rightarrow> lchan_chg_wait_rll_rtp_released y i
      | _ \<Rightarrow> Ok)"

definition lchan_fail :: "lchan_env \<Rightarrow> nat \<Rightarrow> string \<Rightarrow> ts_world \<Rightarrow> ts_world res" where
  "lchan_fail y i msg w =
     (let target = lchan_fsm_on_error (lchan_state w i)
      in lchan_fail_to y i target (lchan_error_chg y i target) msg w)"

section \<open>Release\<close>

text \<open>
  \<open>lchan_release\<close>.  The default case of the switch falls through to WAIT_RLL_RTP_RELEASED after
  signalling the release.
\<close>

definition lchan_release_err :: "lchan_env \<Rightarrow> nat \<Rightarrow> ts_world \<Rightarrow> ts_world res" where
  "lchan_release_err y i w =
     (case lchan_state w i of
        LCHAN_ST_WAIT_RLL_RTP_RELEASED \<Rightarrow> lchan_chg_wait_rf_release_ack y i w
      | LCHAN_ST_WAIT_TS_READY \<Rightarrow> lchan_chg_wait_rll_rtp_released y i w
      | LCHAN_ST_WAIT_RF_RELEASE_ACK \<Rightarrow> Ok w
      | LCHAN_ST_BORKEN \<Rightarrow> Ok w
      | _ \<Rightarrow> steps [lchan_do_release y i, lchan_chg_wait_rf_release_ack y i] w)"

definition lchan_release :: "lchan_env \<Rightarrow> nat \<Rightarrow> bool \<Rightarrow> bool \<Rightarrow> rsl_cause \<Rightarrow> ts_world \<Rightarrow> ts_world res" where
  "lchan_release y i do_rr err cause_rr w =
     (if lc_fi (w_lchan w i) = None then Ok w
      else if in_release_handler (w_lchan w i) then Ok w
      else steps
        [\<lambda>w. Ok (upd_lchan i (\<lambda>l. l\<lparr> in_release_handler := True, in_error := err,
                   rsl_error_cause := cause_rr, do_rr_release := do_rr, rel_requested := True \<rparr>) w),
         \<lambda>w. if fi_rtp (w_lchan w i) \<and> in_error (w_lchan w i) then l_up y Rtp_rollback i w else Ok w,
         \<lambda>w. if in_error (w_lchan w i) then lchan_release_err y i w
             else if lchan_state w i = LCHAN_ST_ESTABLISHED then lchan_chg_wait_rll_rtp_released y i w
             else Ok w,
         \<lambda>w. Ok (upd_lchan i (\<lambda>l. l\<lparr> in_release_handler := False \<rparr>) w)] w)"

section \<open>Activation\<close>

definition lchan_on_fully_established :: "lchan_env \<Rightarrow> nat \<Rightarrow> ts_world \<Rightarrow> ts_world res" where
  "lchan_on_fully_established y i w =
     (if concluded (w_lchan w i) then Ok w
      else let w = upd_lchan i (\<lambda>l. l\<lparr> concluded := True \<rparr>) w;
               lchan = w_lchan w i
           in case activ_for (act_info lchan) of
             FOR_ASSIGNMENT \<Rightarrow>
               (case lc_conn lchan of
                  None \<Rightarrow> lchan_release y i False True RSL_ERR_EQUIPMENT_FAIL w
                | Some c \<Rightarrow>
                    if \<not> q_assignment_fi (l_q y) c w
                    then lchan_release y i False True RSL_ERR_EQUIPMENT_FAIL w
                    else l_up y (Assignment_lchan_established c) i w)
           | FOR_HANDOVER \<Rightarrow>
               (case lc_conn lchan of
                  None \<Rightarrow> lchan_release y i False True RSL_ERR_EQUIPMENT_FAIL w
                | Some c \<Rightarrow>
                    if \<not> q_ho_fi (l_q y) c w
                    then lchan_release y i False True RSL_ERR_EQUIPMENT_FAIL w
                    else l_up y (Ho_lchan_established c) i w)
           | _ \<Rightarrow> Ok w)"

definition lchan_fsm_established_onenter :: "lchan_env \<Rightarrow> nat \<Rightarrow> ts_world \<Rightarrow> ts_world res" where
  "lchan_fsm_established_onenter y i w =
     (if rel_requested (w_lchan w i) then lchan_fail y i ''Release requested while activating'' w
      else lchan_on_fully_established y i w)"

definition lchan_chg_established :: "lchan_env \<Rightarrow> nat \<Rightarrow> ts_world \<Rightarrow> ts_world res" where
  "lchan_chg_established y i =
     lchan_chg y i LCHAN_ST_ESTABLISHED (lchan_fsm_established_onenter y i)"

definition lchan_fsm_wait_rll_rtp_establish_onenter :: "lchan_env \<Rightarrow> nat \<Rightarrow> ts_world \<Rightarrow> ts_world res" where
  "lchan_fsm_wait_rll_rtp_establish_onenter y i w =
     (if fi_rtp (w_lchan w i) then l_up y Rtp_lchan_ready i w else Ok w)"

definition lchan_chg_wait_rll_rtp_establish :: "lchan_env \<Rightarrow> nat \<Rightarrow> ts_world \<Rightarrow> ts_world res" where
  "lchan_chg_wait_rll_rtp_establish y i =
     lchan_chg y i LCHAN_ST_WAIT_RLL_RTP_ESTABLISH (lchan_fsm_wait_rll_rtp_establish_onenter y i)"

text \<open>RSL activation types: intra-cell immediate and normal assignment, inter-cell (a)synchronous.\<close>

definition lchan_act_type :: "lchan_env \<Rightarrow> nat \<Rightarrow> ts_world \<Rightarrow> (rsl_act_type \<times> u8) res" where
  "lchan_act_type y i w =
     (case activ_for (act_info (w_lchan w i)) of
        FOR_MS_CHANNEL_REQUEST \<Rightarrow> Ok (RSL_ACT_INTRA_IMM_ASS, 0)
      | FOR_HANDOVER \<Rightarrow>
          (case lc_conn (w_lchan w i) of
             None \<Rightarrow> Abort
           | Some c \<Rightarrow> Ok (if q_ho_async (l_q y) c w then RSL_ACT_INTER_ASYNC else RSL_ACT_INTER_SYNC, q_ho_ref (l_q y) c w))
      | _ \<Rightarrow> Ok (RSL_ACT_INTRA_NORM_ASS, 0))"

definition lchan_fsm_wait_activ_ack_onenter :: "lchan_env \<Rightarrow> nat \<Rightarrow> ts_world \<Rightarrow> ts_world res" where
  "lchan_fsm_wait_activ_ack_onenter y i w =
     (if rel_requested (w_lchan w i)
      then lchan_fail_to y i LCHAN_ST_UNUSED (lchan_chg_unused y i) ''Release requested while activating'' w
      else rbind (lchan_act_type y i w) (\<lambda>(act_type, ho_ref).
        let w = upd_lchan i (\<lambda>l. l\<lparr> lc_encr := ai_encr (act_info l) \<rparr>) w;
            (rc, w) = l_tx y (Chan_activ i act_type ho_ref) w
        in if rc \<noteq> 0
           then lchan_fail_to y i LCHAN_ST_UNUSED (lchan_chg_unused y i) ''Tx Chan Activ failed'' w
           else Ok w))"

definition lchan_chg_wait_activ_ack :: "lchan_env \<Rightarrow> nat \<Rightarrow> ts_world \<Rightarrow> ts_world res" where
  "lchan_chg_wait_activ_ack y i =
     lchan_chg y i LCHAN_ST_WAIT_ACTIV_ACK (lchan_fsm_wait_activ_ack_onenter y i)"

text \<open>Power and timing advance taken over from the old lchan on the same BTS.\<close>

definition lchan_init_power :: "lchan_env \<Rightarrow> nat \<Rightarrow> ts_world \<Rightarrow> ts_world" where
  "lchan_init_power y i w =
     (let max_pwr = upd_lchan i (\<lambda>l. l\<lparr> ms_power := q_ms_max_pwr_lvl (l_q y) \<rparr>) w in
      case re_use_mgw_endpoint_from_lchan (act_info (w_lchan w i)) of
        None \<Rightarrow> max_pwr
      | Some old \<Rightarrow>
          (case q_old_lchan (l_q y) old w of
             (same_bts, msp, bsp, ta) \<Rightarrow>
               if same_bts then upd_lchan i (\<lambda>l. l\<lparr> ms_power := msp, bs_power := bsp, rqd_ta := ta \<rparr>) w
               else max_pwr))"

text \<open>
  The AMR configuration; \<open>Ok None\<close> is one of the two failures.  \<open>q_sc_cfg_ok\<close> stands for
  \<^verbatim>\<open>gsm48_mr_cfg_from_gsm0808_sc_cfg\<close> of libosmocore and \<open>q_mr_config\<close> for \<^verbatim>\<open>lchan_mr_config\<close>, which
  dereferences the connection.
\<close>

definition lchan_init_amr :: "lchan_env \<Rightarrow> nat \<Rightarrow> ts_world \<Rightarrow> ts_world option res" where
  "lchan_init_amr y i w =
     (let info = act_info (w_lchan w i) in
      if ai_chan_mode info \<noteq> GSM48_CMODE_SPEECH_AMR then Ok (Some w)
      else if \<not> q_sc_cfg_ok (l_q y) (ai_s15_s0 info) then Ok None
      else case lc_conn (w_lchan w i) of
             None \<Rightarrow> Abort
           | Some c \<Rightarrow>
               (case q_mr_config (l_q y) c i w of
                  None \<Rightarrow> Ok None
                | Some (ms, bts) \<Rightarrow>
                    Ok (Some (upd_lchan i (\<lambda>l. l\<lparr> mr_ms_lv := ms, mr_bts_lv := bts,
                                 lc_s15_s0 := ai_s15_s0 info \<rparr>) w))))"

definition lchan_fsm_wait_ts_ready_onenter :: "lchan_env \<Rightarrow> nat \<Rightarrow> ts_world \<Rightarrow> ts_world res" where
  "lchan_fsm_wait_ts_ready_onenter y i w =
     (if rel_requested (w_lchan w i) then lchan_fail y i ''Release requested while activating'' w
      else let w = upd_lchan i (\<lambda>l. l\<lparr> lc_conn := for_conn (act_info l) \<rparr>) w;
               w = lchan_init_power y i w
           in rbind (lchan_init_amr y i w) (\<lambda>r. case r of
             None \<Rightarrow> lchan_fail y i ''Can not determine multirate configuration'' w
           | Some w \<Rightarrow>
               if ai_chan_mode (act_info (w_lchan w i)) \<notin>
                    {GSM48_CMODE_SIGN, GSM48_CMODE_SPEECH_V1, GSM48_CMODE_SPEECH_EFR, GSM48_CMODE_SPEECH_AMR}
               then lchan_fail y i ''Not implemented: cannot activate for chan mode'' w
               else steps
                 [\<lambda>w. Ok (upd_lchan i (\<lambda>l. l\<lparr> tch_mode := ai_chan_mode (act_info l),
                        rsl_cmode := (if ai_chan_mode (act_info l) = GSM48_CMODE_SIGN then RSL_CMOD_SPD_SIGN else RSL_CMOD_SPD_SPEECH) \<rparr>) w),
                  l_td y TS_EV_LCHAN_REQUESTED (Some i),
                  \<lambda>w. if requires_voice_stream (act_info (w_lchan w i)) then l_up y Rtp_start i w else Ok w] w))"

definition lchan_chg_wait_ts_ready :: "lchan_env \<Rightarrow> nat \<Rightarrow> ts_world \<Rightarrow> ts_world res" where
  "lchan_chg_wait_ts_ready y i =
     lchan_chg y i LCHAN_ST_WAIT_TS_READY (lchan_fsm_wait_ts_ready_onenter y i)"

section \<open>Actions of the states\<close>

definition lchan_fsm_unused :: "lchan_env \<Rightarrow> nat \<Rightarrow> lchan_fsm_event \<Rightarrow> lchan_ev_data \<Rightarrow> ts_world \<Rightarrow> ts_world res" where
  "lchan_fsm_unused y i ev d w =
     (case ev of
        LCHAN_EV_ACTIVATE \<Rightarrow>
          (case d of
             D_info info \<Rightarrow>
               steps [\<lambda>w. osmo_assert (lc_conn (w_lchan w i) = None) w,
                      \<lambda>w. osmo_assert (mgw_endpoint_ci_bts (w_lchan w i) = None) w,
                      \<lambda>w. Ok (lchan_set_last_error i None w),
                      \<lambda>w. Ok (upd_lchan i (\<lambda>l. l\<lparr> rel_requested := False, act_info := info, concluded := False \<rparr>) w),
                      lchan_chg_wait_ts_ready y i] w
           | _ \<Rightarrow> Abort)
      | _ \<Rightarrow> Abort)"

definition lchan_rtp_failed :: "lchan_env \<Rightarrow> nat \<Rightarrow> (ts_world \<Rightarrow> ts_world res) \<Rightarrow> ts_world \<Rightarrow> ts_world res" where
  "lchan_rtp_failed y i fl w = (if in_release_handler (w_lchan w i) then Ok w else fl w)"

definition lchan_fsm_wait_ts_ready :: "lchan_env \<Rightarrow> nat \<Rightarrow> lchan_fsm_event \<Rightarrow> lchan_ev_data \<Rightarrow> ts_world \<Rightarrow> ts_world res" where
  "lchan_fsm_wait_ts_ready y i ev d w =
     (case ev of
        LCHAN_EV_TS_READY \<Rightarrow> lchan_chg_wait_activ_ack y i w
      | LCHAN_EV_RTP_RELEASED \<Rightarrow> lchan_rtp_failed y i (lchan_fail y i ''Failed to setup RTP stream'') w
      | LCHAN_EV_RTP_ERROR \<Rightarrow> lchan_rtp_failed y i (lchan_fail y i ''Failed to setup RTP stream'') w
      | _ \<Rightarrow> Abort)"

text \<open>Reporting the activated channel; the flag says whether the code returns early.\<close>

definition lchan_report_active :: "lchan_env \<Rightarrow> nat \<Rightarrow> ts_world \<Rightarrow> (bool \<times> ts_world) res" where
  "lchan_report_active y i w =
     (let lchan = w_lchan w i;
          cont = (\<lambda>m. rbind m (\<lambda>w. Ok (False, w)));
          release = lchan_release y i False True RSL_ERR_EQUIPMENT_FAIL
      in case activ_for (act_info lchan) of
           FOR_MS_CHANNEL_REQUEST \<Rightarrow>
             (let (rc, w) = l_tx y (Imm_assignment i) w in
              if rc \<noteq> 0
              then rbind (lchan_fail y i ''Failed to Tx RR Immediate Assignment message'' w) (\<lambda>w. Ok (True, w))
              else Ok (False, upd_lchan i (\<lambda>l. l\<lparr> immediate_assignment_sent := True \<rparr>) w))
         | FOR_ASSIGNMENT \<Rightarrow>
             (case lc_conn lchan of
                None \<Rightarrow> cont (release w)
              | Some c \<Rightarrow> if \<not> q_assignment_fi (l_q y) c w then cont (release w)
                          else cont (l_up y (Assignment_lchan_active c) i w))
         | FOR_HANDOVER \<Rightarrow>
             (case lc_conn lchan of
                None \<Rightarrow> cont (release w)
              | Some c \<Rightarrow> if \<not> q_ho_fi (l_q y) c w then cont (release w)
                          else cont (l_up y (Ho_lchan_active c) i w))
         | _ \<Rightarrow> Ok (False, w))"

definition lchan_fsm_post_activ_ack :: "lchan_env \<Rightarrow> nat \<Rightarrow> ts_world \<Rightarrow> ts_world res" where
  "lchan_fsm_post_activ_ack y i w =
     (if rel_requested (w_lchan w i)
      then lchan_fail_to y i LCHAN_ST_WAIT_RF_RELEASE_ACK (lchan_chg_wait_rf_release_ack y i)
             ''Release requested while activating'' w
      else rbind (lchan_report_active y i w)
             (\<lambda>(returned, w). if returned then Ok w else lchan_chg_wait_rll_rtp_establish y i w))"

definition lchan_activ_nack :: "lchan_env \<Rightarrow> nat \<Rightarrow> lchan_ev_data \<Rightarrow> ts_world \<Rightarrow> ts_world res" where
  "lchan_activ_nack y i d w =
     (case d of
        D_cause c \<Rightarrow>
          (let w = upd_lchan i (\<lambda>l. l\<lparr> rsl_error_cause := c, in_error := True \<rparr>) w;
               st = (if c \<noteq> RSL_ERR_RCH_ALR_ACTV_ALLOC then LCHAN_ST_BORKEN else LCHAN_ST_WAIT_RF_RELEASE_ACK)
           in lchan_fail_to y i st (lchan_error_chg y i st) ''Chan Activ NACK'' w)
      | _ \<Rightarrow>
          lchan_fail_to y i LCHAN_ST_BORKEN (lchan_chg_borken y i) ''Chan Activ NACK without cause IE''
            (upd_lchan i (\<lambda>l. l\<lparr> rsl_error_cause := RSL_ERR_IE_NONEXIST, in_error := True \<rparr>) w))"

definition lchan_fsm_wait_activ_ack :: "lchan_env \<Rightarrow> nat \<Rightarrow> lchan_fsm_event \<Rightarrow> lchan_ev_data \<Rightarrow> ts_world \<Rightarrow> ts_world res" where
  "lchan_fsm_wait_activ_ack y i ev d w =
     (let rtp_failed = lchan_rtp_failed y i
            (lchan_fail_to y i LCHAN_ST_WAIT_RF_RELEASE_ACK (lchan_chg_wait_rf_release_ack y i)
               ''Failed to setup RTP stream'')
      in case ev of
        LCHAN_EV_RSL_CHAN_ACTIV_ACK \<Rightarrow>
          lchan_fsm_post_activ_ack y i (upd_lchan i (\<lambda>l. l\<lparr> activ_ack := True \<rparr>) w)
      | LCHAN_EV_RSL_CHAN_ACTIV_NACK \<Rightarrow>
          steps [\<lambda>w. Ok (upd_lchan i (\<lambda>l. l\<lparr> in_release_handler := True \<rparr>) w),
                 lchan_activ_nack y i d,
                 \<lambda>w. Ok (upd_lchan i (\<lambda>l. l\<lparr> in_release_handler := False \<rparr>) w)] w
      | LCHAN_EV_RTP_RELEASED \<Rightarrow> rtp_failed w
      | LCHAN_EV_RTP_ERROR \<Rightarrow> rtp_failed w
      | _ \<Rightarrow> Abort)"

definition lchan_fsm_wait_rll_rtp_establish :: "lchan_env \<Rightarrow> nat \<Rightarrow> lchan_fsm_event \<Rightarrow> lchan_ev_data \<Rightarrow> ts_world \<Rightarrow> ts_world res" where
  "lchan_fsm_wait_rll_rtp_establish y i ev d w =
     (case ev of
        LCHAN_EV_RLL_ESTABLISH_IND \<Rightarrow>
          (if \<not> requires_voice_stream (act_info (w_lchan w i)) \<or> q_rtp_established (l_q y) i w
           then lchan_chg_established y i w else Ok w)
      | LCHAN_EV_RTP_READY \<Rightarrow>
          (if sapis (w_lchan w i) ! 0 \<noteq> LCHAN_SAPI_UNUSED then lchan_chg_established y i w else Ok w)
      | LCHAN_EV_RTP_RELEASED \<Rightarrow> lchan_rtp_failed y i (lchan_fail y i ''Failed to setup RTP stream'') w
      | LCHAN_EV_RTP_ERROR \<Rightarrow> lchan_rtp_failed y i (lchan_fail y i ''Failed to setup RTP stream'') w
      | _ \<Rightarrow> Abort)"

definition handle_rll_rel_ind_or_conf :: "lchan_env \<Rightarrow> nat \<Rightarrow> lchan_ev_data \<Rightarrow> ts_world \<Rightarrow> ts_world res" where
  "handle_rll_rel_ind_or_conf y i d w =
     (case d of
        D_link_id link_id \<Rightarrow>
          (let sapi = unat (link_id AND 7) in
           steps [\<lambda>w. Ok (upd_lchan i (\<lambda>l. l\<lparr> sapis := (sapis l)[sapi := LCHAN_SAPI_UNUSED] \<rparr>) w),
                  l_up y (Rll_indication_rel link_id) i,
                  \<lambda>w. case lc_conn (w_lchan w i) of
                        None \<Rightarrow> Ok w
                      | Some c \<Rightarrow> if sapi = 0 \<and> link_id AND 0xc0 = 0
                                  then l_up y (Gscon_lchan_releasing c) i w else Ok w] w)
      | _ \<Rightarrow> Abort)"

definition lchan_fsm_established :: "lchan_env \<Rightarrow> nat \<Rightarrow> lchan_fsm_event \<Rightarrow> lchan_ev_data \<Rightarrow> ts_world \<Rightarrow> ts_world res" where
  "lchan_fsm_established y i ev d w =
     (let rel = (\<lambda>w. rbind (handle_rll_rel_ind_or_conf y i d w) (\<lambda>w.
            if lchan_active_sapis (w_lchan w i) 0 = 0 then lchan_chg_wait_rll_rtp_released y i w else Ok w))
      in case ev of
        LCHAN_EV_RLL_ESTABLISH_IND \<Rightarrow> Ok w
      | LCHAN_EV_RLL_REL_IND \<Rightarrow> rel w
      | LCHAN_EV_RLL_REL_CONF \<Rightarrow> rel w
      | LCHAN_EV_RTP_RELEASED \<Rightarrow> lchan_rtp_failed y i (lchan_fail y i ''RTP stream closed unexpectedly'') w
      | LCHAN_EV_RTP_ERROR \<Rightarrow> lchan_rtp_failed y i (lchan_fail y i ''RTP stream closed unexpectedly'') w
      | _ \<Rightarrow> Abort)"

definition lchan_fsm_wait_rll_rtp_released :: "lchan_env \<Rightarrow> nat \<Rightarrow> lchan_fsm_event \<Rightarrow> lchan_ev_data \<Rightarrow> ts_world \<Rightarrow> ts_world res" where
  "lchan_fsm_wait_rll_rtp_released y i ev d w =
     rbind (case ev of
              LCHAN_EV_RLL_REL_IND \<Rightarrow> handle_rll_rel_ind_or_conf y i d w
            | LCHAN_EV_RLL_REL_CONF \<Rightarrow> handle_rll_rel_ind_or_conf y i d w
            | LCHAN_EV_RTP_RELEASED \<Rightarrow> Ok w
            | LCHAN_EV_RTP_ERROR \<Rightarrow> Ok w
            | _ \<Rightarrow> Abort)
       (\<lambda>w. if lchan_active_sapis (w_lchan w i) 1 = 0 \<and> \<not> fi_rtp (w_lchan w i)
            then lchan_chg_wait_before_rf_release y i w else Ok w)"

definition lchan_fsm_wait_rf_release_ack :: "lchan_env \<Rightarrow> nat \<Rightarrow> lchan_fsm_event \<Rightarrow> lchan_ev_data \<Rightarrow> ts_world \<Rightarrow> ts_world res" where
  "lchan_fsm_wait_rf_release_ack y i ev d w =
     (case ev of
        LCHAN_EV_RSL_RF_CHAN_REL_ACK \<Rightarrow>
          (if in_error (w_lchan w i) then lchan_chg_wait_after_error y i w else lchan_chg_unused y i w)
      | LCHAN_EV_RTP_RELEASED \<Rightarrow> Ok w
      | _ \<Rightarrow> Abort)"

definition lchan_fsm_borken :: "lchan_env \<Rightarrow> nat \<Rightarrow> lchan_fsm_event \<Rightarrow> lchan_ev_data \<Rightarrow> ts_world \<Rightarrow> ts_world res" where
  "lchan_fsm_borken y i ev d w =
     (let mark = upd_lchan i (\<lambda>l. l\<lparr> in_error := True, rsl_error_cause := RSL_ERR_INTERWORKING \<rparr>) in
      case ev of
        LCHAN_EV_RSL_CHAN_ACTIV_ACK \<Rightarrow> lchan_chg_wait_rf_release_ack y i (mark w)
      | LCHAN_EV_RSL_CHAN_ACTIV_NACK \<Rightarrow> lchan_chg_unused y i w
      | LCHAN_EV_RSL_RF_CHAN_REL_ACK \<Rightarrow> lchan_chg_wait_after_error y i (mark w)
      | LCHAN_EV_RTP_RELEASED \<Rightarrow> Ok w
      | LCHAN_EV_RTP_ERROR \<Rightarrow> Ok w
      | _ \<Rightarrow> Abort)"

text \<open>CBCH, WAIT_BEFORE_RF_RELEASE and WAIT_AFTER_ERROR have no action: events are just accepted.\<close>

fun lchan_action :: "lchan_fsm_state \<Rightarrow> lchan_env \<Rightarrow> nat \<Rightarrow> lchan_fsm_event \<Rightarrow> lchan_ev_data \<Rightarrow> ts_world \<Rightarrow> ts_world res" where
  "lchan_action LCHAN_ST_UNUSED y i ev d w = lchan_fsm_unused y i ev d w"
| "lchan_action LCHAN_ST_WAIT_TS_READY y i ev d w = lchan_fsm_wait_ts_ready y i ev d w"
| "lchan_action LCHAN_ST_WAIT_ACTIV_ACK y i ev d w = lchan_fsm_wait_activ_ack y i ev d w"
| "lchan_action LCHAN_ST_WAIT_RLL_RTP_ESTABLISH y i ev d w = lchan_fsm_wait_rll_rtp_establish y i ev d w"
| "lchan_action LCHAN_ST_ESTABLISHED y i ev d w = lchan_fsm_established y i ev d w"
| "lchan_action LCHAN_ST_WAIT_RLL_RTP_RELEASED y i ev d w = lchan_fsm_wait_rll_rtp_released y i ev d w"
| "lchan_action LCHAN_ST_WAIT_RF_RELEASE_ACK y i ev d w = lchan_fsm_wait_rf_release_ack y i ev d w"
| "lchan_action LCHAN_ST_BORKEN y i ev d w = lchan_fsm_borken y i ev d w"
| "lchan_action _ y i ev d w = Ok w"

definition lchan_fsm_allstate_action :: "lchan_env \<Rightarrow> nat \<Rightarrow> lchan_fsm_event \<Rightarrow> ts_world \<Rightarrow> ts_world res" where
  "lchan_fsm_allstate_action y i ev w =
     (if ev = LCHAN_EV_TS_ERROR
      then lchan_fail_to y i LCHAN_ST_UNUSED (lchan_chg_unused y i) ''LCHAN_EV_TS_ERROR'' w else Ok w)"

definition lchan_fsm_timer_cb :: "lchan_env \<Rightarrow> nat \<Rightarrow> ts_world \<Rightarrow> ts_world res" where
  "lchan_fsm_timer_cb y i w =
     (case lchan_state w i of
        LCHAN_ST_WAIT_BEFORE_RF_RELEASE \<Rightarrow> lchan_chg_wait_rf_release_ack y i w
      | LCHAN_ST_WAIT_AFTER_ERROR \<Rightarrow> lchan_chg_unused y i w
      | _ \<Rightarrow> lchan_fail y i ''Timeout''
               (upd_lchan i (\<lambda>l. l\<lparr> in_error := True, rsl_error_cause := RSL_ERR_INTERWORKING \<rparr>) w))"

text \<open>Termination of the instance runs the cleanup; the parent then gets the event of the child.\<close>

definition lchan_fsm_cleanup :: "lchan_env \<Rightarrow> nat \<Rightarrow> ts_world \<Rightarrow> ts_world res" where
  "lchan_fsm_cleanup y i =
     steps [lchan_reset y i, \<lambda>w. Ok (upd_lchan i (\<lambda>l. l\<lparr> last_error := None, lc_fi := None \<rparr>) w)]"

definition lchan_fsm_dispatch :: "lchan_env \<Rightarrow> nat \<Rightarrow> lchan_fsm_event \<Rightarrow> lchan_ev_data \<Rightarrow> ts_world \<Rightarrow> (int \<times> ts_world) res" where
  "lchan_fsm_dispatch y i ev d w =
     fsm_dispatch (l_eng y) lchan_allstate_event_mask (lchan_in_event_mask (lchan_state w i)) (lchan_ev_nr ev)
       (lchan_fsm_allstate_action y i ev) (lchan_action (lchan_state w i) y i ev d) w"

lemma lchan_fsm_dispatch_eq:
  assumes "fsm_contract (l_eng y)"
  shows "lchan_fsm_dispatch y i ev d w =
    (if ev = LCHAN_EV_TS_ERROR then rbind (lchan_fsm_allstate_action y i ev w) (\<lambda>w. Ok (0, w))
     else if ev \<in> set (lchan_in_events (lchan_state w i))
          then rbind (lchan_action (lchan_state w i) y i ev d w) (\<lambda>w. Ok (0, w))
     else Ok (-1, w))"
  by (simp add: lchan_fsm_dispatch_def fsm_contract_dispatch[OF assms] fsm_simps)

section \<open>The request for activation\<close>

definition lchan_may_activate :: "lchan_env \<Rightarrow> nat \<Rightarrow> lchan_activate_info \<Rightarrow> ts_world \<Rightarrow> bool" where
  "lchan_may_activate y i info w =
     (case activ_for info of
        FOR_ASSIGNMENT \<Rightarrow>
          (case for_conn info of
             None \<Rightarrow> False
           | Some c \<Rightarrow> q_conn_fi (l_q y) c w \<and> q_assignment_new_lchan (l_q y) c w = Some i)
      | FOR_HANDOVER \<Rightarrow>
          (case for_conn info of
             None \<Rightarrow> False
           | Some c \<Rightarrow> q_conn_fi (l_q y) c w \<and> q_ho_fi (l_q y) c w \<and> q_ho_new_lchan (l_q y) c w = Some i)
      | _ \<Rightarrow> True)"

definition lchan_activate :: "lchan_env \<Rightarrow> nat \<Rightarrow> lchan_activate_info \<Rightarrow> ts_world \<Rightarrow> ts_world res" where
  "lchan_activate y i info w =
     (let abort = lchan_on_activation_failure y i (activ_for info) (for_conn info) in
      if \<not> lchan_state_is (w_lchan w i) LCHAN_ST_UNUSED then abort w
      else if ts_fi (w_ts w) = None \<or> lc_fi (w_lchan w i) = None then Abort
      else if \<not> lchan_may_activate y i info w then abort w
      else rbind (lchan_fsm_dispatch y i LCHAN_EV_ACTIVATE (D_info info) w)
             (\<lambda>(rc, w). if rc \<noteq> 0 then abort w else Ok w))"

end
