(* ===== verification/Ts_Lchan.thy ===== *)
theory Ts_Lchan
  imports Timeslot_Fsm Lchan_Fsm
begin

text \<open>
  The timeslot machine and the machines of its lchans together.  They call each other
  synchronously: a request of an lchan reaches the timeslot inside the lchan's transition, the
  timeslot answers READY or ERROR inside that call, and an lchan that becomes unused tells the
  timeslot, which may in turn reject waiting lchans.  The mutual dispatch is defined with a bound
  on the nesting (\<open>Deep\<close> when it is used up); \<open>depth\<close> shows that nine nested pairs always suffice,
  because every nested call starts with one lchan less waiting.

  The interfaces are locales: \<open>waiting_lchans\<close> and \<open>ts_client\<close> say what the timeslot machine relies
  on from the lchan machine, and the lemmas of the timeslot machine are proved once from them; the
  lchan machine's side of the contract is proved from \<open>lchan_client\<close>, what it relies on from the
  timeslot machine.  Both hold for the tied machines (\<open>cell_machines\<close>).
\<close>

section \<open>The tied machines\<close>

record cell_env =
  c_eng :: "ts_world fsm_engine"
  c_send :: "rsl_msg \<Rightarrow> ts_world \<Rightarrow> int"
  c_up :: "upcall \<Rightarrow> nat \<Rightarrow> ts_world \<Rightarrow> ts_world res"
  c_q :: lchan_queries

definition lchan_env_of :: "cell_env \<Rightarrow> (ts_fsm_event \<Rightarrow> nat option \<Rightarrow> ts_world \<Rightarrow> ts_world res) \<Rightarrow> lchan_env" where
  "lchan_env_of c td = \<lparr> l_eng = c_eng c, l_send = c_send c, l_td = td, l_up = c_up c, l_q = c_q c \<rparr>"

definition ts_env_of :: "cell_env \<Rightarrow> (nat \<Rightarrow> lchan_fsm_event \<Rightarrow> lchan_ev_data \<Rightarrow> ts_world \<Rightarrow> ts_world res)
    \<Rightarrow> (nat \<Rightarrow> ts_world \<Rightarrow> ts_world res) \<Rightarrow> ts_env" where
  "ts_env_of c ld lt = \<lparr> eng = c_eng c, abis_rsl_sendmsg = c_send c, lo_dispatch = ld, lo_term = lt \<rparr>"

fun ts_disp :: "nat \<Rightarrow> cell_env \<Rightarrow> ts_fsm_event \<Rightarrow> nat option \<Rightarrow> ts_world \<Rightarrow> ts_world res"
  and lc_disp :: "nat \<Rightarrow> cell_env \<Rightarrow> nat \<Rightarrow> lchan_fsm_event \<Rightarrow> lchan_ev_data \<Rightarrow> ts_world \<Rightarrow> ts_world res"
  and lc_term :: "nat \<Rightarrow> cell_env \<Rightarrow> nat \<Rightarrow> ts_world \<Rightarrow> ts_world res" where
  "ts_disp 0 c ev d w = Deep"
| "ts_disp (Suc n) c ev d w = ts_dispatch (ts_env_of c (lc_disp n c) (lc_term n c)) ev d w"
| "lc_disp 0 c i ev d w = Deep"
| "lc_disp (Suc n) c i ev d w =
     rbind (lchan_fsm_dispatch (lchan_env_of c (ts_disp n c)) i ev d w) (\<lambda>(rc, w). Ok w)"
| "lc_term 0 c i w = Deep"
| "lc_term (Suc n) c i w =
     fsm_term (c_eng c) (lchan_fsm_cleanup (lchan_env_of c (ts_disp n c)) i)
       (ts_disp n c TS_EV_LCHAN_UNUSED (Some i)) w"

text \<open>The bound on nested dispatches: two for each of the eight lchans and four to start with.\<close>

definition NEST :: nat where "NEST = 20"

definition cell_lchan_env :: "cell_env \<Rightarrow> lchan_env" where
  "cell_lchan_env c = lchan_env_of c (ts_disp NEST c)"

definition cell_ts_env :: "cell_env \<Rightarrow> ts_env" where
  "cell_ts_env c = ts_env_of c (lc_disp NEST c) (lc_term NEST c)"

text \<open>
  The inputs of a cell: events of the timeslot from the links and from the BTS, its timer, the
  activation and the release of an lchan, radio events and the timer of an lchan.
\<close>

datatype cell_input =
    In_ts ts_fsm_event
  | In_ts_timer
  | In_activate nat lchan_activate_info
  | In_release nat bool bool rsl_cause
  | In_lchan nat lchan_fsm_event lchan_ev_data
  | In_lchan_timer nat

fun cell_step :: "cell_env \<Rightarrow> cell_input \<Rightarrow> ts_world \<Rightarrow> ts_world res" where
  "cell_step c (In_ts ev) w = ts_dispatch (cell_ts_env c) ev None w"
| "cell_step c In_ts_timer w = ts_fsm_timer_cb (cell_ts_env c) w"
| "cell_step c (In_activate i info) w = lchan_activate (cell_lchan_env c) i info w"
| "cell_step c (In_release i rr err cause) w = lchan_release (cell_lchan_env c) i rr err cause w"
| "cell_step c (In_lchan i ev d) w =
     rbind (lchan_fsm_dispatch (cell_lchan_env c) i ev d w) (\<lambda>(rc, w). Ok w)"
| "cell_step c (In_lchan_timer i) w = lchan_fsm_timer_cb (cell_lchan_env c) i w"

section \<open>Views of the world\<close>

definition alloc :: "ts_world \<Rightarrow> nat \<Rightarrow> bool" where
  "alloc w j \<longleftrightarrow> j < TS_MAX_LCHAN \<and> lc_fi (w_lchan w j) \<noteq> None"

definition waiting :: "ts_world \<Rightarrow> nat \<Rightarrow> bool" where
  "waiting w j \<longleftrightarrow> alloc w j \<and> lchan_state w j = LCHAN_ST_WAIT_TS_READY"

definition waiting_set :: "ts_world \<Rightarrow> nat set" where
  "waiting_set w = {j. waiting w j}"

definition dyn_pchan :: "gsm_phys_chan_config \<Rightarrow> bool" where
  "dyn_pchan p \<longleftrightarrow> p = GSM_PCHAN_TCH_F_TCH_H_PDCH \<or> p = GSM_PCHAN_TCH_F_PDCH"

definition activating :: "ts_world \<Rightarrow> nat \<Rightarrow> bool" where
  "activating w j \<longleftrightarrow> alloc w j \<and> lchan_state w j \<in> {LCHAN_ST_WAIT_TS_READY, LCHAN_ST_WAIT_ACTIV_ACK}"

text \<open>
  An lchan is orphaned when its activation reports to a machine of a connection it does not have
  (any more): an assignment whose outcome was not reported yet, or a handover whose channel
  activation is still to be sent.  The code dereferences the connection of an orphaned lchan.
\<close>

definition orphaned :: "gsm_lchan \<Rightarrow> bool" where
  "orphaned l \<longleftrightarrow> lc_conn l = None \<and>
     (activ_for (act_info l) = FOR_ASSIGNMENT \<and> \<not> concluded l \<or>
      activ_for (act_info l) = FOR_HANDOVER \<and> \<not> rel_requested l \<and> lchan_state_is l LCHAN_ST_WAIT_TS_READY)"

text \<open>An unused lchan that still has a connection or an endpoint would fail the assertions of its next activation.\<close>

definition dirty :: "gsm_lchan \<Rightarrow> bool" where
  "dirty l \<longleftrightarrow> lchan_state_is l LCHAN_ST_UNUSED \<and> (lc_conn l \<noteq> None \<or> mgw_endpoint_ci_bts l \<noteq> None)"

text \<open>The timer of an lchan is the one its state has in the table of timeouts.\<close>

definition lchan_timer_ok :: "lchan_fi option \<Rightarrow> bool" where
  "lchan_timer_ok fi \<longleftrightarrow> (case fi of None \<Rightarrow> True | Some f \<Rightarrow> lf_T f = lchan_fsm_timeouts (lf_state f))"

lemma lchan_timer_ok_simps [simp]:
  "lchan_timer_ok None" "lchan_timer_ok (Some \<lparr> lf_state = st, lf_T = T \<rparr>) \<longleftrightarrow> T = lchan_fsm_timeouts st"
  by (simp_all add: lchan_timer_ok_def)

text \<open>
  The invariant of a timeslot and its lchans: eight lchans with their numbers; the machine is past
  NOT_INITIALIZED only when both links are ready; with OML ready all subslots of the configured
  physical channel have their instance; the PDCH states belong to dynamic timeslots, a timer
  runs exactly in the two waiting states of the timeslot, and the timers of the lchans fit their
  states.
\<close>

definition ts_inv :: "gsm_bts_trx_ts \<Rightarrow> bool" where
  "ts_inv ts \<longleftrightarrow>
     length (lchans ts) = TS_MAX_LCHAN \<and>
     (\<forall>j < TS_MAX_LCHAN. lc_nr (lchans ts ! j) = j \<and> length (sapis (lchans ts ! j)) = 8 \<and>
        lchan_timer_ok (lc_fi (lchans ts ! j))) \<and>
     ts_fi ts \<noteq> None \<and>
     (tf_state (the (ts_fi ts)) \<noteq> TS_ST_NOT_INITIALIZED \<longrightarrow> is_oml_ready ts \<and> is_rsl_ready ts) \<and>
     (tf_state (the (ts_fi ts)) \<in> {TS_ST_WAIT_PDCH_ACT, TS_ST_PDCH, TS_ST_WAIT_PDCH_DEACT} \<longrightarrow>
        dyn_pchan (pchan_on_init ts)) \<and>
     (tf_T (the (ts_fi ts)) \<noteq> None \<longleftrightarrow>
        tf_state (the (ts_fi ts)) \<in> {TS_ST_WAIT_PDCH_ACT, TS_ST_WAIT_PDCH_DEACT}) \<and>
     (is_oml_ready ts \<longrightarrow> (\<forall>j < pchan_subslots (pchan_on_init ts). lc_fi (lchans ts ! j) \<noteq> None))"

text \<open>
  The invariant comes in two strengths: \<open>cell_inv True\<close> is \<open>ts_inv\<close>, and \<open>cell_inv False\<close> says in addition
  that no lchan is orphaned.
\<close>

definition sound_ts :: "bool \<Rightarrow> gsm_bts_trx_ts \<Rightarrow> bool" where
  "sound_ts b ts \<longleftrightarrow> b \<or> (\<forall>l \<in> set (lchans ts). \<not> orphaned l)"

definition cell_inv :: "bool \<Rightarrow> ts_world \<Rightarrow> bool" where
  "cell_inv b w \<longleftrightarrow> ts_inv (w_ts w) \<and> sound_ts b (w_ts w)"

lemma cell_inv_weaken: "cell_inv b w \<Longrightarrow> cell_inv True w"
  by (simp add: cell_inv_def sound_ts_def)

text \<open>
  What every nested call keeps: no lchan starts waiting or activating, instances neither appear nor
  vanish, the configured physical channel and the OML flag stay, the RSL flag is not cleared, and no
  unused lchan gets a connection or an endpoint.
\<close>

definition tidy :: "ts_world \<Rightarrow> ts_world \<Rightarrow> bool" where
  "tidy w w' \<longleftrightarrow> (\<forall>j < TS_MAX_LCHAN. dirty (w_lchan w' j) \<longrightarrow> dirty (w_lchan w j))"

definition cell_frame :: "ts_world \<Rightarrow> ts_world \<Rightarrow> bool" where
  "cell_frame w w' \<longleftrightarrow>
     waiting_set w' \<subseteq> waiting_set w \<and> (\<forall>j. activating w' j \<longrightarrow> activating w j) \<and>
     (\<forall>j. alloc w' j = alloc w j) \<and>
     w_on_init w' = w_on_init w \<and> is_oml_ready (w_ts w') = is_oml_ready (w_ts w) \<and>
     (is_rsl_ready (w_ts w) \<longrightarrow> is_rsl_ready (w_ts w'))"

lemma tidy_refl [simp]: "tidy w w"
  by (simp add: tidy_def)

lemma tidy_trans: "tidy w1 w2 \<Longrightarrow> tidy w2 w3 \<Longrightarrow> tidy w1 w3"
  by (auto simp: tidy_def)

lemma cell_frame_refl [simp]: "cell_frame w w"
  by (simp add: cell_frame_def)

lemma cell_frame_trans: "cell_frame w1 w2 \<Longrightarrow> cell_frame w2 w3 \<Longrightarrow> cell_frame w1 w3"
  by (auto simp: cell_frame_def)

end
