(* ===== verification/Ts_Client.thy ===== *)
theory Ts_Client
  imports Ts_Lchan
begin

text \<open>
  The timeslot machine seen as a client of the lchan machine.  The relation \<open>good b w w'\<close> collects
  what every nested call keeps; \<open>waiting_lchans\<close> is the interface the timeslot machine needs to
  answer an lchan that became unused, \<open>ts_client\<close> the full interface.  Each handler of
  \<^verbatim>\<open>timeslot_fsm.c\<close> is shown to return and to keep \<open>good\<close> from these interfaces.
\<close>

section \<open>What updates of the world keep\<close>

definition good :: "bool \<Rightarrow> ts_world \<Rightarrow> ts_world \<Rightarrow> bool" where
  "good b w0 w \<longleftrightarrow> cell_inv b w \<and> cell_frame w0 w \<and> tidy w0 w"

lemmas world_defs = upd_lchan_def upd_ts_def emit_def set_ts_state_def set_lchan_state_def

lemma good_emit [simp]: "good b w0 (emit e w) = good b w0 w"
  by (simp add: good_def emit_def cell_inv_def cell_frame_def tidy_def waiting_set_def waiting_def activating_def
      alloc_def lchan_state_def)

lemma good_trans: "good b w0 w1 \<Longrightarrow> good b w1 w2 \<Longrightarrow> good b w0 w2"
  by (auto simp: good_def intro: cell_frame_trans tidy_trans)

lemma good_refl [simp]: "good b w w = cell_inv b w"
  by (simp add: good_def)

lemma ts_state_simps [simp]:
  "ts_state (emit e w) = ts_state w"
  "ts_state (upd_lchan i f w) = ts_state w"
  "ts_state (set_lchan_state i st T w) = ts_state w"
  "ts_state (set_ts_state st' T w) = st'"
  by (simp_all add: ts_state_def world_defs)

lemma w_ts_simps [simp]:
  "w_ts (emit e w) = w_ts w"
  "w_ts (upd_ts g w) = g (w_ts w)"
  by (simp_all add: world_defs)

lemma lchan_upd_other:
  "lchans (w_ts (upd_lchan i f w)) = (lchans (w_ts w))[i := f (w_lchan w i)]"
  by (simp add: world_defs)

lemma w_lchan_upd:
  "i < length (lchans (w_ts w)) \<Longrightarrow> w_lchan (upd_lchan i f w) j = (if j = i then f (w_lchan w i) else w_lchan w j)"
  by (simp add: lchan_upd_other)

lemma upd_lchan_beyond: "\<not> i < length (lchans (w_ts w)) \<Longrightarrow> upd_lchan i f w = w"
  by (simp add: world_defs list_update_beyond)

lemma sound_nth: "sound_ts b ts \<longleftrightarrow> b \<or> (\<forall>j < length (lchans ts). \<not> orphaned (lchans ts ! j))"
  by (simp add: sound_ts_def all_set_conv_all_nth)

lemma upd_lchan_eqs [simp]:
  "ts_fi (w_ts (upd_lchan i f w)) = ts_fi (w_ts w)" "is_oml_ready (w_ts (upd_lchan i f w)) = is_oml_ready (w_ts w)"
  "is_rsl_ready (w_ts (upd_lchan i f w)) = is_rsl_ready (w_ts w)"
  "length (lchans (w_ts (upd_lchan i f w))) = length (lchans (w_ts w))"
  "pchan_on_init (w_ts (upd_lchan i f w)) = pchan_on_init (w_ts w)"
  by (simp_all add: world_defs)

lemma inv_upd_lchan:
  assumes "cell_inv b w" "lc_nr (f (w_lchan w i)) = lc_nr (w_lchan w i)"
    "length (sapis (f (w_lchan w i))) = length (sapis (w_lchan w i))"
    "lchan_timer_ok (lc_fi (f (w_lchan w i)))"
    "is_oml_ready (w_ts w) \<Longrightarrow> lc_fi (w_lchan w i) \<noteq> None \<Longrightarrow> lc_fi (f (w_lchan w i)) \<noteq> None"
    "b \<or> \<not> orphaned (f (w_lchan w i))"
  shows "cell_inv b (upd_lchan i f w)"
proof (cases "i < length (lchans (w_ts w))")
  case True
  note u = w_lchan_upd[OF True, of f]
  have ts: "ts_inv (w_ts w)" "sound_ts b (w_ts w)" using assms(1) by (simp_all add: cell_inv_def)
  then have "ts_inv (w_ts (upd_lchan i f w))"
    using assms(2-5) by (auto simp: ts_inv_def u)
  moreover have "sound_ts b (w_ts (upd_lchan i f w))" using ts(2) assms(6) by (auto simp: sound_nth u)
  ultimately show ?thesis by (simp add: cell_inv_def)
qed (use assms(1) in \<open>simp add: upd_lchan_beyond\<close>)

lemma frame_upd_lchan:
  assumes "lc_fi (f (w_lchan w i)) = None \<longleftrightarrow> lc_fi (w_lchan w i) = None"
    "lchan_state_is (f (w_lchan w i)) LCHAN_ST_WAIT_TS_READY \<Longrightarrow> lchan_state_is (w_lchan w i) LCHAN_ST_WAIT_TS_READY"
    "lchan_state_is (f (w_lchan w i)) LCHAN_ST_WAIT_ACTIV_ACK \<Longrightarrow>
       lchan_state_is (w_lchan w i) LCHAN_ST_WAIT_ACTIV_ACK \<or> lchan_state_is (w_lchan w i) LCHAN_ST_WAIT_TS_READY"
  shows "cell_frame w (upd_lchan i f w)"
proof (cases "i < length (lchans (w_ts w))")
  case True
  note u = w_lchan_upd[OF True, of f]
  have al: "alloc (upd_lchan i f w) j = alloc w j" for j using assms(1) by (auto simp: alloc_def u)
  have "waiting w j" if "waiting (upd_lchan i f w) j" for j
    using that assms(1,2)
    by (auto simp: waiting_def al alloc_def lchan_state_def lc_state_def lchan_state_is_def u split: if_splits option.splits)
  moreover have "activating w j" if "activating (upd_lchan i f w) j" for j
    using that assms
    by (auto simp: activating_def al alloc_def lchan_state_def lc_state_def lchan_state_is_def u split: if_splits option.splits)
  ultimately show ?thesis by (auto simp: cell_frame_def waiting_set_def al)
qed (simp add: upd_lchan_beyond)

lemma tidy_upd_lchan: "(dirty (f (w_lchan w i)) \<Longrightarrow> dirty (w_lchan w i)) \<Longrightarrow> tidy w (upd_lchan i f w)"
  by (cases "i < length (lchans (w_ts w))") (auto simp: tidy_def w_lchan_upd upd_lchan_beyond)

lemma inv_timer: "cell_inv b w \<Longrightarrow> i < length (lchans (w_ts w)) \<Longrightarrow> lchan_timer_ok (lc_fi (w_lchan w i))"
  by (simp add: cell_inv_def ts_inv_def)

lemma good_upd_lchan:
  assumes g: "good b w0 w"
    and f: "\<And>l. l = w_lchan w i \<Longrightarrow> lc_nr (f l) = lc_nr l \<and> lc_fi (f l) = lc_fi l \<and> length (sapis (f l)) = length (sapis l) \<and>
      (b \<or> \<not> orphaned (f l)) \<and> (dirty (f l) \<longrightarrow> dirty l)"
  shows "good b w0 (upd_lchan i f w)"
proof (cases "i < length (lchans (w_ts w))")
  case True
  have i: "cell_inv b w" using g by (simp add: good_def)
  have "good b w (upd_lchan i f w)"
    using f[OF refl] inv_upd_lchan[OF i, of f i] inv_timer[OF i True] frame_upd_lchan[of f w i] tidy_upd_lchan[of f w i]
    by (auto simp: good_def lchan_state_is_def)
  with g show ?thesis by (rule good_trans)
qed (use g in \<open>simp add: upd_lchan_beyond\<close>)

text \<open>Entering a state other than WAIT_TS_READY: a tidy change unless the state is UNUSED.\<close>

lemma set_lchan_state_upd:
  "set_lchan_state i st T w = upd_lchan i (\<lambda>l. l\<lparr> lc_fi := Some \<lparr> lf_state = st, lf_T = T \<rparr> \<rparr>) w"
  by (simp add: set_lchan_state_def)

lemma alloc_less: "cell_inv b w \<Longrightarrow> alloc w i \<Longrightarrow> i < length (lchans (w_ts w))"
  by (simp add: cell_inv_def ts_inv_def alloc_def)

lemma inv_orphaned: "cell_inv b w \<Longrightarrow> alloc w i \<Longrightarrow> b \<or> \<not> orphaned (w_lchan w i)"
  using alloc_less[of b w i] by (auto simp: cell_inv_def sound_nth)

lemma enter_state:
  assumes "cell_inv b w" "alloc w i" "st \<noteq> LCHAN_ST_WAIT_TS_READY" "st = LCHAN_ST_WAIT_ACTIV_ACK \<Longrightarrow> activating w i"
    "T = lchan_fsm_timeouts st"
  shows "cell_inv b (set_lchan_state i st T w) \<and> cell_frame w (set_lchan_state i st T w)"
  unfolding set_lchan_state_upd
  using assms(2-5) inv_orphaned[OF assms(1,2)]
  by (auto intro!: inv_upd_lchan[OF assms(1)] frame_upd_lchan
      simp: lchan_state_is_def orphaned_def alloc_def activating_def lchan_state_def lc_state_def split: option.splits)

lemma good_set_lchan_state:
  assumes g: "good b w0 w" and "alloc w i" "st \<noteq> LCHAN_ST_WAIT_TS_READY" "st = LCHAN_ST_WAIT_ACTIV_ACK \<Longrightarrow> activating w i"
    "T = lchan_fsm_timeouts st" "st \<noteq> LCHAN_ST_UNUSED"
  shows "good b w0 (set_lchan_state i st T w)"
proof (rule good_trans[OF g])
  have i: "cell_inv b w" using g by (simp add: good_def)
  have "tidy w (set_lchan_state i st T w)"
    unfolding set_lchan_state_upd by (rule tidy_upd_lchan) (use assms(6) in \<open>simp add: dirty_def lchan_state_is_def\<close>)
  then show "good b w (set_lchan_state i st T w)" using enter_state[OF i assms(2-5)] by (simp add: good_def)
qed

lemma good_upd_ts:
  assumes g: "good b w0 w" and l: "lchans (f (w_ts w)) = lchans (w_ts w)"
    and e: "pchan_on_init (f (w_ts w)) = w_on_init w" "is_oml_ready (f (w_ts w)) = is_oml_ready (w_ts w)"
      "is_rsl_ready (w_ts w) \<longrightarrow> is_rsl_ready (f (w_ts w))"
    and i: "ts_inv (f (w_ts w))"
  shows "good b w0 (upd_ts f w)"
proof -
  have "alloc (upd_ts f w) j = alloc w j" "waiting (upd_ts f w) j = waiting w j" "activating (upd_ts f w) j = activating w j" for j
    by (simp_all add: waiting_def activating_def alloc_def lchan_state_def lc_state_def l)
  then show ?thesis using g l e i
    by (simp add: good_def cell_inv_def cell_frame_def tidy_def waiting_set_def sound_ts_def)
qed

lemma good_upd_ts_field [simp]:
  assumes "good b w0 w"
  shows "good b w0 (upd_ts (\<lambda>ts. ts\<lparr> pchan_is := p ts \<rparr>) w)"
    "good b w0 (upd_ts (\<lambda>ts. ts\<lparr> pdch_act_allowed := v \<rparr>) w)"
    "good b w0 (upd_ts (\<lambda>ts. ts\<lparr> last_errmsg := m \<rparr>) w)"
    "good b w0 (upd_ts (\<lambda>ts. ts\<lparr> pdch_act_allowed := v, is_rsl_ready := True \<rparr>) w)"
  by (rule good_upd_ts[OF assms]; use assms in \<open>simp add: good_def cell_inv_def ts_inv_def \<close>)+

lemma good_set_ts_state:
  assumes g: "good b w0 w"
    and "st \<noteq> TS_ST_NOT_INITIALIZED \<Longrightarrow> is_oml_ready (w_ts w) \<and> is_rsl_ready (w_ts w)"
    and "st \<in> {TS_ST_WAIT_PDCH_ACT, TS_ST_PDCH, TS_ST_WAIT_PDCH_DEACT} \<Longrightarrow> dyn_pchan (w_on_init w)"
    and "T \<noteq> None \<longleftrightarrow> st \<in> {TS_ST_WAIT_PDCH_ACT, TS_ST_WAIT_PDCH_DEACT}"
  shows "good b w0 (set_ts_state st T w)"
  unfolding set_ts_state_def
  by (rule good_upd_ts[OF g]) (use assms in \<open>auto simp: good_def cell_inv_def ts_inv_def\<close>)


definition links :: "ts_world \<Rightarrow> bool" where
  "links w \<longleftrightarrow> is_oml_ready (w_ts w) \<and> is_rsl_ready (w_ts w)"

lemma links_simps [simp]:
  "links (emit e w) = links w" "links (upd_lchan i f w) = links w" "links (set_ts_state st T w) = links w"
  "links (set_lchan_state i st' T w) = links w"
  "links (upd_ts (\<lambda>ts. ts\<lparr> last_errmsg := m \<rparr>) w) = links w"
  "links (upd_ts (\<lambda>ts. ts\<lparr> pdch_act_allowed := v \<rparr>) w) = links w"
  "links (upd_ts (\<lambda>ts. ts\<lparr> pchan_is := p ts \<rparr>) w) = links w"
  by (simp_all add: links_def world_defs)

lemma on_init_simps [simp]:
  "w_on_init (upd_lchan i f w) = w_on_init w" "w_on_init (set_ts_state st T w) = w_on_init w"
  "w_on_init (set_lchan_state i st' T w) = w_on_init w"
  by (simp_all add: world_defs)

lemma good_inv: "good b w0 w \<Longrightarrow> cell_inv b w"
  by (simp add: good_def)

lemma links_frame: "good b w w' \<Longrightarrow> links w \<Longrightarrow> links w'"
  by (auto simp: good_def cell_frame_def links_def)

lemma links_state: "cell_inv b w \<Longrightarrow> ts_state w \<noteq> TS_ST_NOT_INITIALIZED \<Longrightarrow> links w"
  by (auto simp: cell_inv_def ts_inv_def links_def ts_state_def)

lemma finite_waiting [simp]: "finite (waiting_set w)"
  by (rule finite_subset[of _ "{..<TS_MAX_LCHAN}"]) (auto simp: waiting_set_def waiting_def alloc_def)

lemma good_card: "good b w0 w \<Longrightarrow> card (waiting_set w) \<le> card (waiting_set w0)"
  by (intro card_mono) (auto simp: good_def cell_frame_def)

lemma good_on_init: "good b w0 w \<Longrightarrow> w_on_init w = w_on_init w0"
  by (simp add: good_def cell_frame_def)

lemma good_alloc: "good b w0 w \<Longrightarrow> alloc w j = alloc w0 j"
  by (simp add: good_def cell_frame_def)

lemma iter_alloc: "cell_inv b w \<Longrightarrow> lchan_iter_cond (w_ts w) i p \<Longrightarrow> alloc w i"
  by (auto simp: lchan_iter_cond_def alloc_def cell_inv_def ts_inv_def)

lemma state_is_waiting: "alloc w i \<Longrightarrow> lchan_state_is (w_lchan w i) LCHAN_ST_WAIT_TS_READY = waiting w i"
  by (auto simp: lchan_state_is_def waiting_def alloc_def lchan_state_def lc_state_def split: option.splits)

lemma ts_chg_post:
  assumes "fsm_contract (eng x)" "st \<in> set (ts_out_states (ts_state w)) \<Longrightarrow> pst b (onenter (set_ts_state st T w)) Q"
    "st \<notin> set (ts_out_states (ts_state w)) \<Longrightarrow> Q w"
  shows "pst b (ts_chg x st T onenter w) Q"
  using assms by (simp add: ts_chg_def fsm_contract_state_chg ts_out_state_mask_bit)

text \<open>
  \<open>ready b k w\<close>: both links are up, the invariant holds and at most \<open>k\<close> lchans wait.  Lemmas about
  handlers have the form \<open>ready b k w \<Longrightarrow> pst b (handler w) (good b w)\<close> and compose by \<open>pst_seq\<close>.
\<close>

definition ready :: "bool \<Rightarrow> nat \<Rightarrow> ts_world \<Rightarrow> bool" where
  "ready b k w \<longleftrightarrow> cell_inv b w \<and> card (waiting_set w) \<le> k \<and> links w"

lemma ready_good: "ready b k w \<Longrightarrow> good b w w' \<Longrightarrow> ready b k w'"
  using good_card[of b w w'] by (auto simp: ready_def good_inv links_frame)

lemma ready_inv [simp]: "ready b k w \<Longrightarrow> cell_inv b w"
  by (simp add: ready_def)

lemma ready_links: "ready b k w \<Longrightarrow> is_oml_ready (w_ts w) \<and> is_rsl_ready (w_ts w)"
  by (simp add: ready_def links_def)

lemma pst_seq:
  assumes "pst b m (good b w)" "\<And>w1. good b w w1 \<Longrightarrow> pst b (f w1) (good b w1)"
  shows "pst b (rbind m f) (good b w)"
  unfolding pst_rbind using assms(1) by (rule pst_mono) (blast intro: pst_mono[OF assms(2)] good_trans)

lemma pst_upd: "good b w w1 \<Longrightarrow> pst b m (good b w1) \<Longrightarrow> pst b m (good b w)"
  by (erule pst_mono) (rule good_trans)

lemma pst_good_Ok [simp]: "cell_inv b w \<Longrightarrow> pst b (Ok w) (good b w)"
  by simp

lemma pst_chg:
  assumes "fsm_contract (eng x)" "ready b k w" "st \<noteq> TS_ST_NOT_INITIALIZED"
    "st \<in> set (ts_out_states (ts_state w)) \<Longrightarrow>
       st \<in> {TS_ST_WAIT_PDCH_ACT, TS_ST_PDCH, TS_ST_WAIT_PDCH_DEACT} \<Longrightarrow> dyn_pchan (w_on_init w)"
    "T \<noteq> None \<longleftrightarrow> st \<in> {TS_ST_WAIT_PDCH_ACT, TS_ST_WAIT_PDCH_DEACT}"
    "\<And>w1. good b w w1 \<Longrightarrow> ts_state w1 = st \<Longrightarrow> w_ts w1 = (w_ts w)\<lparr> ts_fi := ts_fi (w_ts w1) \<rparr> \<Longrightarrow>
       pst b (onenter w1) (good b w1)"
  shows "pst b (ts_chg x st T onenter w) (good b w)"
proof (rule ts_chg_post[OF assms(1)])
  assume st: "st \<in> set (ts_out_states (ts_state w))"
  have g: "good b w (set_ts_state st T w)"
    by (rule good_set_ts_state) (use assms(2-5) st ready_links in auto)
  then show "pst b (onenter (set_ts_state st T w)) (good b w)"
    by (rule pst_upd) (rule assms(6)[OF g], simp, simp add: set_ts_state_def)
qed (use assms(2) in simp)

lemma subslot_alloc: "ready b k w \<Longrightarrow> j < pchan_subslots (w_on_init w) \<Longrightarrow> alloc w j"
proof -
  assume "ready b k w" "j < pchan_subslots (w_on_init w)"
  moreover have "pchan_subslots p \<le> 8" for p by (cases p) auto
  ultimately show ?thesis
    by (auto simp: ready_def cell_inv_def ts_inv_def alloc_def links_def TS_MAX_LCHAN_def intro: less_le_trans)
qed

section \<open>Answering lchans that wait\<close>

text \<open>
  The interface: an lchan that waits and gets READY or ERROR stops waiting.
\<close>

locale waiting_lchans =
  fixes b :: bool and x :: ts_env and k :: nat
  assumes engine: "fsm_contract (eng x)"
    and answer: "\<And>w i ev. cell_inv b w \<Longrightarrow> card (waiting_set w) \<le> k \<Longrightarrow> waiting w i \<Longrightarrow>
      ev = LCHAN_EV_TS_READY \<or> ev = LCHAN_EV_TS_ERROR \<Longrightarrow>
      pst b (lo_dispatch x i ev No_data w) (\<lambda>w'. good b w w' \<and> \<not> waiting w' i)"
begin

lemma dispatch_waiting:
  assumes "cell_inv b w" "card (waiting_set w) \<le> k" "waiting w i"
    "ev = LCHAN_EV_TS_READY \<or> ev = LCHAN_EV_TS_ERROR"
  shows "pst b (lchan_dispatch x i ev w) (\<lambda>w'. good b w w' \<and> \<not> waiting w' i)"
proof -
  have "pst b (lo_dispatch x i ev No_data w) (\<lambda>w'. pst b
      (osmo_assert (lc_fi (w_lchan w' i) \<noteq> None \<and> lchan_state w' i \<noteq> LCHAN_ST_WAIT_TS_READY) w') (\<lambda>w'. good b w w' \<and> \<not> waiting w' i))"
  proof (rule pst_mono[OF answer[OF assms]])
    fix w' assume w': "good b w w' \<and> \<not> waiting w' i"
    then have "alloc w' i" using assms(3) by (auto simp: waiting_def good_alloc)
    with w' show "pst b (osmo_assert (lc_fi (w_lchan w' i) \<noteq> None \<and> lchan_state w' i \<noteq> LCHAN_ST_WAIT_TS_READY) w')
        (\<lambda>w'. good b w w' \<and> \<not> waiting w' i)" by (auto simp: waiting_def alloc_def)
  qed
  then show ?thesis using assms(3) unfolding lchan_dispatch_def pst_rbind[symmetric] using assms(3) by (auto simp add: waiting_def alloc_def)
qed

lemma dispatch_all_waiting:
  assumes "cell_inv b w0" "card (waiting_set w0) \<le> k"
    "ev = LCHAN_EV_TS_READY \<or> ev = LCHAN_EV_TS_ERROR"
  shows "pst b (ts_lchans_dispatch x (Some LCHAN_ST_WAIT_TS_READY) ev w0) (good b w0)"
  unfolding ts_lchans_dispatch_def
proof (rule pst_each_potential_lchan)
  fix i w assume it: "lchan_iter_cond (w_ts w) i (w_on_init w)" and g: "good b w0 w"
  have a: "alloc w i" using it good_inv[OF g] by (rule iter_alloc[rotated])
  have c: "card (waiting_set w) \<le> k" using good_card[OF g] assms(2) by simp
  show "pst b (if case Some LCHAN_ST_WAIT_TS_READY of None \<Rightarrow> False
        | Some q \<Rightarrow> \<not> lchan_state_is (w_lchan w i) q then Ok w else lchan_dispatch x i ev w) (good b w0)"
    using dispatch_waiting[OF good_inv[OF g] c _ assms(3)] g a
    by (auto simp: state_is_waiting intro: pst_mono good_trans)
qed (use assms in simp)

lemma error_to:
  assumes "ready b k w" "\<And>w1. ready b k w1 \<Longrightarrow> good b w w1 \<Longrightarrow> pst b (chg w1) (good b w1)"
  shows "pst b (ts_fsm_error x st chg m w) (good b w)"
proof -
  let ?w = "upd_ts (\<lambda>ts. ts\<lparr> last_errmsg := Some m \<rparr>) w"
  have g: "good b w ?w" using assms(1) by simp
  have r: "ready b k ?w" by (rule ready_good[OF assms(1) g])
  have "pst b (rbind (ts_lchans_dispatch x (Some LCHAN_ST_WAIT_TS_READY) LCHAN_EV_TS_ERROR ?w)
            (\<lambda>w. if ts_state w \<noteq> st then chg w else Ok w)) (good b ?w)"
  proof (rule pst_seq)
    show "pst b (ts_lchans_dispatch x (Some LCHAN_ST_WAIT_TS_READY) LCHAN_EV_TS_ERROR ?w) (good b ?w)"
      using r by (intro dispatch_all_waiting) (auto simp: ready_def simp del: ready_inv)
    fix w1 assume g1: "good b ?w w1"
    show "pst b (if ts_state w1 \<noteq> st then chg w1 else Ok w1) (good b w1)"
      using assms(2)[OF ready_good[OF r g1] good_trans[OF g g1]] good_inv[OF g1] by simp
  qed
  then show ?thesis unfolding ts_fsm_error_def by (auto intro: pst_upd[OF g])
qed

lemma error_borken: "ready b k w \<Longrightarrow> pst b (ts_error_borken x m w) (good b w)"
  unfolding ts_error_borken_def
  by (rule error_to, assumption, rule pst_chg[OF engine]) (auto dest: good_inv)

lemma tx_good: "cell_inv b w \<Longrightarrow> good b w (snd (rsl_tx_dyn_ts_pdch_act_deact x v w))"
  by (cases "w_on_init w") (simp_all add: rsl_tx_dyn_ts_pdch_act_deact_def tx_rsl_def)

lemma wait_pdch_onenter:
  assumes "ready b k w"
  shows "pst b (ts_fsm_wait_pdch_act_onenter x w) (good b w)"
    and "pst b (ts_fsm_wait_pdch_deact_onenter x w) (good b w)"
proof -
  have e: "rc \<noteq> 0 \<Longrightarrow> rsl_tx_dyn_ts_pdch_act_deact x v w = (rc, w1) \<Longrightarrow> pst b (ts_error_borken x m w1) (good b w)"
    and g: "rsl_tx_dyn_ts_pdch_act_deact x v w = (rc, w1) \<Longrightarrow> good b w w1" for v rc w1 m
    using tx_good[OF ready_inv[OF assms], of v] error_borken[OF ready_good[OF assms]]
    by (auto intro: pst_upd)
  show "pst b (ts_fsm_wait_pdch_act_onenter x w) (good b w)"
    by (auto simp: ts_fsm_wait_pdch_act_onenter_def split: prod.split intro: e dest: g)
  show "pst b (ts_fsm_wait_pdch_deact_onenter x w) (good b w)"
    by (auto simp: ts_fsm_wait_pdch_deact_onenter_def split: prod.split intro: e dest: g)
qed

lemma pdch_deact:
  assumes "ready b k w" "dyn_pchan (w_on_init w)"
  shows "pst b (ts_fsm_pdch_deact x w) (good b w)"
  unfolding ts_fsm_pdch_deact_def
  by (rule pst_chg[OF engine assms(1)]) (use assms in \<open>auto intro: wait_pdch_onenter ready_good\<close>)

lemma try_pdch_act:
  assumes "ready b k w" "dyn_pchan (w_on_init w)"
  shows "pst b (ts_try_pdch_act x w) (good b w)"
proof -
  have "pst b (ts_chg x TS_ST_WAIT_PDCH_ACT (Some T_CHAN_ACT_DEACT) (ts_fsm_wait_pdch_act_onenter x) w) (good b w)"
    by (rule pst_chg[OF engine assms(1)]) (use assms in \<open>auto intro: wait_pdch_onenter ready_good\<close>)
  then show ?thesis using assms by (simp add: ts_try_pdch_act_def)
qed

lemma reserve_cbch:
  assumes "cell_inv b w" "alloc w 2"
  shows "pst b (ts_reserve_cbch x w) (good b w)"
proof -
  let ?w = "upd_lchan 2 (\<lambda>l. l\<lparr> lc_type := GSM_LCHAN_CBCH \<rparr>) w"
  have g: "good b w ?w"
    using assms inv_orphaned[OF assms] by (intro good_upd_lchan) (auto simp: orphaned_def dirty_def lchan_state_is_def)
  have "good b w (set_lchan_state 2 LCHAN_ST_CBCH None ?w)"
    by (rule good_set_lchan_state[OF g]) (use assms good_alloc[OF g] in auto)
  then show ?thesis using g assms
    by (simp add: ts_reserve_cbch_def lchan_chg_cbch_def fsm_contract_state_chg[OF engine] pst_rbind alloc_def)
qed

lemma unused_onenter:
  assumes "ready b k w"
  shows "pst b (ts_fsm_unused_onenter x w) (good b w)"
proof (cases "ts_lchans_waiting (w_ts w) = 0")
  case True
  have "alloc w 2" if "w_on_init w = GSM_PCHAN_CCCH_SDCCH4_CBCH \<or> w_on_init w = GSM_PCHAN_SDCCH8_SACCH8C_CBCH"
    using subslot_alloc[OF assms, of 2] that by auto
  then show ?thesis using True assms
    by (cases "w_on_init w") (simp_all add: ts_fsm_unused_onenter_def try_pdch_act dyn_pchan_def reserve_cbch)
next
  case False
  then show ?thesis using error_borken[OF assms] by (simp add: ts_fsm_unused_onenter_def)
qed

lemma chg_unused: "ready b k w \<Longrightarrow> pst b (ts_chg_unused x w) (good b w)"
  unfolding ts_chg_unused_def
  by (rule pst_chg[OF engine]) (auto intro: unused_onenter ready_good)

lemma lchan_unused:
  assumes "cell_inv b w" "card (waiting_set w) \<le> k"
  shows "pst b (ts_dispatch x TS_EV_LCHAN_UNUSED d w) (good b w)"
proof -
  have "pst b (ts_fsm_in_use x TS_EV_LCHAN_UNUSED d w) (good b w)" if "ts_state w = TS_ST_IN_USE"
    using chg_unused[of w] assms links_state[OF assms(1)] that
    by (auto simp: ts_fsm_in_use_def ready_def simp del: ready_inv)
  then show ?thesis using assms(1)
    by (cases "ts_state w")
      (auto simp: ts_dispatch_eq[OF engine]
        ts_fsm_not_initialized_def ts_fsm_unused_def ts_fsm_wait_pdch_act_def ts_fsm_pdch_def
        ts_fsm_wait_pdch_deact_def ts_fsm_borken_def)
qed

end

section \<open>Requests and all other events\<close>

text \<open>
  The full interface: ERROR may be sent to every lchan, and an lchan machine can be terminated while
  the OML link is down.
\<close>

locale ts_client = waiting_lchans +
  assumes reject: "\<And>w i. cell_inv b w \<Longrightarrow> card (waiting_set w) \<le> k \<Longrightarrow> alloc w i \<Longrightarrow>
      pst b (lo_dispatch x i LCHAN_EV_TS_ERROR No_data w) (\<lambda>w'. good b w w' \<and> \<not> waiting w' i)"
    and terminate: "\<And>w i. cell_inv b w \<Longrightarrow> card (waiting_set w) \<le> k \<Longrightarrow> alloc w i \<Longrightarrow> \<not> is_oml_ready (w_ts w) \<Longrightarrow>
      pst b (lo_term x i w) (\<lambda>w'. cell_inv b w' \<and> tidy w w' \<and> card (waiting_set w') \<le> k \<and> \<not> is_oml_ready (w_ts w'))"
begin

lemma dispatch_error:
  assumes "cell_inv b w" "card (waiting_set w) \<le> k" "alloc w i"
  shows "pst b (lchan_dispatch x i LCHAN_EV_TS_ERROR w) (good b w)"
proof -
  have "pst b (rbind (lo_dispatch x i LCHAN_EV_TS_ERROR No_data w)
      (\<lambda>w'. osmo_assert (lc_fi (w_lchan w' i) \<noteq> None \<and> lchan_state w' i \<noteq> LCHAN_ST_WAIT_TS_READY) w')) (good b w)"
    unfolding pst_rbind
  proof (rule pst_mono[OF reject[OF assms]])
    fix w' assume w': "good b w w' \<and> \<not> waiting w' i"
    then have "alloc w' i" using assms(3) by (auto simp: good_alloc)
    with w' show "pst b (osmo_assert (lc_fi (w_lchan w' i) \<noteq> None \<and> lchan_state w' i \<noteq> LCHAN_ST_WAIT_TS_READY) w') (good b w)"
      by (auto simp: waiting_def alloc_def)
  qed
  then show ?thesis using assms(3) by (auto simp add: lchan_dispatch_def alloc_def)
qed

lemma in_use_check_good:
  assumes "ready b k w" "alloc w i"
  shows "pst b (in_use_check x i act w) (\<lambda>(a, w'). good b w w')"
proof -
  have "pst b (rbind (lchan_dispatch x i LCHAN_EV_TS_ERROR w) (\<lambda>w'. Ok (act, w'))) (\<lambda>(a, w'). good b w w')"
    using dispatch_error[OF _ _ assms(2)] assms(1) by (auto simp: ready_def pst_rbind simp del: ready_inv)
  then show ?thesis using assms by (auto simp: in_use_check_def Let_def)
qed

lemma in_use_scan_good:
  assumes "ready b k w"
  shows "pst b (in_use_scan x n i act w) (\<lambda>(a, w'). good b w w')"
  using assms
proof (induction n arbitrary: i act w)
  case (Suc n)
  show ?case
  proof (cases "lchan_iter_cond (w_ts w) i (w_on_init w)")
    case True
    have a: "alloc w i" using iter_alloc[OF ready_inv[OF Suc.prems] True] .
    show ?thesis
    proof (cases rule: pstE[OF in_use_check_good[OF Suc.prems a, of act]])
      case (1 r)
      then obtain t w1 where w1: "in_use_check x i act w = Ok (t, w1)" "good b w w1" by (cases r) auto
      have "pst b (in_use_scan x n (Suc i) t w1) (\<lambda>(a, w'). good b w1 w')"
        by (rule Suc.IH) (rule ready_good[OF Suc.prems w1(2)])
      then show ?thesis using w1 True by (auto simp: pst_rbind elim!: pst_mono intro: good_trans)
    qed (use True in simp)
  qed (use Suc.prems in simp)
qed simp

lemma in_use_onenter:
  assumes "ready b k w"
  shows "pst b (ts_fsm_in_use_onenter x w) (good b w)"
proof -
  let ?w = "upd_ts (\<lambda>ts. ts\<lparr> pdch_act_allowed := True \<rparr>) w"
  have g: "good b w ?w" using assms by simp
  have r: "ready b k ?w" by (rule ready_good[OF assms g])
  show ?thesis
  proof (cases rule: pstE[OF in_use_scan_good[OF r, of TS_MAX_LCHAN 0 GSM_LCHAN_NONE]])
    case (1 q)
    then obtain act w1 where w1: "in_use_scan x TS_MAX_LCHAN 0 GSM_LCHAN_NONE ?w = Ok (act, w1)" "good b ?w w1"
      by (cases q) auto
    have r1: "ready b k w1" by (rule ready_good[OF r w1(2)])
    have cu: "pst b (ts_chg_unused x w2) (good b w)" if "good b w1 w2" for w2
      using chg_unused[OF ready_good[OF r1 that]] good_trans[OF g good_trans[OF w1(2) that]] by (rule pst_upd[rotated])
    have disp: "pst b (ts_lchans_dispatch x (Some LCHAN_ST_WAIT_TS_READY) ev w2) (good b w2)"
      if "good b w1 w2" "ev = LCHAN_EV_TS_READY \<or> ev = LCHAN_EV_TS_ERROR" for w2 ev
      using ready_good[OF r1 that(1)] that(2) by (intro dispatch_all_waiting) (auto simp: ready_def simp del: ready_inv)
    have rdy: "pst b (ts_lchans_dispatch x (Some LCHAN_ST_WAIT_TS_READY) LCHAN_EV_TS_READY w2) (good b w)"
      if "good b w1 w2" for w2
      using disp[OF that] good_trans[OF g good_trans[OF w1(2) that]] by (auto intro: pst_upd)
    have "good b w1 (upd_ts (\<lambda>ts. ts\<lparr> pchan_is := p ts \<rparr>) w1)" for p using r1 by simp
    then have ok: "pst b (rbind (ts_lchans_dispatch x (Some LCHAN_ST_WAIT_TS_READY) LCHAN_EV_TS_ERROR w1)
        (\<lambda>w. ts_chg_unused x w)) (good b w)"
      using r1 by (simp add: pst_rbind) (rule pst_mono[OF disp[of w1]], use cu in auto)
    show ?thesis
      using w1(1) cu[of w1] ok rdy r1
      by (cases act) (simp_all add: ts_fsm_in_use_onenter_def pst_rbind)
  qed (simp add: ts_fsm_in_use_onenter_def)
qed

lemma chg_in_use: "ready b k w \<Longrightarrow> pst b (ts_chg_in_use x w) (good b w)"
  unfolding ts_chg_in_use_def
  by (rule pst_chg[OF engine]) (auto intro: in_use_onenter ready_good)

lemma rsl_ready:
  assumes "cell_inv b w" "card (waiting_set w) \<le> k"
  shows "pst b (ts_not_initialized_rsl_ready x w) (good b w)"
proof -
  let ?w = "upd_ts (\<lambda>ts. ts\<lparr> pdch_act_allowed := True, is_rsl_ready := True \<rparr>) w"
  have g: "good b w ?w" using assms by simp
  have "ready b k ?w" if "is_oml_ready (w_ts ?w)"
    using good_inv[OF g] good_card[OF g] assms(2) that by (simp add: ready_def links_def del: ready_inv)
  then show ?thesis
    using g by (auto simp: ts_not_initialized_rsl_ready_def intro: pst_upd[OF g chg_unused])
qed

lemma lchan_requested:
  assumes "cell_inv b w" "card (waiting_set w) \<le> k" "waiting w i"
  shows "pst b (ts_dispatch x TS_EV_LCHAN_REQUESTED (Some i) w) (good b w)"
proof -
  have a: "alloc w i" "lc_fi (w_lchan w i) \<noteq> None" using assms(3) by (auto simp: waiting_def alloc_def)
  have r: "ts_state w \<noteq> TS_ST_NOT_INITIALIZED \<Longrightarrow> ready b k w" using assms links_state by (simp add: ready_def del: ready_inv)
  note err = dispatch_error[OF assms(1,2) a(1)]
  have rej: "pst b (lo_dispatch x i LCHAN_EV_TS_ERROR No_data w) (good b w)"
    by (rule pst_mono[OF reject[OF assms(1,2) a(1)]]) simp
  have ans: "pst b (lo_dispatch x i LCHAN_EV_TS_READY No_data w) (good b w)"
    by (rule pst_mono[OF answer[OF assms, of LCHAN_EV_TS_READY]]) simp_all
  show ?thesis
  proof (cases "ts_state w")
    case TS_ST_NOT_INITIALIZED
    then show ?thesis using rsl_ready[OF assms(1,2)] a(2)
      by (auto simp: ts_dispatch_eq[OF engine] ts_fsm_not_initialized_def fsm_contract_dispatch[OF engine]
          ts_error_is_rsl_ready fsm_simps pst_rbind)
  next
    case TS_ST_UNUSED
    then show ?thesis using chg_in_use[OF r] rej a(2)
      by (auto simp add: ts_dispatch_eq[OF engine] ts_fsm_unused_def split: lchan_sanity.split)
  next
    case TS_ST_WAIT_PDCH_ACT
    then show ?thesis using err assms(1)
      by (simp add: ts_dispatch_eq[OF engine] ts_fsm_wait_pdch_act_def split: lchan_sanity.split)
  next
    case TS_ST_PDCH
    then have "dyn_pchan (w_on_init w)" using assms(1) by (simp add: cell_inv_def ts_inv_def ts_state_def)
    then show ?thesis using TS_ST_PDCH pdch_deact[OF r] error_borken[OF r] err
      by (simp add: ts_dispatch_eq[OF engine] ts_fsm_pdch_def ts_fsm_err_ready_to_go_in_pdch_def split: lchan_sanity.split)
  next
    case TS_ST_WAIT_PDCH_DEACT
    then show ?thesis using error_borken[OF r] err assms(1)
      by (simp add: ts_dispatch_eq[OF engine] ts_fsm_wait_pdch_deact_def ts_fsm_err_ready_to_go_in_pdch_def
          split: lchan_sanity.split)
  next
    case TS_ST_IN_USE
    then show ?thesis using ans err
      by (simp add: ts_dispatch_eq[OF engine] ts_fsm_in_use_def split: lchan_sanity.split)
  next
    case TS_ST_BORKEN
    then show ?thesis using err by (simp add: ts_dispatch_eq[OF engine] ts_fsm_borken_def)
  qed
qed

end

end
