(* ===== verification/Lchan_Client.thy ===== *)
theory Lchan_Client
  imports Ts_Client
begin

text \<open>
  The lchan machine seen as a client of the timeslot machine and of the machines above it.
  \<open>lchan_client\<close> is what the lchan machine relies on when one of its transitions reports an unused
  lchan; \<open>lchan_requester\<close> adds the answer to a request.  From these every handler of
  \<^verbatim>\<open>lchan_fsm.c\<close> is shown to return, without a failed assertion, and to keep \<open>good\<close>; an lchan that
  gets READY or ERROR has stopped waiting.
\<close>

section \<open>Changes of one lchan\<close>

text \<open>
  A harmless change keeps number, instance and SAPIs, makes no lchan orphaned and gives no unused
  lchan a connection or an endpoint.
\<close>

definition harmless :: "(gsm_lchan \<Rightarrow> gsm_lchan) \<Rightarrow> bool" where
  "harmless f \<longleftrightarrow> (\<forall>l. lc_nr (f l) = lc_nr l \<and> lc_fi (f l) = lc_fi l \<and> length (sapis (f l)) = length (sapis l) \<and>
     (orphaned (f l) \<longrightarrow> orphaned l) \<and> (dirty (f l) \<longrightarrow> dirty l))"

lemmas lchan_views = harmless_def orphaned_def dirty_def lchan_state_is_def

lemma good_harmless:
  assumes "good b w0 w" "alloc w i" "harmless f"
  shows "good b w0 (upd_lchan i f w)"
  by (rule good_upd_lchan[OF assms(1)])
    (use assms(2,3) inv_orphaned[OF good_inv[OF assms(1)]] in \<open>auto simp: harmless_def\<close>)

lemma good_weaken: "good b w w' \<Longrightarrow> good True w w'"
  by (auto simp: good_def intro: cell_inv_weaken)

lemma pst_weaken: "pst b m (good b w) \<Longrightarrow> pst b m (good True w)"
  by (erule pst_mono) (rule good_weaken)

lemma alloc_upd [simp]:
  "alloc (emit e w) j = alloc w j"
  by (simp add: alloc_def)

lemma lchan_chg_post:
  assumes "fsm_contract (l_eng y)"
    "st \<in> set (lchan_out_states (lchan_state w i)) \<Longrightarrow>
       pst b (onenter (set_lchan_state i st (lchan_fsm_timeouts st) w)) Q"
    "st \<notin> set (lchan_out_states (lchan_state w i)) \<Longrightarrow> Q w"
  shows "pst b (lchan_chg y i st onenter w) Q"
  using assms by (simp add: lchan_chg_def fsm_contract_state_chg lchan_out_state_mask_bit)

lemma lchan_state_set [simp]:
  "i < length (lchans (w_ts w)) \<Longrightarrow> lchan_state (set_lchan_state i st T w) i = st"
  by (simp add: lchan_state_def lc_state_def set_lchan_state_def lchan_upd_other)

lemma not_waiting_good: "good b w w1 \<Longrightarrow> \<not> waiting w i \<Longrightarrow> \<not> waiting w1 i"
  by (auto simp: good_def cell_frame_def waiting_set_def)

lemma pst_not_waiting: "pst b m (good b w) \<Longrightarrow> \<not> waiting w i \<Longrightarrow> pst b m (\<lambda>w'. good b w w' \<and> \<not> waiting w' i)"
  by (erule pst_mono) (auto dest: not_waiting_good)

lemma pst_upd_weak: "good b w w1 \<Longrightarrow> pst b m (good True w1) \<Longrightarrow> pst b m (good True w)"
  by (erule pst_mono) (rule good_trans[OF good_weaken])

lemma activ_ack_from: "LCHAN_ST_WAIT_ACTIV_ACK \<in> set (lchan_out_states st) \<Longrightarrow> st = LCHAN_ST_WAIT_TS_READY"
  by (cases st) auto

definition data_ok :: "lchan_fsm_event \<Rightarrow> lchan_ev_data \<Rightarrow> bool" where
  "data_ok ev d \<longleftrightarrow> ev \<noteq> LCHAN_EV_ACTIVATE \<and>
     (ev = LCHAN_EV_RLL_REL_IND \<or> ev = LCHAN_EV_RLL_REL_CONF \<longrightarrow> (\<exists>l. d = D_link_id l))"

section \<open>Handlers\<close>

text \<open>The interface for reporting an unused lchan and for calls to the machines above.\<close>

locale lchan_client =
  fixes b :: bool and y :: lchan_env and k :: nat
  assumes l_engine: "fsm_contract (l_eng y)"
    and up: "\<And>w u i. cell_inv b w \<Longrightarrow> alloc w i \<Longrightarrow> pst b (l_up y u i w) (good b w)"
    and td_unused: "\<And>w d. cell_inv b w \<Longrightarrow> card (waiting_set w) \<le> k \<Longrightarrow>
      pst b (l_td y TS_EV_LCHAN_UNUSED d w) (good b w)"
begin

definition lok :: "nat \<Rightarrow> ts_world \<Rightarrow> bool" where
  "lok i w \<longleftrightarrow> cell_inv b w \<and> alloc w i \<and> card (waiting_set w - {i}) \<le> k"

lemma lok_frame: "lok i w \<Longrightarrow> cell_inv b w1 \<Longrightarrow> cell_frame w w1 \<Longrightarrow> lok i w1"
proof -
  assume l: "lok i w" and g: "cell_inv b w1" "cell_frame w w1"
  have "card (waiting_set w1 - {i}) \<le> card (waiting_set w - {i})"
    using g by (intro card_mono) (auto simp: cell_frame_def)
  then show ?thesis using l g by (auto simp: lok_def cell_frame_def)
qed

lemma lok_good: "lok i w \<Longrightarrow> good b w w1 \<Longrightarrow> lok i w1"
  by (rule lok_frame) (auto simp: good_def)

lemma lok_upd: "lok i w \<Longrightarrow> harmless f \<Longrightarrow> good b w (upd_lchan i f w)"
  by (rule good_harmless) (auto simp: lok_def)

lemma lok_seq:
  assumes "lok i w" "pst b m (good b w)" "\<And>w1. lok i w1 \<Longrightarrow> good b w w1 \<Longrightarrow> pst b (f w1) (good b w1)"
  shows "pst b (rbind m f) (good b w)"
  using assms by (intro pst_seq) (auto intro: lok_good)

text \<open>The last step of a handler may leave the lchan orphaned.\<close>

lemma lok_last:
  assumes "lok i w" "pst b m (good b w)" "\<And>w1. lok i w1 \<Longrightarrow> good b w w1 \<Longrightarrow> pst b (f w1) (good True w1)"
  shows "pst b (rbind m f) (good True w)"
  unfolding pst_rbind using assms(2)
  by (rule pst_mono) (blast intro: pst_upd_weak assms(3) lok_good[OF assms(1)])

lemma lok_up: "lok i w \<Longrightarrow> pst b (l_up y u i w) (good b w)"
  by (simp add: lok_def up)

lemma lok_tx: "lok i w \<Longrightarrow> pst b (l_tx_ign y m w) (good b w)"
  by (simp add: l_tx_ign_def l_tx_def lok_def)

lemma lok_inv [simp]: "lok i w \<Longrightarrow> cell_inv b w"
  by (simp add: lok_def)

lemma lok_inv_weak [simp]: "lok i w \<Longrightarrow> cell_inv True w"
  by (rule cell_inv_weaken[of b]) simp

lemma lok_less: "lok i w \<Longrightarrow> i < length (lchans (w_ts w))"
  by (auto simp: lok_def intro: alloc_less simp del: lok_inv lok_inv_weak)

lemma lok_orphaned: "lok i w \<Longrightarrow> b \<or> \<not> orphaned (w_lchan w i)"
  by (auto simp: lok_def dest: inv_orphaned simp del: lok_inv lok_inv_weak)

lemma lok_upd_post: "lok i w \<Longrightarrow> harmless f \<Longrightarrow> pst b (Ok (upd_lchan i f w)) (good b w)"
  by (simp add: lok_upd)

text \<open>The reset leaves the lchan without connection and endpoint.\<close>

definition blank :: "nat \<Rightarrow> ts_world \<Rightarrow> bool" where
  "blank i w \<longleftrightarrow> lc_conn (w_lchan w i) = None \<and> mgw_endpoint_ci_bts (w_lchan w i) = None"

lemma zero_good:
  assumes "lok i w"
  shows "good b w (upd_lchan i (\<lambda>l. (zero_lchan (lc_nr l) (lc_fi l) (e l))\<lparr> meas_rep_last_seen_nr := 255 \<rparr>) w)"
  by (rule good_upd_lchan)
    (use assms in \<open>auto simp: zero_lchan_def no_info_def orphaned_def dirty_def lok_def cell_inv_def ts_inv_def alloc_def\<close>)

lemma reset:
  assumes "lok i w"
  shows "pst b (lchan_reset y i w) (\<lambda>w'. good b w w' \<and> blank i w')"
proof -
  have z: "pst b (Ok (upd_lchan i (\<lambda>l. (zero_lchan (lc_nr l) (lc_fi l) (last_error l))\<lparr> meas_rep_last_seen_nr := 255 \<rparr>) w1)) 
      (\<lambda>w'. good b w1 w' \<and> blank i w')" if "lok i w1" for w1
    using zero_good[OF that, of last_error] lok_less[OF that] by (simp add: blank_def w_lchan_upd zero_lchan_def)
  have s: "pst b (rbind m f) (\<lambda>w'. good b w w' \<and> blank i w')"
    if "lok i w" "pst b m (good b w)" "\<And>w1. lok i w1 \<Longrightarrow> pst b (f w1) (\<lambda>w'. good b w1 w' \<and> blank i w')" for w m f
    unfolding pst_rbind using that(2)
    by (rule pst_mono) (rule pst_mono[OF that(3)[OF lok_good[OF that(1)]]], assumption, blast intro: good_trans)
  show ?thesis unfolding lchan_reset_def steps.simps rbind_Ok_right using assms
    by (auto intro!: s lok_seq[of i] lok_up lok_upd_post z split: option.split simp del: pst_Ok rbind.simps)
      (auto simp: lchan_views)
qed

lemma reset_good: "lok i w \<Longrightarrow> pst b (lchan_reset y i w) (good b w)"
  by (rule pst_mono[OF reset]) auto

lemma not_waiting_card: "lok i w \<Longrightarrow> \<not> waiting w i \<Longrightarrow> card (waiting_set w) \<le> k"
  by (simp add: lok_def waiting_set_def)

lemma chg_frame:
  assumes "lok i w" "st \<noteq> LCHAN_ST_WAIT_TS_READY" "st \<in> set (lchan_out_states (lchan_state w i))"
  defines "w1 \<equiv> set_lchan_state i st (lchan_fsm_timeouts st) w"
  shows "lok i w1" "\<not> waiting w1 i" "cell_inv b w1" "cell_frame w w1" "lchan_state w1 i = st"
    "st \<noteq> LCHAN_ST_UNUSED \<Longrightarrow> good b w w1"
proof -
  have a: "cell_inv b w" "alloc w i" using assms(1) by (auto simp: lok_def simp del: lok_inv lok_inv_weak)
  have act: "activating w i" if "st = LCHAN_ST_WAIT_ACTIV_ACK"
    using that assms(3) activ_ack_from a(2) by (auto simp: activating_def)
  show i: "cell_inv b w1" "cell_frame w w1"
    using enter_state[OF a assms(2) act refl] by (simp_all add: w1_def)
  then show "lok i w1" by (rule lok_frame[OF assms(1)])
  show s: "lchan_state w1 i = st" using lok_less[OF assms(1)] by (simp add: w1_def)
  then show "\<not> waiting w1 i" using assms(2) by (simp add: waiting_def)
  show "good b w w1" if "st \<noteq> LCHAN_ST_UNUSED"
    unfolding w1_def by (rule good_set_lchan_state[OF _ a(2) assms(2) act refl that]) (use a in simp)
qed

text \<open>A transition, for postconditions of either strength and with what the state entered promises.\<close>

lemma chg_to:
  assumes "lok i w" "st \<noteq> LCHAN_ST_WAIT_TS_READY" "st \<noteq> LCHAN_ST_UNUSED"
    "\<And>w1. lok i w1 \<Longrightarrow> \<not> waiting w1 i \<Longrightarrow> lchan_state w1 i = st \<Longrightarrow> pst b (onenter w1) (good c w1)" "b \<Longrightarrow> c"
  shows "pst b (lchan_chg y i st onenter w) (good c w)"
proof (rule lchan_chg_post[OF l_engine])
  assume st: "st \<in> set (lchan_out_states (lchan_state w i))"
  note c = chg_frame[OF assms(1,2) st]
  have g: "good c w (set_lchan_state i st (lchan_fsm_timeouts st) w)"
    using c(6)[OF assms(3)] assms(5) by (auto simp: good_def cell_inv_def sound_ts_def)
  show "pst b (onenter (set_lchan_state i st (lchan_fsm_timeouts st) w)) (good c w)"
    by (rule pst_mono[OF assms(4)[OF c(1,2,5)]]) (rule good_trans[OF g])
qed (use assms(1,5) in \<open>auto simp: good_def cell_inv_def sound_ts_def lok_def simp del: lok_inv lok_inv_weak\<close>)

lemmas chg = chg_to[where c = b] and chg_last = chg_to[where c = True]

lemma unused_onenter:
  assumes "lok i w1" "\<not> waiting w1 i" "cell_frame w w1" "\<And>j. j < TS_MAX_LCHAN \<Longrightarrow> j \<noteq> i \<Longrightarrow> dirty (w_lchan w1 j) \<Longrightarrow> dirty (w_lchan w j)"
  shows "pst b (lchan_fsm_unused_onenter y i w1) (\<lambda>w'. good b w w' \<and> \<not> waiting w' i)"
proof -
  have "pst b (l_td y TS_EV_LCHAN_UNUSED (Some i) w2) (\<lambda>w'. good b w w' \<and> \<not> waiting w' i)"
    if g: "good b w1 w2 \<and> blank i w2" for w2
  proof -
    have "\<not> dirty (w_lchan w2 i)" using g by (simp add: blank_def dirty_def)
    then have "tidy w w2" using g assms(4) unfolding tidy_def good_def by metis
    then have gw: "good b w w2" using g assms(3) by (auto simp: good_def intro: cell_frame_trans)
    have n: "\<not> waiting w2 i" using g assms(2) by (auto dest: not_waiting_good)
    have "cell_inv b w2" "card (waiting_set w2) \<le> k"
      using not_waiting_card[OF lok_good[OF assms(1)] n] g by (auto simp: good_def)
    from pst_not_waiting[OF td_unused[OF this] n] show ?thesis
      by (rule pst_mono) (use gw good_trans in blast)
  qed
  then show ?thesis unfolding lchan_fsm_unused_onenter_def steps.simps rbind_Ok_right pst_rbind
    by (rule pst_mono[OF reset[OF assms(1)]])
qed

lemma chg_unused_done:
  assumes "lok i w" "lchan_state w i \<noteq> LCHAN_ST_UNUSED"
  shows "pst b (lchan_chg_unused y i w) (\<lambda>w'. good b w w' \<and> \<not> waiting w' i)"
  unfolding lchan_chg_unused_def
proof (rule lchan_chg_post[OF l_engine])
  assume st: "LCHAN_ST_UNUSED \<in> set (lchan_out_states (lchan_state w i))"
  note c = chg_frame[OF assms(1) _ st, simplified]
  show "pst b (lchan_fsm_unused_onenter y i (set_lchan_state i LCHAN_ST_UNUSED (lchan_fsm_timeouts LCHAN_ST_UNUSED) w))
      (\<lambda>w'. good b w w' \<and> \<not> waiting w' i)"
    by (rule unused_onenter) (use c lok_less[OF assms(1)] in \<open>simp_all add: set_lchan_state_upd w_lchan_upd\<close>)
next
  assume "LCHAN_ST_UNUSED \<notin> set (lchan_out_states (lchan_state w i))"
  then show "good b w w \<and> \<not> waiting w i" using assms by (cases "lchan_state w i") auto
qed

lemma chg_unused: "lok i w \<Longrightarrow> pst b (lchan_chg_unused y i w) (good b w)"
proof (cases "lchan_state w i = LCHAN_ST_UNUSED")
  case True
  then show "lok i w \<Longrightarrow> pst b (lchan_chg_unused y i w) (good b w)"
    unfolding lchan_chg_unused_def by (intro lchan_chg_post[OF l_engine]) auto
qed (rule pst_mono[OF chg_unused_done], auto)

lemma chg_borken: "lok i w \<Longrightarrow> pst b (lchan_chg_borken y i w) (good b w)"
  unfolding lchan_chg_borken_def lchan_fsm_borken_onenter_def by (rule chg) (auto intro: reset_good)

lemma chg_simple:
  "lok i w \<Longrightarrow> pst b (lchan_chg_wait_after_error y i w) (good b w)"
  "lok i w \<Longrightarrow> pst b (lchan_chg_wait_before_rf_release y i w) (good b w)"
  unfolding lchan_chg_wait_after_error_def lchan_chg_wait_before_rf_release_def by (rule chg; simp)+

lemma forget_conn: "lok i w \<Longrightarrow> good True w (lchan_forget_conn i w)"
  unfolding lchan_forget_conn_def by (rule good_upd_lchan) (auto simp: dirty_def lchan_state_is_def)

lemma good_tx: "good c w w1 \<Longrightarrow> pst b (l_tx_ign y m w1) (good c w)"
  by (simp add: l_tx_ign_def l_tx_def)

lemma wait_rf_release_ack_onenter:
  assumes "lok i w"
  shows "pst b (lchan_fsm_wait_rf_release_ack_onenter y i w) (good True w)"
proof -
  have "pst b (rbind (l_up y (Gscon_forget_lchan c) i w) (\<lambda>w. l_tx_ign y (Rf_chan_release i) (lchan_forget_conn i w))) (good True w)" for c
    by (rule lok_last[OF assms lok_up[OF assms]]) (intro good_tx forget_conn)
  moreover have "rbind (rbind m (\<lambda>w. Ok (f w))) g = rbind m (\<lambda>w. g (f w))" for m :: "ts_world res" and f and g :: "ts_world \<Rightarrow> ts_world res"
    by (cases m) simp_all
  ultimately show ?thesis using assms good_tx[of True w w]
    by (auto simp: lchan_fsm_wait_rf_release_ack_onenter_def rbind_Ok_right split: option.split)
qed

lemma chg_wait_rf_release_ack: "lok i w \<Longrightarrow> pst b (lchan_chg_wait_rf_release_ack y i w) (good True w)"
  unfolding lchan_chg_wait_rf_release_ack_def by (rule chg_last) (auto intro: wait_rf_release_ack_onenter)

lemma do_release: "lok i w \<Longrightarrow> pst b (lchan_do_release y i w) (good b w)"
  unfolding lchan_do_release_def steps.simps rbind_Ok_right
  by (auto intro!: lok_seq[of i] lok_up lok_tx)

lemma for_each_tx: "lok i w \<Longrightarrow> pst b (for_each xs (\<lambda>s. l_tx_ign y (m s)) w) (good b w)"
  by (induction xs arbitrary: w) (auto intro!: lok_seq[of i] lok_tx)

lemma wait_rll_rtp_released_onenter: "lok i w \<Longrightarrow> pst b (lchan_fsm_wait_rll_rtp_released_onenter y i w) (good b w)"
  unfolding lchan_fsm_wait_rll_rtp_released_onenter_def Let_def
  apply (rule lok_seq[of i], assumption, erule do_release)
  apply (rule lok_seq[of i], assumption, erule for_each_tx)
  subgoal for w1 w2
  proof -
    assume l: "lok i w2"
    let ?f = "\<lambda>l. l\<lparr> sapis := map (\<lambda>s. if s < 1 then sapis l ! s else LCHAN_SAPI_UNUSED) [0..<8] \<rparr>"
    have "length (sapis (w_lchan w2 i)) = 8"
      using l by (auto simp: lok_def cell_inv_def ts_inv_def alloc_def simp del: lok_inv lok_inv_weak)
    then have "good b w2 (upd_lchan i ?f w2)"
      using lok_orphaned[OF l] l by (intro good_upd_lchan) (auto simp: lchan_views simp del: upt_Suc)
    then show ?thesis using l chg_simple(2) lok_good[OF l] by (auto intro: pst_upd simp del: upt_Suc)
  qed
  done

lemma chg_wait_rll_rtp_released: "lok i w \<Longrightarrow> pst b (lchan_chg_wait_rll_rtp_released y i w) (good b w)"
  unfolding lchan_chg_wait_rll_rtp_released_def by (rule chg) (auto intro: wait_rll_rtp_released_onenter)

lemma on_activation_failure:
  assumes "lok i w" "b \<or> m \<noteq> FOR_ASSIGNMENT \<or> c \<noteq> None \<or> concluded (w_lchan w i)"
  shows "pst b (lchan_on_activation_failure y i m c w) (good b w)"
proof -
  let ?w = "upd_lchan i (\<lambda>l. l\<lparr> concluded := True \<rparr>) w"
  have g: "good b w ?w" by (rule lok_upd[OF assms(1)]) (auto simp: lchan_views)
  have "pst b (l_tx_ign y (Imm_ass_rej i) ?w) (good b w)" "pst b (l_up y u i ?w) (good b w)" for u
    using pst_upd[OF g lok_tx[OF lok_good[OF assms(1) g]]] pst_upd[OF g lok_up[OF lok_good[OF assms(1) g]]] by auto
  then show ?thesis using assms g
    by (cases m; cases c) (auto simp: lchan_on_activation_failure_def Let_def)
qed

lemma report_failure:
  assumes "lok i w"
  shows "pst b (lchan_on_activation_failure y i (activ_for (act_info (w_lchan w i))) (lc_conn (w_lchan w i)) w) (good b w)"
  by (rule on_activation_failure[OF assms]) (use lok_orphaned[OF assms] in \<open>auto simp: orphaned_def\<close>)

lemma last_error_harmless [simp]: "harmless (\<lambda>l. l\<lparr> last_error := m \<rparr>)"
  by (auto simp: lchan_views)

lemma fail_to:
  assumes "lok i w" "\<And>w1. lok i w1 \<Longrightarrow> pst b (chg w1) (good b w1)"
  shows "pst b (lchan_fail_to y i st chg m w) (good b w)"
  unfolding lchan_fail_to_def steps.simps rbind_Ok_right lchan_set_last_error_def
  by (auto intro!: lok_seq[of i] lok_upd_post report_failure assms simp del: pst_Ok rbind.simps)

lemma fail_to_last:
  assumes "lok i w" "\<And>w1. lok i w1 \<Longrightarrow> pst b (chg w1) (good True w1)"
  shows "pst b (lchan_fail_to y i st chg m w) (good True w)"
  unfolding lchan_fail_to_def steps.simps rbind_Ok_right lchan_set_last_error_def
  by (intro lok_last[of i] lok_upd_post report_failure assms last_error_harmless; assumption?) (auto simp: assms)

lemma error_chg: "lok i w \<Longrightarrow> pst b (lchan_error_chg y i t w) (good True w)"
  using pst_weaken[OF chg_unused] pst_weaken[OF chg_borken] pst_weaken[OF chg_wait_rll_rtp_released]
  by (cases t) (simp_all add: lchan_error_chg_def chg_wait_rf_release_ack)

lemma fail: "lok i w \<Longrightarrow> pst b (lchan_fail y i m w) (good True w)"
  unfolding lchan_fail_def Let_def by (rule fail_to_last) (auto intro: error_chg)

lemma release_err: "lok i w \<Longrightarrow> pst b (lchan_release_err y i w) (good True w)"
  using pst_weaken[OF chg_wait_rll_rtp_released]
  by (cases "lchan_state w i")
    (auto simp: lchan_release_err_def intro!: chg_wait_rf_release_ack lok_last[of i] do_release)

lemma release_flag: "harmless (\<lambda>l. l\<lparr> in_release_handler := v \<rparr>)"
  by (auto simp: lchan_views)

lemma release_flags:
  "harmless (\<lambda>l. l\<lparr> in_release_handler := True, in_error := e, rsl_error_cause := c, do_rr_release := d, rel_requested := True \<rparr>)"
  by (auto simp: lchan_views)

lemma good_alloc_weak: "lok i w \<Longrightarrow> good c w w1 \<Longrightarrow> alloc w1 i"
  by (auto simp: lok_def good_alloc simp del: lok_inv lok_inv_weak)

lemma then_flag:
  assumes "lok i w" "pst b m (good True w)"
  shows "pst b (rbind m (\<lambda>w. Ok (upd_lchan i (\<lambda>l. l\<lparr> in_release_handler := v \<rparr>) w))) (good True w)"
  unfolding pst_rbind
  by (rule pst_mono[OF assms(2)]) (use good_alloc_weak[OF assms(1)] in \<open>simp add: good_harmless release_flag\<close>)

text \<open>The body of a release, after the flags are set.\<close>

lemma release_body:
  assumes "lok i w"
  shows "pst b (steps [\<lambda>w. if fi_rtp (w_lchan w i) \<and> in_error (w_lchan w i) then l_up y Rtp_rollback i w else Ok w,
         \<lambda>w. if in_error (w_lchan w i) then lchan_release_err y i w
             else if lchan_state w i = LCHAN_ST_ESTABLISHED then lchan_chg_wait_rll_rtp_released y i w
             else Ok w] w) (good True w)"
  unfolding steps.simps rbind_Ok_right
  using assms pst_weaken[OF chg_wait_rll_rtp_released] by (auto intro!: lok_last[of i] lok_up release_err)

lemma steps_snoc: "steps (fs @ [f]) w = rbind (steps fs w) f"
proof (induction fs arbitrary: w)
  case (Cons g fs)
  then show ?case by (cases "g w") (simp_all add: fun_eq_iff)
qed (cases "f w", simp_all)

lemma release_unfold:
  "lchan_release y i rr err cause w =
     (if lc_fi (w_lchan w i) = None then Ok w
      else if in_release_handler (w_lchan w i) then Ok w
      else rbind (steps [\<lambda>w. if fi_rtp (w_lchan w i) \<and> in_error (w_lchan w i) then l_up y Rtp_rollback i w else Ok w,
           \<lambda>w. if in_error (w_lchan w i) then lchan_release_err y i w
               else if lchan_state w i = LCHAN_ST_ESTABLISHED then lchan_chg_wait_rll_rtp_released y i w
               else Ok w] (upd_lchan i (\<lambda>l. l\<lparr> in_release_handler := True, in_error := err,
                   rsl_error_cause := cause, do_rr_release := rr, rel_requested := True \<rparr>) w))
          (\<lambda>w. Ok (upd_lchan i (\<lambda>l. l\<lparr> in_release_handler := False \<rparr>) w)))"
  unfolding lchan_release_def steps_snoc[symmetric] by simp

lemma release: "lok i w \<Longrightarrow> pst b (lchan_release y i rr err cause w) (good True w)"
proof -
  assume l: "lok i w"
  note g = lok_upd[OF l release_flags[of rr cause err]]
  from pst_upd_weak[OF g then_flag[OF lok_good[OF l g] release_body[OF lok_good[OF l g]]]] l
  show ?thesis unfolding release_unfold by (simp del: steps.simps)
qed

lemma on_fully_established: "lok i w \<Longrightarrow> pst b (lchan_on_fully_established y i w) (good True w)"
proof -
  assume l: "lok i w"
  let ?w = "upd_lchan i (\<lambda>l. l\<lparr> concluded := True \<rparr>) w"
  have g: "good b w ?w" by (rule lok_upd[OF l]) (auto simp: lchan_views)
  note l1 = lok_good[OF l g]
  show ?thesis using l good_weaken[OF g] pst_upd_weak[OF g release[OF l1]] pst_weaken[OF pst_upd[OF g lok_up[OF l1]]]
    by (auto simp: lchan_on_fully_established_def Let_def split: lchan_activate_mode.split option.split)
qed

lemma chg_established: "lok i w \<Longrightarrow> pst b (lchan_chg_established y i w) (good True w)"
  unfolding lchan_chg_established_def lchan_fsm_established_onenter_def
  by (rule chg_last) (auto intro: fail on_fully_established)

lemma chg_wait_rll_rtp_establish: "lok i w \<Longrightarrow> pst b (lchan_chg_wait_rll_rtp_establish y i w) (good b w)"
  unfolding lchan_chg_wait_rll_rtp_establish_def lchan_fsm_wait_rll_rtp_establish_onenter_def
  by (rule chg) (auto intro: lok_up)

lemma encr_harmless: "harmless (\<lambda>l. l\<lparr> lc_encr := ai_encr (act_info l) \<rparr>)"
  by (auto simp: lchan_views)

lemma wait_activ_ack_onenter:
  assumes "lok i w" "b \<or> rel_requested (w_lchan w i) \<or> activ_for (act_info (w_lchan w i)) \<noteq> FOR_HANDOVER \<or> lc_conn (w_lchan w i) \<noteq> None"
  shows "pst b (lchan_fsm_wait_activ_ack_onenter y i w) (good b w)"
proof (cases "rel_requested (w_lchan w i)")
  case True
  then show ?thesis using fail_to[OF assms(1) chg_unused] by (simp add: lchan_fsm_wait_activ_ack_onenter_def)
next
  case False
  show ?thesis
  proof (cases "lchan_act_type y i w")
    case (Ok tr)
    obtain t r where tr: "tr = (t, r)" by force
    let ?w = "emit (Tx_rsl (Chan_activ i t r)) (upd_lchan i (\<lambda>l. l\<lparr> lc_encr := ai_encr (act_info l) \<rparr>) w)"
    have g: "good b w ?w" using lok_upd[OF assms(1) encr_harmless] by simp
    have "pst b (lchan_fail_to y i LCHAN_ST_UNUSED (lchan_chg_unused y i) m ?w) (good b w)" for m
      by (rule pst_upd[OF g fail_to[OF lok_good[OF assms(1) g] chg_unused]])
    then show ?thesis using g False
      by (simp add: lchan_fsm_wait_activ_ack_onenter_def Let_def l_tx_def Ok tr)
  qed (use assms(2) False in \<open>auto simp: lchan_fsm_wait_activ_ack_onenter_def lchan_act_type_def
      split: lchan_activate_mode.splits option.splits\<close>)
qed

lemma chg_wait_activ_ack:
  assumes "lok i w" "waiting w i"
  shows "pst b (lchan_chg_wait_activ_ack y i w) (\<lambda>w'. good b w w' \<and> \<not> waiting w' i)"
  unfolding lchan_chg_wait_activ_ack_def
proof (rule lchan_chg_post[OF l_engine])
  let ?w = "set_lchan_state i LCHAN_ST_WAIT_ACTIV_ACK (lchan_fsm_timeouts LCHAN_ST_WAIT_ACTIV_ACK) w"
  assume st: "LCHAN_ST_WAIT_ACTIV_ACK \<in> set (lchan_out_states (lchan_state w i))"
  have "LCHAN_ST_WAIT_ACTIV_ACK \<noteq> LCHAN_ST_WAIT_TS_READY" by simp
  note c = chg_frame[OF assms(1) this st]
  have h: "lchan_state_is (w_lchan w i) LCHAN_ST_WAIT_TS_READY" using assms(2) by (simp add: state_is_waiting waiting_def)
  have "pst b (lchan_fsm_wait_activ_ack_onenter y i ?w) (good b ?w)"
    by (rule wait_activ_ack_onenter[OF c(1)])
      (use lok_orphaned[OF assms(1)] h lok_less[OF assms(1)] in \<open>auto simp: orphaned_def set_lchan_state_upd w_lchan_upd\<close>)
  from pst_not_waiting[OF this c(2)] show "pst b (lchan_fsm_wait_activ_ack_onenter y i ?w) (\<lambda>w'. good b w w' \<and> \<not> waiting w' i)"
    by (rule pst_mono) (use c(6) good_trans in \<open>auto simp del: lchan_fsm_timeouts.simps\<close>)
qed (use assms(2) in \<open>simp add: waiting_def\<close>)

lemma fail_unused_done:
  assumes "lok i w"
  shows "pst b (lchan_fail_to y i LCHAN_ST_UNUSED (lchan_chg_unused y i) m w) (\<lambda>w'. good b w w' \<and> \<not> waiting w' i)"
proof -
  let ?w = "upd_lchan i (\<lambda>l. l\<lparr> last_error := Some m \<rparr>) w"
  have g: "good b w ?w" by (rule lok_upd[OF assms]) simp
  note l = lok_good[OF assms g]
  have "pst b (if lchan_state w1 i \<noteq> LCHAN_ST_UNUSED then lchan_chg_unused y i w1 else Ok w1) (\<lambda>w'. good b w w' \<and> \<not> waiting w' i)"
    if g1: "good b ?w w1" for w1
  proof (cases "lchan_state w1 i = LCHAN_ST_UNUSED")
    case True
    then show ?thesis using good_trans[OF g g1] by (simp add: waiting_def)
  next
    case False
    then show ?thesis
      using pst_mono[OF chg_unused_done[OF lok_good[OF l g1] False]] good_trans[OF good_trans[OF g g1]] by simp
  qed
  then show ?thesis using pst_mono[OF report_failure[OF l]]
    by (simp add: lchan_fail_to_def lchan_set_last_error_def pst_rbind)
qed

lemma sapi_harmless: "harmless (\<lambda>l. l\<lparr> sapis := (sapis l)[s := v] \<rparr>)"
  by (auto simp: lchan_views)

lemma handle_rll_rel:
  assumes "lok i w"
  shows "pst b (handle_rll_rel_ind_or_conf y i (D_link_id l) w) (good b w)"
  unfolding handle_rll_rel_ind_or_conf_def Let_def lchan_ev_data.case steps.simps rbind_Ok_right
  using assms
  by (auto intro!: lok_seq[of i] lok_upd_post lok_up sapi_harmless split: option.split simp del: pst_Ok rbind.simps)

text \<open>
  A release on error may orphan the lchan, but then the lchan has left the activation: the transition
  to WAIT_RLL_RTP_ESTABLISH that follows in the code is refused.
\<close>

definition parted :: "nat \<Rightarrow> ts_world \<Rightarrow> ts_world \<Rightarrow> bool" where
  "parted i w w' \<longleftrightarrow> good True w w' \<and> (good b w w' \<or> \<not> activating w' i)"

lemma parted_good: "good b w w' \<Longrightarrow> parted i w w'"
  by (simp add: parted_def good_weaken)

lemma parted_trans: "good b w w1 \<Longrightarrow> parted i w1 w2 \<Longrightarrow> parted i w w2"
  by (auto simp: parted_def intro: good_trans good_weaken)

lemma parted_seq:
  assumes "lok i w" "\<not> waiting w i" "pst b m (good b w)"
    "\<And>w1. lok i w1 \<Longrightarrow> \<not> waiting w1 i \<Longrightarrow> pst b (f w1) (parted i w1)"
  shows "pst b (rbind m f) (parted i w)"
  unfolding pst_rbind
proof (rule pst_mono[OF assms(3)])
  fix w1 assume g: "good b w w1"
  show "pst b (f w1) (parted i w)"
    by (rule pst_mono[OF assms(4)[OF lok_good[OF assms(1) g] not_waiting_good[OF g assms(2)]]]) (rule parted_trans[OF g])
qed

lemma chg_rf_parted:
  assumes "lok i w" "\<not> waiting w i"
  shows "pst b (lchan_chg_wait_rf_release_ack y i w) (parted i w)"
  unfolding lchan_chg_wait_rf_release_ack_def
proof (rule lchan_chg_post[OF l_engine])
  let ?st = LCHAN_ST_WAIT_RF_RELEASE_ACK
  assume st: "?st \<in> set (lchan_out_states (lchan_state w i))"
  have "?st \<noteq> LCHAN_ST_WAIT_TS_READY" by simp
  note c = chg_frame[OF assms(1) this st]
  have n: "\<not> activating (set_lchan_state i ?st (lchan_fsm_timeouts ?st) w) i"
    using c(5) by (simp add: activating_def del: lchan_fsm_timeouts.simps)
  have g: "good b w (set_lchan_state i ?st (lchan_fsm_timeouts ?st) w)" by (rule c(6)) simp
  show "pst b (lchan_fsm_wait_rf_release_ack_onenter y i (set_lchan_state i ?st (lchan_fsm_timeouts ?st) w)) (parted i w)"
  proof (rule pst_mono[OF wait_rf_release_ack_onenter[OF c(1)]])
    fix w' assume g': "good True (set_lchan_state i ?st (lchan_fsm_timeouts ?st) w) w'"
    have "\<not> activating w' i" using n g' unfolding good_def cell_frame_def by blast
    then show "parted i w w'" using good_trans[OF good_weaken[OF g] g'] by (simp add: parted_def)
  qed
qed (use assms(1) in \<open>simp add: parted_good\<close>)

lemma release_err_parted:
  assumes "lok i w" "\<not> waiting w i"
  shows "pst b (lchan_release_err y i w) (parted i w)"
proof -
  have "lchan_state w i \<noteq> LCHAN_ST_WAIT_TS_READY" using assms by (auto simp: waiting_def lok_def simp del: lok_inv lok_inv_weak)
  then show ?thesis using assms parted_good[of w w i]
    by (cases "lchan_state w i")
      (auto simp: lchan_release_err_def rbind_Ok_right intro!: chg_rf_parted parted_seq do_release)
qed

lemma release_parted:
  assumes "lok i w" "\<not> waiting w i"
  shows "pst b (lchan_release y i rr True cause w) (parted i w)"
proof -
  note g = lok_upd[OF assms(1) release_flags[of rr cause True]]
  let ?w = "upd_lchan i (\<lambda>l. l\<lparr> in_release_handler := True, in_error := True, rsl_error_cause := cause,
      do_rr_release := rr, rel_requested := True \<rparr>) w"
  note l = lok_good[OF assms(1) g] and nw = not_waiting_good[OF g assms(2)]
  have "pst b (if in_error (w_lchan w1 i) then lchan_release_err y i w1
             else if lchan_state w1 i = LCHAN_ST_ESTABLISHED then lchan_chg_wait_rll_rtp_released y i w1
             else Ok w1) (parted i w1)" if "lok i w1" "\<not> waiting w1 i" for w1
    using release_err_parted[OF that] pst_mono[OF chg_wait_rll_rtp_released[OF that(1)] parted_good] that(1)
    by (auto simp: parted_good)
  then have "pst b (steps [\<lambda>w. if fi_rtp (w_lchan w i) \<and> in_error (w_lchan w i) then l_up y Rtp_rollback i w else Ok w,
         \<lambda>w. if in_error (w_lchan w i) then lchan_release_err y i w
             else if lchan_state w i = LCHAN_ST_ESTABLISHED then lchan_chg_wait_rll_rtp_released y i w
             else Ok w] ?w) (parted i ?w)"
    unfolding steps.simps rbind_Ok_right by (intro parted_seq[OF l nw]) (use l in \<open>auto intro: lok_up\<close>)
  moreover have "parted i w (upd_lchan i (\<lambda>l. l\<lparr> in_release_handler := False \<rparr>) w1)" if p: "parted i ?w w1" for w1
  proof -
    have a: "alloc w1 i" by (rule good_alloc_weak[OF l]) (use p in \<open>auto simp: parted_def\<close>)
    have "cell_frame w1 (upd_lchan i (\<lambda>l. l\<lparr> in_release_handler := False \<rparr>) w1)"
      by (rule frame_upd_lchan) (auto simp: lchan_state_is_def)
    then have "activating (upd_lchan i (\<lambda>l. l\<lparr> in_release_handler := False \<rparr>) w1) i \<Longrightarrow> activating w1 i"
      unfolding cell_frame_def by blast
    then have "parted i ?w (upd_lchan i (\<lambda>l. l\<lparr> in_release_handler := False \<rparr>) w1)"
      using p good_harmless[OF _ a release_flag] by (auto simp: parted_def)
    then show ?thesis by (rule parted_trans[OF g])
  qed
  ultimately have "pst b (rbind (steps [\<lambda>w. if fi_rtp (w_lchan w i) \<and> in_error (w_lchan w i) then l_up y Rtp_rollback i w else Ok w,
         \<lambda>w. if in_error (w_lchan w i) then lchan_release_err y i w
             else if lchan_state w i = LCHAN_ST_ESTABLISHED then lchan_chg_wait_rll_rtp_released y i w
             else Ok w] ?w) (\<lambda>w. Ok (upd_lchan i (\<lambda>l. l\<lparr> in_release_handler := False \<rparr>) w))) (parted i w)"
    unfolding pst_rbind by (auto elim!: pst_mono simp del: steps.simps)
  then show ?thesis using assms(1) unfolding release_unfold by (simp add: parted_good del: steps.simps)
qed

lemma report_active:
  assumes "lok i w" "\<not> waiting w i"
  shows "pst b (lchan_report_active y i w) (\<lambda>(r, w'). if r then good True w w' else parted i w w')"
proof -
  let ?w = "emit (Tx_rsl (Imm_assignment i)) w"
  have g: "good b w ?w" using assms(1) by simp
  note l = lok_good[OF assms(1) g]
  have "good b w (upd_lchan i (\<lambda>l. l\<lparr> immediate_assignment_sent := True \<rparr>) ?w)"
    by (rule good_trans[OF g]) (rule lok_upd[OF l], auto simp: lchan_views)
  then show ?thesis
    using pst_upd_weak[OF g fail[OF l]] assms(1) release_parted[OF assms] pst_mono[OF lok_up[OF assms(1)] parted_good]
    by (cases "activ_for (act_info (w_lchan w i))")
      (auto simp: lchan_report_active_def Let_def l_tx_def pst_rbind parted_good split: option.split)
qed

lemma establish_parted:
  assumes "lok i w" "parted i w w1"
  shows "pst b (lchan_chg_wait_rll_rtp_establish y i w1) (good True w)"
proof (cases "good b w w1")
  case True
  then show ?thesis by (intro pst_weaken pst_upd[OF True] chg_wait_rll_rtp_establish lok_good[OF assms(1)])
next
  case False
  then have g: "good True w w1" "\<not> activating w1 i" using assms(2) by (auto simp: parted_def)
  then have "lchan_state w1 i \<noteq> LCHAN_ST_WAIT_ACTIV_ACK" using good_alloc_weak[OF assms(1) g(1)] by (auto simp: activating_def)
  then have "LCHAN_ST_WAIT_RLL_RTP_ESTABLISH \<notin> set (lchan_out_states (lchan_state w1 i))" by (cases "lchan_state w1 i") auto
  then show ?thesis unfolding lchan_chg_wait_rll_rtp_establish_def
    by (intro lchan_chg_post[OF l_engine]) (use g in auto)
qed

lemma post_activ_ack:
  assumes "lok i w" "\<not> waiting w i"
  shows "pst b (lchan_fsm_post_activ_ack y i w) (good True w)"
proof (cases "rel_requested (w_lchan w i)")
  case True
  then show ?thesis using fail_to_last[OF assms(1) chg_wait_rf_release_ack] by (simp add: lchan_fsm_post_activ_ack_def)
next
  case False
  have "pst b (rbind (lchan_report_active y i w)
      (\<lambda>(r, w). if r then Ok w else lchan_chg_wait_rll_rtp_establish y i w)) (good True w)"
    unfolding pst_rbind
    by (rule pst_mono[OF report_active[OF assms]]) (auto split: if_splits intro: establish_parted[OF assms(1)])
  then show ?thesis using False by (simp add: lchan_fsm_post_activ_ack_def)
qed

lemma cause_harmless: "harmless (\<lambda>l. l\<lparr> rsl_error_cause := c, in_error := True \<rparr>)"
  by (auto simp: lchan_views)

lemma mark_harmless: "harmless (\<lambda>l. l\<lparr> in_error := True, rsl_error_cause := c \<rparr>)"
  by (auto simp: lchan_views)

lemma activ_nack: "lok i w \<Longrightarrow> pst b (lchan_activ_nack y i d w) (good True w)"
proof -
  assume l: "lok i w"
  note g = lok_upd[OF l cause_harmless]
  show ?thesis using pst_upd_weak[OF g fail_to_last[OF lok_good[OF l g] error_chg]]
      pst_weaken[OF pst_upd[OF g fail_to[OF lok_good[OF l g] chg_borken]]]
    by (cases d) (simp_all add: lchan_activ_nack_def Let_def)
qed

lemma rtp_failed: "lok i w \<Longrightarrow> pst b (fl w) (good True w) \<Longrightarrow> pst b (lchan_rtp_failed y i fl w) (good True w)"
  by (simp add: lchan_rtp_failed_def)

lemma activ_ack_event:
  assumes "lok i w" "\<not> waiting w i"
  shows "pst b (lchan_fsm_post_activ_ack y i (upd_lchan i (\<lambda>l. l\<lparr> activ_ack := True \<rparr>) w)) (good True w)"
proof -
  have g: "good b w (upd_lchan i (\<lambda>l. l\<lparr> activ_ack := True \<rparr>) w)" by (rule lok_upd[OF assms(1)]) (auto simp: lchan_views)
  show ?thesis by (rule pst_upd_weak[OF g post_activ_ack[OF lok_good[OF assms(1) g] not_waiting_good[OF g assms(2)]]])
qed

lemma activ_nack_event:
  assumes "lok i w"
  shows "pst b (steps [\<lambda>w. Ok (upd_lchan i (\<lambda>l. l\<lparr> in_release_handler := True \<rparr>) w), lchan_activ_nack y i d,
      \<lambda>w. Ok (upd_lchan i (\<lambda>l. l\<lparr> in_release_handler := False \<rparr>) w)] w) (good True w)"
proof -
  note g = lok_upd[OF assms release_flag[of True]]
  from pst_upd_weak[OF g then_flag[OF lok_good[OF assms g] activ_nack[OF lok_good[OF assms g]]]] show ?thesis by simp
qed

lemma rel_event:
  assumes "lok i w" "\<And>w1. lok i w1 \<Longrightarrow> pst b (f w1) (good b w1)"
  shows "pst b (rbind (handle_rll_rel_ind_or_conf y i (D_link_id li) w) f) (good True w)"
  using assms by (auto intro: pst_weaken lok_seq[of i] handle_rll_rel)

lemma action:
  assumes "lok i w" "data_ok ev d" "ev \<in> set (lchan_in_events (lchan_state w i))"
  shows "pst b (lchan_action (lchan_state w i) y i ev d w) (good True w)"
proof -
  note l = assms(1)
  have a: "alloc w i" using l by (auto simp: lok_def simp del: lok_inv lok_inv_weak)
  note mark = lok_upd[OF l mark_harmless[of RSL_ERR_INTERWORKING]]
  show ?thesis
  proof (cases "lchan_state w i")
    case LCHAN_ST_WAIT_TS_READY
    then have "pst b (lchan_chg_wait_activ_ack y i w) (good True w)"
      using a by (intro pst_weaken pst_mono[OF chg_wait_activ_ack[OF l]]) (auto simp: waiting_def)
    then show ?thesis using assms(3) l LCHAN_ST_WAIT_TS_READY
      by (auto simp: lchan_fsm_wait_ts_ready_def intro!: rtp_failed fail)
  next
    case LCHAN_ST_WAIT_ACTIV_ACK
    then have "\<not> waiting w i" by (simp add: waiting_def)
    then show ?thesis using assms(3) l activ_ack_event[OF l] activ_nack_event[OF l] LCHAN_ST_WAIT_ACTIV_ACK
      by (auto simp: lchan_fsm_wait_activ_ack_def Let_def intro!: rtp_failed fail_to_last chg_wait_rf_release_ack simp del: steps.simps)
  next
    case LCHAN_ST_WAIT_RLL_RTP_ESTABLISH
    then show ?thesis using assms(3) l
      by (auto simp: lchan_fsm_wait_rll_rtp_establish_def intro!: rtp_failed fail chg_established)
  next
    case LCHAN_ST_ESTABLISHED
    then show ?thesis using assms(2,3) l
      by (auto simp: lchan_fsm_established_def data_ok_def Let_def intro!: rtp_failed fail rel_event chg_wait_rll_rtp_released)
  next
    case LCHAN_ST_WAIT_RLL_RTP_RELEASED
    then show ?thesis using assms(2,3) l pst_weaken[OF chg_simple(2)[OF l]]
      by (auto simp: lchan_fsm_wait_rll_rtp_released_def data_ok_def intro!: rel_event chg_simple)
  next
    case LCHAN_ST_WAIT_RF_RELEASE_ACK
    then show ?thesis using assms(3) l
      by (auto simp: lchan_fsm_wait_rf_release_ack_def intro!: pst_weaken chg_simple chg_unused)
  next
    case LCHAN_ST_BORKEN
    then show ?thesis
      using assms(3) l pst_upd_weak[OF mark chg_wait_rf_release_ack[OF lok_good[OF l mark]]]
        pst_weaken[OF pst_upd[OF mark chg_simple(1)[OF lok_good[OF l mark]]]] pst_weaken[OF chg_unused[OF l]]
      by (auto simp: lchan_fsm_borken_def Let_def)
  qed (use assms in \<open>auto simp: data_ok_def\<close>)
qed

lemma event:
  assumes "lok i w" "data_ok ev d"
  shows "pst b (rbind (lchan_fsm_dispatch y i ev d w) (\<lambda>(rc, w). Ok w)) (good True w)"
  using action[OF assms] pst_weaken[OF fail_to[OF assms(1) chg_unused]] assms(1)
  by (auto simp: lchan_fsm_dispatch_eq[OF l_engine] lchan_fsm_allstate_action_def pst_rbind)

lemma error_event:
  assumes "lok i w"
  shows "pst b (rbind (lchan_fsm_dispatch y i LCHAN_EV_TS_ERROR d w) (\<lambda>(rc, w). Ok w))
    (\<lambda>w'. good b w w' \<and> \<not> waiting w' i)"
  using fail_unused_done[OF assms]
  by (simp add: lchan_fsm_dispatch_eq[OF l_engine] lchan_fsm_allstate_action_def pst_rbind)

lemma ready_event:
  assumes "lok i w" "waiting w i"
  shows "pst b (rbind (lchan_fsm_dispatch y i LCHAN_EV_TS_READY d w) (\<lambda>(rc, w). Ok w))
    (\<lambda>w'. good b w w' \<and> \<not> waiting w' i)"
  using chg_wait_activ_ack[OF assms] assms(2)
  by (simp add: lchan_fsm_dispatch_eq[OF l_engine] waiting_def lchan_fsm_wait_ts_ready_def pst_rbind)

lemma timer: "lok i w \<Longrightarrow> pst b (lchan_fsm_timer_cb y i w) (good True w)"
proof -
  assume l: "lok i w"
  note g = lok_upd[OF l mark_harmless[of RSL_ERR_INTERWORKING]]
  show ?thesis using l pst_upd_weak[OF g fail[OF lok_good[OF l g]]] pst_weaken[OF chg_unused[OF l]]
    by (cases "lchan_state w i") (simp_all add: lchan_fsm_timer_cb_def chg_wait_rf_release_ack)
qed

text \<open>The instance is gone: an lchan without instance counts as unused, and it is blank.\<close>

lemma drop_instance:
  assumes "lok i w" "\<not> is_oml_ready (w_ts w)" "good b w w1" "blank i w1"
  defines "w2 \<equiv> upd_lchan i (\<lambda>l. l\<lparr> last_error := None, lc_fi := None \<rparr>) w1"
  shows "cell_inv b w2 \<and> tidy w w2 \<and> \<not> is_oml_ready (w_ts w2) \<and> waiting_set w2 \<subseteq> waiting_set w"
proof -
  have a: "alloc w1 i" "cell_inv b w1" using lok_good[OF assms(1,3)] by (auto simp: lok_def simp del: lok_inv lok_inv_weak)
  have o: "\<not> is_oml_ready (w_ts w1)" using assms(2,3) by (simp add: good_def cell_frame_def)
  have "cell_inv b w2" unfolding w2_def
    by (rule inv_upd_lchan[OF a(2)])
      (use o inv_orphaned[OF a(2,1)] in \<open>auto simp: orphaned_def lchan_state_is_def\<close>)
  moreover have "tidy w1 w2" unfolding w2_def
    by (rule tidy_upd_lchan) (use assms(4) in \<open>simp add: dirty_def blank_def\<close>)
  moreover have "waiting_set w2 \<subseteq> waiting_set w1" unfolding w2_def
    using alloc_less[OF a(2,1)]
    by (auto simp: waiting_set_def waiting_def alloc_def lchan_state_def lc_state_def w_lchan_upd split: if_splits)
  ultimately show ?thesis using o assms(3) by (auto simp: w2_def good_def cell_frame_def intro: tidy_trans)
qed

lemma cleanup:
  assumes "lok i w" "\<not> is_oml_ready (w_ts w)"
  shows "pst b (lchan_fsm_cleanup y i w)
    (\<lambda>w'. cell_inv b w' \<and> tidy w w' \<and> \<not> is_oml_ready (w_ts w') \<and> waiting_set w' \<subseteq> waiting_set w)"
  unfolding lchan_fsm_cleanup_def steps.simps rbind_Ok_right pst_rbind pst_Ok
  by (rule pst_mono[OF reset[OF assms(1)]]) (use drop_instance[OF assms] in blast)

end

section \<open>Activation\<close>

lemma waiting_upd: "(\<And>l. lc_fi (f l) = lc_fi l) \<Longrightarrow> waiting (upd_lchan j f w) i = waiting w i"
  by (cases "j < length (lchans (w_ts w))"; cases "i = j")
    (auto simp: waiting_def alloc_def lchan_state_def lc_state_def lchan_upd_other list_update_beyond not_less)

lemma card_waiting: "card (waiting_set w) \<le> 8"
proof -
  have "waiting_set w \<subseteq> {..<8}" by (auto simp: waiting_set_def waiting_def alloc_def TS_MAX_LCHAN_def)
  then show ?thesis using card_mono[of "{..<8::nat}"] by simp
qed

text \<open>
  What the callers of \<^verbatim>\<open>lchan_activate\<close> see to: an activation for an assignment or with the AMR codec
  names its connection (\<^verbatim>\<open>assignment_fsm.c\<close>, \<^verbatim>\<open>handover_fsm.c\<close>); the activation on a channel request
  (\<^verbatim>\<open>abis_rsl.c\<close>) is for signalling.
\<close>

definition info_ok :: "lchan_activate_info \<Rightarrow> bool" where
  "info_ok info \<longleftrightarrow> for_conn info \<noteq> None \<or> activ_for info \<noteq> FOR_ASSIGNMENT \<and> ai_chan_mode info \<noteq> GSM48_CMODE_SPEECH_AMR"

text \<open>The interface for requesting the timeslot.\<close>

locale lchan_requester = lchan_client +
  assumes all_wait: "8 \<le> k"
    and td_requested: "\<And>w i. cell_inv b w \<Longrightarrow> waiting w i \<Longrightarrow> pst b (l_td y TS_EV_LCHAN_REQUESTED (Some i) w) (good b w)"
begin

lemma lokI: "cell_inv b w \<Longrightarrow> alloc w i \<Longrightarrow> lok i w"
proof -
  have "card (waiting_set w - {i}) \<le> card (waiting_set w)" by (rule card_mono) auto
  then show "cell_inv b w \<Longrightarrow> alloc w i \<Longrightarrow> lok i w" using all_wait card_waiting[of w] by (simp add: lok_def)
qed

lemma init_power:
  assumes "lok i w"
  shows "good b w (lchan_init_power y i w) \<and> waiting (lchan_init_power y i w) i = waiting w i \<and>
    act_info (w_lchan (lchan_init_power y i w) i) = act_info (w_lchan w i) \<and>
    lc_conn (w_lchan (lchan_init_power y i w) i) = lc_conn (w_lchan w i)"
proof -
  have "harmless (\<lambda>l. l\<lparr> ms_power := p \<rparr>)" "harmless (\<lambda>l. l\<lparr> ms_power := p, bs_power := q, rqd_ta := r \<rparr>)" for p q r
    by (auto simp: lchan_views)
  then show ?thesis using lok_upd[OF assms] lok_less[OF assms]
    by (auto simp: lchan_init_power_def Let_def w_lchan_upd waiting_upd split: option.split prod.split)
qed

lemma init_amr:
  assumes "lok i w" "b \<or> ai_chan_mode (act_info (w_lchan w i)) \<noteq> GSM48_CMODE_SPEECH_AMR \<or> lc_conn (w_lchan w i) \<noteq> None"
  shows "pst b (lchan_init_amr y i w) (\<lambda>r. case r of None \<Rightarrow> True | Some w' \<Rightarrow> good b w w' \<and> waiting w' i = waiting w i)"
proof -
  have "harmless (\<lambda>l. l\<lparr> mr_ms_lv := p, mr_bts_lv := q, lc_s15_s0 := r \<rparr>)" for p q r by (auto simp: lchan_views)
  then show ?thesis using lok_upd[OF assms(1)] assms
    by (auto simp: lchan_init_amr_def Let_def waiting_upd split: option.split prod.split)
qed

text \<open>Entering WAIT_TS_READY once the connection is set.\<close>

definition request_ts :: "nat \<Rightarrow> ts_world \<Rightarrow> ts_world res" where
  "request_ts i w0 =
     (let w = lchan_init_power y i w0 in
      rbind (lchan_init_amr y i w) (\<lambda>r. case r of
        None \<Rightarrow> lchan_fail y i ''Can not determine multirate configuration'' w
      | Some w \<Rightarrow>
          if ai_chan_mode (act_info (w_lchan w i)) \<notin>
               {GSM48_CMODE_SIGN, GSM48_CMODE_SPEECH_V1, GSM48_CMODE_SPEECH_EFR, GSM48_CMODE_SPEECH_AMR}
          then lchan_fail y i ''Not implemented: cannot activate for chan mode'' w
          else rbind (l_td y TS_EV_LCHAN_REQUESTED (Some i)
                 (upd_lchan i (\<lambda>l. l\<lparr> tch_mode := ai_chan_mode (act_info l),
                   rsl_cmode := (if ai_chan_mode (act_info l) = GSM48_CMODE_SIGN then RSL_CMOD_SPD_SIGN else RSL_CMOD_SPD_SPEECH) \<rparr>) w))
                 (\<lambda>w. if requires_voice_stream (act_info (w_lchan w i)) then l_up y Rtp_start i w else Ok w)))"

lemma onenter_eq:
  "\<not> rel_requested (w_lchan w i) \<Longrightarrow>
   lchan_fsm_wait_ts_ready_onenter y i w = request_ts i (upd_lchan i (\<lambda>l. l\<lparr> lc_conn := for_conn (act_info l) \<rparr>) w)"
  unfolding lchan_fsm_wait_ts_ready_onenter_def request_ts_def Let_def by (simp add: rbind_Ok_right cong: option.case_cong if_cong)

lemma request_ts:
  assumes "cell_inv b w" "waiting w i"
    "b \<or> ai_chan_mode (act_info (w_lchan w i)) \<noteq> GSM48_CMODE_SPEECH_AMR \<or> lc_conn (w_lchan w i) \<noteq> None"
  shows "pst b (request_ts i w) (good True w)"
proof -
  have l: "lok i w" using assms lokI by (auto simp: waiting_def)
  let ?w = "lchan_init_power y i w"
  have p: "good b w ?w" "waiting ?w i" "act_info (w_lchan ?w i) = act_info (w_lchan w i)"
    "lc_conn (w_lchan ?w i) = lc_conn (w_lchan w i)" using init_power[OF l] assms(2) by auto
  note l1 = lok_good[OF l p(1)]
  let ?f = "\<lambda>l. l\<lparr> tch_mode := ai_chan_mode (act_info l),
      rsl_cmode := (if ai_chan_mode (act_info l) = GSM48_CMODE_SIGN then RSL_CMOD_SPD_SIGN else RSL_CMOD_SPD_SPEECH) \<rparr>"
  have h: "harmless ?f" by (auto simp: lchan_views)
  have td: "pst b (rbind (l_td y TS_EV_LCHAN_REQUESTED (Some i) (upd_lchan i ?f w1))
      (\<lambda>w. if requires_voice_stream (act_info (w_lchan w i)) then l_up y Rtp_start i w else Ok w)) (good b w1)"
    if w1: "lok i w1" "waiting w1 i" for w1
  proof -
    have g: "good b w1 (upd_lchan i ?f w1)" by (rule lok_upd[OF w1(1) h])
    have "waiting (upd_lchan i ?f w1) i" using w1(2) by (subst waiting_upd) simp_all
    from td_requested[OF good_inv[OF g] this] show ?thesis
      by (intro pst_upd[OF g] lok_seq[OF lok_good[OF w1(1) g]]) (auto intro: lok_up)
  qed
  have "pst b (request_ts i w) (good True ?w)"
    unfolding request_ts_def Let_def pst_rbind
  proof (rule pst_mono[OF init_amr[OF l1]])
    fix r assume r: "case r of None \<Rightarrow> True | Some w' \<Rightarrow> good b ?w w' \<and> waiting w' i = waiting ?w i"
    show "pst b (case r of
        None \<Rightarrow> lchan_fail y i ''Can not determine multirate configuration'' ?w
      | Some w \<Rightarrow>
          if ai_chan_mode (act_info (w_lchan w i)) \<notin>
               {GSM48_CMODE_SIGN, GSM48_CMODE_SPEECH_V1, GSM48_CMODE_SPEECH_EFR, GSM48_CMODE_SPEECH_AMR}
          then lchan_fail y i ''Not implemented: cannot activate for chan mode'' w
          else rbind (l_td y TS_EV_LCHAN_REQUESTED (Some i) (upd_lchan i ?f w))
                 (\<lambda>w. if requires_voice_stream (act_info (w_lchan w i)) then l_up y Rtp_start i w else Ok w)) (good True ?w)"
    proof (cases r)
      case None
      then show ?thesis using fail[OF l1] by simp
    next
      case (Some w1)
      then have g: "good b ?w w1" "waiting w1 i" using r p(2) by auto
      show ?thesis
        using pst_upd_weak[OF g(1) fail[OF lok_good[OF l1 g(1)]]]
          pst_weaken[OF pst_upd[OF g(1) td[OF lok_good[OF l1 g(1)] g(2)]]] by (simp add: Some)
    qed
  qed (use assms(3) p in simp)
  then show ?thesis by (rule pst_upd_weak[OF p(1)])
qed

lemma dispatch_activate:
  assumes "cell_inv b w" "alloc w i" "info_ok info" "activ_for info = FOR_HANDOVER \<longrightarrow> for_conn info \<noteq> None"
    "\<not> dirty (w_lchan w i)" "lchan_state w i = LCHAN_ST_UNUSED"
  shows "pst b (lchan_fsm_unused y i LCHAN_EV_ACTIVATE (D_info info) w) (\<lambda>w'. cell_inv True w' \<and> tidy w w')"
proof -
  let ?T = "lchan_fsm_timeouts LCHAN_ST_WAIT_TS_READY"
  let ?w1 = "upd_lchan i (\<lambda>l. l\<lparr> rel_requested := False, act_info := info, concluded := False \<rparr>)
      (upd_lchan i (\<lambda>l. l\<lparr> last_error := None \<rparr>) w)"
  let ?w2 = "set_lchan_state i LCHAN_ST_WAIT_TS_READY ?T ?w1"
  let ?w3 = "upd_lchan i (\<lambda>l. l\<lparr> lc_conn := for_conn (act_info l) \<rparr>) ?w2"
  let ?F = "\<lambda>l. l\<lparr> last_error := None, rel_requested := False, act_info := info, concluded := False,
      lc_fi := Some \<lparr> lf_state = LCHAN_ST_WAIT_TS_READY, lf_T = ?T \<rparr>, lc_conn := for_conn info \<rparr>"
  have il: "i < length (lchans (w_ts w))" by (rule alloc_less[OF assms(1,2)])
  have w3: "?w3 = upd_lchan i ?F w" using il by (simp add: set_lchan_state_upd upd_lchan_def upd_ts_def del: lchan_fsm_timeouts.simps)
  have st: "lchan_state_is (w_lchan w i) LCHAN_ST_UNUSED"
    using assms(2,6) by (auto simp: lchan_state_is_def alloc_def lchan_state_def lc_state_def)
  have i3: "cell_inv b (upd_lchan i ?F w)"
    by (rule inv_upd_lchan[OF assms(1)]) (use assms(3,4) in \<open>auto simp: orphaned_def info_ok_def\<close>)
  have wt: "waiting (upd_lchan i ?F w) i"
    using assms(2) il by (simp add: waiting_def alloc_def lchan_state_def lc_state_def w_lchan_upd)
  have td: "tidy w (upd_lchan i ?F w)"
    by (rule tidy_upd_lchan) (simp add: dirty_def lchan_state_is_def)
  have rq: "\<not> rel_requested (w_lchan ?w2 i)" using il by (simp add: set_lchan_state_upd w_lchan_upd)
  have "pst b (request_ts i (upd_lchan i ?F w)) (\<lambda>w'. cell_inv True w' \<and> tidy w w')"
    by (rule pst_mono[OF request_ts[OF i3 wt]])
      (use assms(3) il td in \<open>auto simp: info_ok_def w_lchan_upd good_def intro: tidy_trans\<close>)
  then have "pst b (lchan_chg_wait_ts_ready y i ?w1) (\<lambda>w'. cell_inv True w' \<and> tidy w w')"
    unfolding lchan_chg_wait_ts_ready_def
    by (intro lchan_chg_post[OF l_engine])
      (use onenter_eq[OF rq] w3 assms(6) il in \<open>auto simp: lchan_state_def lc_state_def w_lchan_upd simp del: lchan_fsm_timeouts.simps\<close>)
  then show ?thesis
    using assms(5) st by (simp add: lchan_fsm_unused_def lchan_set_last_error_def osmo_assert_def dirty_def rbind_Ok_right)
qed

lemma activate:
  assumes "cell_inv b w" "alloc w i" "info_ok info" "\<not> dirty (w_lchan w i)"
  shows "pst b (lchan_activate y i info w) (\<lambda>w'. cell_inv True w' \<and> tidy w w')"
proof -
  have ab: "pst b (lchan_on_activation_failure y i (activ_for info) (for_conn info) w) (\<lambda>w'. cell_inv True w' \<and> tidy w w')"
    by (rule pst_mono[OF pst_weaken[OF on_activation_failure[OF lokI[OF assms(1,2)]]]])
      (use assms(3) in \<open>auto simp: info_ok_def good_def\<close>)
  have "ts_fi (w_ts w) \<noteq> None" "lc_fi (w_lchan w i) \<noteq> None"
    using assms(1,2) by (auto simp: cell_inv_def ts_inv_def alloc_def)
  moreover have "lchan_state w i = LCHAN_ST_UNUSED" if "lchan_state_is (w_lchan w i) LCHAN_ST_UNUSED"
    using that assms(2) by (auto simp: lchan_state_is_def alloc_def lchan_state_def lc_state_def split: option.splits)
  moreover have "activ_for info = FOR_HANDOVER \<longrightarrow> for_conn info \<noteq> None" if "lchan_may_activate y i info w"
    using that by (auto simp: lchan_may_activate_def split: option.splits)
  ultimately show ?thesis
    using ab dispatch_activate[OF assms(1-3) _ assms(4)]
    by (auto simp: lchan_activate_def Let_def lchan_fsm_dispatch_eq[OF l_engine] pst_rbind)
qed

end

end
