(* ===== verification/Ts_Events.thy ===== *)
theory Ts_Events
  imports Lchan_Client
begin

text \<open>
  The remaining events of the timeslot machine: the OML and RSL links coming up and going down, the
  acknowledgements of PDCH (de)activation and the timer.  With the interface \<open>ts_client\<close> each of
  them returns and keeps the invariant of the cell.
\<close>

section \<open>Events of the links and of the BTS\<close>

lemma for_each_snoc: "for_each (xs @ [x]) f s = rbind (for_each xs f s) (f x)"
proof (induction xs arbitrary: s)
  case (Cons a xs)
  then show ?case by (cases "f a s") (simp_all add: fun_eq_iff)
qed simp

text \<open>Allocating the lchans leaves all but the instances as it was.\<close>

definition setup_upto :: "nat \<Rightarrow> ts_world \<Rightarrow> ts_world \<Rightarrow> bool" where
  "setup_upto n w w' \<longleftrightarrow>
     (\<exists>ls. w_ts w' = (w_ts w)\<lparr> lchans := ls \<rparr> \<and> length ls = length (lchans (w_ts w)) \<and>
       (\<forall>j < length ls. (ls ! j = w_lchan w j \<or> lc_fi (w_lchan w j) = None \<and>
          ls ! j = (w_lchan w j)\<lparr> lc_fi := Some \<lparr> lf_state = LCHAN_ST_UNUSED, lf_T = None \<rparr> \<rparr>) \<and>
         (j < n \<longrightarrow> lc_fi (ls ! j) \<noteq> None)))"

lemma setup_lchans:
  assumes "n \<le> length (lchans (w_ts w))" "ts_fi (w_ts w) \<noteq> None"
  shows "\<exists>w'. for_each [0..<n] (\<lambda>i w. if lc_fi (w_lchan w i) \<noteq> None then Ok w else lchan_fsm_alloc i w) w = Ok w' \<and> setup_upto n w w'"
  using assms(1)
proof (induction n)
  case 0
  show ?case by (auto simp: setup_upto_def intro!: exI[of _ "lchans (w_ts w)"])
next
  case (Suc n)
  then obtain w' where w': "for_each [0..<n] (\<lambda>i w. if lc_fi (w_lchan w i) \<noteq> None then Ok w else lchan_fsm_alloc i w) w = Ok w'"
    "setup_upto n w w'" by auto
  then obtain ls where ls: "w_ts w' = (w_ts w)\<lparr> lchans := ls \<rparr>" "length ls = length (lchans (w_ts w))"
    "\<And>j. j < length ls \<Longrightarrow> (ls ! j = w_lchan w j \<or> lc_fi (w_lchan w j) = None \<and>
         ls ! j = (w_lchan w j)\<lparr> lc_fi := Some \<lparr> lf_state = LCHAN_ST_UNUSED, lf_T = None \<rparr> \<rparr>) \<and> (j < n \<longrightarrow> lc_fi (ls ! j) \<noteq> None)"
    unfolding setup_upto_def by blast
  let ?ls = "ls[n := (ls ! n)\<lparr> lc_fi := Some \<lparr> lf_state = LCHAN_ST_UNUSED, lf_T = None \<rparr> \<rparr>]"
  show ?case
  proof (cases "lc_fi (w_lchan w' n) = None")
    case True
    have n: "lc_fi (w_lchan w n) = None" "ls ! n = w_lchan w n" using ls(3)[of n] True ls(1,2) Suc.prems by auto
    have "setup_upto (Suc n) w (set_lchan_state n LCHAN_ST_UNUSED None w')"
      unfolding setup_upto_def using ls Suc.prems n
      by (intro exI[of _ ?ls]) (auto simp: set_lchan_state_def upd_lchan_def upd_ts_def nth_list_update less_Suc_eq)
    then show ?thesis using w' True ls(1) assms(2)
      by (simp add: for_each_snoc lchan_fsm_alloc_def)
  next
    case False
    have "setup_upto (Suc n) w w'"
      unfolding setup_upto_def using ls False Suc.prems by (intro exI[of _ ls]) (auto simp: less_Suc_eq)
    then show ?thesis using w' False by (simp add: for_each_snoc)
  qed
qed

lemma pchan_subslots_le: "pchan_subslots p \<le> 8"
  by (cases p) auto

text \<open>What an event of the timeslot keeps of the cell.\<close>

definition kept :: "bool \<Rightarrow> ts_world \<Rightarrow> ts_world \<Rightarrow> bool" where
  "kept b w w' \<longleftrightarrow> cell_inv b w' \<and> tidy w w'"

lemma kept_good: "good b w w' \<Longrightarrow> kept b w w'"
  by (simp add: good_def kept_def)

lemma kept_trans: "kept b w w1 \<Longrightarrow> kept b w1 w2 \<Longrightarrow> kept b w w2"
  by (auto simp: kept_def intro: tidy_trans)

lemma kept_refl [simp]: "kept b w w = cell_inv b w"
  by (simp add: kept_def)

lemma pst_kept: "pst b m (good b w) \<Longrightarrow> pst b m (kept b w)"
  by (erule pst_mono) (rule kept_good)

lemma setup_sound:
  assumes "setup_upto n w w'" "sound_ts b (w_ts w)" "length (lchans (w_ts w)) = TS_MAX_LCHAN"
  shows "sound_ts b (w_ts w') \<and> tidy w w'"
proof -
  from assms(1) obtain ls where ls: "w_ts w' = (w_ts w)\<lparr> lchans := ls \<rparr>" "length ls = length (lchans (w_ts w))"
    "\<And>j. j < length ls \<Longrightarrow> ls ! j = w_lchan w j \<or> lc_fi (w_lchan w j) = None \<and>
       ls ! j = (w_lchan w j)\<lparr> lc_fi := Some \<lparr> lf_state = LCHAN_ST_UNUSED, lf_T = None \<rparr> \<rparr>" unfolding setup_upto_def by blast
  have "(orphaned (ls ! j) \<longrightarrow> orphaned (w_lchan w j)) \<and> (dirty (ls ! j) \<longrightarrow> dirty (w_lchan w j))" if "j < length ls" for j
    using ls(3)[OF that] by (auto simp: lchan_views)
  then show ?thesis using assms(2,3) ls(2) by (auto simp: sound_nth tidy_def ls(1))
qed

context ts_client
begin

lemma oml_ready:
  assumes "cell_inv b w" "8 \<le> k" "ts_state w = TS_ST_NOT_INITIALIZED"
  shows "pst b (ts_not_initialized_oml_ready x w) (kept b w)"
proof -
  let ?w1 = "upd_ts (\<lambda>ts. ts\<lparr> pdch_act_allowed := True, is_oml_ready := True \<rparr>) w"
  let ?w2 = "upd_ts (\<lambda>ts. ts\<lparr> pchan_on_init := pchan_from_config ts \<rparr>) ?w1"
  let ?n = "pchan_subslots (w_on_init ?w2)"
  have len: "length (lchans (w_ts ?w2)) = 8" and fi: "ts_fi (w_ts ?w2) \<noteq> None"
    using assms(1) by (simp_all add: cell_inv_def ts_inv_def TS_MAX_LCHAN_def)
  obtain w3 where w3: "for_each [0..<?n] (\<lambda>i w. if lc_fi (w_lchan w i) \<noteq> None then Ok w else lchan_fsm_alloc i w) ?w2 = Ok w3"
    "setup_upto ?n ?w2 w3"
    using setup_lchans[of ?n ?w2] len fi pchan_subslots_le by auto
  have p3: "sound_ts b (w_ts w3)" "tidy w w3"
    using setup_sound[OF w3(2), of b] len assms(1) by (auto simp: cell_inv_def sound_ts_def tidy_def TS_MAX_LCHAN_def)
  obtain ls where ls: "w_ts w3 = (w_ts ?w2)\<lparr> lchans := ls \<rparr>" "length ls = 8"
    "\<And>j. j < 8 \<Longrightarrow> (ls ! j = w_lchan ?w2 j \<or> lc_fi (w_lchan ?w2 j) = None \<and>
       ls ! j = (w_lchan ?w2 j)\<lparr> lc_fi := Some \<lparr> lf_state = LCHAN_ST_UNUSED, lf_T = None \<rparr> \<rparr>) \<and>
       (j < ?n \<longrightarrow> lc_fi (ls ! j) \<noteq> None)"
    using w3(2) len unfolding setup_upto_def by auto
  have each: "lc_nr (ls ! j) = j \<and> length (sapis (ls ! j)) = 8 \<and> lchan_timer_ok (lc_fi (ls ! j))" if "j < 8" for j
    using ls(3)[OF that] that assms(1) by (auto simp: cell_inv_def ts_inv_def TS_MAX_LCHAN_def)
  let ?w4 = "upd_ts (\<lambda>ts. ts\<lparr> pchan_is := initial_pchan_is (pchan_on_init ts) \<rparr>) w3"
  have i4: "cell_inv b ?w4"
    using assms(1,3) p3(1) each ls pchan_subslots_le[of "pchan_from_config (w_ts w)"]
    by (fastforce simp: cell_inv_def ts_inv_def sound_ts_def ts_state_def TS_MAX_LCHAN_def)
  then have k4: "kept b w ?w4" using p3(2) by (simp add: kept_def tidy_def)
  have "pst b (ts_chg_unused x ?w4) (kept b w)" if "is_rsl_ready (w_ts w3)"
  proof -
    have "ready b k ?w4"
      using i4 that ls(1) card_waiting[of ?w4] assms(2) by (simp add: ready_def links_def del: ready_inv)
    from pst_kept[OF chg_unused[OF this]] show ?thesis by (rule pst_mono) (rule kept_trans[OF k4])
  qed
  then show ?thesis using w3(1) k4
    by (simp add: ts_not_initialized_oml_ready_def ts_setup_lchans_def)
qed

lemma ready_state: "cell_inv b w \<Longrightarrow> 8 \<le> k \<Longrightarrow> ts_state w \<noteq> TS_ST_NOT_INITIALIZED \<Longrightarrow> ready b k w"
  using card_waiting[of w] by (simp add: ready_def links_state del: ready_inv)

lemma go_not_initialized:
  assumes "ts_inv ((w_ts w)\<lparr> ts_fi := Some \<lparr> tf_state = TS_ST_NOT_INITIALIZED, tf_T = None \<rparr> \<rparr>)"
    "ts_state w = TS_ST_NOT_INITIALIZED \<Longrightarrow> ts_inv (w_ts w)" "sound_ts b (w_ts w)"
  shows "pst b (ts_go_not_initialized x w) (\<lambda>w'. kept b w w' \<and>
    is_oml_ready (w_ts w') = is_oml_ready (w_ts w) \<and> ts_state w' = TS_ST_NOT_INITIALIZED)"
proof (cases "ts_state w = TS_ST_NOT_INITIALIZED")
  case True
  then show ?thesis using assms(2,3) by (simp add: ts_go_not_initialized_def cell_inv_def)
next
  case False
  have "TS_ST_NOT_INITIALIZED \<in> set (ts_out_states (ts_state w))" using False by (cases "ts_state w") auto
  then show ?thesis using False assms(1,3)
    by (simp add: ts_go_not_initialized_def ts_chg_not_initialized_def ts_chg_def fsm_contract_state_chg[OF engine]
        ts_out_state_mask_bit kept_def cell_inv_def osmo_assert_def)
      (simp add: set_ts_state_def sound_ts_def tidy_def)
qed

text \<open>A link goes down: the flag is cleared and the machine goes to NOT_INITIALIZED.\<close>

lemma link_down:
  assumes "cell_inv b w" "w1 = upd_ts (\<lambda>ts. ts\<lparr> is_oml_ready := False \<rparr>) w \<or> w1 = upd_ts (\<lambda>ts. ts\<lparr> is_rsl_ready := False \<rparr>) w"
  shows "pst b (ts_go_not_initialized x w1) (\<lambda>w'. kept b w w' \<and>
    is_oml_ready (w_ts w') = is_oml_ready (w_ts w1) \<and> ts_state w' = TS_ST_NOT_INITIALIZED)"
proof -
  have "pst b (ts_go_not_initialized x w1) (\<lambda>w'. kept b w1 w' \<and>
      is_oml_ready (w_ts w') = is_oml_ready (w_ts w1) \<and> ts_state w' = TS_ST_NOT_INITIALIZED)"
    by (rule go_not_initialized; use assms(2) in \<open>elim disjE\<close>)
      (use assms(1) in \<open>simp_all add: cell_inv_def ts_inv_def sound_ts_def ts_state_def\<close>)
  then show ?thesis by (rule pst_mono) (use assms(2) in \<open>auto simp: kept_def tidy_def\<close>)
qed

lemma oml_down:
  assumes "cell_inv b w" "8 \<le> k"
  shows "pst b (ts_fsm_allstate x TS_EV_OML_DOWN w) (kept b w)"
proof -
  let ?w1 = "upd_ts (\<lambda>ts. ts\<lparr> is_oml_ready := False \<rparr>) w"
  let ?I = "\<lambda>w'. kept b w w' \<and> card (waiting_set w') \<le> k \<and> \<not> is_oml_ready (w_ts w')"
  let ?f = "\<lambda>w. upd_ts (\<lambda>ts. ts\<lparr> pchan_is := GSM_PCHAN_NONE, pchan_on_init := GSM_PCHAN_NONE \<rparr>) w"
  have f: "kept b w (?f w3)" if i3: "?I w3" for w3
  proof -
    have "ts_state w3 = TS_ST_NOT_INITIALIZED" using i3 links_state[of b w3] by (auto simp: links_def kept_def)
    then show ?thesis using i3 by (auto simp: kept_def cell_inv_def ts_inv_def sound_ts_def ts_state_def tidy_def)
  qed
  have t: "pst b (ts_terminate_lchan_fsms x w2) ?I" if "?I w2" for w2
    unfolding ts_terminate_lchan_fsms_def
  proof (rule pst_each_potential_lchan)
    fix i w3 assume "lchan_iter_cond (w_ts w3) i (w_on_init w3)" "?I w3"
    then show "pst b (lo_term x i w3) ?I"
      by (intro pst_mono[OF terminate[of w3 i]]) (auto simp: kept_def intro: iter_alloc tidy_trans)
  qed (rule that)
  have "pst b (ts_go_not_initialized x ?w1) ?I"
    by (rule pst_mono[OF link_down[OF assms(1)]]) (use card_waiting assms(2) order_trans in \<open>auto\<close>)
  then have "pst b (rbind (ts_go_not_initialized x ?w1) (\<lambda>w. rbind (ts_terminate_lchan_fsms x w) (\<lambda>w. Ok (?f w)))) (kept b w)"
    unfolding pst_rbind by (rule pst_mono) (rule pst_mono[OF t], use f in auto)
  then show ?thesis by (simp add: ts_fsm_allstate_def)
qed

lemma rsl_down:
  assumes "cell_inv b w" "8 \<le> k"
  shows "pst b (ts_fsm_allstate x TS_EV_RSL_DOWN w) (kept b w)"
proof -
  let ?w1 = "upd_ts (\<lambda>ts. ts\<lparr> is_rsl_ready := False \<rparr>) w"
  let ?f = "\<lambda>w. upd_ts (\<lambda>ts. ts\<lparr> pchan_is := GSM_PCHAN_NONE \<rparr>) w"
  have f: "kept b w (?f w2)" if "kept b w w2" for w2
    using that by (auto simp: kept_def cell_inv_def ts_inv_def sound_ts_def tidy_def)
  have t: "pst b (ts_lchans_dispatch x None LCHAN_EV_TS_ERROR w3) (kept b w)" if "kept b w w3" for w3
    unfolding ts_lchans_dispatch_def
  proof (rule pst_each_potential_lchan)
    fix i w' assume w': "lchan_iter_cond (w_ts w') i (w_on_init w')" "kept b w w'"
    then have i: "cell_inv b w'" "alloc w' i" using iter_alloc by (auto simp: kept_def)
    show "pst b (if case None of None \<Rightarrow> False | Some q \<Rightarrow> \<not> lchan_state_is (w_lchan w' i) q
        then Ok w' else lchan_dispatch x i LCHAN_EV_TS_ERROR w') (kept b w)"
      using pst_mono[OF pst_kept[OF dispatch_error[OF i(1) _ i(2)]] kept_trans[OF w'(2)]] card_waiting[of w'] assms(2)
      by simp
  qed (rule that)
  have "pst b (ts_go_not_initialized x ?w1) (kept b w)"
    by (rule pst_mono[OF link_down[OF assms(1)]]) auto
  then have "pst b (rbind (ts_go_not_initialized x ?w1) (\<lambda>w. ts_lchans_dispatch x None LCHAN_EV_TS_ERROR (?f w))) (kept b w)"
    unfolding pst_rbind by (rule pst_mono) (intro t f)
  then show ?thesis by (simp add: ts_fsm_allstate_def rbind_Ok_right)
qed

lemma dyn_state:
  "cell_inv b w \<Longrightarrow> ts_state w \<in> {TS_ST_WAIT_PDCH_ACT, TS_ST_PDCH, TS_ST_WAIT_PDCH_DEACT} \<Longrightarrow> dyn_pchan (w_on_init w)"
  by (auto simp: cell_inv_def ts_inv_def ts_state_def)

lemma chg_pdch:
  assumes "ready b k w" "dyn_pchan (w_on_init w)"
  shows "pst b (ts_chg_pdch x w) (good b w)"
  unfolding ts_chg_pdch_def
proof (rule pst_chg[OF engine assms(1)])
  fix w1 assume g1: "good b w w1"
  let ?w2 = "emit Pcu_info_update (upd_ts (\<lambda>ts. ts\<lparr> pchan_is := GSM_PCHAN_PDCH \<rparr>) w1)"
  have d: "dyn_pchan (w_on_init w1)" using assms(2) good_on_init[OF g1] by simp
  have r1: "ready b k w1" by (rule ready_good[OF assms(1) g1])
  have g2: "good b w1 ?w2" using r1 by simp
  have "pst b (ts_fsm_pdch_deact x ?w2) (good b w1)"
    by (rule pst_upd[OF g2 pdch_deact[OF ready_good[OF r1 g2]]]) (use d in simp)
  then show "pst b (ts_fsm_pdch_onenter x w1) (good b w1)"
    using g2 d by (auto simp: ts_fsm_pdch_onenter_def Let_def dyn_pchan_def)
qed (use assms(2) in auto)

lemma act_nack:
  assumes "ready b k w"
  shows "pst b (ts_fsm_wait_pdch_act x TS_EV_PDCH_ACT_NACK d w) (good b w)"
proof -
  let ?w = "\<lambda>e. upd_ts (\<lambda>ts. ts\<lparr> pdch_act_allowed := False \<rparr>) (emit e w)"
  have g: "good b w (?w e)" for e using assms by simp
  have "pst b (ts_fsm_error x TS_ST_UNUSED (ts_chg_unused x) m (?w e)) (good b w)" for m e
    by (rule pst_upd[OF g error_to[OF ready_good[OF assms g]]]) (rule chg_unused)
  then show ?thesis by (simp add: ts_fsm_wait_pdch_act_def)
qed

lemma deact_ack:
  assumes "ready b k w"
  shows "pst b (ts_pdch_deact_ack x p w) (good b w)"
proof -
  let ?w = "upd_ts (\<lambda>ts. ts\<lparr> pchan_is := p \<rparr>) w"
  have g: "good b w ?w" using assms by simp
  have "pst b (ts_chg_in_use x ?w) (good b w)" by (rule pst_upd[OF g chg_in_use[OF ready_good[OF assms g]]])
  then show ?thesis by (auto simp: ts_pdch_deact_ack_def pst_rbind elim: pst_mono)
qed

lemma wait_pdch_deact:
  assumes "ready b k w" "dyn_pchan (w_on_init w)" "ev = TS_EV_PDCH_DEACT_ACK \<or> ev = TS_EV_PDCH_DEACT_NACK"
  shows "pst b (ts_fsm_wait_pdch_deact x ev d w) (good b w)"
proof -
  have "good b w (emit e w)" for e using assms(1) by simp
  then have "pst b (ts_error_borken x m (emit e w)) (good b w)" for m e
    by (rule pst_upd) (rule error_borken, use ready_good[OF assms(1), of "emit e w"] assms(1) in simp)
  then show ?thesis using assms(2,3) deact_ack[OF assms(1)] error_borken[OF assms(1)]
    by (auto simp: ts_fsm_wait_pdch_deact_def dyn_pchan_def)
qed

lemma ts_event:
  assumes "cell_inv b w" "8 \<le> k" "ev \<noteq> TS_EV_LCHAN_REQUESTED"
  shows "pst b (ts_dispatch x ev d w) (kept b w)"
proof -
  have c: "card (waiting_set w) \<le> k" using card_waiting[of w] assms(2) by simp
  note r = ready_state[OF assms(1,2)] and dyn = dyn_state[OF assms(1)]
  have ni: "pst b (ts_fsm_not_initialized x ev d w) (kept b w)"
    if "ts_state w = TS_ST_NOT_INITIALIZED" "ev = TS_EV_OML_READY \<or> ev = TS_EV_RSL_READY"
    using that oml_ready[OF assms(1,2)] pst_kept[OF rsl_ready[OF assms(1) c]]
    by (auto simp: ts_fsm_not_initialized_def)
  have wa: "pst b (ts_fsm_wait_pdch_act x ev d w) (kept b w)"
    if "ts_state w = TS_ST_WAIT_PDCH_ACT" "ev = TS_EV_PDCH_ACT_ACK \<or> ev = TS_EV_PDCH_ACT_NACK"
    using that pst_kept[OF chg_pdch[OF r dyn]] pst_kept[OF act_nack[OF r]]
    by (auto simp: ts_fsm_wait_pdch_act_def simp del: steps.simps)
  have wd: "pst b (ts_fsm_wait_pdch_deact x ev d w) (kept b w)"
    if "ts_state w = TS_ST_WAIT_PDCH_DEACT" "ev = TS_EV_PDCH_DEACT_ACK \<or> ev = TS_EV_PDCH_DEACT_NACK"
    by (rule pst_kept[OF wait_pdch_deact[OF r dyn]]) (use that in auto)
  have un: "pst b (ts_dispatch x TS_EV_LCHAN_UNUSED d w) (kept b w)"
    by (rule pst_kept[OF lchan_unused[OF assms(1) c]])
  show ?thesis
  proof (cases "ev = TS_EV_LCHAN_UNUSED \<or> ev = TS_EV_OML_DOWN \<or> ev = TS_EV_RSL_DOWN")
    case True
    then show ?thesis using un oml_down[OF assms(1,2)] rsl_down[OF assms(1,2)]
      by (auto simp: ts_dispatch_eq[OF engine])
  next
    case False
    then show ?thesis using assms(1,3) ni wa wd
      by (cases "ts_state w") (auto simp: ts_dispatch_eq[OF engine])
  qed
qed

lemma ts_timer:
  assumes "cell_inv b w" "8 \<le> k" "tf_T (the (ts_fi (w_ts w))) \<noteq> None"
  shows "pst b (ts_fsm_timer_cb x w) (kept b w)"
proof -
  have "ts_state w = TS_ST_WAIT_PDCH_ACT \<or> ts_state w = TS_ST_WAIT_PDCH_DEACT"
    using assms(1,3) by (auto simp: cell_inv_def ts_inv_def ts_state_def)
  then show ?thesis using pst_kept[OF error_borken[OF ready_state[OF assms(1,2)]]]
    by (auto simp: ts_fsm_timer_cb_def)
qed

end

end
