(* ===== verification/Cell_Machines.thy ===== *)
theory Cell_Machines
  imports Ts_Events
begin

text \<open>
  The timeslot machine and its lchan machines tied together, for any engine that keeps its contract
  and any machines above that keep the cell's invariant (\<open>cell_machines\<close>).  The two interfaces
  \<open>ts_client\<close> and \<open>lchan_requester\<close> hold for the tied machines, so every input of a cell is handled
  without a failed assertion and within the bound on nested dispatches.  The runs of a cell are the
  inductive predicate \<open>cell_reach\<close>.
\<close>

section \<open>What the machines above promise\<close>

text \<open>
  A call to the assignment, handover, connection or RTP machine keeps the invariant of the timeslot
  and what nested calls keep (\<open>good\<close>); it may fail when some lchan is orphaned, and not otherwise,
  and then it orphans no lchan of this timeslot.
\<close>

definition up_contract :: "cell_env \<Rightarrow> bool" where
  "up_contract c \<longleftrightarrow> (\<forall>b w u i. cell_inv b w \<longrightarrow> alloc w i \<longrightarrow> pst b (c_up c u i w) (good b w))"

locale cell_machines =
  fixes b :: bool and c :: cell_env
  assumes c_engine: "fsm_contract (c_eng c)" and c_upper: "up_contract c"
begin

lemma lchan_clientI:
  assumes "\<And>w d. cell_inv b w \<Longrightarrow> card (waiting_set w) \<le> k \<Longrightarrow> pst b (td TS_EV_LCHAN_UNUSED d w) (good b w)"
  shows "lchan_client b (lchan_env_of c td) k"
  using assms c_engine c_upper by unfold_locales (auto simp: lchan_env_of_def up_contract_def)

lemma answer_from_client:
  assumes "lchan_client b (lchan_env_of c (ts_disp n c)) k" "cell_inv b w" "card (waiting_set w) \<le> Suc k" "waiting w i"
    "ev = LCHAN_EV_TS_READY \<or> ev = LCHAN_EV_TS_ERROR"
  shows "pst b (lc_disp (Suc n) c i ev No_data w) (\<lambda>w'. good b w w' \<and> \<not> waiting w' i)"
proof -
  have "i \<in> waiting_set w" using assms(4) by (simp add: waiting_set_def)
  then have "card (waiting_set w - {i}) \<le> k" using assms(3) by simp
  then have l: "lchan_client.lok b k i w"
    using assms(2,4) by (simp add: lchan_client.lok_def[OF assms(1)] waiting_def)
  show ?thesis
    using assms(5) lchan_client.ready_event[OF assms(1) l assms(4)] lchan_client.error_event[OF assms(1) l] by auto
qed

lemma unused_depth:
  assumes "2 * k < n" "cell_inv b w" "card (waiting_set w) \<le> k"
  shows "pst b (ts_disp n c TS_EV_LCHAN_UNUSED d w) (good b w)"
  using assms
proof (induction k arbitrary: n w d)
  case 0
  then obtain m where n: "n = Suc m" by (cases n) auto
  have "waiting_lchans b (ts_env_of c (lc_disp m c) (lc_term m c)) 0"
  proof
    fix w i assume "card (waiting_set w) \<le> 0" "waiting w i"
    moreover from this have "waiting_set w = {}" by simp
    ultimately have False by (simp add: waiting_set_def)
    then show "pst b (lo_dispatch (ts_env_of c (lc_disp m c) (lc_term m c)) i ev No_data w)
        (\<lambda>w'. good b w w' \<and> \<not> waiting w' i)" for ev ..
  qed (simp add: ts_env_of_def c_engine)
  then show ?case using waiting_lchans.lchan_unused 0 n by fastforce
next
  case (Suc k)
  then obtain m where n: "n = Suc (Suc m)" and m: "2 * k < m" by (cases n; cases "n - 1") auto
  have cl: "lchan_client b (lchan_env_of c (ts_disp m c)) k"
    by (rule lchan_clientI) (rule Suc.IH[OF m])
  have "waiting_lchans b (ts_env_of c (lc_disp (Suc m) c) (lc_term (Suc m) c)) (Suc k)"
    by unfold_locales (auto simp: ts_env_of_def c_engine simp del: lc_disp.simps intro: answer_from_client[OF cl])
  then show ?case using waiting_lchans.lchan_unused Suc.prems n by fastforce
qed

lemma client: "2 * k < n \<Longrightarrow> lchan_client b (lchan_env_of c (ts_disp n c)) k"
  by (rule lchan_clientI) (rule unused_depth)

lemma ts_clientI:
  assumes "2 * k + 1 < n"
  shows "ts_client b (ts_env_of c (lc_disp n c) (lc_term n c)) k"
proof -
  obtain m where n: "n = Suc m" and m: "2 * k < m" using assms by (cases n) auto
  note cl = client[OF m]
  have l: "lchan_client.lok b k i w" if "cell_inv b w" "card (waiting_set w) \<le> k" "alloc w i" for w i
    using that card_mono[of "waiting_set w" "waiting_set w - {i}"] by (auto simp: lchan_client.lok_def[OF cl])
  show ?thesis
  proof (unfold_locales, goal_cases)
    case 1 then show ?case by (simp add: ts_env_of_def c_engine)
  next
    case (2 w i ev)
    have "lchan_client.lok b k i w" using l 2 by (auto simp: waiting_def)
    then show ?case
      using 2(4) lchan_client.ready_event[OF cl _ 2(3)] lchan_client.error_event[OF cl] by (auto simp: ts_env_of_def n)
  next
    case (3 w i)
    then show ?case using lchan_client.error_event[OF cl l[OF 3]] by (simp add: ts_env_of_def n)
  next
    case (4 w i)
    have "pst b (rbind (lchan_fsm_cleanup (lchan_env_of c (ts_disp m c)) i w) (ts_disp m c TS_EV_LCHAN_UNUSED (Some i)))
        (\<lambda>w'. cell_inv b w' \<and> tidy w w' \<and> card (waiting_set w') \<le> k \<and> \<not> is_oml_ready (w_ts w'))"
      unfolding pst_rbind
    proof (rule pst_mono[OF lchan_client.cleanup[OF cl l[OF 4(1-3)] 4(4)]])
      fix w1 assume w1: "cell_inv b w1 \<and> tidy w w1 \<and> \<not> is_oml_ready (w_ts w1) \<and> waiting_set w1 \<subseteq> waiting_set w"
      then have c1: "card (waiting_set w1) \<le> k" using card_mono[of "waiting_set w" "waiting_set w1"] 4(2) by auto
      show "pst b (ts_disp m c TS_EV_LCHAN_UNUSED (Some i) w1)
          (\<lambda>w'. cell_inv b w' \<and> tidy w w' \<and> card (waiting_set w') \<le> k \<and> \<not> is_oml_ready (w_ts w'))"
        by (rule pst_mono[OF unused_depth[OF m _ c1]])
          (use w1 c1 good_card[of b w1] in \<open>auto simp: good_def cell_frame_def intro: tidy_trans order_trans\<close>)
    qed
    then show ?case by (simp add: ts_env_of_def n fsm_contract_term[OF c_engine])
  qed
qed

lemma requesterI:
  assumes "18 < n"
  shows "lchan_requester b (lchan_env_of c (ts_disp n c)) 8"
proof (rule lchan_requester.intro[OF client], goal_cases)
  case 1
  show ?case using assms by simp
next
  case 2
  obtain m where n: "n = Suc m" and m: "2 * 8 + 1 < m" using assms by (cases n) auto
  have "pst b (ts_disp n c TS_EV_LCHAN_REQUESTED (Some i) w) (good b w)" if "cell_inv b w" "waiting w i" for w i
    using ts_client.lchan_requested[OF ts_clientI[OF m] that(1) card_waiting that(2)] by (simp add: n)
  then show ?case by (intro lchan_requester_axioms.intro) (simp_all add: lchan_env_of_def)
qed

lemma cell_ts_client: "ts_client b (cell_ts_env c) 8"
  unfolding cell_ts_env_def by (rule ts_clientI) (simp add: NEST_def)

lemma cell_requester: "lchan_requester b (cell_lchan_env c) 8"
  unfolding cell_lchan_env_def by (rule requesterI) (simp add: NEST_def)

end

sublocale cell_machines \<subseteq> ts: ts_client b "cell_ts_env c" 8
  by (rule cell_ts_client)

sublocale cell_machines \<subseteq> lc: lchan_requester b "cell_lchan_env c" 8
  by (rule cell_requester)

section \<open>Inputs of a cell\<close>

text \<open>
  The inputs that come.  \<open>TS_EV_LCHAN_REQUESTED\<close> is sent by the lchan machine only, inside an activation.
  A timer expires when it runs.  Activation, release, radio events and timers concern lchans that
  have their machine; \<open>LCHAN_EV_ACTIVATE\<close> is sent by \<^verbatim>\<open>lchan_activate\<close> only, and the RLL release events
  carry a link identifier (\<open>data_ok\<close>).  What the callers of \<^verbatim>\<open>lchan_activate\<close> see to is \<open>info_ok\<close>.
\<close>

fun input_ok :: "cell_input \<Rightarrow> ts_world \<Rightarrow> bool" where
  "input_ok (In_ts ev) w \<longleftrightarrow> ev \<noteq> TS_EV_LCHAN_REQUESTED"
| "input_ok In_ts_timer w \<longleftrightarrow> tf_T (the (ts_fi (w_ts w))) \<noteq> None"
| "input_ok (In_activate i info) w \<longleftrightarrow> alloc w i \<and> info_ok info"
| "input_ok (In_release i rr err cause) w \<longleftrightarrow> alloc w i"
| "input_ok (In_lchan i ev d) w \<longleftrightarrow> alloc w i \<and> data_ok ev d"
| "input_ok (In_lchan_timer i) w \<longleftrightarrow> alloc w i"

text \<open>The invariant of a cell between two inputs: no unused lchan has a connection or an endpoint.\<close>

definition cell_ok :: "ts_world \<Rightarrow> bool" where
  "cell_ok w \<longleftrightarrow> cell_inv True w \<and> (\<forall>i < TS_MAX_LCHAN. \<not> dirty (w_lchan w i))"

lemma cell_ok_kept: "cell_ok w \<Longrightarrow> kept b w w' \<Longrightarrow> cell_ok w'"
  by (auto simp: cell_ok_def kept_def tidy_def intro: cell_inv_weaken)

context cell_machines
begin

lemma step_kept:
  assumes "cell_inv b w" "cell_ok w" "input_ok inp w"
  shows "pst b (cell_step c inp w) (kept True w)"
proof -
  have k: "kept True w w'" if "kept b w w'" for w' using that by (auto simp: kept_def intro: cell_inv_weaken)
  show ?thesis
  proof (cases inp)
    case (In_ts ev)
    then show ?thesis using assms by (auto intro: pst_mono[OF ts.ts_event k])
  next
    case In_ts_timer
    then show ?thesis using assms by (auto intro: pst_mono[OF ts.ts_timer k])
  next
    case (In_activate i info)
    then show ?thesis using assms pst_mono[OF lc.activate[of w i info], of "kept True w"]
      by (auto simp: cell_ok_def kept_def alloc_def)
  next
    case (In_release i rr err cause)
    then show ?thesis using assms pst_mono[OF lc.release[OF lc.lokI] kept_good] by auto
  next
    case (In_lchan i ev d)
    then show ?thesis using assms pst_mono[OF lc.event[OF lc.lokI] kept_good] by auto
  next
    case (In_lchan_timer i)
    then show ?thesis using assms pst_mono[OF lc.timer[OF lc.lokI] kept_good] by auto
  qed
qed

lemma step_ok:
  assumes "cell_inv b w" "cell_ok w" "input_ok inp w"
  shows "pst b (cell_step c inp w) cell_ok"
  by (rule pst_mono[OF step_kept[OF assms] cell_ok_kept[OF assms(2)]])

end

section \<open>Runs of a cell\<close>

text \<open>
  A cell starts as allocated by \<^verbatim>\<open>gsm_bts_trx_alloc\<close>.  The operator may change the configured
  physical channel and the GPRS mode at any time.  \<^verbatim>\<open>lchan_select_by_type\<close> sets the type of an unused
  lchan (\<open>select\<close>).  The connections and the RTP machine attach themselves to lchans in use (\<open>attach\<close>:
  \<^verbatim>\<open>gscon_change_primary_lchan\<close>, \<^verbatim>\<open>gsm0408_rcvmsg\<close>, \<^verbatim>\<open>lchan_rtp_fsm.c\<close>) and a connection that goes away
  makes any lchan forget it (\<open>forget\<close>: \<^verbatim>\<open>lchan_forget_conn\<close>).
\<close>

definition fresh_world :: "nat \<Rightarrow> bts_gprs_mode \<Rightarrow> bool \<Rightarrow> ts_world" where
  "fresh_world n m nokia = \<lparr> w_ts = alloc_ts n, w_gprs_mode = m, w_nokia_no_loc_rel_cnf = nokia, w_out = [] \<rparr>"

definition select_lchan :: "nat \<Rightarrow> gsm_chan_t \<Rightarrow> ts_world \<Rightarrow> ts_world" where
  "select_lchan i t = upd_lchan i (\<lambda>l. l\<lparr> lc_type := t \<rparr>)"

inductive cell_reach :: "cell_env \<Rightarrow> ts_world \<Rightarrow> bool" for c where
  start: "cell_reach c (fresh_world n m nokia)"
| config: "cell_reach c w \<Longrightarrow> cell_reach c (upd_ts (\<lambda>ts. ts\<lparr> pchan_from_config := p \<rparr>) w)"
| gprs_mode: "cell_reach c w \<Longrightarrow> cell_reach c (w\<lparr> w_gprs_mode := m \<rparr>)"
| select: "cell_reach c w \<Longrightarrow> lchan_state_is (w_lchan w i) LCHAN_ST_UNUSED \<Longrightarrow> cell_reach c (select_lchan i t w)"
| attach: "cell_reach c w \<Longrightarrow> \<not> lchan_state_is (w_lchan w i) LCHAN_ST_UNUSED \<Longrightarrow>
    cell_reach c (upd_lchan i (\<lambda>l. l\<lparr> lc_conn := cn, mgw_endpoint_ci_bts := ci, fi_rtp := rtp, sapis := (sapis l)[s := v] \<rparr>) w)"
| forget: "cell_reach c w \<Longrightarrow> cell_reach c (lchan_forget_conn i w)"
| input: "cell_reach c w \<Longrightarrow> input_ok inp w \<Longrightarrow> cell_step c inp w = Ok w' \<Longrightarrow> cell_reach c w'"

lemma fresh_ok: "cell_ok (fresh_world n m nokia)"
  by (auto simp: cell_ok_def cell_inv_def ts_inv_def sound_ts_def dirty_def fresh_world_def alloc_ts_def zero_lchan_def)

lemma upd_lchan_ok:
  assumes "cell_ok w" "\<And>l. lc_nr (f l) = lc_nr l \<and> lc_fi (f l) = lc_fi l \<and> length (sapis (f l)) = length (sapis l)"
    "dirty (f (w_lchan w i)) \<Longrightarrow> dirty (w_lchan w i)"
  shows "cell_ok (upd_lchan i f w)"
proof -
  have "good True w (upd_lchan i f w)"
    using assms by (intro good_upd_lchan) (auto simp: cell_ok_def)
  from cell_ok_kept[OF assms(1) kept_good[OF this]] show ?thesis .
qed

context cell_machines
begin

lemma reach_input: "b \<Longrightarrow> cell_ok w \<Longrightarrow> input_ok inp w \<Longrightarrow> cell_step c inp w = Ok w' \<Longrightarrow> cell_ok w'"
  using step_ok[of w inp] by (auto simp: cell_ok_def)

end

lemma reach_ok:
  assumes "fsm_contract (c_eng c)" "up_contract c" "cell_reach c w"
  shows "cell_ok w"
  using assms(3)
proof (induction rule: cell_reach.induct)
  case (start n m nokia)
  show ?case by (rule fresh_ok)
next
  case (config w p)
  then show ?case by (simp add: cell_ok_def cell_inv_def ts_inv_def sound_ts_def)
next
  case (gprs_mode w m)
  then show ?case by (simp add: cell_ok_def cell_inv_def)
next
  case (select w i t)
  then show ?case unfolding select_lchan_def by (intro upd_lchan_ok) (auto simp: dirty_def lchan_state_is_def)
next
  case (attach w i cn ci rtp s v)
  then show ?case by (intro upd_lchan_ok) (auto simp: dirty_def lchan_state_is_def)
next
  case (forget w i)
  then show ?case unfolding lchan_forget_conn_def by (intro upd_lchan_ok) (auto simp: dirty_def)
next
  case (input w inp w')
  then show ?case using cell_machines.reach_input[OF cell_machines.intro[OF assms(1,2)], of True] by simp
qed

lemma reach_step:
  assumes "fsm_contract (c_eng c)" "up_contract c" "cell_reach c w" "input_ok inp w"
  shows "(\<exists>w'. cell_step c inp w = Ok w' \<and> cell_ok w') \<or>
    (cell_step c inp w = Abort \<and> (\<exists>i < TS_MAX_LCHAN. orphaned (w_lchan w i)))"
proof -
  note ok = reach_ok[OF assms(1-3)] and m = cell_machines.intro[OF assms(1,2)]
  have "length (lchans (w_ts w)) = TS_MAX_LCHAN" "cell_inv True w" using ok by (auto simp: cell_ok_def cell_inv_def ts_inv_def)
  then have "cell_inv False w \<or> (\<exists>i < TS_MAX_LCHAN. orphaned (w_lchan w i))" by (auto simp: cell_inv_def sound_nth)
  moreover have "pst True (cell_step c inp w) cell_ok"
    by (rule cell_machines.step_ok[OF m]) (use ok assms(4) in \<open>auto simp: cell_ok_def\<close>)
  moreover have "pst False (cell_step c inp w) cell_ok" if "cell_inv False w"
    by (rule cell_machines.step_ok[OF m that ok assms(4)])
  ultimately show ?thesis by (cases "cell_step c inp w") auto
qed

text \<open>
  An environment in which the machines above only record that they were called, the links accept
  every message and every connection has an assignment to lchan 0 going on.
\<close>

definition example_queries :: lchan_queries where
  "example_queries = \<lparr> q_conn_fi = (\<lambda>_ _. True), q_assignment_fi = (\<lambda>_ _. True),
     q_assignment_new_lchan = (\<lambda>_ _. Some 0), q_ho_fi = (\<lambda>_ _. False), q_ho_new_lchan = (\<lambda>_ _. None),
     q_ho_async = (\<lambda>_ _. False), q_ho_ref = (\<lambda>_ _. 0), q_rtp_established = (\<lambda>_ _. False),
     q_old_lchan = (\<lambda>_ _. (False, 0, 0, 0)), q_ms_max_pwr_lvl = 15, q_sc_cfg_ok = (\<lambda>_. True),
     q_mr_config = (\<lambda>_ _ _. Some ([1, 32], [1, 32])) \<rparr>"

definition example_cell :: cell_env where
  "example_cell = \<lparr> c_eng = example_engine, c_send = (\<lambda>_ _. 0),
     c_up = (\<lambda>u i w. Ok (emit (Ctr_inc ''upcall'') w)), c_q = example_queries \<rparr>"

interpretation recording: cell_machines b example_cell for b
  by unfold_locales (simp_all add: example_cell_def up_contract_def example_engine_contract)

end
