(* ===== verification/Cell_Runs.thy ===== *)
theory Cell_Runs
  imports Cell_Machines
begin

text \<open>
  Concrete runs of a timeslot with its lchans.  \<open>cell_run\<close> executes inputs and selections of lchans and
  checks that each may come, so that it ends in a reachable state.  The simplification rules
  \<open>cell_eval\<close> evaluate runs; the congruence rules keep the simplifier from looking into a continuation
  before the step in front of it has returned.
\<close>

section \<open>Runs\<close>

datatype cell_act = Input cell_input | Select nat gsm_chan_t

fun act_step :: "cell_env \<Rightarrow> cell_act \<Rightarrow> ts_world \<Rightarrow> ts_world res" where
  "act_step c (Input inp) w = cell_step c inp w"
| "act_step c (Select i t) w = Ok (select_lchan i t w)"

fun act_ok :: "cell_act \<Rightarrow> ts_world \<Rightarrow> bool" where
  "act_ok (Input inp) w = input_ok inp w"
| "act_ok (Select i t) w = lchan_state_is (w_lchan w i) LCHAN_ST_UNUSED"

fun cell_run :: "cell_env \<Rightarrow> cell_act list \<Rightarrow> ts_world \<Rightarrow> ts_world res" where
  "cell_run c [] w = Ok w"
| "cell_run c (a # acts) w = (if act_ok a w then rbind (act_step c a w) (cell_run c acts) else Abort)"

definition configured :: "gsm_phys_chan_config \<Rightarrow> bts_gprs_mode \<Rightarrow> ts_world" where
  "configured p m = upd_ts (\<lambda>ts. ts\<lparr> pchan_from_config := p \<rparr>) (fresh_world 0 m False)"

lemma configured_reach: "cell_reach c (configured p m)"
  unfolding configured_def by (intro cell_reach.config cell_reach.start)

lemma cell_run_reach: "cell_reach c w \<Longrightarrow> cell_run c acts w = Ok w' \<Longrightarrow> cell_reach c w'"
proof (induction acts arbitrary: w)
  case (Cons a acts)
  then obtain w1 where w1: "act_ok a w" "act_step c a w = Ok w1" "cell_run c acts w1 = Ok w'"
    by (auto split: if_splits)
  then have "cell_reach c w1"
    using Cons.prems(1) by (cases a) (auto intro: cell_reach.input cell_reach.select)
  then show ?case using w1(3) by (rule Cons.IH)
qed simp

section \<open>Evaluation\<close>

lemmas cell_eval_defs =
    is_lchan_sane_def lchan_dispatch_def ts_lchans_waiting_def ts_chg_def ts_fsm_error_def ts_setup_lchans_def
    rsl_tx_dyn_ts_pdch_act_deact_def ts_fsm_wait_pdch_act_onenter_def ts_fsm_wait_pdch_deact_onenter_def
    lchan_chg_cbch_def ts_try_pdch_act_def ts_fsm_unused_onenter_def ts_fsm_pdch_onenter_def in_use_check_def
    ts_fsm_in_use_onenter_def ts_fsm_not_initialized_def ts_fsm_unused_def ts_fsm_wait_pdch_act_def
    ts_fsm_pdch_def ts_fsm_wait_pdch_deact_def ts_fsm_in_use_def ts_fsm_borken_def ts_fsm_allstate_def
    ts_fsm_timer_cb_def ts_dispatch_def l_tx_def l_tx_ign_def lchan_set_last_error_def
    lchan_on_activation_failure_def lchan_chg_def lchan_fail_to_def lchan_forget_conn_def active_sapis_def
    lchan_active_sapis_def lchan_fsm_wait_rll_rtp_released_onenter_def lchan_fail_def lchan_release_err_def
    lchan_release_def lchan_on_fully_established_def lchan_fsm_established_onenter_def
    lchan_fsm_wait_rll_rtp_establish_onenter_def lchan_act_type_def lchan_fsm_wait_activ_ack_onenter_def
    lchan_init_power_def lchan_init_amr_def lchan_fsm_wait_ts_ready_onenter_def lchan_fsm_unused_def
    lchan_rtp_failed_def lchan_fsm_wait_ts_ready_def lchan_report_active_def lchan_fsm_post_activ_ack_def
    lchan_activ_nack_def lchan_fsm_wait_activ_ack_def lchan_fsm_wait_rll_rtp_establish_def
    handle_rll_rel_ind_or_conf_def lchan_fsm_established_def lchan_fsm_wait_rll_rtp_released_def
    lchan_fsm_wait_rf_release_ack_def lchan_fsm_borken_def lchan_fsm_allstate_action_def
    lchan_fsm_timer_cb_def lchan_fsm_dispatch_def lchan_may_activate_def lchan_activate_def
lemmas cell_eval_eta =
    ts_lchans_dispatch_def[THEN fun_cong] ts_terminate_lchan_fsms_def[THEN fun_cong]
    ts_error_borken_def[THEN fun_cong] ts_fsm_err_ready_to_go_in_pdch_def[THEN fun_cong]
    ts_fsm_pdch_deact_def[THEN fun_cong] ts_reserve_cbch_def[THEN fun_cong] ts_chg_unused_def[THEN fun_cong]
    ts_chg_in_use_def[THEN fun_cong] ts_chg_pdch_def[THEN fun_cong] ts_chg_not_initialized_def[THEN fun_cong]
    ts_not_initialized_oml_ready_def[THEN fun_cong] ts_not_initialized_rsl_ready_def[THEN fun_cong]
    ts_pdch_deact_ack_def[THEN fun_cong] ts_go_not_initialized_def[THEN fun_cong]
    lchan_reset_def[THEN fun_cong] lchan_fsm_unused_onenter_def[THEN fun_cong]
    lchan_chg_unused_def[THEN fun_cong] lchan_fsm_borken_onenter_def[THEN fun_cong]
    lchan_chg_borken_def[THEN fun_cong] lchan_chg_wait_after_error_def[THEN fun_cong]
    lchan_fsm_wait_rf_release_ack_onenter_def[THEN fun_cong] lchan_chg_wait_rf_release_ack_def[THEN fun_cong]
    lchan_chg_wait_before_rf_release_def[THEN fun_cong] lchan_do_release_def[THEN fun_cong]
    lchan_chg_wait_rll_rtp_released_def[THEN fun_cong] lchan_error_chg_def[THEN fun_cong]
    lchan_chg_established_def[THEN fun_cong] lchan_chg_wait_rll_rtp_establish_def[THEN fun_cong]
    lchan_chg_wait_activ_ack_def[THEN fun_cong] lchan_chg_wait_ts_ready_def[THEN fun_cong]
    lchan_fsm_cleanup_def[THEN fun_cong]

lemma nest_eval:
  "ts_disp (numeral k) c ev d w = ts_dispatch (ts_env_of c (lc_disp (pred_numeral k) c) (lc_term (pred_numeral k) c)) ev d w"
  "lc_disp (numeral k) c i ev' d' w =
     rbind (lchan_fsm_dispatch (lchan_env_of c (ts_disp (pred_numeral k) c)) i ev' d' w) (\<lambda>(rc, w). Ok w)"
  "lc_term (numeral k) c i w = fsm_term (c_eng c) (lchan_fsm_cleanup (lchan_env_of c (ts_disp (pred_numeral k) c)) i)
       (ts_disp (pred_numeral k) c TS_EV_LCHAN_UNUSED (Some i)) w"
  by (simp_all add: numeral_eq_Suc)

lemma each_eval:
  "each_lchan_from (numeral k) i p body w =
     (if lchan_iter_cond (w_ts w) i (p (w_ts w))
      then rbind (body i w) (each_lchan_from (pred_numeral k) (Suc i) p body)
      else Ok w)"
  "in_use_scan x (numeral k) i act w =
     (if lchan_iter_cond (w_ts w) i (w_on_init w)
      then rbind (in_use_check x i act w) (\<lambda>(act, w). in_use_scan x (pred_numeral k) (Suc i) act w)
      else Ok (act, w))"
  by (simp_all add: numeral_eq_Suc)

lemma engine_eval:
  "fsm_state_chg (c_eng example_cell) om n enter s = (if bit om n then enter s else Ok s)"
  "fsm_dispatch (c_eng example_cell) am im ev aact act s =
     (if bit am ev then rbind (aact s) (\<lambda>s'. Ok (0, s')) else if bit im ev then rbind (act s) (\<lambda>s'. Ok (0, s')) else Ok (-1, s))"
  "c_send example_cell m w = 0" "c_up example_cell u i w = Ok (emit (Ctr_inc ''upcall'') w)"
  "c_q example_cell = example_queries"
  by (simp_all add: example_cell_def example_engine_def)

lemma upto_eight: "[0..<8] = [0, 1, 2, 3, 4, 5, 6, 7]"
  by code_simp

lemma each_of_eight: "(\<forall>i < TS_MAX_LCHAN. P i) \<longleftrightarrow> P 0 \<and> P 1 \<and> P 2 \<and> P 3 \<and> P 4 \<and> P 5 \<and> P 6 \<and> P 7"
  by (simp add: TS_MAX_LCHAN_def numeral_eq_Suc All_less_Suc conj_ac)

lemmas cell_eval = cell_eval_defs cell_eval_eta nest_eval each_eval engine_eval fsm_simps
  cell_lchan_env_def cell_ts_env_def NEST_def ts_env_of_def lchan_env_of_def TS_MAX_LCHAN_def
  each_potential_lchan_def[THEN fun_cong, THEN fun_cong] emit_def upd_ts_def upd_lchan_def ts_state_def
  lchan_state_def lc_state_def set_ts_state_def set_lchan_state_def tx_rsl_def lchan_fsm_alloc_def
  osmo_assert_def lchan_iter_cond_def lchan_state_is_def zero_lchan_def example_queries_def
  T_CHAN_ACT_DEACT_def LCHAN_SAPI_UNUSED_def Let_def upto_eight select_lchan_def
  ts_for_each_potential_lchan_def ts_as_pchan_for_each_lchan_def ts_is_capable_of_lchant_def
  alloc_def data_ok_def info_ok_def no_info_def fresh_world_def alloc_ts_def configured_def

lemma rbind_weak: "m = m' \<Longrightarrow> rbind m f = rbind m' f"
  by simp

lemma steps_weak: "s = s' \<Longrightarrow> steps fs s = steps fs s'"
  by simp

lemma for_each_weak: "xs = xs' \<Longrightarrow> s = s' \<Longrightarrow> for_each xs f s = for_each xs' f s'"
  by simp

lemma each_lchan_weak: "k = k' \<Longrightarrow> i = i' \<Longrightarrow> w = w' \<Longrightarrow> each_lchan_from k i p f w = each_lchan_from k' i' p f w'"
  by simp

lemma fsm_state_chg_weak:
  "e = e' \<Longrightarrow> om = om' \<Longrightarrow> s = s' \<Longrightarrow> fsm_state_chg e om n f s = fsm_state_chg e' om' n f s'"
  by simp

lemma fsm_dispatch_weak:
  "e = e' \<Longrightarrow> im = im' \<Longrightarrow> s = s' \<Longrightarrow> fsm_dispatch e am im ev f g s = fsm_dispatch e' am im' ev f g s'"
  by simp

lemmas cell_eval_cong = rbind_weak steps_weak for_each_weak each_lchan_weak fsm_state_chg_weak fsm_dispatch_weak

section \<open>An assignment on a dynamic timeslot\<close>

text \<open>
  The timeslot comes up and becomes a PDCH; lchan 0 is selected as TCH/F and activated, with the AMR
  codec, for the assignment of connection 7.  The timeslot first gives up the PDCH
  (\<open>pdch_deact_world\<close>); then the channel is activated (\<open>activ_world\<close>) and, after its acknowledgement
  and the establishment of the radio link, in use (\<open>established_world\<close>).  When the assignment is
  given up before the acknowledgement, the lchan is released (\<open>orphan_world\<close>).
\<close>

definition assignment_info :: lchan_activate_info where
  "assignment_info = no_info\<lparr> activ_for := FOR_ASSIGNMENT, for_conn := Some 7, ai_chan_mode := GSM48_CMODE_SPEECH_AMR \<rparr>"

definition dyn_run :: "cell_act list \<Rightarrow> ts_world res" where
  "dyn_run acts = cell_run example_cell
     ([Input (In_ts TS_EV_OML_READY), Input (In_ts TS_EV_RSL_READY), Input (In_ts TS_EV_PDCH_ACT_ACK),
       Select 0 GSM_LCHAN_TCH_F, Input (In_activate 0 assignment_info)] @ acts)
     (configured GSM_PCHAN_TCH_F_PDCH BTS_GPRS_GPRS)"

definition pdch_deact_world :: ts_world where
  "pdch_deact_world = the_ok (dyn_run [])"

definition activ_world :: ts_world where
  "activ_world = the_ok (dyn_run [Input (In_ts TS_EV_PDCH_DEACT_ACK)])"

definition established_world :: ts_world where
  "established_world = the_ok (dyn_run [Input (In_ts TS_EV_PDCH_DEACT_ACK),
     Input (In_lchan 0 LCHAN_EV_RSL_CHAN_ACTIV_ACK No_data), Input (In_lchan 0 LCHAN_EV_RLL_ESTABLISH_IND No_data)])"

definition orphan_world :: ts_world where
  "orphan_world = the_ok (dyn_run [Input (In_ts TS_EV_PDCH_DEACT_ACK), Input (In_release 0 False True RSL_ERR_EQUIPMENT_FAIL)])"

lemma dyn_run_reach: "dyn_run acts = Ok w \<Longrightarrow> cell_reach example_cell w"
  unfolding dyn_run_def by (rule cell_run_reach[OF configured_reach])

lemma pdch_deact_run:
  "dyn_run [] = Ok pdch_deact_world" "ts_state pdch_deact_world = TS_ST_WAIT_PDCH_DEACT"
  "lchan_state_is (w_lchan pdch_deact_world 1) LCHAN_ST_UNUSED"
  unfolding pdch_deact_world_def dyn_run_def assignment_info_def
  by (simp_all add: cell_eval cong: cell_eval_cong)

lemma activ_run:
  "dyn_run [Input (In_ts TS_EV_PDCH_DEACT_ACK)] = Ok activ_world"
  "lc_fi (w_lchan activ_world 0) = Some \<lparr> lf_state = LCHAN_ST_WAIT_ACTIV_ACK, lf_T = Some 23002 \<rparr>"
  "lc_conn (w_lchan activ_world 0) = Some 7" "\<forall>i < TS_MAX_LCHAN. \<not> orphaned (w_lchan activ_world i)"
  unfolding activ_world_def dyn_run_def assignment_info_def each_of_eight
  by (simp_all add: cell_eval orphaned_def cong: cell_eval_cong)

lemma established_run:
  "dyn_run [Input (In_ts TS_EV_PDCH_DEACT_ACK), Input (In_lchan 0 LCHAN_EV_RSL_CHAN_ACTIV_ACK No_data),
     Input (In_lchan 0 LCHAN_EV_RLL_ESTABLISH_IND No_data)] = Ok established_world"
  "lchan_state established_world 0 = LCHAN_ST_ESTABLISHED" "ts_state established_world = TS_ST_IN_USE"
  unfolding established_world_def dyn_run_def assignment_info_def
  by (simp_all add: cell_eval cong: cell_eval_cong)

lemma orphan_run:
  "dyn_run [Input (In_ts TS_EV_PDCH_DEACT_ACK), Input (In_release 0 False True RSL_ERR_EQUIPMENT_FAIL)] = Ok orphan_world"
  "lchan_state orphan_world 0 = LCHAN_ST_WAIT_RF_RELEASE_ACK" "orphaned (w_lchan orphan_world 0)" "alloc orphan_world 0"
  unfolding orphan_world_def dyn_run_def assignment_info_def
  by (simp_all add: cell_eval orphaned_def cong: cell_eval_cong)

end
