(* ===== verification/Cell_Props.thy ===== *)
theory Cell_Props
  imports Cell_Runs
begin

text \<open>
  The properties of a timeslot with its lchans: safety of every step, the invariant of the
  reachable states, the switch of dynamic timeslots, and the cases in which the code does not do
  what its comments say.
\<close>

section \<open>Safety and invariant\<close>



text \<open>Property C2. In every reachable state: a timeslot is past NOT_INITIALIZED only with both links ready;
  the PDCH states occur only on dynamic timeslots; the timeslot has a timer exactly while it waits
  for a PDCH answer; with OML ready every subslot of the configured channel has its lchan machine;
  and an unused lchan has neither a connection nor an MGW endpoint, as its next activation asserts.\<close>

theorem cell_state_invariant:
  assumes "fsm_contract (c_eng c)" "up_contract c" "cell_reach c w"
  shows "(ts_state w \<noteq> TS_ST_NOT_INITIALIZED \<longrightarrow> is_oml_ready (w_ts w) \<and> is_rsl_ready (w_ts w)) \<and>
    (ts_state w \<in> {TS_ST_WAIT_PDCH_ACT, TS_ST_PDCH, TS_ST_WAIT_PDCH_DEACT} \<longrightarrow>
       w_on_init w = GSM_PCHAN_TCH_F_TCH_H_PDCH \<or> w_on_init w = GSM_PCHAN_TCH_F_PDCH) \<and>
    (tf_T (the (ts_fi (w_ts w))) \<noteq> None \<longleftrightarrow> ts_state w \<in> {TS_ST_WAIT_PDCH_ACT, TS_ST_WAIT_PDCH_DEACT}) \<and>
    (is_oml_ready (w_ts w) \<longrightarrow> (\<forall>j < pchan_subslots (w_on_init w). lc_fi (w_lchan w j) \<noteq> None)) \<and>
    (\<forall>j < TS_MAX_LCHAN. lchan_state_is (w_lchan w j) LCHAN_ST_UNUSED \<longrightarrow>
       lc_conn (w_lchan w j) = None \<and> mgw_endpoint_ci_bts (w_lchan w j) = None)"
  using reach_ok[OF assms]
  unfolding cell_ok_def cell_inv_def ts_inv_def ts_state_def dyn_pchan_def dirty_def by blast

text \<open>The timeslot that gives up its PDCH for the lchan of the assignment has its timer.\<close>

theorem cell_state_invariant_witness:
  "ts_state pdch_deact_world = TS_ST_WAIT_PDCH_DEACT \<and> tf_T (the (ts_fi (w_ts pdch_deact_world))) \<noteq> None \<and>
   is_rsl_ready (w_ts pdch_deact_world) \<and> lc_conn (w_lchan pdch_deact_world 1) = None"
proof -
  from cell_state_invariant[OF recording.c_engine recording.c_upper dyn_run_reach[OF pdch_deact_run(1)]] pdch_deact_run(2,3)
  show ?thesis by (simp add: TS_MAX_LCHAN_def)
qed

text \<open>Property C3. No lchan waits without a timer: in every reachable state the timer of an lchan is the one its
  state has in the table \<^verbatim>\<open>lchan_fsm_timeouts\<close>, and an lchan without a timer is unused, established,
  reserved for CBCH or broken, so that none waits for an answer forever.\<close>

theorem cell_waiting_has_timer:
  assumes "fsm_contract (c_eng c)" "up_contract c" "cell_reach c w" "i < TS_MAX_LCHAN"
    "lc_fi (w_lchan w i) = Some f"
  shows "lf_T f = lchan_fsm_timeouts (lf_state f) \<and>
    (lf_T f = None \<longrightarrow> lf_state f \<in> {LCHAN_ST_UNUSED, LCHAN_ST_CBCH, LCHAN_ST_ESTABLISHED, LCHAN_ST_BORKEN})"
proof -
  have "lchan_timer_ok (lc_fi (w_lchan w i))"
    using reach_ok[OF assms(1-3)] assms(4) by (simp add: cell_ok_def cell_inv_def ts_inv_def)
  then have "lf_T f = lchan_fsm_timeouts (lf_state f)" by (simp add: assms(5) lchan_timer_ok_def)
  then show ?thesis by (cases "lf_state f") auto
qed

text \<open>The lchan of the assignment waits for the acknowledgement of its activation with timer X23002.\<close>

theorem cell_waiting_has_timer_witness:
  "lchan_state activ_world 0 = LCHAN_ST_WAIT_ACTIV_ACK \<and> lf_T (the (lc_fi (w_lchan activ_world 0))) = Some 23002"
proof -
  from cell_waiting_has_timer[OF recording.c_engine recording.c_upper dyn_run_reach[OF activ_run(1)] _ activ_run(2)] activ_run(2)
  show ?thesis by (simp add: TS_MAX_LCHAN_def lchan_state_def lc_state_def)
qed

section \<open>Orphaned lchans\<close>

text \<open>
  An orphaned lchan crashes the program: when the release of its channel is not acknowledged in time,
  \<^verbatim>\<open>lchan_fail\<close> reports the failure of the activation to \<^verbatim>\<open>lchan->conn->assignment.fi\<close> although
  WAIT_RF_RELEASE_ACK has cleared the connection.
\<close>

lemma orphaned_timeout_aborts:
  assumes "lchan_state w i = LCHAN_ST_WAIT_RF_RELEASE_ACK" "alloc w i" "i < length (lchans (w_ts w))" "orphaned (w_lchan w i)"
  shows "lchan_fsm_timer_cb y i w = Abort"
proof -
  have "\<not> lchan_state_is (w_lchan w i) LCHAN_ST_WAIT_TS_READY"
    using assms(1,2) by (auto simp: lchan_state_is_def alloc_def lchan_state_def lc_state_def)
  then show ?thesis using assms
    by (simp add: lchan_fsm_timer_cb_def lchan_fail_def lchan_fail_to_def lchan_on_activation_failure_def orphaned_def
        lchan_set_last_error_def w_lchan_upd)
qed

text \<open>After the RSL link of a working TCH/F timeslot was lost and came back while OML stayed up,
  the timeslot is offered again (state UNUSED, both links ready), but its physical channel is still
  NONE, so that every request of an lchan of the configured type is rejected as insane.\<close>

lemma rsl_restart_rejects_lchans:
  "case cell_run example_cell [Input (In_ts TS_EV_OML_READY), Input (In_ts TS_EV_RSL_READY), Input (In_ts TS_EV_RSL_DOWN), Input (In_ts TS_EV_RSL_READY)]
     (configured GSM_PCHAN_TCH_F BTS_GPRS_NONE) of
   Ok w \<Rightarrow> ts_state w = TS_ST_UNUSED \<and> w_is w = GSM_PCHAN_NONE \<and> is_oml_ready (w_ts w) \<and> is_rsl_ready (w_ts w) \<and>
     is_lchan_sane (w_ts w) ((w_lchan w 0)\<lparr> lc_type := GSM_LCHAN_TCH_F \<rparr>) = LCHAN_IS_INSANE
   | Abort \<Rightarrow> False | Deep \<Rightarrow> False"
  by code_simp

section \<open>Single steps\<close>

text \<open>A request for an lchan in PDCH mode that needs the channel switched: the deactivation of the
  PDCH is sent and, unless sending fails, the timeslot waits for the answer with its timer set.\<close>

lemma pdch_request_switches:
  assumes "fsm_contract (eng x)" "ts_state w = TS_ST_PDCH"
    "is_lchan_sane (w_ts w) (w_lchan w i) = LCHAN_NEEDS_PCHAN_CHANGE"
    "abis_rsl_sendmsg x (if w_on_init w = GSM_PCHAN_TCH_F_PDCH then Ipacc_pdch False (ts_nr (w_ts w))
        else Osmocom_pdch False (ts_nr (w_ts w))) (set_ts_state TS_ST_WAIT_PDCH_DEACT (Some T_CHAN_ACT_DEACT) w) = 0"
  shows "ts_dispatch x TS_EV_LCHAN_REQUESTED (Some i) w =
    Ok (emit (Tx_rsl (if w_on_init w = GSM_PCHAN_TCH_F_PDCH then Ipacc_pdch False (ts_nr (w_ts w))
        else Osmocom_pdch False (ts_nr (w_ts w))))
      (set_ts_state TS_ST_WAIT_PDCH_DEACT (Some T_CHAN_ACT_DEACT) w))"
proof -
  have dyn: "w_on_init w = GSM_PCHAN_TCH_F_TCH_H_PDCH \<or> w_on_init w = GSM_PCHAN_TCH_F_PDCH"
    using assms(3) by (cases "w_on_init w") (auto simp: is_lchan_sane_def split: if_splits)
  have "ts_nr (w_ts (set_ts_state st T w)) = ts_nr (w_ts w)" "w_on_init (set_ts_state st T w) = w_on_init w" for st T
    by (simp_all add: set_ts_state_def upd_ts_def)
  with dyn assms show ?thesis
    by (auto simp: ts_dispatch_eq ts_fsm_pdch_def ts_fsm_pdch_deact_def ts_chg_def fsm_contract_state_chg fsm_simps
        ts_fsm_wait_pdch_deact_onenter_def rsl_tx_dyn_ts_pdch_act_deact_def tx_rsl_def)
qed

text \<open>A dynamic timeslot in PDCH mode with one lchan waiting for a TCH/F.\<close>

definition pdch_world :: ts_world where
  "pdch_world = upd_lchan 0 (\<lambda>l. l\<lparr> lc_type := GSM_LCHAN_TCH_F,
       lc_fi := Some \<lparr> lf_state = LCHAN_ST_WAIT_TS_READY, lf_T = Some 23001 \<rparr> \<rparr>)
     (upd_ts (\<lambda>ts. ts\<lparr> pchan_on_init := GSM_PCHAN_TCH_F_PDCH, pchan_is := GSM_PCHAN_PDCH,
         ts_fi := Some \<lparr> tf_state = TS_ST_PDCH, tf_T = None \<rparr> \<rparr>)
       (fresh_world 4 BTS_GPRS_EGPRS False))"

lemma pdch_world_lchan [simp]:
  "w_lchan pdch_world 0 = (zero_lchan 0 None None)\<lparr> lc_type := GSM_LCHAN_TCH_F,
       lc_fi := Some \<lparr> lf_state = LCHAN_ST_WAIT_TS_READY, lf_T = Some 23001 \<rparr> \<rparr>"
  "w_lchan pdch_world (Suc 0) = zero_lchan 1 None None" "length (lchans (w_ts pdch_world)) = 8"
  by (simp_all add: pdch_world_def fresh_world_def alloc_ts_def upd_lchan_def upd_ts_def TS_MAX_LCHAN_def)

lemma pdch_world_ts [simp]:
  "ts_state pdch_world = TS_ST_PDCH" "w_on_init pdch_world = GSM_PCHAN_TCH_F_PDCH" "ts_nr (w_ts pdch_world) = 4"
  "w_is pdch_world = GSM_PCHAN_PDCH"
  by (simp_all add: pdch_world_def fresh_world_def alloc_ts_def upd_lchan_def upd_ts_def ts_state_def)

text \<open>A request that reaches a timeslot which is not initialized is not answered with an error: the
  code sends \<^verbatim>\<open>LCHAN_EV_TS_ERROR\<close> to the timeslot's own machine, where its number means
  \<^verbatim>\<open>TS_EV_RSL_READY\<close>, so that the request has the effect of the RSL link coming up.\<close>

lemma request_before_init_is_rsl_ready:
  assumes "fsm_contract (eng x)" "ts_state w = TS_ST_NOT_INITIALIZED" "lc_fi (w_lchan w i) \<noteq> None"
  shows "ts_dispatch x TS_EV_LCHAN_REQUESTED (Some i) w = ts_dispatch x TS_EV_RSL_READY None w"
proof -
  have *: "rbind (rbind m (\<lambda>s'. Ok (0, s'))) (\<lambda>(rc, w). Ok w) = m" for m :: "ts_world res"
    by (cases m) simp_all
  show ?thesis using assms
    by (auto simp: ts_dispatch_eq[OF assms(1)] ts_fsm_not_initialized_def fsm_contract_dispatch[OF assms(1)]
      ts_error_is_rsl_ready fsm_simps *)
qed

text \<open>A channel activation acknowledged after the lchan was declared broken is not released: the
  transition to WAIT_RF_RELEASE_ACK is not permitted from BORKEN, no release is sent and the lchan
  stays broken.\<close>

lemma late_ack_stays_borken:
  assumes "fsm_contract (l_eng y)" "lchan_state w i = LCHAN_ST_BORKEN" "i < length (lchans (w_ts w))"
  shows "\<exists>w'. lchan_fsm_dispatch y i LCHAN_EV_RSL_CHAN_ACTIV_ACK d w = Ok (0, w') \<and>
    lchan_state w' i = LCHAN_ST_BORKEN \<and> w_out w' = w_out w"
  using assms
  by (auto simp: lchan_fsm_dispatch_eq lchan_fsm_borken_def lchan_chg_wait_rf_release_ack_def lchan_chg_def
      fsm_contract_state_chg fsm_simps lchan_state_def lc_state_def upd_lchan_def upd_ts_def)

text \<open>An activation for an assignment without a connection is refused by dereferencing the null
  pointer: the guard of \<^verbatim>\<open>lchan_activate\<close> jumps to the failure report, which reads
  \<^verbatim>\<open>for_conn->assignment\<close>.\<close>

lemma assignment_without_conn_aborts:
  assumes "activ_for info = FOR_ASSIGNMENT" "for_conn info = None" "lchan_state_is (w_lchan w i) LCHAN_ST_UNUSED"
    "\<not> concluded (w_lchan w i)"
  shows "lchan_activate y i info w = Abort"
  using assms by (simp add: lchan_activate_def lchan_on_activation_failure_def lchan_may_activate_def Let_def)

end
