(* ===== verification/Gsm_Data_Props.thy ===== *)
theory Gsm_Data_Props
  imports Gsm_Data
begin

unbundle bit_operations_syntax

text \<open>
  Properties of the data model, \<^verbatim>\<open>gsm_data.c\<close>: channel numbers, dependencies between base stations,
  the radio link timeout, the list of local neighbors.
\<close>

section \<open>Channel numbers\<close>

lemma take_bit_word_less:
  fixes x :: "'a::len word"
  assumes "unat x < 2 ^ k"
  shows "take_bit k x = x"
  using assms by (simp add: word_unat_eq_iff unsigned_take_bit_eq take_bit_nat_eq_self_iff)

lemma chan_nr_split:
  fixes c t :: u8
  assumes "c < 32" "t < 8"
  shows "drop_bit 3 (push_bit 3 c OR (t AND 7)) = c" "(push_bit 3 c OR (t AND 7)) AND 7 = t"
proof -
  have m: "(7::u8) = mask 3" by (simp add: mask_eq_exp_minus_1)
  have t: "t AND 7 = t" using assms(2) unfolding m take_bit_eq_mask[symmetric] by (intro take_bit_word_less) (simp add: word_less_nat_alt)
  have c: "take_bit 5 c = c" using assms(1) by (intro take_bit_word_less) (simp add: word_less_nat_alt)
  have cb: "k < 5" if "bit c k" for k using c that bit_take_bit_iff[of 5 c k] by simp
  have tb: "k < 3" if "bit t k" for k using t[unfolded m] that bit_and_iff[of t "mask 3" k] by (simp add: bit_mask_iff)
  show "drop_bit 3 (push_bit 3 c OR (t AND 7)) = c" unfolding t
    by (rule bit_word_eqI) (auto simp: bit_simps dest: cb tb)
  show "(push_bit 3 c OR (t AND 7)) AND 7 = t" unfolding t unfolding m
    by (rule bit_word_eqI) (auto simp: bit_simps dest: tb)
qed

definition dedicated :: "gsm_phys_chan_config \<Rightarrow> bool" where
  "dedicated p \<longleftrightarrow> p \<in> {GSM_PCHAN_TCH_F, GSM_PCHAN_TCH_H, GSM_PCHAN_CCCH_SDCCH4,
     GSM_PCHAN_CCCH_SDCCH4_CBCH, GSM_PCHAN_SDCCH8_SACCH8C, GSM_PCHAN_SDCCH8_SACCH8C_CBCH}"

lemma sub8: "n < pchan_subslots p \<Longrightarrow> n \<in> {0, 1, 2, 3, 4, 5, 6, 7}"
  by (cases p) auto

lemma cbits_less:
  assumes "dedicated p" "n < pchan_subslots p"
  shows "\<exists>c. pchan_cbits pdch p n = Some c \<and> c < 32"
  using assms(1) sub8[OF assms(2)] assms(2) unfolding dedicated_def insert_iff empty_iff
  by (elim disjE) (simp_all add: pchan_cbits_def)

lemma capable_cbch:
  "pchan_capable q GSM_PCHAN_CCCH_SDCCH4_CBCH \<Longrightarrow> pchan_capable q GSM_PCHAN_CCCH_SDCCH4"
  "pchan_capable q GSM_PCHAN_SDCCH8_SACCH8C_CBCH \<Longrightarrow> pchan_capable q GSM_PCHAN_SDCCH8_SACCH8C"
  by (cases q; simp)+

lemma lookup_cbits:
  assumes "dedicated p" "n < pchan_subslots p" "pchan_capable (pchan_on_init (trx_ts trx ! unat (cn AND 7))) p"
    "pchan_cbits pdch p n = Some (drop_bit 3 cn)"
  shows "rsl_lchan_lookup pdch nr_mask trx cn = Some ((unat (cn AND 7), n), 0)"
proof -
  define c where "c = drop_bit 3 cn"
  show ?thesis
    using assms(1) sub8[OF assms(2)] assms(2-4) unfolding dedicated_def insert_iff empty_iff rsl_lchan_lookup_def c_def[symmetric]
    apply (elim disjE)
    by (auto simp: pchan_cbits_def ts_is_capable_of_pchan_def Let_def dest: capable_cbch)
qed

text \<open>Property C26. The channel number of an lchan leads back to it: for every physical channel with dedicated
  lchans and each of its subslots, the number that \<^verbatim>\<open>gsm_pchan2chan_nr\<close> computes is found by
  \<^verbatim>\<open>rsl_lchan_lookup\<close> at the same timeslot and lchan, without an error when the timeslot is configured
  as that channel.\<close>

theorem chan_nr_roundtrip:
  assumes "dedicated p" "n < pchan_subslots p" "tsn < 8" "pchan_capable (pchan_on_init (trx_ts trx ! tsn)) p"
  shows "\<exists>cn. gsm_pchan2chan_nr pdch p (of_nat tsn) n = Some cn \<and>
    rsl_lchan_lookup pdch nr_mask trx cn = Some ((tsn, n), 0)"
proof -
  obtain c where c: "pchan_cbits pdch p n = Some c" "c < 32" using cbits_less[OF assms(1,2)] by blast
  have t: "(of_nat tsn :: u8) < 8" "unat (of_nat tsn :: u8) = tsn" using assms(3) by (simp_all add: word_less_nat_alt unat_of_nat)
  note s = chan_nr_split[OF c(2) t(1)]
  show ?thesis using lookup_cbits[OF assms(1,2), of trx "push_bit 3 c OR (of_nat tsn AND 7)" pdch] assms(4) c(1) s t(2)
    by (simp add: gsm_pchan2chan_nr_def)
qed

definition example_trx :: gsm_bts_trx where
  "example_trx = \<lparr> trx_nr = 0, trx_mo = \<lparr> operational = NM_OPSTATE_ENABLED, availability = NM_AVSTATE_OK \<rparr>,
     bb_transc_mo = \<lparr> operational = NM_OPSTATE_ENABLED, availability = NM_AVSTATE_OK \<rparr>, trx_arfcn = 871,
     trx_ts = map (\<lambda>k. (alloc_ts k)\<lparr> pchan_on_init := GSM_PCHAN_SDCCH8_SACCH8C \<rparr>) [0..<8] \<rparr>"

theorem chan_nr_roundtrip_witness:
  "\<exists>cn. gsm_pchan2chan_nr 0xc0 GSM_PCHAN_SDCCH8_SACCH8C (of_nat 6) 5 = Some cn \<and>
     rsl_lchan_lookup 0xc0 0xf8 example_trx cn = Some ((6, 5), 0)"
  by (rule chan_nr_roundtrip) (simp_all add: dedicated_def example_trx_def)

section \<open>Dependencies\<close>

text \<open>The bit array is a set of numbers of base stations.\<close>

definition dep_set :: "gsm_bts \<Rightarrow> nat set" where
  "dep_set bts = {n. n < 256 \<and> bit (depends_on bts ! (n div 32)) (n mod 32)}"

definition dep_ok :: "gsm_bts \<Rightarrow> bool" where
  "dep_ok bts \<longleftrightarrow> length (depends_on bts) = 8"

lemma and_push_bit_pos: "b < 32 \<Longrightarrow> (0 < w AND (2 ^ b :: u32)) \<longleftrightarrow> bit w b"
proof -
  assume b: "b < 32"
  have "w AND push_bit b 1 = (if bit w b then push_bit b 1 else 0)"
    by (rule bit_word_eqI) (auto simp: bit_simps)
  moreover have "(push_bit b 1 :: u32) \<noteq> 0" using b by simp
  ultimately show ?thesis by (simp add: word_gt_0 push_bit_of_1)
qed

locale bit_set =
  fixes abs :: "'s \<Rightarrow> nat set" and ok :: "'s \<Rightarrow> bool" and mark clear :: "'s \<Rightarrow> nat \<Rightarrow> 's option"
  assumes mark_law: "ok s \<Longrightarrow> n < 256 \<Longrightarrow> \<exists>s'. mark s n = Some s' \<and> ok s' \<and> abs s' = insert n (abs s)"
    and clear_law: "ok s \<Longrightarrow> n < 256 \<Longrightarrow> \<exists>s'. clear s n = Some s' \<and> ok s' \<and> abs s' = abs s - {n}"
begin

lemma mark_clear:
  assumes "ok s" "n < 256" "n \<notin> abs s"
  shows "\<exists>s1 s2. mark s n = Some s1 \<and> clear s1 n = Some s2 \<and> ok s2 \<and> abs s2 = abs s"
proof -
  obtain s1 where s1: "mark s n = Some s1" "ok s1" "abs s1 = insert n (abs s)" using mark_law[OF assms(1,2)] by blast
  obtain s2 where s2: "clear s1 n = Some s2" "ok s2" "abs s2 = abs s1 - {n}" using clear_law[OF s1(2) assms(2)] by blast
  show ?thesis using s1 s2 assms(3) by auto
qed

lemma mark_all:
  assumes "ok s" "\<forall>n \<in> set ns. n < 256"
  shows "\<exists>s'. fold (\<lambda>n s. s \<bind> (\<lambda>s. mark s n)) ns (Some s) = Some s' \<and> ok s' \<and> abs s' = set ns \<union> abs s"
  using assms
proof (induction ns arbitrary: s)
  case Nil
  then show ?case by simp
next
  case (Cons n ns)
  then obtain s1 where s1: "mark s n = Some s1" "ok s1" "abs s1 = insert n (abs s)"
    using mark_law[OF Cons.prems(1), of n] by auto
  have "\<exists>s'. fold (\<lambda>n s. s \<bind> (\<lambda>s. mark s n)) ns (Some s1) = Some s' \<and> ok s' \<and> abs s' = set ns \<union> abs s1"
    using Cons.prems by (intro Cons.IH[OF s1(2)]) simp
  then show ?case using s1 by auto
qed

end

lemma depend_update:
  assumes "dep_ok bts" "n < 256"
  shows "n div 32 < 8" "dep_ok (bts\<lparr> depends_on := (depends_on bts)[n div 32 := v] \<rparr>)"
    "m \<in> dep_set (bts\<lparr> depends_on := (depends_on bts)[n div 32 := v] \<rparr>) \<longleftrightarrow>
       m < 256 \<and> (if m div 32 = n div 32 then bit v (m mod 32) else m \<in> dep_set bts)"
  using assms by (auto simp: dep_ok_def dep_set_def nth_list_update)

lemma div_mod_inj: "(m::nat) div 32 = n div 32 \<Longrightarrow> m mod 32 = n mod 32 \<longleftrightarrow> m = n"
  by (metis div_mult_mod_eq)

interpretation dep: bit_set dep_set dep_ok bts_depend_mark bts_depend_clear
proof
  fix bts n assume a: "dep_ok bts" "n < (256::nat)"
  let ?w = "depends_on bts ! (n div 32)" and ?b = "n mod 32"
  have l: "n div 32 < length (depends_on bts)" using a by (simp add: dep_ok_def depend_update)
  show "\<exists>s'. bts_depend_mark bts n = Some s' \<and> dep_ok s' \<and> dep_set s' = insert n (dep_set bts)"
    using l depend_update[OF a] a(2)
    by (auto simp: bts_depend_mark_def depends_calc_index_bit_def bit_simps div_mod_inj dep_set_def)
  show "\<exists>s'. bts_depend_clear bts n = Some s' \<and> dep_ok s' \<and> dep_set s' = dep_set bts - {n}"
    using l depend_update[OF a] a(2)
    by (auto simp: bts_depend_clear_def depends_calc_index_bit_def bit_simps div_mod_inj dep_set_def)
qed

lemma is_dependency_set:
  assumes "dep_ok bts"
  shows "bts_depend_is_depedency bts other = Some (unat (bts_nr other) \<in> dep_set bts)"
proof -
  let ?n = "unat (bts_nr other)"
  have n: "?n < 256" by (rule order_less_le_trans[OF unsigned_less]) simp
  have "?n div 32 < length (depends_on bts)" using assms depend_update(1)[OF assms n] by (simp add: dep_ok_def)
  then show ?thesis
    using n by (simp add: bts_depend_is_depedency_def depends_calc_index_bit_def and_push_bit_pos dep_set_def)
qed

text \<open>The dependency bit array of a BTS behaves as a set of BTS numbers: marking and clearing a number
  below 256 stays inside the array and inserts or removes exactly that number, and the membership
  test of another BTS reads it.\<close>

lemma depend_refines_set:
  assumes "dep_ok bts" "n < 256"
  shows "(\<exists>b'. bts_depend_mark bts n = Some b' \<and> dep_ok b' \<and>
      (\<forall>other. bts_depend_is_depedency b' other = Some (unat (bts_nr other) \<in> insert n (dep_set bts)))) \<and>
    (\<exists>b'. bts_depend_clear bts n = Some b' \<and> dep_ok b' \<and>
      (\<forall>other. bts_depend_is_depedency b' other = Some (unat (bts_nr other) \<in> dep_set bts - {n})))"
  using dep.mark_law[OF assms] dep.clear_law[OF assms] by (auto simp: is_dependency_set)

text \<open>A BTS may start exactly when every base station it depends on is online: after any sequence of
  \<^verbatim>\<open>depends-on-bts\<close> commands, the check over the network's list succeeds if and only if each listed BTS
  whose number was named is online.\<close>

lemma depend_check_correct:
  assumes "dep_ok bts" "dep_set bts = {}" "\<forall>n \<in> set ns. n < 256"
  shows "\<exists>b'. fold (\<lambda>n b. b \<bind> (\<lambda>b. bts_depend_mark b n)) ns (Some bts) = Some b' \<and>
    bts_depend_check b' others = Some (\<forall>other \<in> set others. unat (bts_nr other) \<in> set ns \<longrightarrow> bts_is_online other)"
proof -
  obtain b' where b': "fold (\<lambda>n b. b \<bind> (\<lambda>b. bts_depend_mark b n)) ns (Some bts) = Some b'" "dep_ok b'"
    "dep_set b' = set ns" using dep.mark_all[OF assms(1,3)] assms(2) by auto
  have "bts_depend_check b' others = Some (\<forall>other \<in> set others. unat (bts_nr other) \<in> dep_set b' \<longrightarrow> bts_is_online other)"
    by (induction others) (auto simp: is_dependency_set[OF b'(2)])
  with b' show ?thesis by auto
qed

definition idle_bts :: "u8 \<Rightarrow> gsm_bts" where
  "idle_bts n = \<lparr> bts_nr = n, bts_type = GSM_BTS_TYPE_OSMOBTS, bts_mo = \<lparr> operational = NM_OPSTATE_NULL, availability = NM_AVSTATE_other \<rparr>,
     oml_link = False, gprs_mode = BTS_GPRS_NONE, chan_alloc_reverse = False, location_area_code = 1, cell_identity = 0,
     infinite_radio_link_timeout = False, radio_link_timeout = 7, depends_on = replicate 8 0, local_neighbors = [], trx_list = [] \<rparr>"

lemma idle_bts_dep: "dep_ok (idle_bts n)" "dep_set (idle_bts n) = {}"
proof -
  show "dep_ok (idle_bts n)" by (simp add: dep_ok_def idle_bts_def)
  have "replicate 8 (0::u32) ! (m div 32) = 0" if "m < 256" for m using that by (intro nth_replicate) simp
  then show "dep_set (idle_bts n) = {}" by (auto simp: dep_set_def idle_bts_def)
qed

section \<open>Radio link timeout\<close>

text \<open>The radio link timeout read back after setting it is the value rounded down to a multiple of 4
  and limited to 4..64, or -1 for a negative value, which stands for an infinite timeout; the field
  of 4 bits never overflows.\<close>

lemma radio_link_timeout_roundtrip:
  "gsm_bts_get_radio_link_timeout (gsm_bts_set_radio_link_timeout bts v) =
     (if v < 0 then -1 else 4 * (max 4 (min 64 v) div 4)) \<and>
   (v \<ge> 0 \<longrightarrow> radio_link_timeout (gsm_bts_set_radio_link_timeout bts v) \<in> {0..15})"
proof -
  have "(m div 4 - 1) mod 16 = m div 4 - 1" if "4 \<le> m" "m \<le> 64" for m :: int
    using that by (intro mod_pos_pos_trivial) auto
  then show ?thesis
    by (auto simp: gsm_bts_get_radio_link_timeout_def gsm_bts_set_radio_link_timeout_def Let_def max_def min_def)
qed

section \<open>Local neighbors\<close>

text \<open>The local neighbors of a BTS are a set that never contains the BTS itself: adding returns 1 exactly
  when the neighbor is new, removing returns 1 exactly when it was there, and adding a new neighbor
  and removing it again restores the list.\<close>

lemma local_neighbors_set:
  assumes "distinct (local_neighbors bts)" "bts_nr bts \<notin> set (local_neighbors bts)"
  shows "distinct (local_neighbors (fst (gsm_bts_local_neighbor_add bts n))) \<and>
    bts_nr bts \<notin> set (local_neighbors (fst (gsm_bts_local_neighbor_add bts n))) \<and>
    (snd (gsm_bts_local_neighbor_add bts n) = 1 \<longleftrightarrow> n \<noteq> bts_nr bts \<and> n \<notin> set (local_neighbors bts)) \<and>
    set (local_neighbors (fst (gsm_bts_local_neighbor_del bts n))) = set (local_neighbors bts) - {n} \<and>
    (snd (gsm_bts_local_neighbor_del bts n) = 1 \<longleftrightarrow> n \<in> set (local_neighbors bts)) \<and>
    (snd (gsm_bts_local_neighbor_add bts n) = 1 \<longrightarrow>
       local_neighbors (fst (gsm_bts_local_neighbor_del (fst (gsm_bts_local_neighbor_add bts n)) n)) = local_neighbors bts)"
  using assms by (auto simp: gsm_bts_local_neighbor_add_def gsm_bts_local_neighbor_del_def remove1_append)

end
