(* ===== verification/Lchan_Select.thy ===== *)
theory Lchan_Select
  imports Timeslot_Fsm
begin

text \<open>
  Selection of an lchan, \<^verbatim>\<open>lchan_select.c\<close>.  An lchan of a BTS is named by the position of its TRX
  in the list, the timeslot and its index.  \<^verbatim>\<open>network->dyn_ts_allow_tch_f\<close> is an argument.  The
  properties: what is selected is free and usable for the type asked for, nothing is selected only
  if there is no such lchan, and the timeslot machine accepts a selected lchan.
\<close>

section \<open>Searching\<close>

text \<open>The first result that a search over a list finds.\<close>

primrec first_some :: "('a \<Rightarrow> 'b option) \<Rightarrow> 'a list \<Rightarrow> 'b option" where
  "first_some f [] = None"
| "first_some f (x # xs) = (case f x of None \<Rightarrow> first_some f xs | Some y \<Rightarrow> Some y)"

lemma first_some_None [simp]: "first_some f xs = None \<longleftrightarrow> (\<forall>x \<in> set xs. f x = None)"
  by (induction xs) (auto split: option.splits)

lemma first_some_SomeD: "first_some f xs = Some y \<Longrightarrow> \<exists>x \<in> set xs. f x = Some y"
  by (induction xs) (auto split: option.splits)

text \<open>One round of the loop over the timeslots.\<close>

definition lc_find_ts :: "gsm_bts_type \<Rightarrow> gsm_bts_trx \<Rightarrow> gsm_phys_chan_config \<Rightarrow> gsm_phys_chan_config
    \<Rightarrow> gsm_bts_trx_ts \<Rightarrow> nat option" where
  "lc_find_ts bt trx pchan as_pchan ts =
     (if \<not> ts_is_usable bt trx ts then None
      else if pchan_on_init ts \<noteq> pchan then None
      else if \<not> ts_usable_as_pchan bt trx ts as_pchan then None
      else find (\<lambda>i. lc_state ts i = LCHAN_ST_UNUSED) (ts_as_pchan_for_each_lchan ts as_pchan))"

definition lc_find_trx :: "gsm_bts \<Rightarrow> gsm_bts_trx \<Rightarrow> gsm_phys_chan_config \<Rightarrow> gsm_phys_chan_config
    \<Rightarrow> (nat \<times> nat) option" where
  "lc_find_trx bts trx pchan as_pchan =
     (if \<not> trx_is_usable (bts_type bts) trx then None
      else first_some
             (\<lambda>j. map_option (Pair j) (lc_find_ts (bts_type bts) trx pchan as_pchan (trx_ts trx ! j)))
             (if chan_alloc_reverse bts then rev [0..<8] else [0..<8]))"

definition lc_dyn_find_bts :: "gsm_bts \<Rightarrow> gsm_phys_chan_config \<Rightarrow> gsm_phys_chan_config \<Rightarrow> (nat \<times> nat \<times> nat) option" where
  "lc_dyn_find_bts bts pchan dyn_as_pchan =
     (let trxs = [0..<length (trx_list bts)] in
      first_some
        (\<lambda>t. map_option (Pair t) (lc_find_trx bts (trx_list bts ! t) pchan dyn_as_pchan))
        (if chan_alloc_reverse bts then rev trxs else trxs))"

definition lc_find_bts :: "gsm_bts \<Rightarrow> gsm_phys_chan_config \<Rightarrow> (nat \<times> nat \<times> nat) option" where
  "lc_find_bts bts pchan = lc_dyn_find_bts bts pchan pchan"

section \<open>Selection\<close>

definition or_else :: "'a option \<Rightarrow> 'a option \<Rightarrow> 'a option" where
  "or_else a b = (case a of None \<Rightarrow> b | Some x \<Rightarrow> Some x)"

lemma or_else_None [simp]: "or_else a b = None \<longleftrightarrow> a = None \<and> b = None"
  by (cases a) (simp_all add: or_else_def)

lemma or_else_SomeD: "or_else a b = Some x \<Longrightarrow> a = Some x \<or> b = Some x"
  by (cases a) (simp_all add: or_else_def)

definition lchan_select_find :: "bool \<Rightarrow> gsm_bts \<Rightarrow> gsm_chan_t \<Rightarrow> (nat \<times> nat \<times> nat) option" where
  "lchan_select_find dyn_ts_allow_tch_f bts type =
     (case type of
        GSM_LCHAN_SDCCH \<Rightarrow>
          (let (first, first_cbch, second, second_cbch) =
             (if chan_alloc_reverse bts
              then (GSM_PCHAN_SDCCH8_SACCH8C, GSM_PCHAN_SDCCH8_SACCH8C_CBCH, GSM_PCHAN_CCCH_SDCCH4, GSM_PCHAN_CCCH_SDCCH4_CBCH)
              else (GSM_PCHAN_CCCH_SDCCH4, GSM_PCHAN_CCCH_SDCCH4_CBCH, GSM_PCHAN_SDCCH8_SACCH8C, GSM_PCHAN_SDCCH8_SACCH8C_CBCH))
           in or_else (lc_find_bts bts first) (or_else (lc_find_bts bts first_cbch)
                (or_else (lc_find_bts bts second) (lc_find_bts bts second_cbch))))
      | GSM_LCHAN_TCH_F \<Rightarrow>
          or_else (lc_find_bts bts GSM_PCHAN_TCH_F)
            (or_else (lc_dyn_find_bts bts GSM_PCHAN_TCH_F_PDCH GSM_PCHAN_TCH_F)
               (if dyn_ts_allow_tch_f then lc_dyn_find_bts bts GSM_PCHAN_TCH_F_TCH_H_PDCH GSM_PCHAN_TCH_F else None))
      | GSM_LCHAN_TCH_H \<Rightarrow>
          or_else (lc_find_bts bts GSM_PCHAN_TCH_H) (lc_dyn_find_bts bts GSM_PCHAN_TCH_F_TCH_H_PDCH GSM_PCHAN_TCH_H)
      | _ \<Rightarrow> None)"

definition set_lchan_type :: "nat \<Rightarrow> nat \<Rightarrow> nat \<Rightarrow> gsm_chan_t \<Rightarrow> gsm_bts \<Rightarrow> gsm_bts" where
  "set_lchan_type t j i type bts =
     bts\<lparr> trx_list := (trx_list bts)[t := (trx_list bts ! t)\<lparr> trx_ts := (trx_ts (trx_list bts ! t))[j :=
       (trx_ts (trx_list bts ! t) ! j)\<lparr> lchans := (lchans (trx_ts (trx_list bts ! t) ! j))[i :=
         (lchans (trx_ts (trx_list bts ! t) ! j) ! i)\<lparr> lc_type := type \<rparr>] \<rparr>] \<rparr>] \<rparr>"

definition lchan_select_by_type :: "bool \<Rightarrow> gsm_bts \<Rightarrow> gsm_chan_t \<Rightarrow> gsm_bts \<times> (nat \<times> nat \<times> nat) option" where
  "lchan_select_by_type dyn_ts_allow_tch_f bts type =
     (case lchan_select_find dyn_ts_allow_tch_f bts type of
        None \<Rightarrow> (bts, None)
      | Some (t, j, i) \<Rightarrow> (set_lchan_type t j i type bts, Some (t, j, i)))"

fun chan_mode_lchan_type :: "gsm48_chan_mode \<Rightarrow> channel_rate \<Rightarrow> gsm_chan_t option" where
  "chan_mode_lchan_type GSM48_CMODE_SIGN CH_RATE_SDCCH = Some GSM_LCHAN_SDCCH"
| "chan_mode_lchan_type GSM48_CMODE_SIGN CH_RATE_HALF = Some GSM_LCHAN_TCH_H"
| "chan_mode_lchan_type GSM48_CMODE_SIGN CH_RATE_FULL = Some GSM_LCHAN_TCH_F"
| "chan_mode_lchan_type GSM48_CMODE_SPEECH_EFR CH_RATE_FULL = Some GSM_LCHAN_TCH_F"
| "chan_mode_lchan_type GSM48_CMODE_SPEECH_V1 CH_RATE_HALF = Some GSM_LCHAN_TCH_H"
| "chan_mode_lchan_type GSM48_CMODE_SPEECH_V1 CH_RATE_FULL = Some GSM_LCHAN_TCH_F"
| "chan_mode_lchan_type GSM48_CMODE_SPEECH_AMR CH_RATE_HALF = Some GSM_LCHAN_TCH_H"
| "chan_mode_lchan_type GSM48_CMODE_SPEECH_AMR CH_RATE_FULL = Some GSM_LCHAN_TCH_F"
| "chan_mode_lchan_type _ _ = None"

definition lchan_select_by_chan_mode :: "bool \<Rightarrow> gsm_bts \<Rightarrow> gsm48_chan_mode \<Rightarrow> channel_rate
    \<Rightarrow> gsm_bts \<times> (nat \<times> nat \<times> nat) option" where
  "lchan_select_by_chan_mode dyn_ts_allow_tch_f bts chan_mode chan_rate =
     (case chan_mode_lchan_type chan_mode chan_rate of
        None \<Rightarrow> (bts, None)
      | Some type \<Rightarrow> lchan_select_by_type dyn_ts_allow_tch_f bts type)"

section \<open>What may be selected\<close>

text \<open>
  The specification: which configured channels serve a type, and as what they are then used; and the
  free lchans of a BTS for a type.
\<close>

definition serves :: "bool \<Rightarrow> gsm_chan_t \<Rightarrow> gsm_phys_chan_config \<Rightarrow> gsm_phys_chan_config \<Rightarrow> bool" where
  "serves allow_f type p as_p \<longleftrightarrow>
     (type = GSM_LCHAN_SDCCH \<and> p = as_p \<and> p \<in> {GSM_PCHAN_CCCH_SDCCH4, GSM_PCHAN_CCCH_SDCCH4_CBCH,
        GSM_PCHAN_SDCCH8_SACCH8C, GSM_PCHAN_SDCCH8_SACCH8C_CBCH}) \<or>
     (type = GSM_LCHAN_TCH_F \<and> as_p = GSM_PCHAN_TCH_F \<and>
        (p \<in> {GSM_PCHAN_TCH_F, GSM_PCHAN_TCH_F_PDCH} \<or> p = GSM_PCHAN_TCH_F_TCH_H_PDCH \<and> allow_f)) \<or>
     (type = GSM_LCHAN_TCH_H \<and> as_p = GSM_PCHAN_TCH_H \<and> p \<in> {GSM_PCHAN_TCH_H, GSM_PCHAN_TCH_F_TCH_H_PDCH})"

definition lchan_available :: "bool \<Rightarrow> gsm_bts \<Rightarrow> gsm_chan_t \<Rightarrow> nat \<times> nat \<times> nat \<Rightarrow> bool" where
  "lchan_available allow_f bts type r \<longleftrightarrow> (case r of (t, j, i) \<Rightarrow>
     t < length (trx_list bts) \<and> j < 8 \<and>
     (let trx = trx_list bts ! t; ts = trx_ts trx ! j in
      trx_is_usable (bts_type bts) trx \<and>
      (\<exists>as_p. serves allow_f type (pchan_on_init ts) as_p \<and>
         ts_usable_as_pchan (bts_type bts) trx ts as_p \<and>
         i \<in> set (ts_as_pchan_for_each_lchan ts as_p) \<and> lc_state ts i = LCHAN_ST_UNUSED)))"

lemma lc_find_ts_Some:
  "lc_find_ts bt trx p as_p ts = Some i \<Longrightarrow>
     pchan_on_init ts = p \<and> ts_usable_as_pchan bt trx ts as_p \<and>
     i \<in> set (ts_as_pchan_for_each_lchan ts as_p) \<and> lc_state ts i = LCHAN_ST_UNUSED"
  by (auto simp: lc_find_ts_def find_Some_iff split: if_splits)

lemma lc_find_ts_None:
  "lc_find_ts bt trx p as_p ts = None \<longleftrightarrow>
     \<not> (pchan_on_init ts = p \<and> ts_usable_as_pchan bt trx ts as_p \<and>
        (\<exists>i \<in> set (ts_as_pchan_for_each_lchan ts as_p). lc_state ts i = LCHAN_ST_UNUSED))"
  by (auto simp: lc_find_ts_def find_None_iff ts_usable_as_pchan_def)

text \<open>A search finds an lchan that fits, and finds none only if none fits.\<close>

definition fits :: "gsm_bts \<Rightarrow> gsm_phys_chan_config \<Rightarrow> gsm_phys_chan_config \<Rightarrow> nat \<times> nat \<times> nat \<Rightarrow> bool" where
  "fits bts p as_p r \<longleftrightarrow> (case r of (t, j, i) \<Rightarrow>
     t < length (trx_list bts) \<and> j < 8 \<and>
     (let trx = trx_list bts ! t; ts = trx_ts trx ! j in
      trx_is_usable (bts_type bts) trx \<and> pchan_on_init ts = p \<and>
      ts_usable_as_pchan (bts_type bts) trx ts as_p \<and>
      i \<in> set (ts_as_pchan_for_each_lchan ts as_p) \<and> lc_state ts i = LCHAN_ST_UNUSED))"

lemma lc_dyn_find_bts_Some: "lc_dyn_find_bts bts p as_p = Some r \<Longrightarrow> fits bts p as_p r"
  by (auto simp: lc_dyn_find_bts_def lc_find_trx_def fits_def Let_def split: if_splits
      dest!: first_some_SomeD lc_find_ts_Some)

lemma lc_dyn_find_bts_None: "lc_dyn_find_bts bts p as_p = None \<longleftrightarrow> (\<forall>r. \<not> fits bts p as_p r)"
  by (auto simp: lc_dyn_find_bts_def lc_find_trx_def fits_def Let_def lc_find_ts_None split: if_splits)

lemma available_fits:
  "lchan_available allow_f bts type r \<longleftrightarrow> (\<exists>p as_p. serves allow_f type p as_p \<and> fits bts p as_p r)"
  by (cases r) (auto simp: lchan_available_def fits_def Let_def)

lemma select_find_Some:
  assumes "lchan_select_find allow_f bts type = Some r"
  shows "lchan_available allow_f bts type r"
  using assms
  by (cases type) (auto simp: lchan_select_find_def lc_find_bts_def Let_def available_fits serves_def
      split: if_splits dest!: or_else_SomeD lc_dyn_find_bts_Some)

lemma select_find_None:
  "lchan_select_find allow_f bts type = None \<longleftrightarrow> (\<forall>r. \<not> lchan_available allow_f bts type r)"
  by (cases type; cases "chan_alloc_reverse bts"; cases allow_f)
    (auto simp: lchan_select_find_def lc_find_bts_def Let_def available_fits serves_def lc_dyn_find_bts_None)

section \<open>Properties of the selection\<close>

abbreviation bts_ts :: "gsm_bts \<Rightarrow> nat \<Rightarrow> nat \<Rightarrow> gsm_bts_trx_ts" where
  "bts_ts bts t j \<equiv> trx_ts (trx_list bts ! t) ! j"

abbreviation bts_lchan :: "gsm_bts \<Rightarrow> nat \<Rightarrow> nat \<Rightarrow> nat \<Rightarrow> gsm_lchan" where
  "bts_lchan bts t j i \<equiv> lchans (bts_ts bts t j) ! i"

lemma for_eachD:
  assumes "i \<in> set (ts_as_pchan_for_each_lchan ts p)"
  shows "i < length (lchans ts)" "lc_fi (lchans ts ! i) \<noteq> None"
  using set_takeWhileD[OF assms[unfolded ts_as_pchan_for_each_lchan_def]] by (auto simp: lchan_iter_cond_def)

lemma availableD:
  assumes "lchan_available allow_f bts type (t, j, i)"
  shows "t < length (trx_list bts)" "j < 8" "i < length (lchans (bts_ts bts t j))"
    "lchan_state_is (bts_lchan bts t j i) LCHAN_ST_UNUSED" "lc_fi (bts_lchan bts t j i) \<noteq> None"
    "ts_is_usable (bts_type bts) (trx_list bts ! t) (bts_ts bts t j)"
    "lchant_capable (pchan_on_init (bts_ts bts t j)) type"
proof -
  from assms obtain as_p where a: "t < length (trx_list bts)" "j < 8" "serves allow_f type (pchan_on_init (bts_ts bts t j)) as_p"
    "ts_usable_as_pchan (bts_type bts) (trx_list bts ! t) (bts_ts bts t j) as_p"
    "i \<in> set (ts_as_pchan_for_each_lchan (bts_ts bts t j) as_p)" "lc_state (bts_ts bts t j) i = LCHAN_ST_UNUSED"
    by (auto simp: lchan_available_def Let_def)
  note f = for_eachD[OF a(5)]
  show "t < length (trx_list bts)" "j < 8" "i < length (lchans (bts_ts bts t j))" "lc_fi (bts_lchan bts t j i) \<noteq> None"
    by (rule a f)+
  show "lchan_state_is (bts_lchan bts t j i) LCHAN_ST_UNUSED"
    using f(2) a(6) by (auto simp: lchan_state_is_def lc_state_def)
  show "ts_is_usable (bts_type bts) (trx_list bts ! t) (bts_ts bts t j)"
    using a(4) by (simp add: ts_usable_as_pchan_def split: if_splits)
  show "lchant_capable (pchan_on_init (bts_ts bts t j)) type" using a(3) by (auto simp: serves_def)
qed

lemma select_by_type_cases:
  assumes "lchan_select_by_type allow_f bts type = (bts', r)"
  shows "r = lchan_select_find allow_f bts type"
    "r = Some (t, j, i) \<Longrightarrow> bts' = set_lchan_type t j i type bts" "r = None \<Longrightarrow> bts' = bts"
  using assms by (auto simp: lchan_select_by_type_def split: option.splits)

text \<open>Property C24. A selected lchan has an instance in state UNUSED, its timeslot and TRX are usable, the
  timeslot is capable of the type asked for, and the only change to the BTS is that the lchan has
  the type asked for.\<close>

theorem lchan_select_sound:
  assumes "lchan_select_by_type allow_f bts type = (bts', Some (t, j, i))"
  shows "lchan_state_is (bts_lchan bts t j i) LCHAN_ST_UNUSED \<and> lc_fi (bts_lchan bts t j i) \<noteq> None \<and>
    trx_is_usable (bts_type bts) (trx_list bts ! t) \<and>
    ts_is_usable (bts_type bts) (trx_list bts ! t) (bts_ts bts t j) \<and>
    ts_is_capable_of_lchant (bts_ts bts t j) type \<and> bts' = set_lchan_type t j i type bts"
proof -
  note c = select_by_type_cases[OF assms]
  have "lchan_available allow_f bts type (t, j, i)" using select_find_Some c(1) by simp
  from availableD[OF this] c(2) show ?thesis by (auto simp: ts_is_capable_of_lchant_def ts_is_usable_def split: if_splits)
qed

text \<open>Property C25. The selection fails only when it must: it returns nothing exactly when the BTS has no free
  lchan on a usable timeslot that is, or can be switched to, a physical channel serving the type.\<close>

theorem lchan_select_complete:
  "snd (lchan_select_by_type allow_f bts type) = None \<longleftrightarrow> (\<forall>r. \<not> lchan_available allow_f bts type r)"
  using select_find_None[of allow_f bts type]
  by (auto simp: lchan_select_by_type_def split: option.splits)

text \<open>What was selected will be accepted: on a timeslot whose physical channel is the configured
  one unless it is dynamic, the timeslot machine finds the selected lchan sane, and ready to go when
  the timeslot is already in use.\<close>

lemma selected_lchan_is_sane:
  assumes "lchan_select_by_type allow_f bts type = (bts', Some (t, j, i))"
    "length (trx_ts (trx_list bts ! t)) = 8"
    "pchan_on_init (bts_ts bts t j) \<notin> {GSM_PCHAN_TCH_F_PDCH, GSM_PCHAN_TCH_F_TCH_H_PDCH} \<longrightarrow>
       pchan_is (bts_ts bts t j) = pchan_on_init (bts_ts bts t j)"
  shows "is_lchan_sane (bts_ts bts' t j) (bts_lchan bts' t j i) \<noteq> LCHAN_IS_INSANE \<and>
    (tf_state (the (ts_fi (bts_ts bts t j))) = TS_ST_IN_USE \<longrightarrow>
       is_lchan_sane (bts_ts bts' t j) (bts_lchan bts' t j i) = LCHAN_IS_READY_TO_GO)"
proof -
  note c = select_by_type_cases[OF assms(1)]
  have a: "lchan_available allow_f bts type (t, j, i)" using select_find_Some c(1) by simp
  note d = availableD[OF a]
  have l: "bts_lchan bts' t j i = (bts_lchan bts t j i)\<lparr> lc_type := type \<rparr>"
    "pchan_on_init (bts_ts bts' t j) = pchan_on_init (bts_ts bts t j)" "pchan_is (bts_ts bts' t j) = pchan_is (bts_ts bts t j)"
    using d assms(2) by (simp_all add: c(2)[OF refl] set_lchan_type_def)
  from a obtain as_p where s: "serves allow_f type (pchan_on_init (bts_ts bts t j)) as_p"
    "ts_usable_as_pchan (bts_type bts) (trx_list bts ! t) (bts_ts bts t j) as_p"
    by (auto simp: lchan_available_def Let_def)
  then have u: "tf_state (the (ts_fi (bts_ts bts t j))) = TS_ST_IN_USE \<longrightarrow> pchan_is (bts_ts bts t j) = as_p"
    by (simp add: ts_usable_as_pchan_def split: if_splits)
  from s(1) u assms(3) d(5) show ?thesis unfolding serves_def is_lchan_sane_def l by auto
qed

text \<open>A BTS with one TRX whose timeslot 2 is a free TCH/F, and one whose timeslot 3 is a dynamic one.\<close>

definition free_ts :: "nat \<Rightarrow> gsm_phys_chan_config \<Rightarrow> gsm_bts_trx_ts" where
  "free_ts n p = (alloc_ts n)\<lparr> ts_fi := Some \<lparr> tf_state = TS_ST_UNUSED, tf_T = None \<rparr>, pchan_on_init := p,
     pchan_is := p, lchans := map (\<lambda>l. zero_lchan l (Some \<lparr> lf_state = LCHAN_ST_UNUSED, lf_T = None \<rparr>) None) [0..<8] \<rparr>"

definition example_bts :: "gsm_phys_chan_config \<Rightarrow> gsm_bts" where
  "example_bts p = \<lparr> bts_nr = 0, bts_type = GSM_BTS_TYPE_BS11, bts_mo = \<lparr> operational = NM_OPSTATE_ENABLED, availability = NM_AVSTATE_OK \<rparr>,
     oml_link = True, gprs_mode = BTS_GPRS_NONE, chan_alloc_reverse = False, location_area_code = 1, cell_identity = 0,
     infinite_radio_link_timeout = False, radio_link_timeout = 7, depends_on = replicate 8 0, local_neighbors = [],
     trx_list = [\<lparr> trx_nr = 0, trx_mo = \<lparr> operational = NM_OPSTATE_ENABLED, availability = NM_AVSTATE_OK \<rparr>,
       bb_transc_mo = \<lparr> operational = NM_OPSTATE_ENABLED, availability = NM_AVSTATE_OK \<rparr>, trx_arfcn = 100,
       trx_ts = map (\<lambda>k. if k = 2 then free_ts k p else alloc_ts k) [0..<8] \<rparr>] \<rparr>"

lemma example_select:
  "lchan_select_by_type False (example_bts GSM_PCHAN_TCH_F) GSM_LCHAN_TCH_F =
     (fst (lchan_select_by_type False (example_bts GSM_PCHAN_TCH_F) GSM_LCHAN_TCH_F), Some (0, 2, 0))"
proof -
  have "snd (lchan_select_by_type False (example_bts GSM_PCHAN_TCH_F) GSM_LCHAN_TCH_F) = Some (0, 2, 0)" by code_simp
  then show ?thesis by (simp add: prod_eq_iff)
qed

theorem lchan_select_sound_witness:
  "lchan_state_is (bts_lchan (example_bts GSM_PCHAN_TCH_F) 0 2 0) LCHAN_ST_UNUSED \<and>
   ts_is_capable_of_lchant (bts_ts (example_bts GSM_PCHAN_TCH_F) 0 2) GSM_LCHAN_TCH_F"
  using lchan_select_sound[OF example_select] by simp

end
