(* ===== verification/Codec_Pref.thy ===== *)
theory Codec_Pref
  imports Gsm_Data
begin

unbundle bit_operations_syntax

text \<open>
  Matching of speech codecs, \<^verbatim>\<open>codec_pref.c\<close>: which codec of the MSC's configured list is used for an
  assignment, given what the BTS supports and what the MSC asks for, and the list of codecs
  advertised to the MSC.  The conversions of libosmocore (\<^verbatim>\<open>gsm0808_speech_codec_from_chan_type\<close>,
  \<^verbatim>\<open>gsm0808_sc_cfg_from_gsm48_mr_cfg\<close>) and the mask of \<^verbatim>\<open>GSM0808_SC_CFG_AMR_4_75_5_90_7_40_12_20\<close> are the
  record \<open>libgsm\<close>, an argument.
\<close>

section \<open>Data\<close>

datatype permitted_speech =
    GSM0808_PERM_FR1 | GSM0808_PERM_FR2 | GSM0808_PERM_FR3 | GSM0808_PERM_FR4 | GSM0808_PERM_FR5
  | GSM0808_PERM_HR1 | GSM0808_PERM_HR2 | GSM0808_PERM_HR3 | GSM0808_PERM_HR4 | GSM0808_PERM_HR6
  | GSM0808_PERM_other u8

record gsm_audio_support =
  au_hr :: bool
  au_ver :: nat

text \<open>The two octets of a multirate configuration; the second one holds the rates.\<close>

type_synonym multi_rate_conf = "u8 \<times> u8"

record speech_codec =
  sc_type :: nat
  sc_cfg :: u16

record libgsm =
  speech_codec_from_chan_type :: "permitted_speech \<Rightarrow> speech_codec option"
  sc_cfg_from_mr_cfg :: "multi_rate_conf \<Rightarrow> bool \<Rightarrow> u16"
  SC_CFG_S1 :: u16

record gsm_bts_codec = gsm_bts +
  codec_hr :: bool
  codec_efr :: bool
  codec_amr :: bool
  mr_full :: multi_rate_conf
  mr_half :: multi_rate_conf

record bsc_msc_data =
  audio_support :: "gsm_audio_support list"
  amr_conf :: multi_rate_conf

record channel_mode_and_rate =
  chan_mode :: gsm48_chan_mode
  chan_rate :: channel_rate
  s15_s0 :: u16

datatype rate_pref = RATE_PREF_NONE | RATE_PREF_HR | RATE_PREF_FR

section \<open>Helpers\<close>

fun full_rate_from_perm_spch :: "permitted_speech \<Rightarrow> bool option" where
  "full_rate_from_perm_spch GSM0808_PERM_HR1 = Some False"
| "full_rate_from_perm_spch GSM0808_PERM_HR2 = Some False"
| "full_rate_from_perm_spch GSM0808_PERM_HR3 = Some False"
| "full_rate_from_perm_spch GSM0808_PERM_HR4 = Some False"
| "full_rate_from_perm_spch GSM0808_PERM_HR6 = Some False"
| "full_rate_from_perm_spch GSM0808_PERM_FR1 = Some True"
| "full_rate_from_perm_spch GSM0808_PERM_FR2 = Some True"
| "full_rate_from_perm_spch GSM0808_PERM_FR3 = Some True"
| "full_rate_from_perm_spch GSM0808_PERM_FR4 = Some True"
| "full_rate_from_perm_spch GSM0808_PERM_FR5 = Some True"
| "full_rate_from_perm_spch (GSM0808_PERM_other v) = None"

fun gsm88_to_chan_mode :: "permitted_speech \<Rightarrow> gsm48_chan_mode" where
  "gsm88_to_chan_mode GSM0808_PERM_HR1 = GSM48_CMODE_SPEECH_V1"
| "gsm88_to_chan_mode GSM0808_PERM_FR1 = GSM48_CMODE_SPEECH_V1"
| "gsm88_to_chan_mode GSM0808_PERM_FR2 = GSM48_CMODE_SPEECH_EFR"
| "gsm88_to_chan_mode _ = GSM48_CMODE_SPEECH_AMR"

definition audio_support_to_gsm88 :: "gsm_audio_support \<Rightarrow> permitted_speech" where
  "audio_support_to_gsm88 audio =
     (if au_hr audio then
        (if au_ver audio = 1 then GSM0808_PERM_HR1
         else if au_ver audio = 2 then GSM0808_PERM_HR2
         else if au_ver audio = 3 then GSM0808_PERM_HR3
         else GSM0808_PERM_HR1)
      else
        (if au_ver audio = 1 then GSM0808_PERM_FR1
         else if au_ver audio = 2 then GSM0808_PERM_FR2
         else if au_ver audio = 3 then GSM0808_PERM_FR3
         else GSM0808_PERM_FR1))"

text \<open>
  \<open>None\<close> is no match; \<open>Some c\<close> is a match, with the entry of the speech codec list if there is one.
  The list is empty when the MSC sent none.
\<close>

definition test_codec_pref :: "libgsm \<Rightarrow> speech_codec list \<Rightarrow> permitted_speech list \<Rightarrow> permitted_speech
    \<Rightarrow> speech_codec option option" where
  "test_codec_pref lib scl ct perm_spch =
     (let match = perm_spch \<in> set ct in
      if scl = [] then (if match then Some None else None)
      else if \<not> match then None
      else case speech_codec_from_chan_type lib perm_spch of
        None \<Rightarrow> None
      | Some sc \<Rightarrow>
          (case find (\<lambda>c. sc_type sc = sc_type c) scl of
             None \<Rightarrow> None
           | Some c \<Rightarrow> Some (Some c)))"

definition ts_rate_match :: "bool \<Rightarrow> gsm_phys_chan_config \<Rightarrow> bool" where
  "ts_rate_match full_rate pchan \<longleftrightarrow>
     pchan = GSM_PCHAN_TCH_F_TCH_H_PDCH \<or> full_rate \<and> pchan = GSM_PCHAN_TCH_F \<or>
     full_rate \<and> pchan = GSM_PCHAN_TCH_F_PDCH \<or> \<not> full_rate \<and> pchan = GSM_PCHAN_TCH_H"

definition test_codec_support_bts :: "gsm_bts_codec \<Rightarrow> permitted_speech \<Rightarrow> bool" where
  "test_codec_support_bts bts perm_spch =
     (case full_rate_from_perm_spch perm_spch of
        None \<Rightarrow> False
      | Some full_rate \<Rightarrow>
          (let rate_match = fold (\<lambda>trx found. fold (\<lambda>i found. found \<or>
                 ts_rate_match full_rate (pchan_from_config (trx_ts trx ! i))) [0..<8] found) (trx_list bts) False
           in if \<not> rate_match then False
              else case perm_spch of
                GSM0808_PERM_FR1 \<Rightarrow> True
              | GSM0808_PERM_FR2 \<Rightarrow> codec_efr bts
              | GSM0808_PERM_FR3 \<Rightarrow> codec_amr bts
              | GSM0808_PERM_HR1 \<Rightarrow> codec_hr bts
              | GSM0808_PERM_HR3 \<Rightarrow> codec_amr bts
              | _ \<Rightarrow> False))"

definition gen_bss_supported_amr_s15_s0 :: "libgsm \<Rightarrow> bsc_msc_data \<Rightarrow> gsm_bts_codec \<Rightarrow> bool \<Rightarrow> u16" where
  "gen_bss_supported_amr_s15_s0 lib msc bts hr =
     (let amr_s15_s0_bts = (if hr then sc_cfg_from_mr_cfg lib (mr_half bts) False
                            else sc_cfg_from_mr_cfg lib (mr_full bts) True);
          amr_s15_s0_msc = sc_cfg_from_mr_cfg lib (amr_conf msc) True
      in amr_s15_s0_bts AND amr_s15_s0_msc)"

definition prefer_s1 :: "libgsm \<Rightarrow> u16 \<Rightarrow> u16" where
  "prefer_s1 lib s = (if s AND SC_CFG_S1 lib \<noteq> 0 then (s AND 0xff00) OR SC_CFG_S1 lib else s)"

text \<open>The value written to \<^verbatim>\<open>s15_s0\<close> and whether a rate is left.\<close>

definition match_amr_s15_s0 :: "libgsm \<Rightarrow> bsc_msc_data \<Rightarrow> gsm_bts_codec \<Rightarrow> speech_codec option \<Rightarrow> permitted_speech
    \<Rightarrow> u16 \<times> bool" where
  "match_amr_s15_s0 lib msc bts sc_match perm_spch =
     (let supported = gen_bss_supported_amr_s15_s0 lib msc bts (perm_spch = GSM0808_PERM_HR3);
          s = (case sc_match of Some c \<Rightarrow> sc_cfg c AND supported | None \<Rightarrow> supported);
          s = prefer_s1 lib s
      in (s, s AND 0x00ff \<noteq> 0))"

section \<open>Matching\<close>

datatype match_result = No_match | Match permitted_speech | Invalid

definition is_amr :: "permitted_speech \<Rightarrow> bool" where
  "is_amr p \<longleftrightarrow> p = GSM0808_PERM_HR3 \<or> p = GSM0808_PERM_FR3"

fun match_loop :: "libgsm \<Rightarrow> permitted_speech list \<Rightarrow> speech_codec list \<Rightarrow> bsc_msc_data \<Rightarrow> gsm_bts_codec \<Rightarrow> rate_pref
    \<Rightarrow> gsm_audio_support list \<Rightarrow> channel_mode_and_rate \<Rightarrow> match_result \<times> channel_mode_and_rate" where
  "match_loop lib ct scl msc bts rate_pref [] ch = (No_match, ch)"
| "match_loop lib ct scl msc bts rate_pref (a # as) ch =
     (let perm_spch = audio_support_to_gsm88 a in
      case full_rate_from_perm_spch perm_spch of
        None \<Rightarrow> (Invalid, ch)
      | Some full_rate \<Rightarrow>
          (let ch = ch\<lparr> chan_rate := (if full_rate then CH_RATE_FULL else CH_RATE_HALF) \<rparr>;
               continue = match_loop lib ct scl msc bts rate_pref as
           in if rate_pref = RATE_PREF_HR \<and> chan_rate ch = CH_RATE_FULL then continue ch
              else if rate_pref = RATE_PREF_FR \<and> chan_rate ch = CH_RATE_HALF then continue ch
              else if \<not> test_codec_support_bts bts perm_spch then continue ch
              else case test_codec_pref lib scl ct perm_spch of
                None \<Rightarrow> continue ch
              | Some sc_match \<Rightarrow>
                  if is_amr perm_spch then
                    (let (s, ok) = match_amr_s15_s0 lib msc bts sc_match perm_spch
                     in if ok then (Match perm_spch, ch\<lparr> s15_s0 := s \<rparr>)
                        else continue (ch\<lparr> s15_s0 := 0 \<rparr>))
                  else (Match perm_spch, ch\<lparr> s15_s0 := 0 \<rparr>)))"

definition match_codec_pref :: "libgsm \<Rightarrow> channel_mode_and_rate \<Rightarrow> permitted_speech list \<Rightarrow> speech_codec list
    \<Rightarrow> bsc_msc_data \<Rightarrow> gsm_bts_codec \<Rightarrow> rate_pref \<Rightarrow> int \<times> channel_mode_and_rate" where
  "match_codec_pref lib ch ct scl msc bts rate_pref =
     (case match_loop lib ct scl msc bts rate_pref (audio_support msc) ch of
        (Invalid, ch) \<Rightarrow> (- EINVAL, ch)
      | (No_match, ch) \<Rightarrow> (-1, ch\<lparr> chan_mode := GSM48_CMODE_SIGN, chan_rate := CH_RATE_SDCCH, s15_s0 := 0 \<rparr>)
      | (Match p, ch) \<Rightarrow> (0, ch\<lparr> chan_mode := gsm88_to_chan_mode p \<rparr>))"

section \<open>The advertised list and the check of the configuration\<close>

definition gen_bss_supported_codec_list :: "libgsm \<Rightarrow> bsc_msc_data \<Rightarrow> gsm_bts_codec \<Rightarrow> speech_codec list" where
  "gen_bss_supported_codec_list lib msc bts =
     fold (\<lambda>a scl.
       let perm_spch = audio_support_to_gsm88 a in
       if \<not> test_codec_support_bts bts perm_spch then scl
       else case speech_codec_from_chan_type lib perm_spch of
         None \<Rightarrow> scl
       | Some sc \<Rightarrow>
           scl @ [if au_ver a = 3 then sc\<lparr> sc_cfg := gen_bss_supported_amr_s15_s0 lib msc bts (au_hr a) \<rparr> else sc])
       (audio_support msc) []"

text \<open>The result is \<open>a\<close> with the rates both have; \<^const>\<open>None\<close> is -1.\<close>

definition calc_amr_rate_intersection :: "multi_rate_conf \<Rightarrow> multi_rate_conf \<Rightarrow> multi_rate_conf option" where
  "calc_amr_rate_intersection b a =
     (let rates = snd a AND snd b in if rates = 0 then None else Some (fst a, rates))"

definition check_codec_pref :: "libgsm \<Rightarrow> (bsc_msc_data \<times> gsm_bts_codec list) list \<Rightarrow> int" where
  "check_codec_pref lib mscs =
     fold (\<lambda>(msc, btss) rc. fold (\<lambda>bts rc.
         let rc = (if length (gen_bss_supported_codec_list lib msc bts) = 0 then -1 else rc);
             rc = (if calc_amr_rate_intersection (amr_conf msc) (mr_full bts) = None then -1 else rc);
             rc = (if calc_amr_rate_intersection (amr_conf msc) (mr_half bts) = None then -1 else rc)
         in rc) btss rc) mscs 0"

section \<open>Reference definition\<close>

text \<open>
  Which entries of the MSC's list are acceptable, and what they give.  The reference takes the first
  acceptable one.
\<close>

definition rate_of :: "permitted_speech \<Rightarrow> channel_rate" where
  "rate_of p = (if full_rate_from_perm_spch p = Some True then CH_RATE_FULL else CH_RATE_HALF)"

definition rate_wanted :: "rate_pref \<Rightarrow> permitted_speech \<Rightarrow> bool" where
  "rate_wanted pref p \<longleftrightarrow> \<not> (pref = RATE_PREF_HR \<and> rate_of p = CH_RATE_FULL) \<and> \<not> (pref = RATE_PREF_FR \<and> rate_of p = CH_RATE_HALF)"

definition amr_rates :: "libgsm \<Rightarrow> bsc_msc_data \<Rightarrow> gsm_bts_codec \<Rightarrow> speech_codec list \<Rightarrow> permitted_speech list \<Rightarrow> permitted_speech \<Rightarrow> u16" where
  "amr_rates lib msc bts scl ct p =
     (if is_amr p then fst (match_amr_s15_s0 lib msc bts (the (test_codec_pref lib scl ct p)) p) else 0)"

definition acceptable :: "libgsm \<Rightarrow> permitted_speech list \<Rightarrow> speech_codec list \<Rightarrow> bsc_msc_data \<Rightarrow> gsm_bts_codec \<Rightarrow> rate_pref \<Rightarrow> permitted_speech \<Rightarrow> bool" where
  "acceptable lib ct scl msc bts pref p \<longleftrightarrow>
     rate_wanted pref p \<and> test_codec_support_bts bts p \<and> test_codec_pref lib scl ct p \<noteq> None \<and>
     (is_amr p \<longrightarrow> amr_rates lib msc bts scl ct p AND 0x00ff \<noteq> 0)"

lemma audio_rate: "full_rate_from_perm_spch (audio_support_to_gsm88 a) = Some (\<not> au_hr a)"
  by (simp add: audio_support_to_gsm88_def)

lemma rate_of_audio: "rate_of (audio_support_to_gsm88 a) = (if au_hr a then CH_RATE_HALF else CH_RATE_FULL)"
  by (simp add: rate_of_def audio_rate)

lemma match_amr_ok: "snd (match_amr_s15_s0 lib msc bts c p) \<longleftrightarrow> fst (match_amr_s15_s0 lib msc bts c p) AND 0x00ff \<noteq> 0"
  by (simp add: match_amr_s15_s0_def Let_def)

lemma match_loop_eq:
  "case find (acceptable lib ct scl msc bts pref) (map audio_support_to_gsm88 as) of
     None \<Rightarrow> fst (match_loop lib ct scl msc bts pref as ch) = No_match
   | Some p \<Rightarrow> \<exists>m. match_loop lib ct scl msc bts pref as ch =
        (Match p, \<lparr> chan_mode = m, chan_rate = rate_of p, s15_s0 = amr_rates lib msc bts scl ct p \<rparr>)"
proof (induction as arbitrary: ch)
  case Nil
  show ?case by simp
next
  case (Cons a as)
  let ?p = "audio_support_to_gsm88 a"
  show ?case
  proof (cases "acceptable lib ct scl msc bts pref ?p")
    case True
    then obtain c where "test_codec_pref lib scl ct ?p = Some c" by (auto simp: acceptable_def)
    with True show ?thesis
      by (cases ch) (auto simp: acceptable_def rate_wanted_def rate_of_audio audio_rate amr_rates_def match_amr_ok Let_def case_prod_unfold)
  next
    case False
    then have "\<exists>ch'. match_loop lib ct scl msc bts pref (a # as) ch = match_loop lib ct scl msc bts pref as ch'"
      by (auto simp: acceptable_def rate_wanted_def rate_of_audio audio_rate amr_rates_def match_amr_ok Let_def case_prod_unfold split: option.splits)
    with Cons.IH False show ?thesis by (auto split: option.splits)
  qed
qed

lemma match_codec_pref_eq:
  "match_codec_pref lib ch ct scl msc bts pref =
    (case find (acceptable lib ct scl msc bts pref) (map audio_support_to_gsm88 (audio_support msc)) of
       None \<Rightarrow> (-1, \<lparr> chan_mode = GSM48_CMODE_SIGN, chan_rate = CH_RATE_SDCCH, s15_s0 = 0 \<rparr>)
     | Some p \<Rightarrow> (0, \<lparr> chan_mode = gsm88_to_chan_mode p, chan_rate = rate_of p, s15_s0 = amr_rates lib msc bts scl ct p \<rparr>))"
proof (cases "find (acceptable lib ct scl msc bts pref) (map audio_support_to_gsm88 (audio_support msc))")
  case None
  with match_loop_eq[of lib ct scl msc bts pref "audio_support msc" ch]
  obtain ch' where "match_loop lib ct scl msc bts pref (audio_support msc) ch = (No_match, ch')"
    by (cases "match_loop lib ct scl msc bts pref (audio_support msc) ch") auto
  with None show ?thesis by (cases ch') (simp add: match_codec_pref_def)
next
  case (Some p)
  with match_loop_eq[of lib ct scl msc bts pref "audio_support msc" ch] show ?thesis
    by (auto simp: match_codec_pref_def)
qed

text \<open>Property C35. \<^verbatim>\<open>match_codec_pref\<close> equals its reference definition: it takes the first codec of the MSC's
  configured list that has the wanted rate, is supported by the BTS, is permitted by the MSC's channel
  type and speech codec list and, for AMR, leaves at least one rate; it returns -1 and signalling on
  SDCCH when there is none, and it never returns -EINVAL.  Nothing of the previous content of the
  result structure survives.\<close>

theorem match_codec_pref_reference:
  "match_codec_pref lib ch ct scl msc bts pref =
    (case find (acceptable lib ct scl msc bts pref) (map audio_support_to_gsm88 (audio_support msc)) of
       None \<Rightarrow> (-1, \<lparr> chan_mode = GSM48_CMODE_SIGN, chan_rate = CH_RATE_SDCCH, s15_s0 = 0 \<rparr>)
     | Some p \<Rightarrow> (0, \<lparr> chan_mode = gsm88_to_chan_mode p, chan_rate = rate_of p, s15_s0 = amr_rates lib msc bts scl ct p \<rparr>))"
  by (rule match_codec_pref_eq)

section \<open>Consistency with the advertised list\<close>

lemma supported_list_eq:
  "gen_bss_supported_codec_list lib msc bts =
     concat (map (\<lambda>a. if test_codec_support_bts bts (audio_support_to_gsm88 a) then
         (case speech_codec_from_chan_type lib (audio_support_to_gsm88 a) of None \<Rightarrow> []
          | Some sc \<Rightarrow> [if au_ver a = 3 then sc\<lparr> sc_cfg := gen_bss_supported_amr_s15_s0 lib msc bts (au_hr a) \<rparr> else sc])
         else []) (audio_support msc))"
proof -
  let ?h = "\<lambda>a. if test_codec_support_bts bts (audio_support_to_gsm88 a) then
         (case speech_codec_from_chan_type lib (audio_support_to_gsm88 a) of None \<Rightarrow> []
          | Some sc \<Rightarrow> [if au_ver a = 3 then sc\<lparr> sc_cfg := gen_bss_supported_amr_s15_s0 lib msc bts (au_hr a) \<rparr> else sc]) else []"
  have "fold (\<lambda>a scl. let perm_spch = audio_support_to_gsm88 a in
       if \<not> test_codec_support_bts bts perm_spch then scl
       else case speech_codec_from_chan_type lib perm_spch of None \<Rightarrow> scl
       | Some sc \<Rightarrow> scl @ [if au_ver a = 3 then sc\<lparr> sc_cfg := gen_bss_supported_amr_s15_s0 lib msc bts (au_hr a) \<rparr> else sc])
      as acc = acc @ concat (map ?h as)" for as acc
    by (induction as arbitrary: acc) (auto simp: Let_def split: option.splits)
  then show ?thesis by (simp add: gen_bss_supported_codec_list_def)
qed

lemma amr_audio: "is_amr (audio_support_to_gsm88 a) \<longleftrightarrow> au_ver a = 3"
  "audio_support_to_gsm88 a = GSM0808_PERM_HR3 \<longleftrightarrow> au_hr a \<and> au_ver a = 3"
  by (simp_all add: audio_support_to_gsm88_def is_amr_def)

lemma prefer_s1_subset: "SC_CFG_S1 lib = push_bit k 1 \<Longrightarrow> bit (prefer_s1 lib s) n \<Longrightarrow> bit s n"
proof -
  assume k: "SC_CFG_S1 lib = push_bit k 1" and b: "bit (prefer_s1 lib s) n"
  show "bit s n"
  proof (cases "s AND SC_CFG_S1 lib = 0")
    case True
    then show ?thesis using b by (simp add: prefer_s1_def)
  next
    case False
    have "s AND SC_CFG_S1 lib = (if bit s k then push_bit k 1 else 0)"
      by (rule bit_word_eqI) (auto simp: k bit_simps)
    then have "bit s k" using False by (auto split: if_splits)
    then show ?thesis using b False by (auto simp: prefer_s1_def k bit_simps)
  qed
qed

text \<open>A matched codec was advertised: when \<^verbatim>\<open>match_codec_pref\<close> succeeds, the list sent to the MSC
  with the same configuration has an entry of the type of the chosen codec, and for AMR the chosen
  rates are among the rates of that entry.\<close>

lemma matched_codec_is_advertised:
  assumes "match_codec_pref lib ch ct scl msc bts pref = (0, res)" "chan_mode res = GSM48_CMODE_SPEECH_AMR"
    "\<And>p. speech_codec_from_chan_type lib p \<noteq> None" "SC_CFG_S1 lib = push_bit k 1"
  shows "\<exists>sc \<in> set (gen_bss_supported_codec_list lib msc bts). \<exists>p \<in> {GSM0808_PERM_HR3, GSM0808_PERM_FR3}.
    sc_type sc = sc_type (the (speech_codec_from_chan_type lib p)) \<and> rate_of p = chan_rate res \<and>
    (\<forall>n. bit (s15_s0 res) n \<longrightarrow> bit (sc_cfg sc) n) \<and> s15_s0 res AND 0x00ff \<noteq> 0"
proof -
  obtain p where p: "find (acceptable lib ct scl msc bts pref) (map audio_support_to_gsm88 (audio_support msc)) = Some p"
    "res = \<lparr> chan_mode = gsm88_to_chan_mode p, chan_rate = rate_of p, s15_s0 = amr_rates lib msc bts scl ct p \<rparr>"
    using assms(1) by (auto simp: match_codec_pref_eq split: option.splits)
  then obtain a where a: "a \<in> set (audio_support msc)" "p = audio_support_to_gsm88 a" and acc: "acceptable lib ct scl msc bts pref p"
    by (auto simp: find_Some_iff in_set_conv_nth) (metis nth_mem)
  have amr: "is_amr p" using acc assms(2) p(2)
    by (cases p) (auto simp: acceptable_def test_codec_support_bts_def is_amr_def Let_def split: if_splits)
  obtain sc where sc: "speech_codec_from_chan_type lib p = Some sc" using assms(3)[of p] by auto
  let ?g = "gen_bss_supported_amr_s15_s0 lib msc bts (au_hr a)"
  let ?adv = "sc\<lparr> sc_cfg := gen_bss_supported_amr_s15_s0 lib msc bts (au_hr a) \<rparr>"
  have "?adv \<in> set (gen_bss_supported_codec_list lib msc bts)"
    unfolding supported_list_eq using a amr acc sc by (force simp: amr_audio acceptable_def)
  moreover have "bit (sc_cfg ?adv) n" if "bit (s15_s0 res) n" for n
  proof -
    have hr: "(p = GSM0808_PERM_HR3) = au_hr a" using amr by (simp add: a(2) amr_audio)
    have "bit (prefer_s1 lib (case the (test_codec_pref lib scl ct p) of Some c \<Rightarrow> sc_cfg c AND ?g | None \<Rightarrow> ?g)) n"
      using that amr by (simp add: p(2) amr_rates_def match_amr_s15_s0_def Let_def hr)
    from prefer_s1_subset[OF assms(4) this] show ?thesis by (auto simp: bit_simps split: option.splits)
  qed
  ultimately show ?thesis using amr acc sc p(2) by (intro bexI[of _ ?adv] bexI[of _ p]) (auto simp: is_amr_def acceptable_def)
qed

text \<open>A configuration with AMR on a TCH/F timeslot, and conversions that keep the rates as they are.\<close>

definition example_lib :: libgsm where
  "example_lib = \<lparr> speech_codec_from_chan_type = (\<lambda>p. Some \<lparr> sc_type = (if is_amr p then 3 else 0), sc_cfg = 0 \<rparr>),
     sc_cfg_from_mr_cfg = (\<lambda>c fr. ucast (snd c)), SC_CFG_S1 = push_bit 1 1 \<rparr>"

definition example_codec_bts :: gsm_bts_codec where
  "example_codec_bts = \<lparr> bts_nr = 0, bts_type = GSM_BTS_TYPE_OSMOBTS,
     bts_mo = \<lparr> operational = NM_OPSTATE_ENABLED, availability = NM_AVSTATE_OK \<rparr>, oml_link = True, gprs_mode = BTS_GPRS_NONE,
     chan_alloc_reverse = False, location_area_code = 1, cell_identity = 0, infinite_radio_link_timeout = False,
     radio_link_timeout = 7, depends_on = replicate 8 0, local_neighbors = [],
     trx_list = [\<lparr> trx_nr = 0, trx_mo = \<lparr> operational = NM_OPSTATE_ENABLED, availability = NM_AVSTATE_OK \<rparr>,
       bb_transc_mo = \<lparr> operational = NM_OPSTATE_ENABLED, availability = NM_AVSTATE_OK \<rparr>, trx_arfcn = 1,
       trx_ts = map (\<lambda>k. (alloc_ts k)\<lparr> pchan_from_config := GSM_PCHAN_TCH_F \<rparr>) [0..<8] \<rparr>],
     codec_hr = False, codec_efr = False, codec_amr = True, mr_full = (0x20, 0x0c), mr_half = (0x20, 0x0c) \<rparr>"

definition example_msc :: bsc_msc_data where
  "example_msc = \<lparr> audio_support = [\<lparr> au_hr = False, au_ver = 2 \<rparr>, \<lparr> au_hr = False, au_ver = 3 \<rparr>], amr_conf = (0x20, 0x06) \<rparr>"

lemma example_match:
  "match_codec_pref example_lib \<lparr> chan_mode = GSM48_CMODE_SIGN, chan_rate = CH_RATE_SDCCH, s15_s0 = 0 \<rparr>
     [GSM0808_PERM_FR3] [] example_msc example_codec_bts RATE_PREF_NONE =
   (0, \<lparr> chan_mode = GSM48_CMODE_SPEECH_AMR, chan_rate = CH_RATE_FULL, s15_s0 = 4 \<rparr>)"
  by code_simp

lemma fold_fail: "fold (\<lambda>x rc. if P x then rc else -1) xs rc = (if \<forall>x \<in> set xs. P x then rc else (-1 :: int))"
  by (induction xs arbitrary: rc) auto

text \<open>\<^verbatim>\<open>check_codec_pref\<close> accepts a configuration exactly when for every MSC and every BTS the
  advertised list is not empty and the AMR rates of the BTS, full and half rate, have a rate in
  common with those of the MSC.\<close>

lemma check_codec_pref_iff:
  "check_codec_pref lib mscs = 0 \<longleftrightarrow>
    (\<forall>(msc, btss) \<in> set mscs. \<forall>bts \<in> set btss. gen_bss_supported_codec_list lib msc bts \<noteq> [] \<and>
       (\<exists>n < 8. bit (snd (mr_full bts)) n \<and> bit (snd (amr_conf msc)) n) \<and>
       (\<exists>n < 8. bit (snd (mr_half bts)) n \<and> bit (snd (amr_conf msc)) n))"
proof -
  have inter: "calc_amr_rate_intersection b a = None \<longleftrightarrow> \<not> (\<exists>n < 8. bit (snd a) n \<and> bit (snd b) n)" for a b
  proof -
    have "snd a AND snd b = 0 \<longleftrightarrow> (\<forall>n < 8. \<not> bit (snd a AND snd b) n)" by (simp add: bit_eq_iff bit_simps)
    then show ?thesis by (auto simp: calc_amr_rate_intersection_def Let_def bit_simps)
  qed
  let ?ok = "\<lambda>msc bts. gen_bss_supported_codec_list lib msc bts \<noteq> [] \<and>
       (\<exists>n < 8. bit (snd (mr_full bts)) n \<and> bit (snd (amr_conf msc)) n) \<and>
       (\<exists>n < 8. bit (snd (mr_half bts)) n \<and> bit (snd (amr_conf msc)) n)"
  let ?step = "\<lambda>msc bts rc. let rc = (if length (gen_bss_supported_codec_list lib msc bts) = 0 then -1 else rc);
             rc = (if calc_amr_rate_intersection (amr_conf msc) (mr_full bts) = None then -1 else rc);
             rc = (if calc_amr_rate_intersection (amr_conf msc) (mr_half bts) = None then -1 else rc) in rc :: int"
  have step: "?step msc bts rc = (if ?ok msc bts then rc else -1)" for msc bts rc
    unfolding Let_def inter length_0_conv by (auto split: if_splits)
  have btss: "fold (?step msc) btss rc = (if \<forall>bts \<in> set btss. ?ok msc bts then rc else -1)" for msc btss rc
    unfolding step by (rule fold_fail)
  have "fold (\<lambda>(msc, btss) rc. fold (?step msc) btss rc) mscs rc =
     (if \<forall>(msc, btss) \<in> set mscs. \<forall>bts \<in> set btss. ?ok msc bts then rc else -1)" for rc
    unfolding btss case_prod_unfold by (rule fold_fail)
  from this[of 0] show ?thesis unfolding check_codec_pref_def by simp
qed

end
