(* ===== verification/Acc_Ramp.thy ===== *)
theory Acc_Ramp
  imports Osmo_Fsm Gsm_Data
begin

unbundle bit_operations_syntax

text \<open>
  Access control class ramping, \<^verbatim>\<open>acc_ramp.c\<close>: after a cell becomes available the access control
  classes 0 to 9 are allowed a few at a time.  The state is the record \<open>acc_ramp\<close>, with the fields of
  the BTS it reads (the permanently barred classes in \<^verbatim>\<open>rach_control\<close>, the average channel load), the
  pending step timer and the count of system information updates it asked for.  The specification
  is the list of barred classes in increasing order: a step drops \<open>step_size\<close> of them.
\<close>

section \<open>State\<close>

definition ACC_RAMP_STEP_SIZE_MIN :: nat where "ACC_RAMP_STEP_SIZE_MIN = 1"
definition ACC_RAMP_STEP_SIZE_DEFAULT :: nat where "ACC_RAMP_STEP_SIZE_DEFAULT = ACC_RAMP_STEP_SIZE_MIN"
definition ACC_RAMP_STEP_SIZE_MAX :: nat where "ACC_RAMP_STEP_SIZE_MAX = 10"
definition ACC_RAMP_STEP_INTERVAL_MIN :: nat where "ACC_RAMP_STEP_INTERVAL_MIN = 30"
definition ACC_RAMP_STEP_INTERVAL_MAX :: nat where "ACC_RAMP_STEP_INTERVAL_MAX = 600"

lemmas acc_consts = ACC_RAMP_STEP_SIZE_MIN_def ACC_RAMP_STEP_SIZE_DEFAULT_def ACC_RAMP_STEP_SIZE_MAX_def
  ACC_RAMP_STEP_INTERVAL_MIN_def ACC_RAMP_STEP_INTERVAL_MAX_def

record acc_ramp =
  rach_t2 :: u8
  rach_t3 :: u8
  chan_load_avg :: u8
  acc_ramping_enabled :: bool
  barred_accs :: u16
  step_size :: nat
  step_interval_sec :: nat
  step_interval_is_fixed :: bool
  step_timer :: "nat option"
  si_updates :: nat

definition acc_ramp_get_barred_t2 :: "acc_ramp \<Rightarrow> u8" where
  "acc_ramp_get_barred_t2 r = ucast (drop_bit 8 (barred_accs r) AND 0x03)"

definition acc_ramp_get_barred_t3 :: "acc_ramp \<Rightarrow> u8" where
  "acc_ramp_get_barred_t3 r = ucast (barred_accs r AND 0xff)"

definition acc_ramp_apply :: "u8 \<times> u8 \<Rightarrow> acc_ramp \<Rightarrow> u8 \<times> u8" where
  "acc_ramp_apply rc r = (fst rc OR acc_ramp_get_barred_t2 r, snd rc OR acc_ramp_get_barred_t3 r)"

definition acc_ramp_set_enabled :: "bool \<Rightarrow> acc_ramp \<Rightarrow> acc_ramp" where
  "acc_ramp_set_enabled e r = r\<lparr> acc_ramping_enabled := e \<rparr>"

section \<open>Operations\<close>

definition acc_is_permanently_barred :: "acc_ramp \<Rightarrow> nat \<Rightarrow> bool" where
  "acc_is_permanently_barred r acc =
     (if acc = 8 \<or> acc = 9 then rach_t2 r AND push_bit (acc - 8) 1 \<noteq> 0
      else rach_t3 r AND push_bit acc 1 \<noteq> 0)"

definition allow_one_acc :: "nat \<Rightarrow> acc_ramp \<Rightarrow> acc_ramp res" where
  "allow_one_acc acc r =
     rbind (osmo_assert (acc \<le> 9) r) (\<lambda>r. Ok (r\<lparr> barred_accs := barred_accs r AND NOT (push_bit acc 1) \<rparr>))"

definition barr_one_acc :: "nat \<Rightarrow> acc_ramp \<Rightarrow> acc_ramp res" where
  "barr_one_acc acc r =
     rbind (osmo_assert (acc \<le> 9) r) (\<lambda>r. Ok (r\<lparr> barred_accs := barred_accs r OR push_bit acc 1 \<rparr>))"

definition barr_all_accs :: "acc_ramp \<Rightarrow> acc_ramp res" where
  "barr_all_accs = for_each [0..<10] (\<lambda>acc r. if \<not> acc_is_permanently_barred r acc then barr_one_acc acc r else Ok r)"

definition allow_all_accs :: "acc_ramp \<Rightarrow> acc_ramp res" where
  "allow_all_accs = for_each [0..<10] (\<lambda>acc r. if \<not> acc_is_permanently_barred r acc then allow_one_acc acc r else Ok r)"

text \<open>The comparison with \<open>ACC_RAMP_STEP_SIZE_MIN\<close> is that of the code.\<close>

definition get_next_step_interval :: "acc_ramp \<Rightarrow> nat \<times> acc_ramp" where
  "get_next_step_interval r =
     (if step_interval_is_fixed r then (step_interval_sec r, r)
      else let load = unat (chan_load_avg r) * 256;
               s = load * ACC_RAMP_STEP_INTERVAL_MAX div 100 div 256;
               s = (if s < ACC_RAMP_STEP_SIZE_MIN then ACC_RAMP_STEP_INTERVAL_MIN
                    else if s > ACC_RAMP_STEP_INTERVAL_MAX then ACC_RAMP_STEP_INTERVAL_MAX else s)
           in (s, r\<lparr> step_interval_sec := s \<rparr>))"

text \<open>\<^verbatim>\<open>ffs\<close> of the C library: the position of the lowest bit set, counted from 1, or 0.\<close>

definition ffs :: "u8 \<Rightarrow> nat" where
  "ffs x = (case find (bit x) [0..<8] of None \<Rightarrow> 0 | Some n \<Rightarrow> Suc n)"

fun ramp_loop :: "nat \<Rightarrow> acc_ramp \<Rightarrow> acc_ramp res" where
  "ramp_loop 0 r = Ok r"
| "ramp_loop (Suc n) r =
     (let idx = ffs (acc_ramp_get_barred_t3 r);
          idx2 = ffs (acc_ramp_get_barred_t2 r);
          go = (\<lambda>acc. rbind (if \<not> acc_is_permanently_barred r acc then allow_one_acc acc r else Ok r) (ramp_loop n))
      in if idx > 0 then go (idx - 1)
         else if idx2 = 1 \<or> idx2 = 2 then go (idx2 - 1 + 8)
         else Ok r)"

definition gsm_bts_set_system_infos :: "acc_ramp \<Rightarrow> acc_ramp" where
  "gsm_bts_set_system_infos r = r\<lparr> si_updates := Suc (si_updates r) \<rparr>"

definition do_acc_ramping_step :: "acc_ramp \<Rightarrow> acc_ramp res" where
  "do_acc_ramping_step r =
     (if step_size r = ACC_RAMP_STEP_SIZE_MAX
      then rbind (allow_all_accs r) (\<lambda>r. Ok (gsm_bts_set_system_infos r))
      else rbind (ramp_loop (step_size r) r) (\<lambda>r.
        let r = gsm_bts_set_system_infos r in
        if acc_ramp_get_barred_t2 r \<noteq> 0 \<or> acc_ramp_get_barred_t3 r \<noteq> 0
        then let (s, r) = get_next_step_interval r in Ok (r\<lparr> step_timer := Some s \<rparr>)
        else Ok r))"

text \<open>The expiry of the step timer.\<close>

definition step_timer_cb :: "acc_ramp \<Rightarrow> acc_ramp res" where
  "step_timer_cb r = do_acc_ramping_step (r\<lparr> step_timer := None \<rparr>)"

definition acc_ramp_abort :: "acc_ramp \<Rightarrow> acc_ramp res" where
  "acc_ramp_abort r = allow_all_accs (r\<lparr> step_timer := None \<rparr>)"

definition acc_ramp_trigger :: "acc_ramp \<Rightarrow> acc_ramp res" where
  "acc_ramp_trigger r =
     rbind (acc_ramp_abort r) (\<lambda>r.
       if acc_ramping_enabled r then rbind (barr_all_accs r) do_acc_ramping_step else Ok r)"

definition acc_ramp_init :: "acc_ramp \<Rightarrow> acc_ramp res" where
  "acc_ramp_init r =
     allow_all_accs ((acc_ramp_set_enabled False r)\<lparr> step_size := ACC_RAMP_STEP_SIZE_DEFAULT,
       step_interval_sec := ACC_RAMP_STEP_INTERVAL_MIN, step_interval_is_fixed := False, step_timer := None \<rparr>)"

definition ERANGE :: int where "ERANGE = 34"

definition acc_ramp_set_step_size :: "nat \<Rightarrow> acc_ramp \<Rightarrow> int \<times> acc_ramp" where
  "acc_ramp_set_step_size n r =
     (if n < ACC_RAMP_STEP_SIZE_MIN \<or> n > ACC_RAMP_STEP_SIZE_MAX then (- ERANGE, r)
      else (0, r\<lparr> step_size := n \<rparr>))"

definition acc_ramp_set_step_interval :: "nat \<Rightarrow> acc_ramp \<Rightarrow> int \<times> acc_ramp" where
  "acc_ramp_set_step_interval n r =
     (if n < ACC_RAMP_STEP_INTERVAL_MIN \<or> n > ACC_RAMP_STEP_INTERVAL_MAX then (- ERANGE, r)
      else (0, r\<lparr> step_interval_sec := n, step_interval_is_fixed := True \<rparr>))"

definition acc_ramp_set_step_interval_dynamic :: "acc_ramp \<Rightarrow> acc_ramp" where
  "acc_ramp_set_step_interval_dynamic r = r\<lparr> step_interval_is_fixed := False \<rparr>"

subsection \<open>Reaction to state changes of the first TRX\<close>

datatype nm_adm_state = NM_STATE_LOCKED | NM_STATE_UNLOCKED | NM_STATE_SHUTDOWN | NM_STATE_NULL

record nm_statechg =
  sc_is_adm_or_oper :: bool
  sc_radio_carrier :: bool
  sc_trx_nr :: nat
  sc_rsl_link :: bool
  sc_trx_usable :: bool
  sc_trx_adm :: nm_adm_state
  sc_old_adm :: nm_adm_state
  sc_old_oper :: nm_opstate
  sc_new_adm :: nm_adm_state
  sc_new_oper :: nm_opstate

text \<open>The pair (trigger, abort) computed by the two switches.\<close>

definition sig_decision :: "nm_statechg \<Rightarrow> bool \<times> bool" where
  "sig_decision d =
     (let (t, a) =
        (if sc_old_adm d \<noteq> sc_new_adm d then
           (case sc_new_adm d of
              NM_STATE_UNLOCKED \<Rightarrow>
                (if sc_old_oper d \<noteq> sc_new_oper d then (sc_new_oper d = NM_OPSTATE_ENABLED, False)
                 else (sc_trx_usable d, False))
            | NM_STATE_LOCKED \<Rightarrow> (False, True)
            | NM_STATE_SHUTDOWN \<Rightarrow> (False, True)
            | NM_STATE_NULL \<Rightarrow> (False, False))
         else (False, False))
      in if sc_old_oper d \<noteq> sc_new_oper d then
           (case sc_new_oper d of
              NM_OPSTATE_ENABLED \<Rightarrow>
                (if sc_old_adm d \<noteq> sc_new_adm d then (t \<or> sc_new_adm d = NM_STATE_UNLOCKED, a)
                 else (t \<or> sc_trx_adm d = NM_STATE_UNLOCKED, a))
            | NM_OPSTATE_DISABLED \<Rightarrow> (t, True)
            | NM_OPSTATE_NULL \<Rightarrow> (t, a))
         else (t, a))"

definition acc_ramp_nm_sig_cb :: "nm_statechg \<Rightarrow> acc_ramp \<Rightarrow> acc_ramp res" where
  "acc_ramp_nm_sig_cb d r =
     (if \<not> sc_is_adm_or_oper d then Ok r
      else if \<not> sc_radio_carrier d then Ok r
      else if sc_trx_nr d \<noteq> 0 then Ok r
      else if \<not> sc_rsl_link d then Ok r
      else let (trigger, abort) = sig_decision d in
        if trigger then acc_ramp_trigger r
        else if abort then acc_ramp_abort r
        else Ok r)"

section \<open>The list of barred classes\<close>

definition barred :: "acc_ramp \<Rightarrow> nat list" where
  "barred r = filter (bit (barred_accs r)) [0..<10]"

text \<open>No class is barred by ramping and permanently at the same time.\<close>

definition no_conflict :: "acc_ramp \<Rightarrow> bool" where
  "no_conflict r \<longleftrightarrow> (\<forall>acc \<in> set (barred r). \<not> acc_is_permanently_barred r acc)"

lemma find_filter: "find P xs = (case filter P xs of [] \<Rightarrow> None | x # _ \<Rightarrow> Some x)"
  by (induction xs) auto

lemma bit_t3: "n < 8 \<Longrightarrow> bit (acc_ramp_get_barred_t3 r) n \<longleftrightarrow> bit (barred_accs r) n"
proof -
  have m: "(0xff :: u16) = mask 8" by (simp add: mask_eq_exp_minus_1)
  show "n < 8 \<Longrightarrow> ?thesis" unfolding acc_ramp_get_barred_t3_def m by (simp add: bit_simps)
qed

lemma bit_t2: "n < 8 \<Longrightarrow> bit (acc_ramp_get_barred_t2 r) n \<longleftrightarrow> n < 2 \<and> bit (barred_accs r) (n + 8)"
proof -
  have m: "(0x03 :: u16) = mask 2" by (simp add: mask_eq_exp_minus_1)
  show "n < 8 \<Longrightarrow> ?thesis" unfolding acc_ramp_get_barred_t2_def m by (auto simp: bit_simps add.commute)
qed

lemma barred_split: "barred r = filter (bit (barred_accs r)) [0..<8] @ map (\<lambda>n. n + 8) (filter (\<lambda>n. bit (barred_accs r) (n + 8)) [0..<2])"
proof -
  have "[0..<10] = [0..<8] @ map (\<lambda>n. n + 8) [0..<2 :: nat]" by (simp add: upt_rec numeral_eq_Suc)
  then show ?thesis by (simp add: barred_def filter_map o_def del: upt_conv_Cons)
qed

lemma ffs_t3: "ffs (acc_ramp_get_barred_t3 r) = (case filter (bit (barred_accs r)) [0..<8] of [] \<Rightarrow> 0 | n # _ \<Rightarrow> Suc n)"
proof -
  have "filter (bit (acc_ramp_get_barred_t3 r)) [0..<8] = filter (bit (barred_accs r)) [0..<8]"
    by (rule filter_cong) (simp_all add: bit_t3)
  then show ?thesis by (simp add: ffs_def find_filter split: list.split)
qed

lemma ffs_t2: "ffs (acc_ramp_get_barred_t2 r) =
    (case filter (\<lambda>n. bit (barred_accs r) (n + 8)) [0..<2] of [] \<Rightarrow> 0 | n # _ \<Rightarrow> Suc n)"
proof -
  have "[0..<8] = [0..<2] @ [2..<8 :: nat]" by (simp add: upt_rec numeral_eq_Suc)
  moreover have "filter (bit (acc_ramp_get_barred_t2 r)) [0..<2] = filter (\<lambda>n. bit (barred_accs r) (n + 8)) [0..<2]"
    by (rule filter_cong) (auto simp: bit_t2)
  moreover have "filter (bit (acc_ramp_get_barred_t2 r)) [2..<8] = []" by (auto simp: filter_empty_conv bit_t2)
  ultimately show ?thesis by (simp add: ffs_def find_filter split: list.split)
qed

lemma barred_empty: "barred r = [] \<longleftrightarrow> acc_ramp_get_barred_t2 r = 0 \<and> acc_ramp_get_barred_t3 r = 0"
proof -
  have "acc_ramp_get_barred_t3 r = 0 \<longleftrightarrow> (\<forall>n < 8. \<not> bit (barred_accs r) n)"
    by (simp add: bit_eq_iff bit_t3)
  moreover have "acc_ramp_get_barred_t2 r = 0 \<longleftrightarrow> (\<forall>n < 2. \<not> bit (barred_accs r) (n + 8))"
    by (auto simp: bit_eq_iff bit_t2)
  ultimately show ?thesis by (auto simp: barred_split filter_empty_conv)
qed

text \<open>One round of the loop takes the first class of the list.\<close>

lemma filter_upt_Cons: "filter P [0..<k] = b # bs \<Longrightarrow> b < k"
  by (metis atLeastLessThan_iff filter_is_subset list.set_intros(1) set_upt subsetD)

lemma ramp_loop_Cons:
  "barred r = acc # rest \<Longrightarrow>
     ramp_loop (Suc n) r = rbind (if \<not> acc_is_permanently_barred r acc then allow_one_acc acc r else Ok r) (ramp_loop n)"
  by (cases "filter (bit (barred_accs r)) [0..<8]"; cases "filter (\<lambda>n. bit (barred_accs r) (n + 8)) [0..<2]")
    (auto simp: barred_split ffs_t3 ffs_t2 Let_def dest: filter_upt_Cons)

lemma ramp_loop_Nil: "barred r = [] \<Longrightarrow> ramp_loop n r = Ok r"
  by (cases n) (auto simp: barred_split ffs_t3 ffs_t2 Let_def)

lemma perm_upd [simp]: "acc_is_permanently_barred (r\<lparr> barred_accs := b \<rparr>) acc = acc_is_permanently_barred r acc"
  by (simp add: acc_is_permanently_barred_def)

lemma barred_allow: "barred (r\<lparr> barred_accs := barred_accs r AND NOT (push_bit acc 1) \<rparr>) = filter (\<lambda>a. a \<noteq> acc) (barred r)"
  unfolding barred_def filter_filter by (rule filter_cong) (auto simp: bit_simps)

lemmas barred_allow_exp = barred_allow[unfolded push_bit_of_1]

lemma distinct_barred: "distinct (barred r)" "set (barred r) \<subseteq> {..9}"
  by (auto simp: barred_def)

text \<open>The state with other barred classes.\<close>

definition with_barred :: "acc_ramp \<Rightarrow> acc_ramp \<Rightarrow> bool" where
  "with_barred r r' \<longleftrightarrow> r' = r\<lparr> barred_accs := barred_accs r' \<rparr>"

lemma with_barred_trans: "with_barred r r1 \<Longrightarrow> with_barred r1 r2 \<Longrightarrow> with_barred r r2"
  by (cases r; cases r1; cases r2) (simp add: with_barred_def)

lemma with_barredD: "with_barred r r' \<Longrightarrow> step_size r' = step_size r \<and> step_timer r' = step_timer r \<and>
    acc_is_permanently_barred r' = acc_is_permanently_barred r \<and> acc_ramping_enabled r' = acc_ramping_enabled r"
  by (cases r; cases r') (auto simp: with_barred_def acc_is_permanently_barred_def fun_eq_iff)

lemma no_conflict_subset:
  "with_barred r r' \<Longrightarrow> no_conflict r \<Longrightarrow> set (barred r') \<subseteq> set (barred r) \<Longrightarrow> no_conflict r'"
  using with_barredD[of r r'] by (auto simp: no_conflict_def)

lemma ramp_loop_drop:
  assumes "no_conflict r"
  shows "\<exists>r'. ramp_loop n r = Ok r' \<and> with_barred r r' \<and> barred r' = drop n (barred r)"
  using assms
proof (induction n arbitrary: r)
  case 0
  show ?case by (simp add: with_barred_def)
next
  case (Suc n)
  show ?case
  proof (cases "barred r")
    case Nil
    then show ?thesis by (simp add: ramp_loop_Nil with_barred_def del: ramp_loop.simps)
  next
    case (Cons acc rest)
    let ?r = "r\<lparr> barred_accs := barred_accs r AND NOT (push_bit acc 1) \<rparr>"
    have np: "\<not> acc_is_permanently_barred r acc" and a9: "acc \<le> 9"
      using Suc.prems distinct_barred(2)[of r] Cons by (auto simp: no_conflict_def)
    have b: "barred ?r = rest" using distinct_barred(1)[of r] Cons by (auto simp: barred_allow_exp intro!: filter_True)
    have w: "with_barred r ?r" by (simp add: with_barred_def)
    have "no_conflict ?r" by (rule no_conflict_subset[OF w Suc.prems]) (unfold b Cons, auto)
    from Suc.IH[OF this] obtain r' where "ramp_loop n ?r = Ok r'" "with_barred ?r r'" "barred r' = drop n rest" using b by auto
    then show ?thesis using with_barred_trans[OF w] np a9 by (auto simp: ramp_loop_Cons[OF Cons] allow_one_acc_def osmo_assert_def Cons simp del: ramp_loop.simps)
  qed
qed

lemma allow_all_filter:
  "\<exists>r'. allow_all_accs r = Ok r' \<and> with_barred r r' \<and> barred r' = filter (acc_is_permanently_barred r) (barred r)"
proof -
  have "\<exists>r'. for_each accs (\<lambda>acc r. if \<not> acc_is_permanently_barred r acc then allow_one_acc acc r else Ok r) r = Ok r' \<and>
      with_barred r r' \<and> barred r' = filter (\<lambda>a. a \<in> set accs \<longrightarrow> acc_is_permanently_barred r a) (barred r)"
    if "set accs \<subseteq> {..9}" for accs
    using that
  proof (induction accs arbitrary: r)
    case Nil
    show ?case by (simp add: with_barred_def)
  next
    case (Cons acc accs)
    let ?r = "if \<not> acc_is_permanently_barred r acc then r\<lparr> barred_accs := barred_accs r AND NOT (push_bit acc 1) \<rparr> else r"
    have st: "(if \<not> acc_is_permanently_barred r acc then allow_one_acc acc r else Ok r) = Ok ?r"
      using Cons.prems by (simp add: allow_one_acc_def osmo_assert_def)
    have w: "with_barred r ?r" by (simp add: with_barred_def)
    have b: "barred ?r = filter (\<lambda>a. a = acc \<longrightarrow> acc_is_permanently_barred r a) (barred r)"
      by (auto simp: barred_allow_exp intro!: filter_cong filter_True[symmetric])
    obtain r' where r': "for_each accs (\<lambda>acc r. if \<not> acc_is_permanently_barred r acc then allow_one_acc acc r else Ok r) ?r = Ok r'"
      "with_barred ?r r'" "barred r' = filter (\<lambda>a. a \<in> set accs \<longrightarrow> acc_is_permanently_barred r a) (barred ?r)"
      using Cons.IH[of ?r] Cons.prems with_barredD[OF w] by auto
    have "for_each (acc # accs) (\<lambda>acc r. if \<not> acc_is_permanently_barred r acc then allow_one_acc acc r else Ok r) r = Ok r'"
      unfolding for_each.simps st rbind.simps by (rule r'(1))
    moreover have "barred r' = filter (\<lambda>a. a \<in> set (acc # accs) \<longrightarrow> acc_is_permanently_barred r a) (barred r)"
      unfolding r'(3) b filter_filter by (rule filter_cong) auto
    ultimately show ?case using with_barred_trans[OF w r'(2)] by blast
  qed
  from this[of "[0..<10]"] obtain r' where r': "allow_all_accs r = Ok r'" "with_barred r r'"
    "barred r' = filter (\<lambda>a. a \<in> set [0..<10] \<longrightarrow> acc_is_permanently_barred r a) (barred r)"
    by (force simp: allow_all_accs_def)
  moreover have "barred r' = filter (acc_is_permanently_barred r) (barred r)"
    unfolding r'(3) by (rule filter_cong) (auto simp: barred_def)
  ultimately show ?thesis by blast
qed

lemma barr_all_barred:
  "\<exists>r'. barr_all_accs r = Ok r' \<and> with_barred r r' \<and>
     barred r' = filter (\<lambda>a. bit (barred_accs r) a \<or> \<not> acc_is_permanently_barred r a) [0..<10]"
proof -
  let ?f = "\<lambda>acc r. if \<not> acc_is_permanently_barred r acc then barr_one_acc acc r else Ok r"
  have "\<exists>r'. for_each accs ?f r = Ok r' \<and> with_barred r r' \<and>
      (\<forall>a < 10. bit (barred_accs r') a \<longleftrightarrow> bit (barred_accs r) a \<or> a \<in> set accs \<and> \<not> acc_is_permanently_barred r a)"
    if "set accs \<subseteq> {..9}" for accs
    using that
  proof (induction accs arbitrary: r)
    case Nil
    show ?case by (simp add: with_barred_def)
  next
    case (Cons acc accs)
    let ?r = "if \<not> acc_is_permanently_barred r acc then r\<lparr> barred_accs := barred_accs r OR push_bit acc 1 \<rparr> else r"
    have st: "?f acc r = Ok ?r" using Cons.prems by (simp add: barr_one_acc_def osmo_assert_def)
    have w: "with_barred r ?r" by (simp add: with_barred_def)
    have b: "bit (barred_accs ?r) a \<longleftrightarrow> bit (barred_accs r) a \<or> a = acc \<and> \<not> acc_is_permanently_barred r a" if "a < 10" for a
      using that by (simp add: bit_or_iff bit_push_bit_iff bit_1_iff del: push_bit_of_1) auto
    obtain r' where r': "for_each accs ?f ?r = Ok r'" "with_barred ?r r'"
      "\<forall>a < 10. bit (barred_accs r') a \<longleftrightarrow> bit (barred_accs ?r) a \<or> a \<in> set accs \<and> \<not> acc_is_permanently_barred r a"
      using Cons.IH[of ?r] Cons.prems with_barredD[OF w] by auto
    have "for_each (acc # accs) ?f r = Ok r'" unfolding for_each.simps st rbind.simps by (rule r'(1))
    moreover have "\<forall>a < 10. bit (barred_accs r') a \<longleftrightarrow> bit (barred_accs r) a \<or> a \<in> set (acc # accs) \<and> \<not> acc_is_permanently_barred r a"
      using r'(3) b by auto
    ultimately show ?case using with_barred_trans[OF w r'(2)] by blast
  qed
  from this[of "[0..<10]"] obtain r' where r': "barr_all_accs r = Ok r'" "with_barred r r'"
    "\<forall>a < 10. bit (barred_accs r') a \<longleftrightarrow> bit (barred_accs r) a \<or> a \<in> set [0..<10] \<and> \<not> acc_is_permanently_barred r a"
    by (force simp: barr_all_accs_def)
  moreover have "barred r' = filter (\<lambda>a. bit (barred_accs r) a \<or> \<not> acc_is_permanently_barred r a) [0..<10]"
    unfolding barred_def by (rule filter_cong) (use r'(3) in auto)
  ultimately show ?thesis by blast
qed

section \<open>A ramping step\<close>

definition size_ok :: "acc_ramp \<Rightarrow> bool" where
  "size_ok r \<longleftrightarrow> 1 \<le> step_size r \<and> step_size r \<le> ACC_RAMP_STEP_SIZE_MAX"

lemma next_interval_keeps:
  "barred (snd (get_next_step_interval r)) = barred r" "no_conflict (snd (get_next_step_interval r)) = no_conflict r"
  "step_size (snd (get_next_step_interval r)) = step_size r" "step_timer (snd (get_next_step_interval r)) = step_timer r"
  by (auto simp: get_next_step_interval_def Let_def barred_def no_conflict_def acc_is_permanently_barred_def)

lemma other_fields:
  "barred (r\<lparr> step_timer := t \<rparr>) = barred r" "no_conflict (r\<lparr> step_timer := t \<rparr>) = no_conflict r"
  "barred (gsm_bts_set_system_infos r) = barred r" "no_conflict (gsm_bts_set_system_infos r) = no_conflict r"
  "step_size (gsm_bts_set_system_infos r) = step_size r" "step_timer (gsm_bts_set_system_infos r) = step_timer r"
  by (auto simp: gsm_bts_set_system_infos_def barred_def no_conflict_def acc_is_permanently_barred_def)

lemma ramping_step_core:
  assumes "no_conflict r" "size_ok r" "step_timer r = None"
  shows "\<exists>r'. do_acc_ramping_step r = Ok r' \<and> barred r' = drop (step_size r) (barred r) \<and>
    no_conflict r' \<and> step_size r' = step_size r \<and> (step_timer r' = None \<longleftrightarrow> barred r' = [])"
proof (cases "step_size r = ACC_RAMP_STEP_SIZE_MAX")
  case True
  obtain r1 where r1: "allow_all_accs r = Ok r1" "with_barred r r1" "barred r1 = filter (acc_is_permanently_barred r) (barred r)"
    using allow_all_filter by blast
  have e: "barred r1 = []" using assms(1) r1(3) by (simp add: no_conflict_def filter_empty_conv)
  have "length (barred r) \<le> 10" unfolding barred_def using length_filter_le[of "bit (barred_accs r)" "[0..<10]"] by simp
  with e r1 with_barredD[OF r1(2)] assms(3) True show ?thesis
    by (auto simp: do_acc_ramping_step_def other_fields no_conflict_def acc_consts)
next
  case False
  obtain r1 where r1: "ramp_loop (step_size r) r = Ok r1" "with_barred r r1" "barred r1 = drop (step_size r) (barred r)"
    using ramp_loop_drop[OF assms(1)] by blast
  have nc: "no_conflict r1" by (rule no_conflict_subset[OF r1(2) assms(1)]) (simp add: r1(3) set_drop_subset)
  show ?thesis
  proof (cases "barred r1 = []")
    case True
    then show ?thesis using r1 nc False with_barredD[OF r1(2)] assms(3) barred_empty[of "gsm_bts_set_system_infos r1"]
      by (simp add: do_acc_ramping_step_def other_fields Let_def)
  next
    case e: False
    let ?r = "gsm_bts_set_system_infos r1"
    have "do_acc_ramping_step r = Ok ((snd (get_next_step_interval ?r))\<lparr> step_timer := Some (fst (get_next_step_interval ?r)) \<rparr>)"
      using e False r1(1) barred_empty[of ?r] by (auto simp: do_acc_ramping_step_def other_fields Let_def case_prod_unfold)
    then show ?thesis using nc e r1 with_barredD[OF r1(2)] by (simp add: other_fields next_interval_keeps)
  qed
qed

text \<open>Property C36. A ramping step refines dropping from the list of barred classes: it allows the \<open>step_size\<close>
  lowest barred classes and no other, never fails an assertion, and schedules another step exactly
  when classes are left.\<close>

theorem ramping_step_drops:
  assumes "no_conflict r" "size_ok r" "step_timer r = None"
  shows "\<exists>r'. do_acc_ramping_step r = Ok r' \<and> barred r' = drop (step_size r) (barred r) \<and>
    no_conflict r' \<and> (step_timer r' = None \<longleftrightarrow> barred r' = [])"
  by (rule exE[OF ramping_step_core[OF assms]]) (elim conjE, intro exI conjI)

text \<open>The timer fires while it is pending.\<close>

fun fire_timers :: "nat \<Rightarrow> acc_ramp \<Rightarrow> acc_ramp res" where
  "fire_timers 0 r = Ok r"
| "fire_timers (Suc k) r = (if step_timer r = None then Ok r else rbind (step_timer_cb r) (fire_timers k))"

lemma fire_timers_done:
  assumes "no_conflict r" "size_ok r" "step_timer r = None \<longleftrightarrow> barred r = []" "length (barred r) \<le> k"
  shows "\<exists>r'. fire_timers k r = Ok r' \<and> barred r' = [] \<and> step_timer r' = None"
  using assms
proof (induction k arbitrary: r)
  case 0
  then show ?case by simp
next
  case (Suc k)
  show ?case
  proof (cases "step_timer r")
    case None
    then show ?thesis using Suc.prems by simp
  next
    case (Some t)
    let ?r = "r\<lparr> step_timer := None \<rparr>"
    have "no_conflict ?r" "size_ok ?r" "step_timer ?r = None" using Suc.prems by (simp_all add: other_fields size_ok_def)
    note core = ramping_step_core[OF this]
    obtain r1 where r1: "do_acc_ramping_step ?r = Ok r1" "barred r1 = drop (step_size ?r) (barred ?r)"
      "no_conflict r1" "step_size r1 = step_size ?r" "step_timer r1 = None \<longleftrightarrow> barred r1 = []"
      by (rule exE[OF core]) (elim conjE, rule that)
    have "length (barred r1) \<le> k" using Suc.prems(2,4) r1(2) by (auto simp: size_ok_def other_fields)
    with Suc.IH[of r1] r1 Suc.prems(2) obtain r' where "fire_timers k r1 = Ok r'" "barred r' = []" "step_timer r' = None"
      by (auto simp: size_ok_def)
    then show ?thesis using Some r1(1) by (simp add: step_timer_cb_def)
  qed
qed

text \<open>Property C37. Ramping always completes: unless the operator bars a class permanently while ramping has it
  barred, triggering the ramp and letting its timer expire at most nine times allows every class that
  is not permanently barred, and leaves no timer running.\<close>

theorem ramping_completes:
  assumes "no_conflict r" "size_ok r"
  shows "\<exists>r1 r2. acc_ramp_trigger r = Ok r1 \<and> fire_timers 9 r1 = Ok r2 \<and> barred r2 = [] \<and> step_timer r2 = None"
proof -
  obtain ra where ra: "acc_ramp_abort r = Ok ra" "with_barred (r\<lparr> step_timer := None \<rparr>) ra"
    "barred ra = filter (acc_is_permanently_barred (r\<lparr> step_timer := None \<rparr>)) (barred (r\<lparr> step_timer := None \<rparr>))"
    using allow_all_filter[of "r\<lparr> step_timer := None \<rparr>"] by (auto simp: acc_ramp_abort_def)
  have ba: "barred ra = []" using assms(1) ra(3) by (auto simp: no_conflict_def other_fields filter_empty_conv acc_is_permanently_barred_def)
  note wa = with_barredD[OF ra(2)]
  show ?thesis
  proof (cases "acc_ramping_enabled r")
    case False
    then show ?thesis using ra(1) ba wa by (auto simp: acc_ramp_trigger_def numeral_eq_Suc)
  next
    case True
    obtain rb where rb: "barr_all_accs ra = Ok rb" "with_barred ra rb"
      "barred rb = filter (\<lambda>a. bit (barred_accs ra) a \<or> \<not> acc_is_permanently_barred ra a) [0..<10]"
      using barr_all_barred by blast
    note wb = with_barredD[OF rb(2)]
    have nc: "no_conflict rb" using ba rb(3) wb by (auto simp: no_conflict_def barred_def filter_empty_conv)
    have so: "size_ok rb" using assms(2) wa wb by (simp add: size_ok_def)
    have le10: "length (barred rb) \<le> 10" unfolding barred_def using length_filter_le[of "bit (barred_accs rb)" "[0..<10]"] by simp
    have t: "step_timer rb = None" using wa wb by simp
    obtain r1 where r1: "do_acc_ramping_step rb = Ok r1" "barred r1 = drop (step_size rb) (barred rb)" "no_conflict r1"
      "step_size r1 = step_size rb" "step_timer r1 = None \<longleftrightarrow> barred r1 = []"
      by (rule exE[OF ramping_step_core[OF nc so t]]) (elim conjE, rule that)
    have "length (barred r1) \<le> 9" using r1(2) le10 so by (auto simp: size_ok_def)
    with fire_timers_done[OF r1(3) _ r1(5)] so r1(4) obtain r2 where "fire_timers 9 r1 = Ok r2" "barred r2 = []" "step_timer r2 = None"
      by (auto simp: size_ok_def)
    moreover have "acc_ramp_trigger r = Ok r1" using ra(1) rb(1) r1(1) True wa by (simp add: acc_ramp_trigger_def)
    ultimately show ?thesis by blast
  qed
qed

text \<open>A class that the operator bars permanently while ramping still has it barred stops the ramp:
  when it is the lowest barred class, a step allows nothing and schedules the next one, so all higher
  classes stay barred although the timer keeps running.\<close>

lemma permanently_barred_stops_ramp:
  assumes "barred r = acc # rest" "acc_is_permanently_barred r acc" "size_ok r" "step_size r \<noteq> ACC_RAMP_STEP_SIZE_MAX"
  shows "\<exists>r' s. do_acc_ramping_step r = Ok r' \<and> barred r' = barred r \<and> step_timer r' = Some s"
proof -
  have loop: "ramp_loop n r = Ok r" for n
    by (induction n) (simp_all add: ramp_loop_Cons[OF assms(1)] assms(2) del: ramp_loop.simps(2))
  let ?r = "gsm_bts_set_system_infos r"
  have "do_acc_ramping_step r = Ok ((snd (get_next_step_interval ?r))\<lparr> step_timer := Some (fst (get_next_step_interval ?r)) \<rparr>)"
    using assms(1,4) loop barred_empty[of ?r] by (auto simp: do_acc_ramping_step_def other_fields Let_def case_prod_unfold)
  then show ?thesis by (simp add: other_fields next_interval_keeps)
qed

text \<open>The step interval is not kept at its documented minimum of 30 seconds: with a channel load
  between 1 and 4 percent the dynamic interval is 6 to 24 seconds, because the code compares with the
  minimum step size instead of the minimum interval; without load it is 30 and it never exceeds 600.\<close>

lemma dynamic_interval_below_minimum:
  assumes "\<not> step_interval_is_fixed r"
  shows "fst (get_next_step_interval r) =
    (if chan_load_avg r = 0 then ACC_RAMP_STEP_INTERVAL_MIN else min (6 * unat (chan_load_avg r)) ACC_RAMP_STEP_INTERVAL_MAX) \<and>
    (1 \<le> unat (chan_load_avg r) \<and> unat (chan_load_avg r) \<le> 4 \<longrightarrow> fst (get_next_step_interval r) < ACC_RAMP_STEP_INTERVAL_MIN)"
proof -
  have l: "load * 256 * 600 div 100 div 256 = 6 * load" for load :: nat by simp
  show ?thesis using assms by (auto simp: get_next_step_interval_def Let_def acc_consts l unat_eq_zero min_def)
qed

section \<open>Configuration\<close>

text \<open>The setters keep the configuration in range: the step size between 1 and 10 and a fixed interval
  between 30 and 600 seconds, and they report -ERANGE and change nothing otherwise.\<close>

lemma acc_ramp_config_bounds:
  assumes "size_ok r" "step_interval_is_fixed r \<longrightarrow> 30 \<le> step_interval_sec r \<and> step_interval_sec r \<le> 600"
  shows "size_ok (snd (acc_ramp_set_step_size n r)) \<and>
    (fst (acc_ramp_set_step_size n r) = 0 \<longleftrightarrow> 1 \<le> n \<and> n \<le> 10) \<and>
    (fst (acc_ramp_set_step_size n r) \<noteq> 0 \<longrightarrow> snd (acc_ramp_set_step_size n r) = r) \<and>
    (step_interval_is_fixed (snd (acc_ramp_set_step_interval n r)) \<longrightarrow>
       30 \<le> step_interval_sec (snd (acc_ramp_set_step_interval n r)) \<and> step_interval_sec (snd (acc_ramp_set_step_interval n r)) \<le> 600) \<and>
    (fst (acc_ramp_set_step_interval n r) = 0 \<longleftrightarrow> 30 \<le> n \<and> n \<le> 600)"
  using assms by (auto simp: acc_ramp_set_step_size_def acc_ramp_set_step_interval_def size_ok_def acc_consts ERANGE_def)

definition example_ramp :: acc_ramp where
  "example_ramp = \<lparr> rach_t2 = 0, rach_t3 = 0x04, chan_load_avg = 3, acc_ramping_enabled = True, barred_accs = 0,
     step_size = 4, step_interval_sec = 30, step_interval_is_fixed = False, step_timer = None, si_updates = 0 \<rparr>"

lemma example_ramp_ok: "no_conflict example_ramp" "size_ok example_ramp" "barred example_ramp = []"
proof -
  show b: "barred example_ramp = []" by (simp add: barred_def example_ramp_def)
  show "no_conflict example_ramp" by (simp add: no_conflict_def b)
  show "size_ok example_ramp" by (simp add: size_ok_def example_ramp_def acc_consts)
qed

definition ramped :: acc_ramp where
  "ramped = example_ramp\<lparr> barred_accs := 0x3fb \<rparr>"

lemma ramped_ok: "barred ramped = [0, 1, 3, 4, 5, 6, 7, 8, 9]" "no_conflict ramped" "size_ok ramped"
  by (simp_all add: barred_def ramped_def example_ramp_def size_ok_def acc_consts) code_simp+

theorem ramping_step_drops_witness:
  "\<exists>r'. do_acc_ramping_step ramped = Ok r' \<and> barred r' = [5, 6, 7, 8, 9] \<and> step_timer r' \<noteq> None"
proof -
  have "step_timer ramped = None" "step_size ramped = 4" by (simp_all add: ramped_def example_ramp_def)
  then show ?thesis using ramping_step_drops[OF ramped_ok(2,3)] by (auto simp: ramped_ok(1))
qed

theorem ramping_completes_witness:
  "\<exists>r1 r2. acc_ramp_trigger example_ramp = Ok r1 \<and> fire_timers 9 r1 = Ok r2 \<and> barred r2 = [] \<and> step_timer r2 = None"
  by (rule ramping_completes[OF example_ramp_ok(1,2)])

end
