(* ===== verification/Meas_Rep.thy ===== *)
theory Meas_Rep
  imports Lchan_Fsm
begin

unbundle bit_operations_syntax

text \<open>
  Measurement reports: their reception (\<^verbatim>\<open>rsl_rx_meas_res\<close> and \<^verbatim>\<open>lchan_next_meas_rep\<close> of \<^verbatim>\<open>abis_rsl.c\<close>), the
  decoding of the layer 3 report (\<^verbatim>\<open>gsm48_parse_meas_rep\<close> of \<^verbatim>\<open>gsm_04_08_rr.c\<close>) and the averages over the
  ring buffer of the last reports (\<^verbatim>\<open>meas_rep.c\<close>).  The flags of a report are boolean fields.  The ring
  buffers are specified by the list of all values ever stored (\<open>ring\<close>).
\<close>

section \<open>Data\<close>

record gsm_meas_rep_unidir =
  full_rx_lev :: u8
  full_rx_qual :: u8
  sub_rx_lev :: u8
  sub_rx_qual :: u8

record gsm_meas_rep_cell =
  mc_rxlev :: u8
  mc_bsic :: u8
  mc_neigh_idx :: u8
  mc_arfcn :: u16
  mc_processed :: bool

record gsm_meas_rep =
  mr_nr :: u8
  F_UL_DTX :: bool
  F_DL_VALID :: bool
  F_BA1 :: bool
  F_DL_DTX :: bool
  F_MS_TO :: bool
  F_MS_L1 :: bool
  F_FPC :: bool
  mr_ul :: gsm_meas_rep_unidir
  mr_dl :: gsm_meas_rep_unidir
  mr_bs_power :: u8
  ms_timing_offset :: int
  ms_l1_pwr :: int
  ms_l1_ta :: u8
  mr_cells :: "gsm_meas_rep_cell list"

definition zero_unidir :: gsm_meas_rep_unidir where
  "zero_unidir = \<lparr> full_rx_lev = 0, full_rx_qual = 0, sub_rx_lev = 0, sub_rx_qual = 0 \<rparr>"

definition zero_meas_rep :: gsm_meas_rep where
  "zero_meas_rep = \<lparr> mr_nr = 0, F_UL_DTX = False, F_DL_VALID = False, F_BA1 = False, F_DL_DTX = False,
     F_MS_TO = False, F_MS_L1 = False, F_FPC = False, mr_ul = zero_unidir, mr_dl = zero_unidir, mr_bs_power = 0,
     ms_timing_offset = 0, ms_l1_pwr = 0, ms_l1_ta = 0, mr_cells = [] \<rparr>"

datatype meas_rep_field =
    MEAS_REP_DL_RXLEV_FULL | MEAS_REP_DL_RXLEV_SUB | MEAS_REP_DL_RXQUAL_FULL | MEAS_REP_DL_RXQUAL_SUB
  | MEAS_REP_UL_RXLEV_FULL | MEAS_REP_UL_RXLEV_SUB | MEAS_REP_UL_RXQUAL_FULL | MEAS_REP_UL_RXQUAL_SUB

definition MAX_MEAS_REP :: nat where "MAX_MEAS_REP = 10"

text \<open>The part of an lchan that keeps measurements.\<close>

record meas_lchan =
  meas_rep :: "gsm_meas_rep list"
  meas_rep_idx :: nat
  meas_rep_count :: nat
  last_seen_nr :: u8
  ml_rqd_ta :: u8

section \<open>Averages\<close>

fun get_field :: "gsm_meas_rep \<Rightarrow> meas_rep_field \<Rightarrow> int" where
  "get_field rep MEAS_REP_DL_RXLEV_FULL = (if \<not> F_DL_VALID rep then - EINVAL else uint (full_rx_lev (mr_dl rep)))"
| "get_field rep MEAS_REP_DL_RXLEV_SUB = (if \<not> F_DL_VALID rep then - EINVAL else uint (sub_rx_lev (mr_dl rep)))"
| "get_field rep MEAS_REP_DL_RXQUAL_FULL = (if \<not> F_DL_VALID rep then - EINVAL else uint (full_rx_qual (mr_dl rep)))"
| "get_field rep MEAS_REP_DL_RXQUAL_SUB = (if \<not> F_DL_VALID rep then - EINVAL else uint (sub_rx_qual (mr_dl rep)))"
| "get_field rep MEAS_REP_UL_RXLEV_FULL = uint (full_rx_lev (mr_ul rep))"
| "get_field rep MEAS_REP_UL_RXLEV_SUB = uint (sub_rx_lev (mr_ul rep))"
| "get_field rep MEAS_REP_UL_RXQUAL_FULL = uint (full_rx_qual (mr_ul rep))"
| "get_field rep MEAS_REP_UL_RXQUAL_SUB = uint (sub_rx_qual (mr_ul rep))"

text \<open>The result is an \<^verbatim>\<open>unsigned int\<close>.\<close>

definition calc_initial_idx :: "nat \<Rightarrow> nat \<Rightarrow> nat \<Rightarrow> nat" where
  "calc_initial_idx array_size idx num_values =
     (let offs = int idx - int num_values
      in nat ((if offs < 0 then int array_size + offs else offs) mod 2 ^ 32))"

text \<open>The values at the positions \<open>(idx + i) % N\<close>, with the addition of \<^verbatim>\<open>unsigned int\<close>.\<close>

definition ring_window :: "'a list \<Rightarrow> nat \<Rightarrow> nat \<Rightarrow> 'a list" where
  "ring_window arr pos num =
     (let idx = calc_initial_idx (length arr) pos num
      in map (\<lambda>i. arr ! ((idx + i) mod 2 ^ 32 mod length arr)) [0..<num])"

definition get_meas_rep_avg :: "meas_lchan \<Rightarrow> meas_rep_field \<Rightarrow> nat \<Rightarrow> int" where
  "get_meas_rep_avg lchan field num =
     (if num < 1 then - EINVAL
      else if num > meas_rep_count lchan then - EINVAL
      else let (avg, valid_num) =
             fold (\<lambda>rep (avg, valid_num).
                 let val = get_field rep field in
                 if val \<ge> 0 then (avg + val, valid_num + 1) else (avg, valid_num))
               (ring_window (meas_rep lchan) (meas_rep_idx lchan) num) (0, 0)
           in if valid_num = 0 then - EINVAL else avg sdiv valid_num)"

fun n_out_of_m :: "int list \<Rightarrow> nat \<Rightarrow> int \<Rightarrow> nat \<Rightarrow> bool" where
  "n_out_of_m [] n be count = False"
| "n_out_of_m (val # vals) n be count =
     (let count = (if val \<ge> be then count + 1 else count)
      in if count \<ge> n then True else n_out_of_m vals n be count)"

definition meas_rep_n_out_of_m_be :: "meas_lchan \<Rightarrow> meas_rep_field \<Rightarrow> nat \<Rightarrow> nat \<Rightarrow> int \<Rightarrow> bool" where
  "meas_rep_n_out_of_m_be lchan field n m be =
     n_out_of_m (map (\<lambda>rep. get_field rep field) (ring_window (meas_rep lchan) (meas_rep_idx lchan) m)) n be 0"

section \<open>Decoding of the report\<close>

text \<open>
  The layer 3 report after its header.  \<open>nth_neigh\<close> is \<^verbatim>\<open>bitvec_get_nth_set_bit\<close> on the neighbor list of
  the BTS.  The code does not check the length of the message; \<^const>\<open>None\<close> is a read past its end.
\<close>

definition cell_at :: "(nat \<Rightarrow> u16) \<Rightarrow> u8 \<Rightarrow> u8 \<Rightarrow> u8 \<Rightarrow> gsm_meas_rep_cell" where
  "cell_at nth_neigh rxlev idx bsic = \<lparr> mc_rxlev = rxlev, mc_bsic = bsic, mc_neigh_idx = idx,
     mc_arfcn = nth_neigh (unat idx + 1), mc_processed = False \<rparr>"

definition parse_cell :: "(nat \<Rightarrow> u16) \<Rightarrow> u8 list \<Rightarrow> nat \<Rightarrow> gsm_meas_rep_cell" where
  "parse_cell nth_neigh d k =
     (if k = 0 then cell_at nth_neigh (d!3 AND 0x3f) (drop_bit 3 (d!4)) (push_bit 3 (d!4 AND 0x07) OR drop_bit 5 (d!5))
      else if k = 1 then cell_at nth_neigh (push_bit 1 (d!5 AND 0x1f) OR drop_bit 7 (d!6)) (drop_bit 2 (d!6) AND 0x1f)
             (push_bit 4 (d!6 AND 0x03) OR drop_bit 4 (d!7))
      else if k = 2 then cell_at nth_neigh (push_bit 2 (d!7 AND 0x0f) OR drop_bit 6 (d!8)) (drop_bit 1 (d!8) AND 0x1f)
             (push_bit 5 (d!8 AND 0x01) OR drop_bit 3 (d!9))
      else if k = 3 then cell_at nth_neigh (push_bit 3 (d!9 AND 0x07) OR drop_bit 5 (d!10)) (d!10 AND 0x1f) (drop_bit 2 (d!11))
      else if k = 4 then cell_at nth_neigh (push_bit 4 (d!11 AND 0x03) OR drop_bit 4 (d!12))
             (push_bit 1 (d!12 AND 0xf) OR drop_bit 7 (d!13)) (drop_bit 1 (d!13) AND 0x3f)
      else cell_at nth_neigh (push_bit 5 (d!13 AND 0x01) OR drop_bit 3 (d!14))
             (push_bit 2 (d!14 AND 0x07) OR drop_bit 6 (d!15)) (d!15 AND 0x3f))"

definition cell_end :: "nat \<Rightarrow> nat" where
  "cell_end n = [4, 6, 8, 10, 12, 14, 16] ! n"

definition num_cells :: "u8 list \<Rightarrow> nat" where
  "num_cells d = (let n = unat ((drop_bit 6 (d!3) AND 0x3) OR push_bit 2 (d!2 AND 0x01)) in if n < 1 \<or> n > 6 then 0 else n)"

definition gsm48_parse_meas_rep :: "(nat \<Rightarrow> u16) \<Rightarrow> bool \<Rightarrow> u8 list \<Rightarrow> gsm_meas_rep \<Rightarrow> (int \<times> gsm_meas_rep) option" where
  "gsm48_parse_meas_rep nth_neigh is_meas_rep d rep =
     (if \<not> is_meas_rep then Some (- EINVAL, rep)
      else if length d < 4 \<or> length d < cell_end (num_cells d) then None
      else Some (0, rep\<lparr>
             F_BA1 := F_BA1 rep \<or> d!0 AND 0x80 \<noteq> 0,
             F_UL_DTX := F_UL_DTX rep \<or> d!0 AND 0x40 \<noteq> 0,
             F_DL_VALID := F_DL_VALID rep \<or> d!1 AND 0x40 = 0,
             mr_dl := \<lparr> full_rx_lev = d!0 AND 0x3f, full_rx_qual = drop_bit 4 (d!2) AND 0x7,
                        sub_rx_lev = d!1 AND 0x3f, sub_rx_qual = drop_bit 1 (d!2) AND 0x7 \<rparr>,
             mr_cells := map (parse_cell nth_neigh d) [0..<num_cells d] \<rparr>))"

section \<open>Reception\<close>

definition lchan_next_meas_rep :: "meas_lchan \<Rightarrow> nat \<times> meas_lchan" where
  "lchan_next_meas_rep lchan =
     (meas_rep_idx lchan, lchan\<lparr> meas_rep := (meas_rep lchan)[meas_rep_idx lchan := zero_meas_rep],
        meas_rep_idx := (meas_rep_idx lchan + 1) mod length (meas_rep lchan) \<rparr>)"

text \<open>The elements of the message; the conversion \<^verbatim>\<open>ms_pwr_dbm\<close> is an argument.\<close>

record meas_res_ies =
  ie_meas_res_nr :: "u8 option"
  ie_uplink_meas :: "u8 list option"
  ie_bs_power :: "u8 option"
  ie_ms_timing_offset :: "u8 option"
  ie_l1_info :: "(u8 \<times> u8) option"
  ie_l3_info :: "(bool \<times> u8 list) option"

record meas_env =
  e_may_receive :: bool
  e_ta_shifted :: bool
  e_ms_pwr_dbm :: "u8 \<Rightarrow> int"
  e_nth_neigh :: "nat \<Rightarrow> u16"

definition fill_uplink :: "u8 list \<Rightarrow> gsm_meas_rep \<Rightarrow> gsm_meas_rep" where
  "fill_uplink val mr =
     (if length val \<ge> 3 then
        mr\<lparr> F_DL_DTX := F_DL_DTX mr \<or> val!0 AND 0x40 \<noteq> 0,
            mr_ul := \<lparr> full_rx_lev = val!0 AND 0x3f, full_rx_qual = drop_bit 3 (val!2) AND 0x7,
                       sub_rx_lev = val!1 AND 0x3f, sub_rx_qual = val!2 AND 0x7 \<rparr> \<rparr>
      else mr)"

definition EIO :: int where "EIO = 5"

text \<open>The code and the lchan; \<^const>\<open>None\<close> is the read past the end of the layer 3 report.\<close>

definition rsl_rx_meas_res :: "meas_env \<Rightarrow> meas_res_ies \<Rightarrow> meas_lchan \<Rightarrow> (int \<times> meas_lchan) option" where
  "rsl_rx_meas_res env ies lchan0 =
     (let (k, lchan) = lchan_next_meas_rep lchan0 in
      if \<not> e_may_receive env then Some (0, lchan)
      else case (ie_meas_res_nr ies, ie_uplink_meas ies, ie_bs_power ies) of
        (Some nr, Some ul, Some bsp) \<Rightarrow>
          (let mr = (fill_uplink ul (zero_meas_rep\<lparr> mr_nr := nr \<rparr>))\<lparr> mr_bs_power := bsp \<rparr>;
               mr = (case ie_ms_timing_offset ies of None \<Rightarrow> mr
                     | Some t \<Rightarrow> mr\<lparr> ms_timing_offset := uint t - 63, F_MS_TO := True \<rparr>);
               (mr, lchan) = (case ie_l1_info ies of None \<Rightarrow> (mr, lchan)
                     | Some (v0, v1) \<Rightarrow>
                         (let ta = (if e_ta_shifted env then drop_bit 2 v1 else v1)
                          in (mr\<lparr> F_MS_L1 := True, ms_l1_pwr := e_ms_pwr_dbm env (drop_bit 3 v0),
                                  F_FPC := F_FPC mr \<or> v0 AND 0x04 \<noteq> 0, ms_l1_ta := ta \<rparr>,
                              lchan\<lparr> ml_rqd_ta := ta \<rparr>)))
           in (case ie_l3_info ies of None \<Rightarrow> Some (0, mr)
               | Some (is_mr, d) \<Rightarrow> gsm48_parse_meas_rep (e_nth_neigh env) is_mr d mr) \<bind> (\<lambda>(rc, mr).
              let lchan = lchan\<lparr> meas_rep := (meas_rep lchan)[k := mr] \<rparr>
              in if rc < 0 then Some (rc, lchan)
                 else Some (0, lchan\<lparr> meas_rep_count := meas_rep_count lchan + 1, last_seen_nr := mr_nr mr \<rparr>)))
      | _ \<Rightarrow> Some (- EIO, lchan))"

section \<open>Ring buffers\<close>

text \<open>
  A ring buffer of \<open>N\<close> entries holds the last \<open>N\<close> values of its history \<open>h\<close>; the next value goes to
  position \<open>length h mod N\<close>.
\<close>

definition ring :: "'a list \<Rightarrow> nat \<Rightarrow> 'a list \<Rightarrow> bool" where
  "ring arr pos h \<longleftrightarrow> length arr > 0 \<and> pos = length h mod length arr \<and>
     (\<forall>p. p < length h \<longrightarrow> length h \<le> p + length arr \<longrightarrow> arr ! (p mod length arr) = h ! p)"

lemma ring_push:
  assumes "ring arr pos h"
  shows "ring (arr[pos := v]) ((pos + 1) mod length arr) (h @ [v])"
proof -
  let ?N = "length arr"
  have N: "?N > 0" and pos: "pos = length h mod ?N" using assms by (auto simp: ring_def)
  have "arr[pos := v] ! (p mod ?N) = (h @ [v]) ! p" if p: "p < length h + 1" "length h + 1 \<le> p + ?N" for p
  proof (cases "p = length h")
    case True
    then show ?thesis using N by (simp add: pos)
  next
    case False
    then have lt: "p < length h" "length h < p + ?N" using p by auto
    have "p mod ?N \<noteq> length h mod ?N"
    proof
      assume "p mod ?N = length h mod ?N"
      then have "?N dvd (length h - p)" using lt(1) by (metis mod_eq_dvd_iff_nat less_imp_le)
      then have "?N \<le> length h - p" using lt(1) by (auto dest: dvd_imp_le)
      then show False using lt by simp
    qed
    then show ?thesis using assms lt by (auto simp: ring_def pos nth_append)
  qed
  moreover have "(pos + 1) mod ?N = (length h + 1) mod ?N" by (simp add: pos mod_Suc_eq)
  ultimately show ?thesis using N by (auto simp: ring_def)
qed

lemma ring_window_last:
  assumes "ring arr pos h" "num \<le> length arr" "num \<le> length h" "length arr < 2 ^ 31"
  shows "ring_window arr pos num = drop (length h - num) h"
proof -
  let ?N = "length arr" and ?i0 = "calc_initial_idx (length arr) pos num"
  have N: "?N > 0" and pos: "pos = length h mod ?N" "pos < ?N" using assms(1) by (auto simp: ring_def)
  have i0: "?i0 = (if pos < num then ?N + pos - num else pos - num)"
    using assms(2,4) pos(2) by (auto simp: calc_initial_idx_def Let_def nat_eq_iff of_nat_diff)
  have cong: "(?i0 + i) mod 2 ^ 32 mod ?N = (length h - num + i) mod ?N" if "i < num" for i
  proof -
    have "?i0 + i < 2 ^ 32" using that assms(2,4) pos(2) by (auto simp: i0 split: if_splits)
    moreover have "(?i0 + i) mod ?N = (length h - num + i) mod ?N"
    proof -
      obtain q where q: "length h = q * ?N + pos" using div_mult_mod_eq[of "length h" ?N] pos(1) by metis
      show ?thesis
      proof (cases "pos < num")
        case True
        then obtain q' where "q = Suc q'" using q assms(3) by (cases q) auto
        then have "length h - num + i = q' * ?N + (?i0 + i)" using q True assms(2) i0 by simp
        then show ?thesis by (simp only: mod_mult_self3)
      next
        case False
        then have "length h - num + i = q * ?N + (?i0 + i)" using q i0 by simp
        then show ?thesis by (simp only: mod_mult_self3)
      qed
    qed
    ultimately show ?thesis by simp
  qed
  show ?thesis
  proof (rule nth_equalityI)
    show "length (ring_window arr pos num) = length (drop (length h - num) h)" using assms(3) by (simp add: ring_window_def)
    fix i assume "i < length (ring_window arr pos num)"
    then have i: "i < num" by (simp add: ring_window_def)
    have "arr ! ((length h - num + i) mod ?N) = h ! (length h - num + i)"
      using assms(1-3) i by (auto simp: ring_def)
    then show "ring_window arr pos num ! i = drop (length h - num) h ! i"
      using i assms(3) cong[OF i] by (simp add: ring_window_def Let_def)
  qed
qed

section \<open>The history of an lchan\<close>

text \<open>
  The interface of a component that keeps a history in a ring buffer: what it stores and how it
  stores a value.
\<close>

locale history =
  fixes buf :: "'s \<Rightarrow> 'v list" and pos :: "'s \<Rightarrow> nat" and store :: "'v \<Rightarrow> 's \<Rightarrow> 's" and size :: nat
  assumes store_buf: "length (buf s) = size \<Longrightarrow> buf (store v s) = (buf s)[pos s := v]"
    and store_pos: "length (buf s) = size \<Longrightarrow> pos (store v s) = (pos s + 1) mod size"
    and size_bound: "0 < size" "size < 2 ^ 31"
begin

definition holds :: "'s \<Rightarrow> 'v list \<Rightarrow> bool" where
  "holds s h \<longleftrightarrow> length (buf s) = size \<and> ring (buf s) (pos s) h"

lemma holds_init: "length (buf s) = size \<Longrightarrow> pos s = 0 \<Longrightarrow> holds s []"
  using size_bound by (simp add: holds_def ring_def)

lemma holds_store: "holds s h \<Longrightarrow> holds (store v s) (h @ [v])"
  using ring_push[of "buf s" "pos s" h v] by (simp add: holds_def store_buf store_pos)

lemma window: "holds s h \<Longrightarrow> n \<le> size \<Longrightarrow> n \<le> length h \<Longrightarrow> ring_window (buf s) (pos s) n = drop (length h - n) h"
  using ring_window_last[of "buf s" "pos s" h n] size_bound by (simp add: holds_def)

end

text \<open>Storing a report in the slot taken for it.\<close>

definition store_rep :: "gsm_meas_rep \<Rightarrow> meas_lchan \<Rightarrow> meas_lchan" where
  "store_rep mr lchan = (case lchan_next_meas_rep lchan of (k, l) \<Rightarrow> l\<lparr> meas_rep := (meas_rep l)[k := mr] \<rparr>)"

interpretation reps: history meas_rep meas_rep_idx store_rep MAX_MEAS_REP
  by unfold_locales (simp_all add: store_rep_def lchan_next_meas_rep_def MAX_MEAS_REP_def)

definition keeps :: "meas_lchan \<Rightarrow> gsm_meas_rep list \<Rightarrow> bool" where
  "keeps lchan h \<longleftrightarrow> length (meas_rep lchan) = MAX_MEAS_REP \<and> ring (meas_rep lchan) (meas_rep_idx lchan) h"

lemma keeps_holds: "keeps lchan h = reps.holds lchan h"
  by (simp add: keeps_def reps.holds_def)

definition valid_vals :: "meas_rep_field \<Rightarrow> gsm_meas_rep list \<Rightarrow> int list" where
  "valid_vals f reps = filter (\<lambda>v. v \<ge> 0) (map (\<lambda>rep. get_field rep f) reps)"

lemma avg_fold:
  "fold (\<lambda>rep (avg, valid_num). let val = get_field rep f in
       if val \<ge> 0 then (avg + val, valid_num + 1) else (avg, valid_num)) reps (a, n) =
     (a + sum_list (valid_vals f reps), n + int (length (valid_vals f reps)))"
  by (induction reps arbitrary: a n) (auto simp: valid_vals_def Let_def)

text \<open>Property C38. The average over a window is the average of what was reported: for a window of at most ten
  reports that were counted, \<^verbatim>\<open>get_meas_rep_avg\<close> reads exactly the last \<open>n\<close> reports of the history, wherever
  the ring buffer stands, and returns the rounded average of the valid values, or -EINVAL if none is.\<close>

theorem meas_rep_avg_of_history:
  assumes "keeps lchan h" "1 \<le> n" "n \<le> MAX_MEAS_REP" "n \<le> length h" "n \<le> meas_rep_count lchan"
  shows "get_meas_rep_avg lchan f n =
    (let vals = valid_vals f (drop (length h - n) h)
     in if vals = [] then - EINVAL else sum_list vals div int (length vals))"
proof -
  have w: "ring_window (meas_rep lchan) (meas_rep_idx lchan) n = drop (length h - n) h"
    using assms(1,3,4) by (simp add: keeps_holds reps.window)
  have "sum_list (valid_vals f xs) \<ge> 0" for xs by (induction xs) (auto simp: valid_vals_def)
  then show ?thesis using assms(2,5) unfolding get_meas_rep_avg_def w avg_fold by (simp add: Let_def)
qed

lemma n_out_of_m_count: "k < n \<Longrightarrow> n_out_of_m vals n be k \<longleftrightarrow> n \<le> k + length (filter (\<lambda>v. v \<ge> be) vals)"
  by (induction vals arbitrary: k) (auto simp: Let_def)

text \<open>The quality check counts: \<^verbatim>\<open>meas_rep_n_out_of_m_be\<close> holds exactly when at least \<open>n\<close> of the last
  \<open>m\<close> values of the history reach the bound, for up to ten values that exist.\<close>

lemma n_out_of_m_of_history:
  assumes "keeps lchan h" "1 \<le> n" "m \<le> MAX_MEAS_REP" "m \<le> length h"
  shows "meas_rep_n_out_of_m_be lchan f n m be \<longleftrightarrow>
    n \<le> length (filter (\<lambda>rep. get_field rep f \<ge> be) (drop (length h - m) h))"
proof -
  have w: "ring_window (meas_rep lchan) (meas_rep_idx lchan) m = drop (length h - m) h"
    using assms(1,3,4) by (simp add: keeps_holds reps.window)
  show ?thesis using assms(2) by (simp add: meas_rep_n_out_of_m_be_def w n_out_of_m_count filter_map o_def)
qed

section \<open>Reception and decoding\<close>

lemma keeps_store: "keeps lchan h \<Longrightarrow> keeps (store_rep mr lchan) (h @ [mr])"
  using reps.holds_store by (simp add: keeps_holds)

lemma keeps_cong: "meas_rep l = meas_rep l' \<Longrightarrow> meas_rep_idx l = meas_rep_idx l' \<Longrightarrow> keeps l h = keeps l' h"
  by (simp add: keeps_def)

text \<open>A complete measurement result is stored at the end of the history with its number, is counted and
  becomes the last one seen.\<close>

lemma rx_meas_res_stores:
  assumes "keeps lchan h" "rsl_rx_meas_res env ies lchan = Some (0, lchan')" "e_may_receive env"
  shows "\<exists>mr. keeps lchan' (h @ [mr]) \<and> meas_rep_count lchan' = meas_rep_count lchan + 1 \<and>
    last_seen_nr lchan' = mr_nr mr \<and> ie_meas_res_nr ies = Some (mr_nr mr)"
proof -
  obtain nr ul bsp where ies: "ie_meas_res_nr ies = Some nr" "ie_uplink_meas ies = Some ul" "ie_bs_power ies = Some bsp"
    using assms(2,3)
    by (cases "ie_meas_res_nr ies"; cases "ie_uplink_meas ies"; cases "ie_bs_power ies")
      (simp_all add: rsl_rx_meas_res_def EIO_def lchan_next_meas_rep_def)
  have parse: "mr_nr mr' = mr_nr mr0" if "gsm48_parse_meas_rep nb b d mr0 = Some (rc, mr')" for nb b d mr0 rc mr'
    using that by (auto simp: gsm48_parse_meas_rep_def split: if_splits)
  have "\<exists>mr. meas_rep lchan' = meas_rep (store_rep mr lchan) \<and> meas_rep_idx lchan' = meas_rep_idx (store_rep mr lchan) \<and>
      meas_rep_count lchan' = meas_rep_count lchan + 1 \<and> last_seen_nr lchan' = mr_nr mr \<and> mr_nr mr = nr"
    using assms(2,3) ies
    by (auto simp: rsl_rx_meas_res_def store_rep_def lchan_next_meas_rep_def Let_def fill_uplink_def bind_eq_Some_conv split: option.splits prod.splits if_splits
        dest!: parse)
  then show ?thesis using keeps_store[OF assms(1)] keeps_cong ies(1) by metis
qed

text \<open>A discarded measurement result is not without effect: a message for an lchan that may not receive
  data, or without its mandatory elements, is not counted, but an empty report has already replaced
  the oldest one in the history, and its uplink level 0 takes part in later averages.\<close>

lemma discarded_report_enters_history:
  assumes "keeps lchan h"
    "\<not> e_may_receive env \<or> ie_meas_res_nr ies = None \<or> ie_uplink_meas ies = None \<or> ie_bs_power ies = None"
  shows "\<exists>rc lchan'. rsl_rx_meas_res env ies lchan = Some (rc, lchan') \<and> keeps lchan' (h @ [zero_meas_rep]) \<and>
    meas_rep_count lchan' = meas_rep_count lchan \<and> get_field zero_meas_rep MEAS_REP_UL_RXLEV_FULL = 0"
proof -
  let ?l = "snd (lchan_next_meas_rep lchan)"
  have "store_rep zero_meas_rep lchan = ?l" by (simp add: store_rep_def lchan_next_meas_rep_def)
  then have "keeps ?l (h @ [zero_meas_rep])" using assms(1) reps.holds_store[of lchan h zero_meas_rep] by (simp add: keeps_holds)
  moreover have "meas_rep_count ?l = meas_rep_count lchan" by (simp add: lchan_next_meas_rep_def)
  moreover have "\<exists>rc. rsl_rx_meas_res env ies lchan = Some (rc, ?l)"
    using assms(2) by (auto simp: rsl_rx_meas_res_def case_prod_unfold Let_def split: option.splits)
  ultimately show ?thesis by (auto simp: zero_meas_rep_def zero_unidir_def)
qed

text \<open>Bit \<open>p\<close> of a message, counted from the most significant bit of its first octet.\<close>

definition msg_bit :: "u8 list \<Rightarrow> nat \<Rightarrow> bool" where
  "msg_bit d p \<longleftrightarrow> bit (d ! (p div 8)) (7 - p mod 8)"

text \<open>The field of \<open>len\<close> bits that starts at bit \<open>off\<close>.\<close>

definition msg_field :: "u8 list \<Rightarrow> nat \<Rightarrow> nat \<Rightarrow> u8 \<Rightarrow> bool" where
  "msg_field d off len v \<longleftrightarrow> (\<forall>k < 8. bit v k \<longleftrightarrow> k < len \<and> msg_bit d (off + (len - 1 - k)))"

lemma all_less_8: "(\<forall>k < 8. P k) \<longleftrightarrow> P 0 \<and> P 1 \<and> P 2 \<and> P 3 \<and> P 4 \<and> P 5 \<and> P 6 \<and> P (7::nat)"
proof -
  have "{..<8} = {0, 1, 2, 3, 4, 5, 6, 7 :: nat}" by auto
  moreover have "(\<forall>k < 8. P k) \<longleftrightarrow> (\<forall>k \<in> {..<8}. P k)" by auto
  ultimately show ?thesis by simp
qed

lemma bit_u8_high: "8 \<le> n \<Longrightarrow> \<not> bit (w :: u8) n"
  using bit_imp_le_length[of w n] by auto

text \<open>The decoding of a measurement report equals a plain reading of its bits: each of the up to six
  neighbor cells is a field of 17 bits from bit 26 on, 6 bits of level, 5 bits of index into the
  neighbor list and 6 bits of BSIC.\<close>

lemma parse_cell_bits:
  assumes "k < 6"
  shows "msg_field d (26 + 17 * k) 6 (mc_rxlev (parse_cell nb d k)) \<and>
    msg_field d (32 + 17 * k) 5 (mc_neigh_idx (parse_cell nb d k)) \<and>
    msg_field d (37 + 17 * k) 6 (mc_bsic (parse_cell nb d k))"
proof -
  have "k = 0 \<or> k = 1 \<or> k = 2 \<or> k = 3 \<or> k = 4 \<or> k = 5" using assms by auto
  then show ?thesis
    by (elim disjE; simp add: parse_cell_def cell_at_def msg_field_def msg_bit_def all_less_8 bit_simps bit_u8_high
        numeral_2_eq_2[symmetric] numeral_3_eq_3[symmetric] del: push_bit_Suc)
qed

definition example_reps :: meas_lchan where
  "example_reps = \<lparr> meas_rep = replicate 10 zero_meas_rep, meas_rep_idx = 0, meas_rep_count = 0, last_seen_nr = 255, ml_rqd_ta = 0 \<rparr>"

definition ul_rep :: "u8 \<Rightarrow> gsm_meas_rep" where
  "ul_rep v = zero_meas_rep\<lparr> mr_ul := zero_unidir\<lparr> full_rx_lev := v \<rparr> \<rparr>"

definition two_reps :: meas_lchan where
  "two_reps = (store_rep (ul_rep 30) (store_rep (ul_rep 21) example_reps))\<lparr> meas_rep_count := 2 \<rparr>"

lemma example_reps_keeps: "keeps example_reps []" "keeps two_reps [ul_rep 21, ul_rep 30]"
proof -
  show e: "keeps example_reps []" by (simp add: keeps_def ring_def example_reps_def MAX_MEAS_REP_def)
  show "keeps two_reps [ul_rep 21, ul_rep 30]"
    using keeps_store[OF keeps_store[OF e, of "ul_rep 21"], of "ul_rep 30"] by (simp add: two_reps_def keeps_def)
qed

theorem meas_rep_avg_of_history_witness: "get_meas_rep_avg two_reps MEAS_REP_UL_RXLEV_FULL 2 = 25"
  using meas_rep_avg_of_history[OF example_reps_keeps(2), of 2 MEAS_REP_UL_RXLEV_FULL]
  by (simp add: MAX_MEAS_REP_def two_reps_def valid_vals_def ul_rep_def)

definition example_env :: meas_env where
  "example_env = \<lparr> e_may_receive = True, e_ta_shifted = False, e_ms_pwr_dbm = (\<lambda>_. 0), e_nth_neigh = of_nat \<rparr>"

definition example_ies :: meas_res_ies where
  "example_ies = \<lparr> ie_meas_res_nr = Some 7, ie_uplink_meas = Some [20, 20, 0], ie_bs_power = Some 0,
     ie_ms_timing_offset = None, ie_l1_info = None, ie_l3_info = None \<rparr>"

end
