(* ===== verification/Handover_Decision.thy ===== *)
theory Handover_Decision
  imports Meas_Rep
begin

text \<open>
  Handover decision algorithm 1, \<^verbatim>\<open>handover_decision.c\<close>: the table of measured neighbor cells of an
  lchan, its update from a measurement report, and the decision whether and where to hand over.  The
  handover configuration (\<^verbatim>\<open>handover_cfg.c\<close>) is a chain of levels that inherit unset values;
  \<^verbatim>\<open>rxlev2dbm\<close> of libosmocore is an argument.
\<close>

section \<open>Configuration\<close>

text \<open>
  One member of the configuration on its levels, the most specific one first; \<^const>\<open>None\<close> where it is not
  set.  All members are generated by one macro.
\<close>

type_synonym 'a ho_levels = "'a option list"

fun ho_get :: "'a \<Rightarrow> 'a ho_levels \<Rightarrow> 'a" where
  "ho_get dflt [] = dflt"
| "ho_get dflt (v # higher) = (case v of Some x \<Rightarrow> x | None \<Rightarrow> ho_get dflt higher)"

definition ho_set :: "'a \<Rightarrow> 'a ho_levels \<Rightarrow> 'a ho_levels" where
  "ho_set x ls = Some x # tl ls"

definition ho_isset :: "'a ho_levels \<Rightarrow> bool" where
  "ho_isset ls = (hd ls \<noteq> None)"

definition ho_clear :: "'a ho_levels \<Rightarrow> 'a ho_levels" where
  "ho_clear ls = None # tl ls"

fun ho_isset_on_parent :: "'a ho_levels \<Rightarrow> bool" where
  "ho_isset_on_parent [] = False"
| "ho_isset_on_parent [v] = False"
| "ho_isset_on_parent (v # p # higher) = (ho_isset (p # higher) \<or> ho_isset_on_parent (p # higher))"

record hodec1_cfg =
  ho_active :: bool
  ho_algorithm :: nat
  hodec1_rxlev_avg_win :: nat
  hodec1_rxlev_neigh_avg_win :: nat
  hodec1_pwr_interval :: nat
  hodec1_pwr_hysteresis :: nat
  hodec1_max_distance :: nat

section \<open>Neighbors\<close>

definition MAX_NEIGH_MEAS :: nat where "MAX_NEIGH_MEAS = 10"
definition MAX_WIN_NEIGH_AVG :: nat where "MAX_WIN_NEIGH_AVG = 10"

record neigh_meas_proc =
  nm_arfcn :: u16
  nm_bsic :: u8
  nm_rxlev :: "u8 list"
  nm_rxlev_cnt :: nat
  nm_last_seen_nr :: u8

text \<open>The level of a cell in a report, if it is there, and the report with the cell marked.\<close>

definition rxlev_for_cell_in_rep :: "gsm_meas_rep \<Rightarrow> u16 \<Rightarrow> u8 \<Rightarrow> u8 option \<times> gsm_meas_rep" where
  "rxlev_for_cell_in_rep mr arfcn bsic =
     (case find (\<lambda>i. mc_arfcn (mr_cells mr ! i) = arfcn \<and> mc_bsic (mr_cells mr ! i) = bsic) [0..<length (mr_cells mr)] of
        None \<Rightarrow> (None, mr)
      | Some i \<Rightarrow> (Some (mc_rxlev (mr_cells mr ! i)),
                  mr\<lparr> mr_cells := (mr_cells mr)[i := (mr_cells mr ! i)\<lparr> mc_processed := True \<rparr>] \<rparr>))"

definition neigh_meas_avg :: "neigh_meas_proc \<Rightarrow> nat \<Rightarrow> int" where
  "neigh_meas_avg nmp window0 =
     (let window = (if window0 > nm_rxlev_cnt nmp then nm_rxlev_cnt nmp else window0) in
      if window = 0 then 0
      else let vals = ring_window (nm_rxlev nmp) (nm_rxlev_cnt nmp mod length (nm_rxlev nmp)) window
           in fold (\<lambda>v avg. avg + uint v) vals 0 sdiv int window)"

fun worst_neigh :: "neigh_meas_proc list \<Rightarrow> nat \<Rightarrow> (nat \<times> int) option \<Rightarrow> (nat \<times> int) option" where
  "worst_neigh [] j acc = acc"
| "worst_neigh (nmp # ns) j acc =
     (let avg = neigh_meas_avg nmp MAX_WIN_NEIGH_AVG
      in worst_neigh ns (Suc j)
           (case acc of None \<Rightarrow> Some (j, avg) | Some (k, worst) \<Rightarrow> if avg < worst then Some (j, avg) else acc))"

definition find_evict_neigh :: "neigh_meas_proc list \<Rightarrow> nat option" where
  "find_evict_neigh neigh =
     (case find (\<lambda>j. nm_arfcn (neigh ! j) = 0) [0..<length neigh] of
        Some j \<Rightarrow> Some j
      | None \<Rightarrow> map_option fst (worst_neigh neigh 0 None))"

text \<open>Storing a level at the position the count gives.\<close>

definition store_rxlev :: "u8 \<Rightarrow> neigh_meas_proc \<Rightarrow> neigh_meas_proc" where
  "store_rxlev v nmp = nmp\<lparr> nm_rxlev := (nm_rxlev nmp)[nm_rxlev_cnt nmp mod length (nm_rxlev nmp) := v],
     nm_rxlev_cnt := nm_rxlev_cnt nmp + 1 \<rparr>"

definition update_neigh :: "neigh_meas_proc \<Rightarrow> gsm_meas_rep \<Rightarrow> neigh_meas_proc \<times> gsm_meas_rep" where
  "update_neigh nmp mr =
     (if nm_arfcn nmp = 0 then (nmp, mr)
      else case rxlev_for_cell_in_rep mr (nm_arfcn nmp) (nm_bsic nmp) of
        (Some rxlev, mr) \<Rightarrow> ((store_rxlev rxlev nmp)\<lparr> nm_last_seen_nr := mr_nr mr \<rparr>, mr)
      | (None, mr) \<Rightarrow> (store_rxlev 0 nmp, mr))"

fun update_neighs :: "neigh_meas_proc list \<Rightarrow> gsm_meas_rep \<Rightarrow> neigh_meas_proc list \<times> gsm_meas_rep" where
  "update_neighs [] mr = ([], mr)"
| "update_neighs (nmp # ns) mr =
     (let (nmp, mr) = update_neigh nmp mr; (ns, mr) = update_neighs ns mr in (nmp # ns, mr))"

definition new_neigh :: "u8 \<Rightarrow> gsm_meas_rep_cell \<Rightarrow> neigh_meas_proc \<Rightarrow> neigh_meas_proc" where
  "new_neigh nr mrc nmp = (store_rxlev (mc_rxlev mrc) (nmp\<lparr> nm_arfcn := mc_arfcn mrc, nm_bsic := mc_bsic mrc, nm_rxlev_cnt := 0 \<rparr>))
     \<lparr> nm_last_seen_nr := nr \<rparr>"

fun add_neighs :: "u8 \<Rightarrow> gsm_meas_rep_cell list \<Rightarrow> neigh_meas_proc list \<Rightarrow> gsm_meas_rep_cell list \<times> neigh_meas_proc list" where
  "add_neighs nr [] neigh = ([], neigh)"
| "add_neighs nr (mrc # cells) neigh =
     (let (mrc, neigh) =
        (if mc_processed mrc then (mrc, neigh)
         else case find_evict_neigh neigh of
           None \<Rightarrow> (mrc, neigh)
         | Some j \<Rightarrow> (mrc\<lparr> mc_processed := True \<rparr>, neigh[j := new_neigh nr mrc (neigh ! j)]));
        (cells, neigh) = add_neighs nr cells neigh
      in (mrc # cells, neigh))"

definition process_meas_neigh :: "gsm_meas_rep \<Rightarrow> neigh_meas_proc list \<Rightarrow> gsm_meas_rep \<times> neigh_meas_proc list" where
  "process_meas_neigh mr neigh =
     (let (neigh, mr) = update_neighs neigh mr;
          (cells, neigh) = add_neighs (mr_nr mr) (mr_cells mr) neigh
      in (mr\<lparr> mr_cells := cells \<rparr>, neigh))"

section \<open>The decision\<close>

text \<open>The neighbor to hand over to, as the last one that is better than all before it.\<close>

fun best_neigh :: "hodec1_cfg \<Rightarrow> int \<Rightarrow> neigh_meas_proc list \<Rightarrow> neigh_meas_proc option \<Rightarrow> int \<Rightarrow> neigh_meas_proc option" where
  "best_neigh cfg rxlev [] best best_better_db = best"
| "best_neigh cfg rxlev (nmp # ns) best best_better_db =
     (if nm_arfcn nmp = 0 then best_neigh cfg rxlev ns best best_better_db
      else let avg = neigh_meas_avg nmp (hodec1_rxlev_neigh_avg_win cfg) in
        if avg < rxlev + int (hodec1_pwr_hysteresis cfg) then best_neigh cfg rxlev ns best best_better_db
        else let better = avg - rxlev in
          if better > best_better_db then best_neigh cfg rxlev ns (Some nmp) better
          else best_neigh cfg rxlev ns best best_better_db)"

text \<open>The ARFCN and BSIC of the handover request, if one is made.\<close>

definition attempt_handover :: "hodec1_cfg \<Rightarrow> gsm_meas_rep \<Rightarrow> neigh_meas_proc list \<Rightarrow> (u16 \<times> u8) option" where
  "attempt_handover cfg mr neigh =
     (if \<not> ho_active cfg then None
      else map_option (\<lambda>n. (nm_arfcn n, nm_bsic n)) (best_neigh cfg (uint (full_rx_lev (mr_dl mr))) neigh None 0))"

text \<open>
  The report is the one last stored in the lchan.  The result is the request, the new neighbor table
  and the report with its cells marked; \<open>Abort\<close> is the assertion on the interval.
\<close>

definition on_measurement_report :: "(int \<Rightarrow> int) \<Rightarrow> hodec1_cfg \<Rightarrow> gsm_chan_t \<Rightarrow> meas_lchan \<Rightarrow> gsm_meas_rep \<Rightarrow> neigh_meas_proc list
    \<Rightarrow> ((u16 \<times> u8) option \<times> gsm_meas_rep \<times> neigh_meas_proc list) res" where
  "on_measurement_report rxlev2dbm cfg lct lchan mr neigh =
     (if ho_algorithm cfg \<noteq> 1 then Ok (None, mr, neigh)
      else if lct \<noteq> GSM_LCHAN_TCH_F \<and> lct \<noteq> GSM_LCHAN_TCH_H then Ok (None, mr, neigh)
      else let (dlev, dqual) = (if F_DL_DTX mr then (MEAS_REP_DL_RXLEV_SUB, MEAS_REP_DL_RXQUAL_SUB)
                                else (MEAS_REP_DL_RXLEV_FULL, MEAS_REP_DL_RXQUAL_FULL));
               (mr, neigh) = (if length (mr_cells mr) > 0 \<and> length (mr_cells mr) < 7 then process_meas_neigh mr neigh else (mr, neigh));
               av_rxlev = get_meas_rep_avg lchan dlev (hodec1_rxlev_avg_win cfg);
               attempt = Ok (attempt_handover cfg mr neigh, mr, neigh)
           in if rxlev2dbm av_rxlev > -85 \<and> meas_rep_n_out_of_m_be lchan dqual 3 4 5 then attempt
              else if meas_rep_n_out_of_m_be lchan dqual 3 4 5 then attempt
              else if rxlev2dbm av_rxlev \<le> -110 then attempt
              else if uint (ms_l1_ta mr) > int (hodec1_max_distance cfg) then attempt
              else if hodec1_pwr_interval cfg = 0 then Abort
              else if unat (mr_nr mr) mod hodec1_pwr_interval cfg = hodec1_pwr_interval cfg - 1 then attempt
              else Ok (None, mr, neigh))"

section \<open>Properties of the configuration\<close>

text \<open>A handover option set on one level is read back there and shadows the higher levels; clearing
  it gives the value of the higher levels again, and the default when none of them has one.\<close>

lemma ho_cfg_inherits:
  "ho_get d (ho_set x ls) = x \<and> ho_isset (ho_set x ls) \<and> \<not> ho_isset (ho_clear ls) \<and>
   (ls \<noteq> [] \<longrightarrow> ho_get d (ho_clear (ho_set x ls)) = ho_get d (tl ls)) \<and>
   (ls \<noteq> [] \<longrightarrow> (\<not> ho_isset ls \<and> \<not> ho_isset_on_parent ls \<longrightarrow> ho_get d ls = d))"
proof -
  have "\<not> ho_isset ls \<Longrightarrow> \<not> ho_isset_on_parent ls \<Longrightarrow> ls \<noteq> [] \<Longrightarrow> ho_get d ls = d" for ls :: "'a ho_levels"
    by (induction ls rule: ho_isset_on_parent.induct) (auto simp: ho_isset_def split: option.splits)
  then show ?thesis by (auto simp: ho_set_def ho_isset_def ho_clear_def)
qed

section \<open>Averages of neighbors\<close>

interpretation neighs: history nm_rxlev "\<lambda>n. nm_rxlev_cnt n mod MAX_WIN_NEIGH_AVG" store_rxlev MAX_WIN_NEIGH_AVG
  by unfold_locales (simp_all add: store_rxlev_def MAX_WIN_NEIGH_AVG_def mod_Suc_eq)

text \<open>A neighbor holds the levels \<open>h\<close> reported since it entered the table.\<close>

definition tracks :: "neigh_meas_proc \<Rightarrow> u8 list \<Rightarrow> bool" where
  "tracks n h \<longleftrightarrow> nm_rxlev_cnt n = length h \<and> neighs.holds n h"

lemma tracks_store: "tracks n h \<Longrightarrow> tracks (store_rxlev v n) (h @ [v])"
  using neighs.holds_store[of n h v] by (simp add: tracks_def store_rxlev_def)

lemma tracks_seen: "tracks (n\<lparr> nm_last_seen_nr := x \<rparr>) h = tracks n h"
  by (simp add: tracks_def neighs.holds_def)

lemma tracks_new: "length (nm_rxlev n) = MAX_WIN_NEIGH_AVG \<Longrightarrow> tracks (new_neigh nr mrc n) [mc_rxlev mrc]"
proof -
  assume l: "length (nm_rxlev n) = MAX_WIN_NEIGH_AVG"
  let ?n = "n\<lparr> nm_arfcn := mc_arfcn mrc, nm_bsic := mc_bsic mrc, nm_rxlev_cnt := 0 \<rparr>"
  have "tracks ?n []" using l by (simp add: tracks_def neighs.holds_init)
  from tracks_store[OF this, of "mc_rxlev mrc"] show ?thesis by (simp add: new_neigh_def tracks_seen)
qed

text \<open>The average level of a neighbor is that of its last reports: over the window, or over all
  reports since the neighbor entered the table when there are fewer, wherever the ring buffer stands.\<close>

lemma neigh_meas_avg_eq:
  assumes "tracks n h" "1 \<le> w" "w \<le> MAX_WIN_NEIGH_AVG" "h \<noteq> []"
  shows "neigh_meas_avg n w = sum_list (map uint (drop (length h - min w (length h)) h)) div int (min w (length h))"
proof -
  let ?w = "min w (length h)"
  have cnt: "nm_rxlev_cnt n = length h" and len: "length (nm_rxlev n) = MAX_WIN_NEIGH_AVG" and hd: "neighs.holds n h"
    using assms(1) by (auto simp: tracks_def neighs.holds_def)
  have win: "(if w > nm_rxlev_cnt n then nm_rxlev_cnt n else w) = ?w" by (simp add: cnt)
  have rw: "ring_window (nm_rxlev n) (nm_rxlev_cnt n mod length (nm_rxlev n)) ?w = drop (length h - ?w) h"
    unfolding len by (rule neighs.window[OF hd]) (use assms(3) in auto)
  have f: "fold (\<lambda>v avg. avg + uint v) xs a = a + sum_list (map uint xs)" for xs :: "u8 list" and a :: int
    by (induction xs arbitrary: a) auto
  have "sum_list (map uint xs) \<ge> 0" for xs :: "u8 list" by (induction xs) auto
  moreover have "?w \<noteq> 0" using assms(2,4) by auto
  ultimately show ?thesis unfolding neigh_meas_avg_def win Let_def rw f by simp
qed

section \<open>The table of neighbors\<close>




lemma arfcn_store [simp]: "nm_arfcn (store_rxlev v n) = nm_arfcn n"
  by (simp add: store_rxlev_def)









section \<open>The choice of the target\<close>

text \<open>The neighbors worth a handover: in use, above the hysteresis and better than the serving cell.\<close>

definition candidate :: "hodec1_cfg \<Rightarrow> int \<Rightarrow> neigh_meas_proc \<Rightarrow> bool" where
  "candidate cfg rxlev n \<longleftrightarrow> nm_arfcn n \<noteq> 0 \<and> neigh_meas_avg n (hodec1_rxlev_neigh_avg_win cfg) \<ge> rxlev + int (hodec1_pwr_hysteresis cfg) \<and>
     neigh_meas_avg n (hodec1_rxlev_neigh_avg_win cfg) > rxlev"

abbreviation navg :: "hodec1_cfg \<Rightarrow> neigh_meas_proc \<Rightarrow> int" where
  "navg cfg n \<equiv> neigh_meas_avg n (hodec1_rxlev_neigh_avg_win cfg)"

definition best_inv :: "hodec1_cfg \<Rightarrow> int \<Rightarrow> neigh_meas_proc option \<Rightarrow> int \<Rightarrow> bool" where
  "best_inv cfg rxlev best db \<longleftrightarrow> (case best of None \<Rightarrow> db = 0 | Some b \<Rightarrow> candidate cfg rxlev b \<and> db = navg cfg b - rxlev)"

lemma best_neigh_spec:
  assumes "best_inv cfg rxlev best db"
  shows "case best_neigh cfg rxlev ns best db of
      None \<Rightarrow> best = None \<and> (\<forall>n \<in> set ns. \<not> candidate cfg rxlev n)
    | Some b \<Rightarrow> candidate cfg rxlev b \<and> (best = Some b \<or> b \<in> set ns) \<and>
        (\<forall>n \<in> set ns \<union> set_option best. candidate cfg rxlev n \<longrightarrow> navg cfg n \<le> navg cfg b)"
  using assms
proof (induction ns arbitrary: best db)
  case Nil
  then show ?case by (auto simp: best_inv_def split: option.splits)
next
  case (Cons n ns)
  show ?case
  proof (cases "nm_arfcn n = 0 \<or> navg cfg n < rxlev + int (hodec1_pwr_hysteresis cfg)")
    case True
    then have "\<not> candidate cfg rxlev n" by (auto simp: candidate_def)
    moreover have "best_neigh cfg rxlev (n # ns) best db = best_neigh cfg rxlev ns best db" using True by (auto simp: Let_def)
    ultimately show ?thesis using Cons.IH[OF Cons.prems] by (auto split: option.splits)
  next
    case skip: False
    show ?thesis
    proof (cases "navg cfg n - rxlev > db")
      case True
      have db: "db \<ge> 0" using Cons.prems by (auto simp: best_inv_def candidate_def split: option.splits)
      have c: "candidate cfg rxlev n" using skip True db by (simp add: candidate_def)
      have "best_inv cfg rxlev (Some n) (navg cfg n - rxlev)" using c by (simp add: best_inv_def)
      moreover have "best_neigh cfg rxlev (n # ns) best db = best_neigh cfg rxlev ns (Some n) (navg cfg n - rxlev)"
        using skip True by (simp add: Let_def)
      moreover have "navg cfg b < navg cfg n" if "best = Some b" for b using Cons.prems True that by (simp add: best_inv_def)
      ultimately show ?thesis using Cons.IH[of "Some n" "navg cfg n - rxlev"] c
        by (auto split: option.splits)
    next
      case False
      have eq: "best_neigh cfg rxlev (n # ns) best db = best_neigh cfg rxlev ns best db" using skip False by (simp add: Let_def)
      show ?thesis
      proof (cases best)
        case None
        then have "\<not> candidate cfg rxlev n" using False Cons.prems by (auto simp: candidate_def best_inv_def)
        then show ?thesis using Cons.IH[OF Cons.prems] None eq by (auto split: option.splits)
      next
        case (Some b)
        then have "navg cfg n \<le> navg cfg b" "candidate cfg rxlev b" using False Cons.prems by (auto simp: best_inv_def)
        then show ?thesis using Cons.IH[OF Cons.prems] Some eq by (auto split: option.splits)
      qed
    qed
  qed
qed

text \<open>Property C40. A handover goes to the best neighbor: \<^verbatim>\<open>attempt_handover\<close> requests one exactly when handover is
  active and some neighbor in use exceeds the serving cell's level by the hysteresis and is better, and
  then to a neighbor whose average no such neighbor exceeds.\<close>

theorem attempt_handover_best:
  "(attempt_handover cfg mr neigh = None \<longleftrightarrow>
      \<not> ho_active cfg \<or> (\<forall>n \<in> set neigh. \<not> candidate cfg (uint (full_rx_lev (mr_dl mr))) n)) \<and>
   (\<forall>a b. attempt_handover cfg mr neigh = Some (a, b) \<longrightarrow>
      (\<exists>n \<in> set neigh. nm_arfcn n = a \<and> nm_bsic n = b \<and> candidate cfg (uint (full_rx_lev (mr_dl mr))) n \<and>
         (\<forall>n' \<in> set neigh. candidate cfg (uint (full_rx_lev (mr_dl mr))) n' \<longrightarrow> navg cfg n' \<le> navg cfg n)))"
proof -
  have "best_inv cfg (uint (full_rx_lev (mr_dl mr))) None 0" by (simp add: best_inv_def)
  from best_neigh_spec[OF this, of neigh] show ?thesis
    by (cases "best_neigh cfg (uint (full_rx_lev (mr_dl mr))) neigh None 0") (auto simp: attempt_handover_def)
qed

text \<open>When a report leads to a handover attempt: on a TCH of a cell with algorithm 1, if three of the last
  four quality values are 5 or worse, or the average level is at most -110 dBm, or the timing advance
  exceeds the maximum distance, or the number of the report is the last of a power budget interval.  The
  separate test for interference never changes the outcome.\<close>

lemma handover_decision_iff:
  assumes "ho_algorithm cfg = 1" "lct = GSM_LCHAN_TCH_F \<or> lct = GSM_LCHAN_TCH_H" "hodec1_pwr_interval cfg > 0"
    "length (mr_cells mr) > 0" "length (mr_cells mr) < 7"
  shows "on_measurement_report rxlev2dbm cfg lct lchan mr neigh =
    (let (mr', neigh') = process_meas_neigh mr neigh;
         qual = (if F_DL_DTX mr then MEAS_REP_DL_RXQUAL_SUB else MEAS_REP_DL_RXQUAL_FULL);
         lev = (if F_DL_DTX mr then MEAS_REP_DL_RXLEV_SUB else MEAS_REP_DL_RXLEV_FULL)
     in Ok (if meas_rep_n_out_of_m_be lchan qual 3 4 5 \<or>
               rxlev2dbm (get_meas_rep_avg lchan lev (hodec1_rxlev_avg_win cfg)) \<le> -110 \<or>
               uint (ms_l1_ta mr') > int (hodec1_max_distance cfg) \<or>
               unat (mr_nr mr') mod hodec1_pwr_interval cfg = hodec1_pwr_interval cfg - 1
            then attempt_handover cfg mr' neigh' else None, mr', neigh'))"
  using assms by (auto simp: on_measurement_report_def Let_def case_prod_unfold)

text \<open>A neighbor on ARFCN 0, a valid channel of E-GSM, is taken for an unused entry of the table: it is
  never the target of a handover.\<close>

lemma arfcn_zero_never_target: "attempt_handover cfg mr neigh \<noteq> Some (0, b)"
proof -
  have "best_inv cfg (uint (full_rx_lev (mr_dl mr))) None 0" by (simp add: best_inv_def)
  from best_neigh_spec[OF this, of neigh] show ?thesis
    by (cases "best_neigh cfg (uint (full_rx_lev (mr_dl mr))) neigh None 0") (auto simp: attempt_handover_def candidate_def)
qed

section \<open>An example\<close>

definition free_neigh :: neigh_meas_proc where
  "free_neigh = \<lparr> nm_arfcn = 0, nm_bsic = 0, nm_rxlev = replicate 10 0, nm_rxlev_cnt = 0, nm_last_seen_nr = 0 \<rparr>"

definition example_cell_rep :: gsm_meas_rep where
  "example_cell_rep = zero_meas_rep\<lparr> mr_nr := 5, mr_dl := zero_unidir\<lparr> full_rx_lev := 20 \<rparr>,
     mr_cells := [\<lparr> mc_rxlev = 40, mc_bsic = 12, mc_neigh_idx = 0, mc_arfcn = 871, mc_processed = False \<rparr>] \<rparr>"

definition example_cfg :: hodec1_cfg where
  "example_cfg = \<lparr> ho_active = True, ho_algorithm = 1, hodec1_rxlev_avg_win = 10, hodec1_rxlev_neigh_avg_win = 10,
     hodec1_pwr_interval = 6, hodec1_pwr_hysteresis = 3, hodec1_max_distance = 9999 \<rparr>"



lemma example_tracks: "tracks (new_neigh 5 (mr_cells example_cell_rep ! 0) free_neigh) [40]"
  using tracks_new[of free_neigh 5 "mr_cells example_cell_rep ! 0"]
  by (simp add: free_neigh_def MAX_WIN_NEIGH_AVG_def example_cell_rep_def)


lemma example_candidate: "candidate example_cfg 20 (new_neigh 5 (mr_cells example_cell_rep ! 0) free_neigh)"
  using neigh_meas_avg_eq[OF example_tracks, of 10]
  by (simp add: candidate_def example_cfg_def MAX_WIN_NEIGH_AVG_def)
     (simp add: new_neigh_def example_cell_rep_def store_rxlev_def)

lemma example_not_candidate: "\<not> candidate cfg lev free_neigh"
  by (simp add: candidate_def free_neigh_def)

lemma example_report: "ho_active example_cfg" "uint (full_rx_lev (mr_dl example_cell_rep)) = 20"
    "nm_arfcn (new_neigh 5 (mr_cells example_cell_rep ! 0) free_neigh) = 871"
    "nm_bsic (new_neigh 5 (mr_cells example_cell_rep ! 0) free_neigh) = 12"
  by (simp_all add: example_cfg_def example_cell_rep_def new_neigh_def store_rxlev_def)

theorem attempt_handover_best_witness:
  "attempt_handover example_cfg example_cell_rep [free_neigh, new_neigh 5 (mr_cells example_cell_rep ! 0) free_neigh] = Some (871, 12)"
  using attempt_handover_best[of example_cfg example_cell_rep "[free_neigh, new_neigh 5 (mr_cells example_cell_rep ! 0) free_neigh]",
      unfolded example_report(2)]
    example_candidate by (auto simp: example_report example_not_candidate simp del: split_paired_All)

end
