(* ===== verification/Bsc_Subscriber.thy ===== *)
theory Bsc_Subscriber
  imports Osmo_Fsm "HOL-Library.Multiset"
begin

text \<open>
  Subscribers, \<^verbatim>\<open>bsc_subscriber.c\<close>: reference counted records of the known IMSIs and TMSIs.  The heap is
  an association list from pointers to records in the order of the list \<^verbatim>\<open>bsc_subscribers\<close>; a pointer
  to a freed record is not in it, and an access through it is \<open>Abort\<close>.  New records get a fresh
  pointer.
\<close>

section \<open>Operations\<close>

type_synonym sub_ptr = nat

record bsc_subscr =
  use_count :: int
  imsi :: string
  tmsi :: u32

record subscr_store =
  subs :: "(sub_ptr \<times> bsc_subscr) list"
  next_sub :: sub_ptr

definition GSM_RESERVED_TMSI :: u32 where "GSM_RESERVED_TMSI = 0xffffffff"
definition IMSI_MAX_DIGITS :: nat where "IMSI_MAX_DIGITS = 15"
definition C_INT_MAX :: int where "C_INT_MAX = 2147483647"

text \<open>Access through a pointer.\<close>

definition bsub_at :: "subscr_store \<Rightarrow> sub_ptr \<Rightarrow> bsc_subscr option" where
  "bsub_at s p = map_of (subs s) p"

definition upd_bsub :: "sub_ptr \<Rightarrow> (bsc_subscr \<Rightarrow> bsc_subscr) \<Rightarrow> subscr_store \<Rightarrow> subscr_store" where
  "upd_bsub p f s = s\<lparr> subs := map (\<lambda>(q, b). if q = p then (q, f b) else (q, b)) (subs s) \<rparr>"

definition bsc_subscr_alloc :: "subscr_store \<Rightarrow> sub_ptr \<times> subscr_store" where
  "bsc_subscr_alloc s = (next_sub s,
     s\<lparr> subs := subs s @ [(next_sub s, \<lparr> use_count = 0, imsi = [], tmsi = 0 \<rparr>)], next_sub := Suc (next_sub s) \<rparr>)"

definition bsc_subscr_free :: "sub_ptr \<Rightarrow> subscr_store \<Rightarrow> subscr_store" where
  "bsc_subscr_free p s = s\<lparr> subs := filter (\<lambda>(q, b). q \<noteq> p) (subs s) \<rparr>"

definition bsc_subscr_get :: "sub_ptr \<Rightarrow> subscr_store \<Rightarrow> subscr_store res" where
  "bsc_subscr_get p s =
     (case bsub_at s p of
        None \<Rightarrow> Abort
      | Some b \<Rightarrow> if use_count b < C_INT_MAX then Ok (upd_bsub p (\<lambda>b. b\<lparr> use_count := use_count b + 1 \<rparr>) s) else Abort)"

definition bsc_subscr_put :: "sub_ptr \<Rightarrow> subscr_store \<Rightarrow> subscr_store res" where
  "bsc_subscr_put p s =
     (case bsub_at s p of
        None \<Rightarrow> Abort
      | Some b \<Rightarrow> let s = upd_bsub p (\<lambda>b. b\<lparr> use_count := use_count b - 1 \<rparr>) s
                  in if use_count b - 1 \<le> 0 then Ok (bsc_subscr_free p s) else Ok s)"

definition find_sub :: "(bsc_subscr \<Rightarrow> bool) \<Rightarrow> subscr_store \<Rightarrow> (sub_ptr option \<times> subscr_store) res" where
  "find_sub P s =
     (case find (\<lambda>(q, b). P b) (subs s) of
        None \<Rightarrow> Ok (None, s)
      | Some (q, b) \<Rightarrow> rbind (bsc_subscr_get q s) (\<lambda>s. Ok (Some q, s)))"

definition bsc_subscr_find_by_imsi :: "string \<Rightarrow> subscr_store \<Rightarrow> (sub_ptr option \<times> subscr_store) res" where
  "bsc_subscr_find_by_imsi im s = (if im = [] then Ok (None, s) else find_sub (\<lambda>b. imsi b = im) s)"

definition bsc_subscr_find_by_tmsi :: "u32 \<Rightarrow> subscr_store \<Rightarrow> (sub_ptr option \<times> subscr_store) res" where
  "bsc_subscr_find_by_tmsi tm s = (if tm = GSM_RESERVED_TMSI then Ok (None, s) else find_sub (\<lambda>b. tmsi b = tm) s)"

text \<open>The copy is cut off at the size of the field.\<close>

definition bsc_subscr_set_imsi :: "sub_ptr \<Rightarrow> string \<Rightarrow> subscr_store \<Rightarrow> subscr_store" where
  "bsc_subscr_set_imsi p im s = upd_bsub p (\<lambda>b. b\<lparr> imsi := take IMSI_MAX_DIGITS im \<rparr>) s"

definition bsc_subscr_find_or_create_by_imsi :: "string \<Rightarrow> subscr_store \<Rightarrow> (sub_ptr \<times> subscr_store) res" where
  "bsc_subscr_find_or_create_by_imsi im s =
     rbind (bsc_subscr_find_by_imsi im s) (\<lambda>(r, s).
       case r of
         Some p \<Rightarrow> Ok (p, s)
       | None \<Rightarrow> let (p, s) = bsc_subscr_alloc s
                 in rbind (bsc_subscr_get p (bsc_subscr_set_imsi p im s)) (\<lambda>s. Ok (p, s)))"

definition bsc_subscr_find_or_create_by_tmsi :: "u32 \<Rightarrow> subscr_store \<Rightarrow> (sub_ptr \<times> subscr_store) res" where
  "bsc_subscr_find_or_create_by_tmsi tm s =
     rbind (bsc_subscr_find_by_tmsi tm s) (\<lambda>(r, s).
       case r of
         Some p \<Rightarrow> Ok (p, s)
       | None \<Rightarrow> let (p, s) = bsc_subscr_alloc s
                 in rbind (bsc_subscr_get p (upd_bsub p (\<lambda>b. b\<lparr> tmsi := tm \<rparr>) s)) (\<lambda>s. Ok (p, s)))"

section \<open>Reference counting\<close>

text \<open>
  The contract of a reference counted store: \<open>refs\<close> is how often an object is referenced, 0 for one
  that does not exist.  Whoever knows all references knows all counts.
\<close>

locale ref_store =
  fixes ok :: "'s \<Rightarrow> bool" and refs :: "'s \<Rightarrow> 'p \<Rightarrow> nat" and lim :: nat
    and acquire :: "'p \<Rightarrow> 's \<Rightarrow> 's res" and release :: "'p \<Rightarrow> 's \<Rightarrow> 's res"
  assumes acquire_law: "ok s \<Longrightarrow> 0 < refs s p \<Longrightarrow> refs s p < lim \<Longrightarrow>
      post (acquire p s) (\<lambda>s'. ok s' \<and> (\<forall>q. refs s' q = refs s q + (if q = p then 1 else 0)))"
    and release_law: "ok s \<Longrightarrow> 0 < refs s p \<Longrightarrow>
      post (release p s) (\<lambda>s'. ok s' \<and> (\<forall>q. refs s' q = refs s q - (if q = p then 1 else 0)))"
begin

definition owned :: "'s \<Rightarrow> 'p multiset \<Rightarrow> bool" where
  "owned s M \<longleftrightarrow> ok s \<and> (\<forall>p. refs s p = count M p)"

lemma owned_acquire: "owned s M \<Longrightarrow> p \<in># M \<Longrightarrow> size M < lim \<Longrightarrow> post (acquire p s) (\<lambda>s'. owned s' (add_mset p M))"
  using acquire_law[of s p] count_le_size[of M p] by (auto simp: owned_def elim!: post_mono)

lemma owned_release: "owned s (add_mset p M) \<Longrightarrow> post (release p s) (\<lambda>s'. owned s' M)"
  using release_law[of s p] by (auto simp: owned_def elim!: post_mono)

lemma owned_releases: "owned s (mset ps + M) \<Longrightarrow> post (for_each ps release s) (\<lambda>s'. owned s' M)"
proof (induction ps arbitrary: s)
  case Nil
  then show ?case by simp
next
  case (Cons p ps)
  then have "owned s (add_mset p (mset ps + M))" by simp
  from owned_release[OF this] Cons.IH show ?case by (auto simp: post_rbind elim!: post_mono)
qed

end

definition store_ok :: "subscr_store \<Rightarrow> bool" where
  "store_ok s \<longleftrightarrow> distinct (map fst (subs s)) \<and> (\<forall>(q, b) \<in> set (subs s). 1 \<le> use_count b \<and> q < next_sub s)"

definition sub_refs :: "subscr_store \<Rightarrow> sub_ptr \<Rightarrow> nat" where
  "sub_refs s p = (case bsub_at s p of None \<Rightarrow> 0 | Some b \<Rightarrow> nat (use_count b))"

lemma map_fst_upd: "map fst (subs (upd_bsub p f s)) = map fst (subs s)"
  by (simp add: upd_bsub_def comp_def case_prod_unfold if_distrib cong: if_cong)

lemma bsub_at_upd: "bsub_at (upd_bsub p f s) q = (if q = p then map_option f (bsub_at s p) else bsub_at s q)"
proof -
  have "map_of (map (\<lambda>(q, b). if q = p then (q, f b) else (q, b)) xs) q =
      (if q = p then map_option f (map_of xs p) else map_of xs q)" for xs
    by (induction xs) auto
  then show ?thesis by (simp add: bsub_at_def upd_bsub_def)
qed

lemma bsub_at_free: "bsub_at (bsc_subscr_free p s) q = (if q = p then None else bsub_at s q)"
proof -
  have "map_of (filter (\<lambda>(q, b). q \<noteq> p) xs) q = (if q = p then None else map_of xs q)" for xs :: "(sub_ptr \<times> bsc_subscr) list"
    by (induction xs) auto
  then show ?thesis by (simp add: bsub_at_def bsc_subscr_free_def)
qed

lemma next_sub_upd [simp]: "next_sub (upd_bsub p f s) = next_sub s" "next_sub (bsc_subscr_free p s) = next_sub s"
  by (simp_all add: upd_bsub_def bsc_subscr_free_def)

lemma distinct_free: "distinct (map fst (subs s)) \<Longrightarrow> distinct (map fst (subs (bsc_subscr_free p s)))"
  by (simp add: bsc_subscr_free_def distinct_map_filter)

lemma store_ok_iff:
  "store_ok s \<longleftrightarrow> distinct (map fst (subs s)) \<and> (\<forall>q b. bsub_at s q = Some b \<longrightarrow> 1 \<le> use_count b \<and> q < next_sub s)"
  by (auto simp: store_ok_def bsub_at_def map_of_eq_Some_iff dest: map_of_SomeD)

interpretation subscr: ref_store store_ok sub_refs "nat C_INT_MAX" bsc_subscr_get bsc_subscr_put
proof unfold_locales
  fix s p
  assume s: "store_ok s" and r: "0 < sub_refs s p"
  then obtain b where b: "bsub_at s p = Some b" by (auto simp: sub_refs_def split: option.splits)
  then have u: "1 \<le> use_count b" using s by (auto simp: store_ok_iff)
  have n: "nat (use_count b + 1) = Suc (nat (use_count b))" "nat (use_count b - 1) = nat (use_count b) - 1" using u by linarith+
  { assume "sub_refs s p < nat C_INT_MAX"
    then have "use_count b < C_INT_MAX" using b by (simp add: sub_refs_def)
    then show "post (bsc_subscr_get p s) (\<lambda>s'. store_ok s' \<and> (\<forall>q. sub_refs s' q = sub_refs s q + (if q = p then 1 else 0)))"
      using s b u by (simp add: bsc_subscr_get_def store_ok_iff map_fst_upd bsub_at_upd sub_refs_def n) fastforce }
  show "post (bsc_subscr_put p s) (\<lambda>s'. store_ok s' \<and> (\<forall>q. sub_refs s' q = sub_refs s q - (if q = p then 1 else 0)))"
    using s b u by (auto simp: bsc_subscr_put_def store_ok_iff map_fst_upd bsub_at_upd bsub_at_free sub_refs_def n distinct_free Let_def
        split: if_splits)
qed

section \<open>Lookup\<close>

lemma bsub_at_get: "bsc_subscr_get p s = Ok s' \<Longrightarrow>
    bsub_at s' q = (if q = p then map_option (\<lambda>b. b\<lparr> use_count := use_count b + 1 \<rparr>) (bsub_at s p) else bsub_at s q)"
  by (auto simp: bsc_subscr_get_def bsub_at_upd split: option.splits if_splits)

lemma owned_in:
  assumes "subscr.owned s M" "(q, b) \<in> set (subs s)"
  shows "bsub_at s q = Some b" "q \<in># M"
proof -
  show b: "bsub_at s q = Some b" using assms by (auto simp: subscr.owned_def store_ok_def bsub_at_def)
  have "1 \<le> use_count b" using assms by (auto simp: subscr.owned_def store_ok_def)
  moreover have "sub_refs s q = count M q" using assms(1) by (simp add: subscr.owned_def)
  ultimately have "0 < count M q" using b by (auto simp: sub_refs_def simp del: count_greater_zero_iff)
  then show "q \<in># M" by simp
qed

lemma find_sub_owned:
  assumes "subscr.owned s M" "size M < nat C_INT_MAX" "\<And>b n. P (b\<lparr> use_count := n \<rparr>) = P b"
  shows "post (find_sub P s) (\<lambda>(r, s'). case r of
      None \<Rightarrow> s' = s \<and> (\<forall>(q, b) \<in> set (subs s). \<not> P b)
    | Some p \<Rightarrow> p \<in># M \<and> subscr.owned s' (add_mset p M) \<and> (\<exists>b. bsub_at s' p = Some b \<and> P b))"
proof (cases "find (\<lambda>(q, b). P b) (subs s)")
  case None
  then have "\<forall>(q, b) \<in> set (subs s). \<not> P b" by (auto simp: find_None_iff)
  then show ?thesis unfolding find_sub_def None by simp
next
  case (Some e)
  obtain q b where e: "e = (q, b)" by fastforce
  have in_s: "(q, b) \<in> set (subs s)" "P b" using Some e by (auto simp: find_Some_iff in_set_conv_nth)
  note o = owned_in[OF assms(1) in_s(1)]
  from subscr.owned_acquire[OF assms(1) o(2) assms(2)] obtain s' where s': "bsc_subscr_get q s = Ok s'" "subscr.owned s' (add_mset q M)"
    by (auto simp: post_iff)
  have "bsub_at s' q = Some (b\<lparr> use_count := use_count b + 1 \<rparr>)" using bsub_at_get[OF s'(1)] o(1) by simp
  then show ?thesis using o(2) s' in_s(2) unfolding find_sub_def Some e by (simp add: assms(3))
qed

lemma owned_create:
  assumes "subscr.owned s M" "use_count (f \<lparr> use_count = 0, imsi = [], tmsi = 0 \<rparr>) = 0"
  shows "post (bsc_subscr_get (next_sub s) (upd_bsub (next_sub s) f (snd (bsc_subscr_alloc s))))
    (\<lambda>s'. subscr.owned s' (add_mset (next_sub s) M) \<and> next_sub s \<notin># M \<and>
       bsub_at s' (next_sub s) = Some ((f \<lparr> use_count = 0, imsi = [], tmsi = 0 \<rparr>)\<lparr> use_count := 1 \<rparr>))"
proof -
  let ?b = "f \<lparr> use_count = 0, imsi = [], tmsi = 0 \<rparr>"
  let ?s = "upd_bsub (next_sub s) f (snd (bsc_subscr_alloc s))"
  have ok: "store_ok s" and cnt: "sub_refs s p = count M p" for p using assms(1) by (simp_all add: subscr.owned_def)
  have fresh: "bsub_at s (next_sub s) = None"
    using ok by (cases "bsub_at s (next_sub s)") (auto simp: store_ok_iff)
  have at: "bsub_at ?s q = (if q = next_sub s then Some ?b else bsub_at s q)" for q
    using fresh unfolding bsub_at_upd by (auto simp: bsc_subscr_alloc_def bsub_at_def map_add_def split: option.splits)
  let ?s' = "upd_bsub (next_sub s) (\<lambda>b. b\<lparr> use_count := use_count b + 1 \<rparr>) ?s"
  have get: "bsc_subscr_get (next_sub s) ?s = Ok ?s'" using assms(2) by (simp add: bsc_subscr_get_def at C_INT_MAX_def)
  have at': "bsub_at ?s' q = (if q = next_sub s then Some (?b\<lparr> use_count := 1 \<rparr>) else bsub_at s q)" for q
    using assms(2) unfolding bsub_at_upd[of _ _ ?s] at by simp
  have "next_sub s \<notin> fst ` set (subs s)" using fresh by (simp add: bsub_at_def map_of_eq_None_iff)
  then have "distinct (map fst (subs ?s'))" using ok by (simp add: map_fst_upd bsc_subscr_alloc_def store_ok_def)
  then have ok': "store_ok ?s'" using ok unfolding store_ok_iff at' by (simp add: bsc_subscr_alloc_def) (meson less_SucI)
  have "count M (next_sub s) = 0" using cnt[of "next_sub s"] fresh by (simp add: sub_refs_def)
  then have "subscr.owned ?s' (add_mset (next_sub s) M)" "next_sub s \<notin># M"
    using ok' cnt by (auto simp: subscr.owned_def sub_refs_def at' count_eq_zero_iff)
  then show ?thesis unfolding get by (simp add: at')
qed

text \<open>What a search that creates a missing record promises.\<close>

definition found :: "(bsc_subscr \<Rightarrow> bool) \<Rightarrow> sub_ptr multiset \<Rightarrow> subscr_store \<Rightarrow> sub_ptr \<times> subscr_store \<Rightarrow> bool" where
  "found P M s = (\<lambda>(p, s'). subscr.owned s' (add_mset p M) \<and> (\<exists>b. bsub_at s' p = Some b \<and> P b) \<and>
     (p \<in># M \<or> (\<forall>(q, b) \<in> set (subs s). \<not> P b)))"

lemma alloc_let: "(let (p, s') = bsc_subscr_alloc s in F p s') = F (next_sub s) (snd (bsc_subscr_alloc s))"
  by (simp add: bsc_subscr_alloc_def)

lemma find_or_create_found:
  assumes "subscr.owned s M" "size M < nat C_INT_MAX" "use_count (f \<lparr> use_count = 0, imsi = [], tmsi = 0 \<rparr>) = 0"
    "P ((f \<lparr> use_count = 0, imsi = [], tmsi = 0 \<rparr>)\<lparr> use_count := 1 \<rparr>)" "\<And>b n. P (b\<lparr> use_count := n \<rparr>) = P b"
  shows "post (rbind (find_sub P s) (\<lambda>(r, s). case r of
      Some p \<Rightarrow> Ok (p, s)
    | None \<Rightarrow> let (p, s) = bsc_subscr_alloc s in rbind (bsc_subscr_get p (upd_bsub p f s)) (\<lambda>s. Ok (p, s)))) (found P M s)"
proof -
  obtain r s' where f: "find_sub P s = Ok (r, s')" "case r of
      None \<Rightarrow> s' = s \<and> (\<forall>(q, b) \<in> set (subs s). \<not> P b)
    | Some p \<Rightarrow> p \<in># M \<and> subscr.owned s' (add_mset p M) \<and> (\<exists>b. bsub_at s' p = Some b \<and> P b)"
    using find_sub_owned[of s M P, OF assms(1,2,5)] by (auto simp: post_iff)
  show ?thesis
  proof (cases r)
    case (Some p)
    then show ?thesis using f by (simp add: found_def)
  next
    case None
    then have s': "s' = s" "\<forall>(q, b) \<in> set (subs s). \<not> P b" using f(2) by simp_all
    show ?thesis unfolding f(1) using None s' owned_create[of s M f, OF assms(1,3)] assms(4)
      by (auto simp: alloc_let found_def post_rbind elim!: post_mono)
  qed
qed

text \<open>Asking for a subscriber by IMSI gives a record with that IMSI and one more reference to it: an
  existing one if there is any, else a new one.  All references stay accounted for.\<close>

lemma find_or_create_imsi:
  assumes "subscr.owned s M" "size M < nat C_INT_MAX" "im \<noteq> []" "length im \<le> IMSI_MAX_DIGITS"
  shows "post (bsc_subscr_find_or_create_by_imsi im s) (found (\<lambda>b. imsi b = im) M s)"
  using find_or_create_found[of s M "\<lambda>b. b\<lparr> imsi := take IMSI_MAX_DIGITS im \<rparr>" "\<lambda>b. imsi b = im", OF assms(1,2)] assms(3,4)
  unfolding bsc_subscr_find_or_create_by_imsi_def bsc_subscr_find_by_imsi_def bsc_subscr_set_imsi_def by simp

lemma find_or_create_tmsi:
  assumes "subscr.owned s M" "size M < nat C_INT_MAX" "tm \<noteq> GSM_RESERVED_TMSI"
  shows "post (bsc_subscr_find_or_create_by_tmsi tm s) (found (\<lambda>b. tmsi b = tm) M s)"
  using find_or_create_found[of s M "\<lambda>b. b\<lparr> tmsi := tm \<rparr>" "\<lambda>b. tmsi b = tm", OF assms(1,2)] assms(3)
  by (simp add: bsc_subscr_find_or_create_by_tmsi_def bsc_subscr_find_by_tmsi_def)

text \<open>A record created for an IMSI has the TMSI 0 until one is assigned: a search for the valid TMSI 0 finds it.\<close>

lemma unset_tmsi_is_zero:
  "bsc_subscr_find_or_create_by_imsi ''001010000000001'' \<lparr> subs = [], next_sub = 0 \<rparr> = Ok (p, s) \<Longrightarrow>
     \<exists>s'. bsc_subscr_find_by_tmsi 0 s = Ok (Some p, s')"
  by (auto simp: bsc_subscr_find_or_create_by_imsi_def bsc_subscr_find_by_imsi_def bsc_subscr_find_by_tmsi_def find_sub_def bsc_subscr_alloc_def
      bsc_subscr_set_imsi_def bsc_subscr_get_def bsub_at_def upd_bsub_def C_INT_MAX_def GSM_RESERVED_TMSI_def)

end
