(* ===== verification/Chan_Alloc.thy ===== *)
theory Chan_Alloc
  imports Gsm_Data Osmo_Fsm
begin

text \<open>
  Channel load, \<^verbatim>\<open>chan_alloc.c\<close>: the counters of all and of used lchans per channel configuration, and
  the wait indication T3122 and the average load that are computed from eight consecutive samples.
  The counters are \<^verbatim>\<open>unsigned int\<close>, the sums of the average 32 and 64 bits wide; where they are
  added or shifted the wrap-around is written out.
\<close>

section \<open>Counting\<close>

record load_counter =
  lc_total :: nat
  lc_used :: nat

type_synonym pchan_load = "gsm_phys_chan_config \<Rightarrow> load_counter"

definition no_load :: load_counter where "no_load = \<lparr> lc_total = 0, lc_used = 0 \<rparr>"

definition count_lchan :: "lchan_fsm_state \<Rightarrow> load_counter \<Rightarrow> load_counter" where
  "count_lchan st pl = pl\<lparr> lc_total := (lc_total pl + 1) mod 2 ^ 32,
     lc_used := (if st = LCHAN_ST_UNUSED then lc_used pl else (lc_used pl + 1) mod 2 ^ 32) \<rparr>"

definition ts_chan_load :: "gsm_bts_trx_ts \<Rightarrow> pchan_load \<Rightarrow> pchan_load" where
  "ts_chan_load ts cl =
     (if \<not> nm_is_running (ts_mo ts) then cl
      else fold (\<lambda>i cl. cl(pchan_on_init ts := count_lchan (lc_state ts i) (cl (pchan_on_init ts)))) (ts_for_each_lchan ts) cl)"

definition trx_chan_load :: "gsm_bts_trx \<Rightarrow> pchan_load \<Rightarrow> pchan_load" where
  "trx_chan_load trx cl =
     (if \<not> nm_is_running (trx_mo trx) \<or> \<not> nm_is_running (bb_transc_mo trx) then cl
      else fold ts_chan_load (trx_ts trx) cl)"

definition bts_chan_load :: "pchan_load \<Rightarrow> 'a gsm_bts_scheme \<Rightarrow> pchan_load" where
  "bts_chan_load cl bts = fold trx_chan_load (trx_list bts) cl"

definition network_chan_load :: "'a gsm_bts_scheme list \<Rightarrow> pchan_load" where
  "network_chan_load btss = fold (\<lambda>bts pl. bts_chan_load pl bts) btss (\<lambda>_. no_load)"

section \<open>The wait indication\<close>

record gsm_bts_load = gsm_bts +
  T3122 :: u8
  chan_load_samples :: "load_counter list"
  chan_load_samples_idx :: nat
  chan_load_avg :: u8

definition GSM_T3122_DEFAULT :: nat where "GSM_T3122_DEFAULT = 10"
definition MAX_WAIT_IND :: nat where "MAX_WAIT_IND = 128"

text \<open>The elements of \<^verbatim>\<open>pl.pchan[]\<close>.\<close>

definition all_pchans :: "gsm_phys_chan_config list" where
  "all_pchans = [GSM_PCHAN_NONE, GSM_PCHAN_CCCH, GSM_PCHAN_CCCH_SDCCH4, GSM_PCHAN_TCH_F, GSM_PCHAN_TCH_H,
     GSM_PCHAN_SDCCH8_SACCH8C, GSM_PCHAN_PDCH, GSM_PCHAN_TCH_F_PDCH, GSM_PCHAN_UNKNOWN, GSM_PCHAN_CCCH_SDCCH4_CBCH,
     GSM_PCHAN_SDCCH8_SACCH8C_CBCH, GSM_PCHAN_TCH_F_TCH_H_PDCH]"

definition sum_load :: "pchan_load \<Rightarrow> nat \<times> nat" where
  "sum_load pl =
     fold (\<lambda>p (used, tot).
         if lc_used (pl p) > 65535 \<or> lc_total (pl p) > 65535 then (used, tot)
         else ((used + lc_used (pl p)) mod 2 ^ 64, (tot + lc_total (pl p)) mod 2 ^ 32))
       all_pchans (0, 0)"

definition add_samples :: "load_counter list \<Rightarrow> nat \<times> nat \<Rightarrow> nat \<times> nat" where
  "add_samples samples =
     fold (\<lambda>s (used, tot). ((used + lc_used s) mod 2 ^ 64, (tot + lc_total s) mod 2 ^ 32)) samples"

definition load_avg :: "nat \<Rightarrow> nat \<Rightarrow> nat" where
  "load_avg used tot =
     (let used = (used * 256) mod 2 ^ 64; load = (used div tot * 100) mod 2 ^ 64
      in unat (word_of_nat (unat (drop_bit 8 ((word_of_nat load :: 64 word) AND 0xffffff00))) :: u8))"

definition wait_indication :: "nat \<Rightarrow> nat \<Rightarrow> nat" where
  "wait_indication used tot =
     (let used = (used * 256) mod 2 ^ 64; wait_ind = (used div tot * MAX_WAIT_IND) mod 2 ^ 64 div 256
      in if wait_ind < GSM_T3122_DEFAULT then GSM_T3122_DEFAULT
         else if wait_ind > MAX_WAIT_IND then MAX_WAIT_IND else wait_ind)"

definition bts_update_t3122_chan_load :: "gsm_bts_load \<Rightarrow> gsm_bts_load res" where
  "bts_update_t3122_chan_load bts =
     (if \<not> trx_is_usable (bts_type bts) (hd (trx_list bts)) then Ok bts
      else let (used, tot) = sum_load (bts_chan_load (\<lambda>_. no_load) bts) in
        if tot = 0 \<or> used > tot then Ok (bts\<lparr> T3122 := 0, chan_load_samples_idx := 0 \<rparr>)
        else if chan_load_samples_idx bts < length (chan_load_samples bts) then
          Ok (bts\<lparr> chan_load_samples := (chan_load_samples bts)[chan_load_samples_idx bts := \<lparr> lc_total = tot, lc_used = used mod 2 ^ 32 \<rparr>],
                   chan_load_samples_idx := chan_load_samples_idx bts + 1 \<rparr>)
        else
          let (used, tot) = add_samples (chan_load_samples bts) (used, tot); avg = load_avg used tot in
          if tot = 0 then Abort
          else if avg > 100 then Abort
          else Ok (bts\<lparr> chan_load_samples_idx := 0, chan_load_avg := word_of_nat avg,
                        T3122 := word_of_nat (wait_indication used tot) \<rparr>))"


section \<open>What is counted\<close>

definition running_ts :: "gsm_bts_trx \<Rightarrow> gsm_bts_trx_ts list" where
  "running_ts trx =
     (if nm_is_running (trx_mo trx) \<and> nm_is_running (bb_transc_mo trx)
      then filter (\<lambda>ts. nm_is_running (ts_mo ts)) (trx_ts trx) else [])"

text \<open>The states of the lchans of a BTS on running timeslots of a configuration.\<close>

definition lchans_on :: "gsm_phys_chan_config \<Rightarrow> gsm_bts_trx_ts list \<Rightarrow> lchan_fsm_state list" where
  "lchans_on p tss = concat (map (\<lambda>ts. if pchan_on_init ts = p then map (lc_state ts) (ts_for_each_lchan ts) else []) tss)"

definition counted :: "lchan_fsm_state list \<Rightarrow> load_counter \<Rightarrow> load_counter" where
  "counted sts c = \<lparr> lc_total = lc_total c + length sts, lc_used = lc_used c + length (filter (\<lambda>s. s \<noteq> LCHAN_ST_UNUSED) sts) \<rparr>"

lemma fold_count_lchan:
  assumes "lc_total c + length sts < 2 ^ 32" "lc_used c + length sts < 2 ^ 32"
  shows "fold count_lchan sts c = counted sts c"
  using assms by (induction sts arbitrary: c) (auto simp: count_lchan_def counted_def)

lemma fold_upd: "fold (\<lambda>i cl. cl(p := f i (cl p))) xs cl = cl(p := fold f xs (cl p))"
  by (induction xs arbitrary: cl) auto

lemma fold_map_comp: "fold (\<lambda>i c. f (g i) c) xs c = fold f (map g xs) c"
  by (induction xs arbitrary: c) auto

lemma ts_chan_load_eq:
  "ts_chan_load ts cl p = (if nm_is_running (ts_mo ts) then fold count_lchan (lchans_on p [ts]) (cl p) else cl p)"
  by (simp add: ts_chan_load_def fold_upd[of "pchan_on_init ts" "\<lambda>i. count_lchan (lc_state ts i)"] lchans_on_def
      fold_map_comp[of count_lchan "lc_state ts"])

lemma trx_chan_load_eq: "trx_chan_load trx cl p = fold count_lchan (lchans_on p (running_ts trx)) (cl p)"
proof -
  have "fold ts_chan_load tss cl p = fold count_lchan (lchans_on p (filter (\<lambda>ts. nm_is_running (ts_mo ts)) tss)) (cl p)" for tss
    by (induction tss arbitrary: cl) (simp_all add: ts_chan_load_eq lchans_on_def)
  then show ?thesis by (simp add: trx_chan_load_def running_ts_def lchans_on_def)
qed

lemma bts_chan_load_eq:
  "bts_chan_load cl bts p = fold count_lchan (lchans_on p (concat (map running_ts (trx_list bts)))) (cl p)"
proof -
  have "fold trx_chan_load trxs cl p = fold count_lchan (lchans_on p (concat (map running_ts trxs))) (cl p)" for trxs
    by (induction trxs arbitrary: cl) (simp_all add: trx_chan_load_eq lchans_on_def)
  then show ?thesis by (simp add: bts_chan_load_def)
qed

text \<open>The channel load counts, for every channel configuration, the lchans on running timeslots of running
  TRXs as total and those of them that are not UNUSED as used\<close>

lemma bts_chan_load_counts:
  assumes "length (lchans_on p (concat (map running_ts (trx_list bts)))) < 2 ^ 32"
  shows "bts_chan_load (\<lambda>_. no_load) bts p = counted (lchans_on p (concat (map running_ts (trx_list bts)))) no_load"
  using assms by (simp add: bts_chan_load_eq fold_count_lchan no_load_def)


section \<open>Sums and averages\<close>

definition small :: "load_counter \<Rightarrow> bool" where
  "small c \<longleftrightarrow> lc_used c \<le> 65535 \<and> lc_total c \<le> 65535"

abbreviation MAX_SAMPLE :: nat where "MAX_SAMPLE \<equiv> 12 * 65535"

lemma fold_sum_load:
  assumes "u + 65535 * length ps < 2 ^ 32" "t + 65535 * length ps < 2 ^ 32"
  shows "fold (\<lambda>p (used, tot).
         if lc_used (pl p) > 65535 \<or> lc_total (pl p) > 65535 then (used, tot)
         else ((used + lc_used (pl p)) mod 2 ^ 64, (tot + lc_total (pl p)) mod 2 ^ 32)) ps (u, t) =
    (u + sum_list (map (lc_used \<circ> pl) (filter (small \<circ> pl) ps)), t + sum_list (map (lc_total \<circ> pl) (filter (small \<circ> pl) ps)))"
  using assms
proof (induction ps arbitrary: u t)
  case Nil
  show ?case by simp
next
  case (Cons p ps)
  show ?case
  proof (cases "small (pl p)")
    case True
    then have "u + lc_used (pl p) + 65535 * length ps < 2 ^ 32" "t + lc_total (pl p) + 65535 * length ps < 2 ^ 32"
      using Cons.prems by (auto simp: small_def)
    from Cons.IH[OF this] this True show ?thesis by (simp add: small_def add.assoc)
  next
    case False
    then show ?thesis using Cons.IH[of u t] Cons.prems by (auto simp: small_def)
  qed
qed

lemma sum_load_eq: "sum_load pl = (sum_list (map (lc_used \<circ> pl) (filter (small \<circ> pl) all_pchans)),
    sum_list (map (lc_total \<circ> pl) (filter (small \<circ> pl) all_pchans)))"
  unfolding sum_load_def by (subst fold_sum_load) (simp_all add: all_pchans_def)

lemma sum_small: "sum_list (map (lc_total \<circ> pl) (filter (small \<circ> pl) ps)) \<le> 65535 * length ps"
  by (induction ps) (auto simp: small_def)

lemma sum_used_le:
  "(\<And>p. lc_used (pl p) \<le> lc_total (pl p)) \<Longrightarrow>
     sum_list (map (lc_used \<circ> pl) (filter (small \<circ> pl) ps)) \<le> sum_list (map (lc_total \<circ> pl) (filter (small \<circ> pl) ps))"
  by (induction ps) (auto intro: add_mono)

lemma sum_load_bound: "sum_load pl = (u, t) \<Longrightarrow> t \<le> MAX_SAMPLE"
  using sum_small[of pl all_pchans] by (auto simp: sum_load_eq all_pchans_def)

lemma drop_masked: "drop_bit 8 ((w :: 64 word) AND 0xffffff00) = drop_bit 8 (take_bit 32 w)"
proof -
  have m: "(0xffffff00 :: 64 word) = push_bit 8 (mask 24)" by (simp add: mask_eq_exp_minus_1)
  show ?thesis unfolding m
    by (rule bit_word_eqI, auto simp only: bit_drop_bit_eq bit_and_iff bit_push_bit_iff bit_mask_iff bit_take_bit_iff comp_def
        possible_bit_word) simp_all
qed

lemma load_avg_eq:
  assumes "used \<le> tot" "0 < tot" "tot \<le> 8 * MAX_SAMPLE"
  shows "load_avg used tot = used * 256 div tot * 100 div 256" "used * 256 div tot \<le> 256"
proof -
  have "used * 256 div tot \<le> tot * 256 div tot" using assms by (intro div_le_mono mult_le_mono1)
  then show le: "used * 256 div tot \<le> 256" using assms by simp
  define n where "n = used * 256 div tot * 100"
  have n: "n \<le> 25600" using le by (simp add: n_def)
  have u: "used * 256 mod 2 ^ 64 = used * 256" "n mod 2 ^ 64 = n" using assms n by simp_all
  have "take_bit 32 (word_of_nat n :: 64 word) = word_of_nat n"
    using n by (intro word_unat_eq_iff[THEN iffD2]) (simp add: unsigned_take_bit_eq unsigned_of_nat take_bit_nat_eq_self)
  then have "unat (drop_bit 8 ((word_of_nat n :: 64 word) AND 0xffffff00)) = n div 256"
    using n unfolding drop_masked
    by (simp only: unsigned_drop_bit_eq unsigned_of_nat take_bit_nat_eq_self drop_bit_eq_div) (simp add: unat_div unsigned_of_nat take_bit_nat_eq_self)
  then show "load_avg used tot = used * 256 div tot * 100 div 256"
    using n unfolding load_avg_def Let_def u(1) n_def[symmetric] u(2)
    by (simp add: unsigned_of_nat take_bit_nat_eq_self)
qed

lemma wait_indication_range:
  "10 \<le> wait_indication used tot \<and> wait_indication used tot \<le> 128"
  by (auto simp: wait_indication_def Let_def GSM_T3122_DEFAULT_def MAX_WAIT_IND_def)

lemma unat_octet: "n \<le> 128 \<Longrightarrow> unat (word_of_nat n :: u8) = n"
  by (simp add: unsigned_of_nat take_bit_nat_eq_self)

text \<open>The fixed point average is the percentage, rounded down by less than two.\<close>

lemma load_avg_accurate:
  assumes "used \<le> tot" "0 < tot" "tot \<le> 8 * MAX_SAMPLE"
  shows "load_avg used tot * tot \<le> 100 * used \<and> 100 * used < (load_avg used tot + 2) * tot"
proof -
  define q where "q = used * 256 div tot"
  have q: "q * tot \<le> used * 256" "used * 256 < (q + 1) * tot"
    using assms(2) dividend_less_div_times[of tot "used * 256"] by (simp_all add: q_def)
  define a where "a = q * 100 div 256"
  have a: "a * 256 \<le> q * 100" "q * 100 < (a + 1) * 256" by (simp_all add: a_def)
  have av: "load_avg used tot = a" using load_avg_eq(1)[OF assms] by (simp add: a_def q_def)
  have "a * 256 * tot \<le> q * 100 * tot" using a(1) by (rule mult_le_mono1)
  also have "\<dots> \<le> used * 256 * 100" using mult_le_mono1[OF q(1), of 100] by (simp add: ac_simps)
  finally have 1: "a * tot \<le> 100 * used" by simp
  have "used * 256 * 100 < (q + 1) * tot * 100" using q(2) by simp
  also have "\<dots> = (q * 100 + 100) * tot" by (simp add: algebra_simps)
  also have "\<dots> \<le> ((a + 2) * 256) * tot" using a(2) by (intro mult_le_mono1) simp
  finally have "100 * used < (a + 2) * tot" by (simp add: algebra_simps)
  with 1 av show ?thesis by simp
qed


section \<open>The samples\<close>

text \<open>The load of a list of TRXs, and one update with the TRXs as they are then.\<close>

definition sample :: "gsm_bts_trx list \<Rightarrow> nat \<times> nat" where
  "sample trxs = sum_load (fold trx_chan_load trxs (\<lambda>_. no_load))"

definition chan_update :: "gsm_bts_trx list \<Rightarrow> gsm_bts_load \<Rightarrow> gsm_bts_load res" where
  "chan_update trxs bts = bts_update_t3122_chan_load (bts\<lparr> trx_list := trxs \<rparr>)"

primrec chan_updates :: "gsm_bts_trx list list \<Rightarrow> gsm_bts_load \<Rightarrow> gsm_bts_load res" where
  "chan_updates [] bts = Ok bts"
| "chan_updates (trxs # rest) bts = rbind (chan_update trxs bts) (chan_updates rest)"

definition sample_ok :: "load_counter \<Rightarrow> bool" where
  "sample_ok s \<longleftrightarrow> lc_used s \<le> lc_total s \<and> lc_total s \<le> MAX_SAMPLE"

definition load_inv :: "gsm_bts_load \<Rightarrow> bool" where
  "load_inv b \<longleftrightarrow> length (chan_load_samples b) = 7 \<and> chan_load_samples_idx b \<le> 7 \<and>
     (\<forall>i < chan_load_samples_idx b. sample_ok (chan_load_samples b ! i))"

definition usable_sample :: "gsm_bts_type \<Rightarrow> gsm_bts_trx list \<Rightarrow> bool" where
  "usable_sample bt trxs \<longleftrightarrow> trx_is_usable bt (hd trxs) \<and> snd (sample trxs) \<noteq> 0 \<and> fst (sample trxs) \<le> snd (sample trxs)"

definition sample_counter :: "gsm_bts_trx list \<Rightarrow> load_counter" where
  "sample_counter trxs = \<lparr> lc_total = snd (sample trxs), lc_used = fst (sample trxs) \<rparr>"

lemma sample_counter_ok: "usable_sample bt trxs \<Longrightarrow> sample_ok (sample_counter trxs)"
  using sum_load_bound[of "fold trx_chan_load trxs (\<lambda>_. no_load)"]
  by (auto simp: usable_sample_def sample_ok_def sample_counter_def sample_def prod_eq_iff)

lemma add_samples_eq:
  assumes "\<forall>s \<in> set ss. sample_ok s" "u \<le> t" "t + MAX_SAMPLE * length ss < 2 ^ 32"
  shows "add_samples ss (u, t) = (u + sum_list (map lc_used ss), t + sum_list (map lc_total ss)) \<and>
    sum_list (map lc_used ss) \<le> sum_list (map lc_total ss) \<and> sum_list (map lc_total ss) \<le> MAX_SAMPLE * length ss"
  using assms
proof (induction ss arbitrary: u t)
  case Nil
  show ?case by (simp add: add_samples_def)
next
  case (Cons s ss)
  have s: "lc_used s \<le> lc_total s" "lc_total s \<le> MAX_SAMPLE" using Cons.prems by (auto simp: sample_ok_def)
  have "add_samples (s # ss) (u, t) = add_samples ss (u + lc_used s, t + lc_total s)"
    using Cons.prems s by (simp add: add_samples_def)
  then show ?case using Cons.IH[of "u + lc_used s" "t + lc_total s"] Cons.prems s by simp
qed

lemma chan_update_cases:
  assumes "load_inv b" "usable_sample (bts_type b) trxs"
  shows "chan_load_samples_idx b < 7 \<Longrightarrow> chan_update trxs b = Ok (b\<lparr> trx_list := trxs,
      chan_load_samples := (chan_load_samples b)[chan_load_samples_idx b := sample_counter trxs],
      chan_load_samples_idx := chan_load_samples_idx b + 1 \<rparr>)"
    "chan_load_samples_idx b = 7 \<Longrightarrow> chan_update trxs b = Ok (b\<lparr> trx_list := trxs, chan_load_samples_idx := 0,
      chan_load_avg := word_of_nat (load_avg (sum_list (map lc_used (chan_load_samples b @ [sample_counter trxs])))
        (sum_list (map lc_total (chan_load_samples b @ [sample_counter trxs])))),
      T3122 := word_of_nat (wait_indication (sum_list (map lc_used (chan_load_samples b @ [sample_counter trxs])))
        (sum_list (map lc_total (chan_load_samples b @ [sample_counter trxs])))) \<rparr>)"
proof -
  obtain u t where ut: "sample trxs = (u, t)" by fastforce
  have sl: "sum_load (bts_chan_load (\<lambda>_. no_load) (b\<lparr> trx_list := trxs \<rparr>)) = (u, t)" using ut by (simp add: sample_def bts_chan_load_def)
  have us: "trx_is_usable (bts_type b) (hd trxs)" "t \<noteq> 0" "u \<le> t" "t \<le> MAX_SAMPLE"
    using assms(2) sample_counter_ok[OF assms(2)] ut by (auto simp: usable_sample_def sample_ok_def sample_counter_def)
  have len: "length (chan_load_samples b) = 7" using assms(1) by (simp add: load_inv_def)
  { assume "chan_load_samples_idx b < 7"
    then show "chan_update trxs b = Ok (b\<lparr> trx_list := trxs,
      chan_load_samples := (chan_load_samples b)[chan_load_samples_idx b := sample_counter trxs],
      chan_load_samples_idx := chan_load_samples_idx b + 1 \<rparr>)"
      using us len sl by (simp add: chan_update_def bts_update_t3122_chan_load_def sample_counter_def ut) }
  { assume i: "chan_load_samples_idx b = 7"
    let ?ss = "chan_load_samples b"
    have ok: "\<forall>s \<in> set ?ss. sample_ok s" using assms(1) i len by (auto simp: load_inv_def in_set_conv_nth)
    note a = add_samples_eq[OF ok us(3)]
    have b: "add_samples ?ss (u, t) = (u + sum_list (map lc_used ?ss), t + sum_list (map lc_total ?ss))"
      "u + sum_list (map lc_used ?ss) \<le> t + sum_list (map lc_total ?ss)" "t + sum_list (map lc_total ?ss) \<le> 8 * MAX_SAMPLE"
      using a us len by simp_all
    have "load_avg (u + sum_list (map lc_used ?ss)) (t + sum_list (map lc_total ?ss)) \<le> 100"
      using load_avg_eq[OF b(2) _ b(3)] us(2) by simp
    then show "chan_update trxs b = Ok (b\<lparr> trx_list := trxs, chan_load_samples_idx := 0,
      chan_load_avg := word_of_nat (load_avg (sum_list (map lc_used (?ss @ [sample_counter trxs])))
        (sum_list (map lc_total (?ss @ [sample_counter trxs])))),
      T3122 := word_of_nat (wait_indication (sum_list (map lc_used (?ss @ [sample_counter trxs])))
        (sum_list (map lc_total (?ss @ [sample_counter trxs])))) \<rparr>)"
      using us len sl i b(1) by (simp add: chan_update_def bts_update_t3122_chan_load_def sample_counter_def ut add.commute) }
qed


lemma chan_update_unusable:
  assumes "\<not> usable_sample (bts_type b) trxs"
  shows "chan_update trxs b \<in> {Ok (b\<lparr> trx_list := trxs \<rparr>), Ok (b\<lparr> trx_list := trxs, T3122 := 0, chan_load_samples_idx := 0 \<rparr>)}"
  using assms by (auto simp: chan_update_def bts_update_t3122_chan_load_def usable_sample_def sample_def bts_chan_load_def split: prod.splits)

lemma load_avg_le_100:
  assumes "used \<le> tot" "0 < tot" "tot \<le> 8 * MAX_SAMPLE"
  shows "load_avg used tot \<le> 100"
  using load_avg_eq[OF assms] by simp

lemma sums_ok:
  assumes "\<forall>s \<in> set ss. sample_ok s" "length ss = 7" "usable_sample bt trxs"
  shows "sum_list (map lc_used (ss @ [sample_counter trxs])) \<le> sum_list (map lc_total (ss @ [sample_counter trxs]))"
    "0 < sum_list (map lc_total (ss @ [sample_counter trxs]))"
    "sum_list (map lc_total (ss @ [sample_counter trxs])) \<le> 8 * MAX_SAMPLE"
  using add_samples_eq[OF assms(1), of 0 0] assms(2,3) sample_counter_ok[OF assms(3)]
  by (simp_all add: sample_ok_def sample_counter_def usable_sample_def)

text \<open>The periodic load update never fails its assertion or divides by zero, whatever the state of the channels;
  the samples stay well formed, and it leaves T3122 alone, disables it or sets it between 10 and 128
  seconds, and the average to at most 100 percent.\<close>

lemma chan_update_safe:
  assumes "load_inv b"
  shows "\<exists>b'. chan_update trxs b = Ok b' \<and> load_inv b' \<and>
    (T3122 b' \<in> {T3122 b, 0} \<or> 10 \<le> unat (T3122 b') \<and> unat (T3122 b') \<le> 128) \<and>
    (chan_load_avg b' = chan_load_avg b \<or> unat (chan_load_avg b') \<le> 100)"
proof (cases "usable_sample (bts_type b) trxs")
  case False
  with chan_update_unusable[OF this] assms show ?thesis by (auto simp: load_inv_def)
next
  case True
  have len: "length (chan_load_samples b) = 7" using assms by (simp add: load_inv_def)
  show ?thesis
  proof (cases "chan_load_samples_idx b < 7")
    case less: True
    show ?thesis unfolding chan_update_cases(1)[OF assms True less]
      using assms less sample_counter_ok[OF True] by (auto simp: load_inv_def nth_list_update less_Suc_eq)
  next
    case False
    then have i: "chan_load_samples_idx b = 7" using assms by (simp add: load_inv_def)
    have ok: "\<forall>s \<in> set (chan_load_samples b). sample_ok s" using assms i len by (auto simp: load_inv_def in_set_conv_nth)
    note sums = sums_ok[OF ok len True]
    show ?thesis unfolding chan_update_cases(2)[OF assms True i]
      using load_avg_le_100[OF sums] wait_indication_range len
      by (simp add: load_inv_def unat_octet del: map_append)
  qed
qed

lemma chan_updates_collect:
  assumes "load_inv b" "\<forall>trxs \<in> set xs. usable_sample (bts_type b) trxs" "chan_load_samples_idx b + length xs \<le> 7"
  shows "\<exists>b'. chan_updates xs b = Ok b' \<and> load_inv b' \<and> bts_type b' = bts_type b \<and>
    chan_load_samples_idx b' = chan_load_samples_idx b + length xs \<and>
    take (chan_load_samples_idx b') (chan_load_samples b') = take (chan_load_samples_idx b) (chan_load_samples b) @ map sample_counter xs"
  using assms
proof (induction xs arbitrary: b)
  case Nil
  then show ?case by simp
next
  case (Cons trxs xs)
  let ?b = "b\<lparr> trx_list := trxs, chan_load_samples := (chan_load_samples b)[chan_load_samples_idx b := sample_counter trxs],
      chan_load_samples_idx := chan_load_samples_idx b + 1 \<rparr>"
  have us: "usable_sample (bts_type b) trxs" and lt: "chan_load_samples_idx b < 7" using Cons.prems by simp_all
  have c: "chan_update trxs b = Ok ?b" by (rule chan_update_cases(1)[OF Cons.prems(1) us lt])
  have "load_inv ?b" using Cons.prems(1) lt sample_counter_ok[OF us] by (auto simp: load_inv_def nth_list_update less_Suc_eq)
  from Cons.IH[OF this] Cons.prems have "\<exists>b'. chan_updates xs ?b = Ok b' \<and> load_inv b' \<and> bts_type b' = bts_type b \<and>
    chan_load_samples_idx b' = chan_load_samples_idx b + 1 + length xs \<and>
    take (chan_load_samples_idx b') (chan_load_samples b') =
      take (chan_load_samples_idx b + 1) ((chan_load_samples b)[chan_load_samples_idx b := sample_counter trxs]) @ map sample_counter xs"
    by simp
  moreover have "take (chan_load_samples_idx b + 1) ((chan_load_samples b)[chan_load_samples_idx b := sample_counter trxs]) =
      take (chan_load_samples_idx b) (chan_load_samples b) @ [sample_counter trxs]"
    using Cons.prems(1) lt by (simp add: load_inv_def take_Suc_conv_app_nth)
  ultimately show ?case using c by auto
qed

lemma chan_updates_snoc: "chan_updates (ys @ [trxs]) b = rbind (chan_updates ys b) (chan_update trxs)"
proof (induction ys arbitrary: b)
  case (Cons y ys)
  then show ?case by (cases "chan_update y b") simp_all
next
  case Nil
  have "chan_updates [] = Ok" by (rule ext) simp
  then show ?case by simp
qed

text \<open>The average is taken over the last eight samples: starting without samples, eight updates of a
  working cell set the average load to that of exactly these eight samples, rounded down by less than
  two percent, and the next average starts afresh.\<close>

lemma load_average_of_eight:
  assumes "length (chan_load_samples b) = 7" "chan_load_samples_idx b = 0" "length xs = 8"
    "\<forall>trxs \<in> set xs. usable_sample (bts_type b) trxs"
  shows "\<exists>b'. chan_updates xs b = Ok b' \<and> chan_load_samples_idx b' = 0 \<and>
    unat (chan_load_avg b') * sum_list (map (snd \<circ> sample) xs) \<le> 100 * sum_list (map (fst \<circ> sample) xs) \<and>
    100 * sum_list (map (fst \<circ> sample) xs) < (unat (chan_load_avg b') + 2) * sum_list (map (snd \<circ> sample) xs)"
proof -
  obtain ys trxs where xs: "xs = ys @ [trxs]" using assms(3) by (cases xs rule: rev_cases) auto
  have len: "length ys = 7" using assms(3) xs by simp
  have "load_inv b" using assms by (simp add: load_inv_def)
  from chan_updates_collect[OF this, of ys] obtain b1 where b1: "chan_updates ys b = Ok b1" "load_inv b1" "bts_type b1 = bts_type b"
    "chan_load_samples_idx b1 = 7" "take 7 (chan_load_samples b1) = map sample_counter ys"
    using assms xs len by auto
  have s: "chan_load_samples b1 = map sample_counter ys" using b1(2,5) by (simp add: load_inv_def)
  have us: "usable_sample (bts_type b1) trxs" using assms(4) xs b1(3) by simp
  have ok: "\<forall>s \<in> set (chan_load_samples b1). sample_ok s" using b1(2,4) by (auto simp: load_inv_def in_set_conv_nth)
  have sums: "sum_list (map lc_used (chan_load_samples b1 @ [sample_counter trxs])) = sum_list (map (fst \<circ> sample) xs)"
    "sum_list (map lc_total (chan_load_samples b1 @ [sample_counter trxs])) = sum_list (map (snd \<circ> sample) xs)"
    by (simp_all add: s xs comp_def sample_counter_def)
  have l7: "length (chan_load_samples b1) = 7" using b1(2) by (simp add: load_inv_def)
  note so = sums_ok[OF ok l7 us, unfolded sums]
  have "chan_updates xs b = chan_update trxs b1" unfolding xs chan_updates_snoc b1(1) by simp
  with chan_update_cases(2)[OF b1(2) us b1(4), unfolded sums]
  obtain b2 where b2: "chan_updates xs b = Ok b2" "chan_load_samples_idx b2 = 0"
    "chan_load_avg b2 = word_of_nat (load_avg (sum_list (map (fst \<circ> sample) xs)) (sum_list (map (snd \<circ> sample) xs)))"
    by simp
  have "unat (chan_load_avg b2) = load_avg (sum_list (map (fst \<circ> sample) xs)) (sum_list (map (snd \<circ> sample) xs))"
    unfolding b2(3) using load_avg_le_100[OF so] by (intro unat_octet) simp
  with load_avg_accurate[OF so] b2(1,2) show ?thesis by auto
qed

section \<open>An example\<close>

definition running :: gsm_nm_state where
  "running = \<lparr> operational = NM_OPSTATE_ENABLED, availability = NM_AVSTATE_OK \<rparr>"

definition one_tch :: "lchan_fsm_state \<Rightarrow> gsm_bts_trx" where
  "one_tch st = \<lparr> trx_nr = 0, trx_mo = running, bb_transc_mo = running, trx_arfcn = 871,
     trx_ts = [(alloc_ts 2)\<lparr> ts_mo := running, pchan_on_init := GSM_PCHAN_TCH_F, pchan_is := GSM_PCHAN_TCH_F,
       lchans := [zero_lchan 0 (Some \<lparr> lf_state = st, lf_T = None \<rparr>) None] \<rparr>] \<rparr>"

definition load_bts :: gsm_bts_load where
  "load_bts = \<lparr> bts_nr = 0, bts_type = GSM_BTS_TYPE_OSMOBTS, bts_mo = running, oml_link = True, gprs_mode = BTS_GPRS_NONE,
     chan_alloc_reverse = False, location_area_code = 1, cell_identity = 0, infinite_radio_link_timeout = False,
     radio_link_timeout = 7, depends_on = replicate 8 0, local_neighbors = [], trx_list = [],
     T3122 = 0, chan_load_samples = replicate 7 no_load, chan_load_samples_idx = 0, chan_load_avg = 0 \<rparr>"

lemma one_tch_lchans: "lchans_on p (running_ts (one_tch st)) = (if p = GSM_PCHAN_TCH_F then [st] else [])"
  by (simp add: one_tch_def running_ts_def running_def nm_is_running_def lchans_on_def ts_for_each_lchan_def
      ts_as_pchan_for_each_lchan_def lchan_iter_cond_def TS_MAX_LCHAN_def zero_lchan_def lc_state_def upt_rec)

lemma one_tch_sample: "sample [one_tch st] = (if st = LCHAN_ST_UNUSED then 0 else 1, 1)"
  by (simp add: sample_def sum_load_eq trx_chan_load_eq one_tch_lchans all_pchans_def small_def no_load_def count_lchan_def)

lemma one_tch_usable: "usable_sample GSM_BTS_TYPE_OSMOBTS [one_tch st]"
  by (simp add: usable_sample_def one_tch_sample) (simp add: one_tch_def running_def trx_is_usable_def nm_is_running_def)

text \<open>Of eight samples of one TCH, six with it in use: 75 percent, rounded down.\<close>

end
