(* ===== verification/Paging.thy ===== *)
theory Paging
  imports Bsc_Subscriber Chan_Alloc
begin

text \<open>
  Paging, \<^verbatim>\<open>paging.c\<close>: every BTS has a queue of paging requests, a work timer that sends the next paging
  command and a credit timer for the time when the BTS has announced no free buffers.  Requests hold a
  reference to their subscriber; the subscribers are those of \<^verbatim>\<open>bsc_subscriber.c\<close>, so that an access
  to a freed subscriber is \<open>Abort\<close>.  A BTS is named by its position in the list of the network; the
  paging group of an IMSI is computed by libosmogsm and an argument.
\<close>

section \<open>State\<close>

datatype rsl_chan_needed = RSL_CHANNEED_ANY | RSL_CHANNEED_SDCCH | RSL_CHANNEED_TCH_F | RSL_CHANNEED_TCH_ForH

record gsm_paging_request =
  pr_bsub :: sub_ptr
  pr_chan_type :: rsl_chan_needed
  pr_T3113 :: nat
  pr_attempts :: nat
  pr_msc :: nat

record gsm_bts_paging_state =
  pending_requests :: "gsm_paging_request list"
  paging_initialized :: bool
  work_timer :: bool
  credit_timer :: bool
  free_chans_need :: int
  available_slots :: u16

record gsm_bts_pag = gsm_bts +
  paging :: gsm_bts_paging_state
  T3113_dynamic :: bool
  bs_pa_mfrms :: u8
  rach_max_trans :: u8

datatype mobile_id = MI_IMSI string | MI_TMSI u32

datatype paging_cmd = Paging_cmd nat nat mobile_id rsl_chan_needed

text \<open>The BTSs, the subscribers, the references that connections hold, the commands sent and the configuration.\<close>

record paging_net =
  pn_bts :: "gsm_bts_pag list"
  pn_subs :: subscr_store
  pn_conns :: "sub_ptr list"
  pn_sent :: "paging_cmd list"
  pag_any_tch :: bool
  neci :: bool
  T3113_val :: nat

definition upd_bts :: "nat \<Rightarrow> (gsm_bts_pag \<Rightarrow> gsm_bts_pag) \<Rightarrow> paging_net \<Rightarrow> paging_net" where
  "upd_bts i f w = w\<lparr> pn_bts := (pn_bts w)[i := f (pn_bts w ! i)] \<rparr>"

definition upd_paging :: "nat \<Rightarrow> (gsm_bts_paging_state \<Rightarrow> gsm_bts_paging_state) \<Rightarrow> paging_net \<Rightarrow> paging_net" where
  "upd_paging i f w = upd_bts i (\<lambda>b. b\<lparr> paging := f (paging b) \<rparr>) w"

definition paging_of :: "paging_net \<Rightarrow> nat \<Rightarrow> gsm_bts_paging_state" where
  "paging_of w i = paging (pn_bts w ! i)"

definition with_subs :: "(subscr_store \<Rightarrow> subscr_store res) \<Rightarrow> paging_net \<Rightarrow> paging_net res" where
  "with_subs f w = rbind (f (pn_subs w)) (\<lambda>s. Ok (w\<lparr> pn_subs := s \<rparr>))"

text \<open>An access to a subscriber, for a message or for the log.\<close>

definition deref_bsub :: "sub_ptr \<Rightarrow> paging_net \<Rightarrow> bsc_subscr res" where
  "deref_bsub p w = (case bsub_at (pn_subs w) p of None \<Rightarrow> Abort | Some b \<Rightarrow> Ok b)"

section \<open>Sending\<close>

definition remove_nth :: "nat \<Rightarrow> 'a list \<Rightarrow> 'a list" where
  "remove_nth k xs = take k xs @ drop (Suc k) xs"

definition paging_remove_request :: "nat \<Rightarrow> nat \<Rightarrow> paging_net \<Rightarrow> paging_net res" where
  "paging_remove_request i k w =
     (let req = pending_requests (paging_of w i) ! k;
          w = upd_paging i (\<lambda>p. p\<lparr> pending_requests := remove_nth k (pending_requests p) \<rparr>) w
      in with_subs (bsc_subscr_put (pr_bsub req)) w)"

definition page_ms :: "(string \<Rightarrow> nat) \<Rightarrow> nat \<Rightarrow> gsm_paging_request \<Rightarrow> paging_net \<Rightarrow> paging_net res" where
  "page_ms pgroup i req w =
     rbind (deref_bsub (pr_bsub req) w) (\<lambda>b.
       let mi = (if tmsi b = GSM_RESERVED_TMSI then MI_IMSI (imsi b) else MI_TMSI (tmsi b))
       in Ok (w\<lparr> pn_sent := pn_sent w @ [Paging_cmd i (pgroup (imsi b)) mi (pr_chan_type req)] \<rparr>))"

definition paging_schedule_if_needed :: "nat \<Rightarrow> paging_net \<Rightarrow> paging_net" where
  "paging_schedule_if_needed i w =
     (if pending_requests (paging_of w i) = [] then w else upd_paging i (\<lambda>p. p\<lparr> work_timer := True \<rparr>) w)"

text \<open>The number of free channels of a configuration: a difference of \<^verbatim>\<open>unsigned int\<close>, added to an \<^verbatim>\<open>int\<close>.\<close>

definition free_on :: "pchan_load \<Rightarrow> gsm_phys_chan_config \<Rightarrow> int" where
  "free_on pl p = int (lc_total (pl p)) - int (lc_used (pl p))"

text \<open>True is the result 1 of the code: there are fewer free channels than needed.\<close>

definition can_send_pag_req :: "paging_net \<Rightarrow> nat \<Rightarrow> rsl_chan_needed \<Rightarrow> bool" where
  "can_send_pag_req w i rsl_type =
     (let bts = pn_bts w ! i; pl = bts_chan_load (\<lambda>_. no_load) bts;
          count_sdcch = free_chans_need (paging bts) > free_on pl GSM_PCHAN_SDCCH8_SACCH8C + free_on pl GSM_PCHAN_CCCH_SDCCH4;
          count_tch = free_chans_need (paging bts) > free_on pl GSM_PCHAN_TCH_F + (if neci w then free_on pl GSM_PCHAN_TCH_H else 0)
      in case rsl_type of
           RSL_CHANNEED_TCH_F \<Rightarrow> count_tch
         | RSL_CHANNEED_TCH_ForH \<Rightarrow> count_tch
         | RSL_CHANNEED_SDCCH \<Rightarrow> count_sdcch
         | RSL_CHANNEED_ANY \<Rightarrow> if pag_any_tch w then count_tch else count_sdcch)"

definition paging_handle_pending_requests :: "(string \<Rightarrow> nat) \<Rightarrow> nat \<Rightarrow> paging_net \<Rightarrow> paging_net res" where
  "paging_handle_pending_requests pgroup i w =
     (case pending_requests (paging_of w i) of
        [] \<Rightarrow> Ok w
      | request # rest \<Rightarrow>
          if available_slots (paging_of w i) = 0 then Ok (upd_paging i (\<lambda>p. p\<lparr> credit_timer := True \<rparr>) w)
          else if free_chans_need (paging_of w i) \<noteq> -1 \<and> can_send_pag_req w i (pr_chan_type request) \<or> \<not> oml_link (pn_bts w ! i)
          then Ok (upd_paging i (\<lambda>p. p\<lparr> work_timer := True \<rparr>) w)
          else rbind (page_ms pgroup i request w) (\<lambda>w.
            Ok (upd_paging i (\<lambda>p. p\<lparr> available_slots := available_slots p - 1,
              pending_requests := rest @ [request\<lparr> pr_attempts := pr_attempts request + 1 \<rparr>], work_timer := True \<rparr>) w)))"

text \<open>The expiry of the two timers.\<close>

definition paging_worker :: "(string \<Rightarrow> nat) \<Rightarrow> nat \<Rightarrow> paging_net \<Rightarrow> paging_net res" where
  "paging_worker pgroup i w = paging_handle_pending_requests pgroup i (upd_paging i (\<lambda>p. p\<lparr> work_timer := False \<rparr>) w)"

definition paging_give_credit :: "(string \<Rightarrow> nat) \<Rightarrow> nat \<Rightarrow> paging_net \<Rightarrow> paging_net res" where
  "paging_give_credit pgroup i w =
     paging_handle_pending_requests pgroup i (upd_paging i (\<lambda>p. p\<lparr> credit_timer := False, available_slots := 20 \<rparr>) w)"

section \<open>Requests\<close>

definition paging_init_if_needed :: "nat \<Rightarrow> paging_net \<Rightarrow> paging_net res" where
  "paging_init_if_needed i w =
     (if paging_initialized (paging_of w i) then Ok w
      else if pending_requests (paging_of w i) \<noteq> [] then Abort
      else Ok (upd_paging i (\<lambda>p. p\<lparr> paging_initialized := True, available_slots := 20 \<rparr>) w))"

definition paging_pending_request :: "gsm_bts_paging_state \<Rightarrow> sub_ptr \<Rightarrow> bool" where
  "paging_pending_request p bsub = (\<exists>req \<in> set (pending_requests p). pr_bsub req = bsub)"

definition paging_T3113_expired :: "nat \<Rightarrow> nat \<Rightarrow> paging_net \<Rightarrow> paging_net res" where
  "paging_T3113_expired i k w =
     rbind (deref_bsub (pr_bsub (pending_requests (paging_of w i) ! k)) w) (\<lambda>_. paging_remove_request i k w)"

definition GSM51_MFRAME_DURATION_us :: nat where "GSM51_MFRAME_DURATION_us = 51 * 4615"

definition calculate_timer_3113 :: "paging_net \<Rightarrow> nat \<Rightarrow> nat" where
  "calculate_timer_3113 w i =
     (let bts = pn_bts w ! i in
      if \<not> T3113_dynamic bts then T3113_val w
      else let to_us = GSM51_MFRAME_DURATION_us * (unat (bs_pa_mfrms bts) + 2) mod 2 ^ 32 * unat (rach_max_trans bts) mod 2 ^ 32
           in ((to_us + 999999) mod 2 ^ 32 div 1000000 + T3113_val w) mod 2 ^ 32)"

definition EEXIST :: int where "EEXIST = 17"
definition ENOENT :: int where "ENOENT = 2"

definition do_paging_request :: "nat \<Rightarrow> sub_ptr \<Rightarrow> rsl_chan_needed \<Rightarrow> nat \<Rightarrow> paging_net \<Rightarrow> (int \<times> paging_net) res" where
  "do_paging_request i bsub type msc w =
     rbind (deref_bsub bsub w) (\<lambda>_.
       if paging_pending_request (paging_of w i) bsub then Ok (- EEXIST, w)
       else rbind (with_subs (bsc_subscr_get bsub) w) (\<lambda>w.
         let req = \<lparr> pr_bsub = bsub, pr_chan_type = type, pr_T3113 = calculate_timer_3113 w i, pr_attempts = 0, pr_msc = msc \<rparr>;
             w = upd_paging i (\<lambda>p. p\<lparr> pending_requests := pending_requests p @ [req] \<rparr>) w
         in Ok (0, paging_schedule_if_needed i w)))"

definition paging_request_bts :: "nat \<Rightarrow> sub_ptr \<Rightarrow> rsl_chan_needed \<Rightarrow> nat \<Rightarrow> paging_net \<Rightarrow> (int \<times> paging_net) res" where
  "paging_request_bts i bsub type msc w =
     (if \<not> trx_is_usable (bts_type (pn_bts w ! i)) (hd (trx_list (pn_bts w ! i))) then Ok (0, w)
      else rbind (paging_init_if_needed i w) (\<lambda>w.
        rbind (do_paging_request i bsub type msc w) (\<lambda>(rc, w). Ok (if rc < 0 then 0 else 1, w))))"

text \<open>The position of a subscriber's request.\<close>

definition request_of :: "gsm_bts_paging_state \<Rightarrow> sub_ptr \<Rightarrow> nat option" where
  "request_of p bsub = find (\<lambda>k. pr_bsub (pending_requests p ! k) = bsub) [0..<length (pending_requests p)]"

definition do_paging_request_stop :: "nat \<Rightarrow> sub_ptr \<Rightarrow> paging_net \<Rightarrow> (int \<times> paging_net) res" where
  "do_paging_request_stop i bsub w =
     rbind (paging_init_if_needed i w) (\<lambda>w.
       case request_of (paging_of w i) bsub of
         None \<Rightarrow> Ok (- ENOENT, w)
       | Some k \<Rightarrow> rbind (paging_remove_request i k w) (\<lambda>w. rbind (deref_bsub bsub w) (\<lambda>_. Ok (0, w))))"

text \<open>The connection that answered keeps a reference to its subscriber.\<close>

definition paging_request_stop :: "nat option \<Rightarrow> sub_ptr \<Rightarrow> paging_net \<Rightarrow> paging_net res" where
  "paging_request_stop this bsub w =
     steps [with_subs (bsc_subscr_get bsub), \<lambda>w. Ok (w\<lparr> pn_conns := bsub # pn_conns w \<rparr>),
       \<lambda>w. case this of None \<Rightarrow> Ok w | Some i \<Rightarrow> rbind (do_paging_request_stop i bsub w) (\<lambda>(_, w). Ok w),
       for_each (filter (\<lambda>i. this \<noteq> Some i) [0..<length (pn_bts w)])
         (\<lambda>i w. rbind (do_paging_request_stop i bsub w) (\<lambda>(_, w). Ok w))] w"

definition paging_update_buffer_space :: "nat \<Rightarrow> u16 \<Rightarrow> paging_net \<Rightarrow> paging_net res" where
  "paging_update_buffer_space i free_slots w =
     rbind (paging_init_if_needed i w) (\<lambda>w.
       Ok (paging_schedule_if_needed i (upd_paging i (\<lambda>p. p\<lparr> credit_timer := False, available_slots := free_slots \<rparr>) w)))"

definition paging_pending_requests_nr :: "nat \<Rightarrow> paging_net \<Rightarrow> (nat \<times> paging_net) res" where
  "paging_pending_requests_nr i w =
     rbind (paging_init_if_needed i w) (\<lambda>w. Ok (length (pending_requests (paging_of w i)), w))"

definition paging_get_msc :: "nat \<Rightarrow> sub_ptr \<Rightarrow> paging_net \<Rightarrow> nat option" where
  "paging_get_msc i bsub w =
     map_option pr_msc (find (\<lambda>req. pr_bsub req = bsub) (pending_requests (paging_of w i)))"

text \<open>The loop that removes requests: the position \<open>k\<close> of the next request, and how many are left.\<close>

fun flush_requests :: "nat \<Rightarrow> nat option \<Rightarrow> nat \<Rightarrow> nat \<Rightarrow> paging_net \<Rightarrow> paging_net res" where
  "flush_requests i msc k 0 w = Ok w"
| "flush_requests i msc k (Suc n) w =
     (let req = pending_requests (paging_of w i) ! k in
      if msc \<noteq> None \<and> Some (pr_msc req) \<noteq> msc then flush_requests i msc (Suc k) n w
      else rbind (deref_bsub (pr_bsub req) w) (\<lambda>_.
        rbind (paging_remove_request i k w) (flush_requests i msc k n)))"

definition paging_flush_bts :: "nat \<Rightarrow> nat option \<Rightarrow> paging_net \<Rightarrow> paging_net res" where
  "paging_flush_bts i msc w =
     rbind (paging_init_if_needed i w) (\<lambda>w. flush_requests i msc 0 (length (pending_requests (paging_of w i))) w)"

definition paging_flush_network :: "nat option \<Rightarrow> paging_net \<Rightarrow> paging_net res" where
  "paging_flush_network msc w = for_each [0..<length (pn_bts w)] (\<lambda>i. paging_flush_bts i msc) w"


section \<open>References\<close>

definition reqs :: "gsm_bts_pag \<Rightarrow> sub_ptr list" where
  "reqs b = map pr_bsub (pending_requests (paging b))"

text \<open>All references to subscribers: those of connections and callers, and those of the requests.\<close>

definition refs_of :: "paging_net \<Rightarrow> sub_ptr multiset" where
  "refs_of w = mset (pn_conns w) + mset (concat (map reqs (pn_bts w)))"

definition others :: "paging_net \<Rightarrow> nat \<Rightarrow> sub_ptr multiset" where
  "others w i = mset (pn_conns w) + mset (concat (map reqs (take i (pn_bts w)))) + mset (concat (map reqs (drop (Suc i) (pn_bts w))))"

definition bts_ok :: "gsm_bts_paging_state \<Rightarrow> bool" where
  "bts_ok p \<longleftrightarrow> distinct (map pr_bsub (pending_requests p)) \<and>
     (pending_requests p \<noteq> [] \<longrightarrow> paging_initialized p \<and> (work_timer p \<or> credit_timer p))"

definition paging_inv :: "paging_net \<Rightarrow> bool" where
  "paging_inv w \<longleftrightarrow> subscr.owned (pn_subs w) (refs_of w) \<and> (\<forall>i < length (pn_bts w). bts_ok (paging_of w i))"

text \<open>What the operations on requests leave alone.\<close>

definition same :: "paging_net \<Rightarrow> paging_net \<Rightarrow> bool" where
  "same w w' \<longleftrightarrow> length (pn_bts w') = length (pn_bts w) \<and> pn_conns w' = pn_conns w"

lemma refs_of_split:
  assumes "i < length (pn_bts w)"
  shows "refs_of w = others w i + mset (map pr_bsub (pending_requests (paging_of w i)))"
proof -
  have "concat (map reqs (pn_bts w)) = concat (map reqs (take i (pn_bts w) @ pn_bts w ! i # drop (Suc i) (pn_bts w)))"
    using id_take_nth_drop[OF assms] by simp
  then show ?thesis unfolding refs_of_def others_def by (simp add: reqs_def paging_of_def)
qed

lemma paging_of_upd [simp]:
  "paging_of (upd_paging i f w) j = (if j = i \<and> i < length (pn_bts w) then f (paging_of w i) else paging_of w j)"
  by (cases "i < length (pn_bts w)") (auto simp: paging_of_def upd_paging_def upd_bts_def nth_list_update list_update_beyond)

lemma upd_paging_simps [simp]: "length (pn_bts (upd_paging i f w)) = length (pn_bts w)" "pn_conns (upd_paging i f w) = pn_conns w"
    "pn_subs (upd_paging i f w) = pn_subs w" "pn_sent (upd_paging i f w) = pn_sent w" "others (upd_paging i f w) i = others w i"
  by (simp_all add: upd_paging_def upd_bts_def others_def)

lemma refs_of_upd:
  assumes "i < length (pn_bts w)"
  shows "refs_of (upd_paging i f w) = others w i + mset (map pr_bsub (pending_requests (f (paging_of w i))))"
  using refs_of_split[of i "upd_paging i f w"] assms by simp

lemma same_refl [simp]: "same w w" and same_upd [simp]: "same w (upd_paging i f w)"
  by (simp_all add: same_def)

lemma same_trans: "same w w' \<Longrightarrow> same w' w'' \<Longrightarrow> same w w''"
  by (simp add: same_def)

lemma inv_live: "paging_inv w \<Longrightarrow> p \<in># refs_of w \<Longrightarrow> \<exists>b. deref_bsub p w = Ok b"
  by (auto simp: paging_inv_def subscr.owned_def sub_refs_def deref_bsub_def split: option.splits)

lemma req_in_refs:
  "i < length (pn_bts w) \<Longrightarrow> req \<in> set (pending_requests (paging_of w i)) \<Longrightarrow> pr_bsub req \<in># refs_of w"
  by (simp add: refs_of_split)

text \<open>A change of the paging state of one BTS that keeps its requests up to order and attempts.\<close>

lemma inv_upd:
  assumes "paging_inv w" "i < length (pn_bts w)"
    "mset (map pr_bsub (pending_requests (f (paging_of w i)))) = mset (map pr_bsub (pending_requests (paging_of w i)))"
    "bts_ok (f (paging_of w i))"
  shows "paging_inv (upd_paging i f w)"
  using assms by (simp add: paging_inv_def refs_of_upd refs_of_split[of i w])

lemma inv_sent: "paging_inv (w\<lparr> pn_sent := x \<rparr>) = paging_inv w"
  by (simp add: paging_inv_def refs_of_def paging_of_def)

lemma sent_simps [simp]: "paging_of (w\<lparr> pn_sent := x \<rparr>) i = paging_of w i" "same w (w\<lparr> pn_sent := x \<rparr>)"
  by (simp_all add: paging_of_def same_def)

section \<open>The operations keep the invariant\<close>

lemma inv_bts_ok: "paging_inv w \<Longrightarrow> i < length (pn_bts w) \<Longrightarrow> bts_ok (paging_of w i)"
  by (simp add: paging_inv_def)

lemma map_remove_nth: "map f (remove_nth k xs) = remove_nth k (map f xs)"
  by (simp add: remove_nth_def take_map drop_map)

lemma mset_remove_nth: "k < length xs \<Longrightarrow> mset xs = add_mset (xs ! k) (mset (remove_nth k xs))"
  by (metis id_take_nth_drop mset.simps(2) mset_append union_mset_add_mset_right remove_nth_def)

lemma distinct_remove_nth: "distinct xs \<Longrightarrow> k < length xs \<Longrightarrow> distinct (remove_nth k xs)"
  using id_take_nth_drop[of k xs] unfolding remove_nth_def by (metis distinct.simps(2) distinct_append list.set_intros(2) disjoint_iff)

lemma remove_ok:
  assumes "paging_inv w" "i < length (pn_bts w)" "k < length (pending_requests (paging_of w i))"
  shows "post (paging_remove_request i k w) (\<lambda>w'. paging_inv w' \<and> same w w' \<and>
    pending_requests (paging_of w' i) = remove_nth k (pending_requests (paging_of w i)))"
proof -
  let ?rs = "pending_requests (paging_of w i)"
  let ?w = "upd_paging i (\<lambda>p. p\<lparr> pending_requests := remove_nth k (pending_requests p) \<rparr>) w"
  have "refs_of w = add_mset (pr_bsub (?rs ! k)) (refs_of ?w)"
    using assms(2,3) mset_remove_nth[of k "map pr_bsub ?rs"] by (simp add: refs_of_split refs_of_upd map_remove_nth)
  then have "subscr.owned (pn_subs w) (add_mset (pr_bsub (?rs ! k)) (refs_of ?w))" using assms(1) by (simp add: paging_inv_def)
  from subscr.owned_release[OF this] obtain s where s: "bsc_subscr_put (pr_bsub (?rs ! k)) (pn_subs w) = Ok s" "subscr.owned s (refs_of ?w)"
    by (auto simp: post_iff)
  have "bts_ok ((paging_of w i)\<lparr> pending_requests := remove_nth k ?rs \<rparr>)"
    using inv_bts_ok[OF assms(1,2)] assms(3) distinct_remove_nth[of "map pr_bsub ?rs" k] by (auto simp: bts_ok_def map_remove_nth)
  moreover have "refs_of (?w\<lparr> pn_subs := s \<rparr>) = refs_of ?w" "paging_of (?w\<lparr> pn_subs := s \<rparr>) j = paging_of ?w j" for j
    by (simp_all add: refs_of_def paging_of_def)
  ultimately show ?thesis using assms s
    by (auto simp: paging_remove_request_def with_subs_def paging_inv_def same_def Let_def)
qed

lemma page_ms_ok:
  assumes "paging_inv w" "i < length (pn_bts w)" "req \<in> set (pending_requests (paging_of w i))"
  shows "\<exists>c. page_ms pgroup i req w = Ok (w\<lparr> pn_sent := pn_sent w @ [c] \<rparr>)"
  using inv_live[OF assms(1) req_in_refs[OF assms(2,3)]] by (auto simp: page_ms_def Let_def)

text \<open>The invariant up to the timers of one BTS, whose handler runs.\<close>

definition weak_inv :: "nat \<Rightarrow> paging_net \<Rightarrow> bool" where
  "weak_inv i w \<longleftrightarrow> subscr.owned (pn_subs w) (refs_of w) \<and> (\<forall>j < length (pn_bts w). if j = i then
     distinct (map pr_bsub (pending_requests (paging_of w i))) \<and>
     (pending_requests (paging_of w i) \<noteq> [] \<longrightarrow> paging_initialized (paging_of w i)) else bts_ok (paging_of w j))"

lemma weak_upd:
  assumes "paging_inv w" "i < length (pn_bts w)"
    "\<And>p. pending_requests (f p) = pending_requests p \<and> paging_initialized (f p) = paging_initialized p"
  shows "weak_inv i (upd_paging i f w)"
  using assms by (simp add: paging_inv_def weak_inv_def refs_of_upd refs_of_split[of i w] bts_ok_def)

lemma weak_finish:
  assumes "weak_inv i w" "i < length (pn_bts w)"
    "mset (map pr_bsub (pending_requests (f (paging_of w i)))) = mset (map pr_bsub (pending_requests (paging_of w i)))"
    "paging_initialized (f (paging_of w i)) = paging_initialized (paging_of w i)" "work_timer (f (paging_of w i)) \<or> credit_timer (f (paging_of w i))"
  shows "paging_inv (upd_paging i f w)"
proof -
  have "distinct (map pr_bsub (pending_requests (f (paging_of w i))))"
    using assms(1,2) mset_eq_imp_distinct_iff[OF assms(3)] by (auto simp: weak_inv_def)
  moreover have "pending_requests (f (paging_of w i)) = [] \<longleftrightarrow> pending_requests (paging_of w i) = []"
    using arg_cong[OF assms(3), of size] by auto
  ultimately show ?thesis using assms by (auto simp: paging_inv_def weak_inv_def refs_of_upd refs_of_split[of i w] bts_ok_def)
qed

lemma weak_live:
  assumes "weak_inv i w" "p \<in># refs_of w"
  shows "\<exists>b. deref_bsub p w = Ok b"
  using assms by (auto simp: weak_inv_def subscr.owned_def sub_refs_def deref_bsub_def split: option.splits)

lemma weak_sent: "weak_inv i (w\<lparr> pn_sent := x \<rparr>) = weak_inv i w"
  by (simp add: weak_inv_def refs_of_def paging_of_def)

lemma handle_ok:
  assumes "weak_inv i w" "i < length (pn_bts w)"
  shows "post (paging_handle_pending_requests pgroup i w) (\<lambda>w'. paging_inv w' \<and> same w w')"
proof (cases "pending_requests (paging_of w i)")
  case Nil
  then have "paging_inv w" using assms by (auto simp: weak_inv_def paging_inv_def bts_ok_def split: if_splits)
  with Nil show ?thesis by (simp add: paging_handle_pending_requests_def)
next
  case (Cons req rest)
  let ?sent = "\<lambda>c. w\<lparr> pn_sent := pn_sent w @ [c] \<rparr>"
  have "pr_bsub req \<in># refs_of w" using req_in_refs[of i w req] assms(2) Cons by simp
  from weak_live[OF assms(1) this] obtain c where c: "page_ms pgroup i req w = Ok (?sent c)"
    by (auto simp: page_ms_def Let_def)
  have t: "paging_inv (upd_paging i (\<lambda>p. p\<lparr> credit_timer := True \<rparr>) w)" "paging_inv (upd_paging i (\<lambda>p. p\<lparr> work_timer := True \<rparr>) w)"
    using weak_finish[OF assms] by simp_all
  have "paging_inv (upd_paging i (\<lambda>p. p\<lparr> available_slots := available_slots p - 1,
      pending_requests := rest @ [req\<lparr> pr_attempts := pr_attempts req + 1 \<rparr>], work_timer := True \<rparr>) (?sent c))"
    using weak_finish[of i "?sent c"] assms Cons by (simp add: weak_sent)
  with t Cons c show ?thesis by (auto simp: paging_handle_pending_requests_def same_def)
qed

lemma worker_ok: "paging_inv w \<Longrightarrow> i < length (pn_bts w) \<Longrightarrow> post (paging_worker pgroup i w) (\<lambda>w'. paging_inv w' \<and> same w w')"
  using handle_ok[OF weak_upd[of w i "\<lambda>p. p\<lparr> work_timer := False \<rparr>"]] by (simp add: paging_worker_def same_def)

lemma credit_ok: "paging_inv w \<Longrightarrow> i < length (pn_bts w) \<Longrightarrow> post (paging_give_credit pgroup i w) (\<lambda>w'. paging_inv w' \<and> same w w')"
  using handle_ok[OF weak_upd[of w i "\<lambda>p. p\<lparr> credit_timer := False, available_slots := 20 \<rparr>"]]
  by (simp add: paging_give_credit_def same_def)

lemma init_ok:
  assumes "paging_inv w" "i < length (pn_bts w)"
  shows "post (paging_init_if_needed i w) (\<lambda>w'. paging_inv w' \<and> same w w' \<and> paging_initialized (paging_of w' i) \<and>
    pending_requests (paging_of w' i) = pending_requests (paging_of w i) \<and> pn_subs w' = pn_subs w)"
  using inv_bts_ok[OF assms] assms by (auto simp: paging_init_if_needed_def bts_ok_def intro!: inv_upd)

lemma schedule_ok:
  assumes "weak_inv i w" "i < length (pn_bts w)"
  shows "paging_inv (paging_schedule_if_needed i w) \<and> same w (paging_schedule_if_needed i w)"
  using weak_finish[OF assms, of "\<lambda>p. p\<lparr> work_timer := True \<rparr>"] assms
  by (auto simp: paging_schedule_if_needed_def weak_inv_def paging_inv_def bts_ok_def split: if_splits)

lemma T3113_ok:
  assumes "paging_inv w" "i < length (pn_bts w)" "k < length (pending_requests (paging_of w i))"
  shows "post (paging_T3113_expired i k w) (\<lambda>w'. paging_inv w' \<and> same w w')"
proof -
  have "pr_bsub (pending_requests (paging_of w i) ! k) \<in># refs_of w" using req_in_refs assms(2,3) by simp
  from inv_live[OF assms(1) this] remove_ok[OF assms] show ?thesis
    by (auto simp: paging_T3113_expired_def elim!: post_mono)
qed

lemma request_ok:
  assumes "paging_inv w" "i < length (pn_bts w)" "bsub \<in> set (pn_conns w)" "size (refs_of w) < nat C_INT_MAX" "paging_initialized (paging_of w i)"
  shows "post (do_paging_request i bsub type msc w) (\<lambda>(rc, w'). paging_inv w' \<and> same w w')"
proof -
  have b: "bsub \<in># refs_of w" using assms(3) by (simp add: refs_of_def)
  from inv_live[OF assms(1) b] obtain x where x: "deref_bsub bsub w = Ok x" by blast
  show ?thesis
  proof (cases "paging_pending_request (paging_of w i) bsub")
    case True
    with x assms(1) show ?thesis by (simp add: do_paging_request_def)
  next
    case False
    have "subscr.owned (pn_subs w) (refs_of w)" using assms(1) by (simp add: paging_inv_def)
    from subscr.owned_acquire[OF this b assms(4)] obtain s where
      s: "bsc_subscr_get bsub (pn_subs w) = Ok s" "subscr.owned s (add_mset bsub (refs_of w))" by (auto simp: post_iff)
    let ?req = "\<lparr> pr_bsub = bsub, pr_chan_type = type, pr_T3113 = calculate_timer_3113 (w\<lparr> pn_subs := s \<rparr>) i, pr_attempts = 0, pr_msc = msc \<rparr>"
    let ?w = "upd_paging i (\<lambda>p. p\<lparr> pending_requests := pending_requests p @ [?req] \<rparr>) (w\<lparr> pn_subs := s \<rparr>)"
    have [simp]: "paging_of (w\<lparr> pn_subs := s \<rparr>) j = paging_of w j" "others (w\<lparr> pn_subs := s \<rparr>) i = others w i" for j
      by (simp_all add: paging_of_def others_def)
    have "refs_of ?w = add_mset bsub (refs_of w)" using assms(2) by (simp add: refs_of_upd refs_of_split[of i w])
    moreover have "distinct (map pr_bsub (pending_requests (paging_of w i) @ [?req]))"
      using inv_bts_ok[OF assms(1,2)] False by (auto simp: bts_ok_def paging_pending_request_def)
    ultimately have "weak_inv i ?w" using assms s(2) by (auto simp: weak_inv_def paging_inv_def)
    from schedule_ok[OF this] have "paging_inv (paging_schedule_if_needed i ?w)" "same w (paging_schedule_if_needed i ?w)"
      using assms(2) by (auto simp: same_def)
    then show ?thesis using x s(1) False by (simp add: do_paging_request_def with_subs_def Let_def)
  qed
qed

lemma refs_same_subs: "same w w' \<Longrightarrow> bsub \<in> set (pn_conns w) \<Longrightarrow> bsub \<in># refs_of w'"
  by (simp add: same_def refs_of_def)

lemma request_of_Some: "request_of p bsub = Some k \<Longrightarrow> k < length (pending_requests p)"
  by (auto simp: request_of_def find_Some_iff)

lemma stop_ok:
  assumes "paging_inv w" "i < length (pn_bts w)" "bsub \<in> set (pn_conns w)"
  shows "post (rbind (do_paging_request_stop i bsub w) (\<lambda>(_, w). Ok w)) (\<lambda>w'. paging_inv w' \<and> same w w')"
proof -
  obtain w1 where w1: "paging_init_if_needed i w = Ok w1" "paging_inv w1" "same w w1" using init_ok[OF assms(1,2)] by (auto simp: post_iff)
  have i: "i < length (pn_bts w1)" using w1(3) assms(2) by (simp add: same_def)
  show ?thesis
  proof (cases "request_of (paging_of w1 i) bsub")
    case None
    then show ?thesis using w1 by (simp add: do_paging_request_stop_def)
  next
    case (Some k)
    from remove_ok[OF w1(2) i request_of_Some[OF Some]] obtain w2 where
      w2: "paging_remove_request i k w1 = Ok w2" "paging_inv w2" "same w1 w2" by (auto simp: post_iff)
    note sm = same_trans[OF w1(3) w2(3)]
    from inv_live[OF w2(2) refs_same_subs[OF sm assms(3)]] obtain b where "deref_bsub bsub w2 = Ok b" by blast
    then show ?thesis using w1(1) w2 Some sm by (simp add: do_paging_request_stop_def)
  qed
qed

lemma answer_ok:
  assumes "paging_inv w" "bsub \<in> set (pn_conns w)" "size (refs_of w) < nat C_INT_MAX" "\<And>i. this = Some i \<Longrightarrow> i < length (pn_bts w)"
  shows "post (paging_request_stop this bsub w) (\<lambda>w'. paging_inv w' \<and> length (pn_bts w') = length (pn_bts w) \<and> pn_conns w' = bsub # pn_conns w)"
proof -
  have b: "bsub \<in># refs_of w" using assms(2) by (simp add: refs_of_def)
  have "subscr.owned (pn_subs w) (refs_of w)" using assms(1) by (simp add: paging_inv_def)
  from subscr.owned_acquire[OF this b assms(3)] obtain s where
    s: "bsc_subscr_get bsub (pn_subs w) = Ok s" "subscr.owned s (add_mset bsub (refs_of w))" by (auto simp: post_iff)
  let ?w = "w\<lparr> pn_subs := s, pn_conns := bsub # pn_conns w \<rparr>"
  define I where "I = (\<lambda>w'. paging_inv w' \<and> same ?w w')"
  have "refs_of ?w = add_mset bsub (refs_of w)" "paging_of ?w j = paging_of w j" for j by (simp_all add: refs_of_def paging_of_def)
  then have I0: "I ?w" using assms(1) s(2) by (simp add: I_def paging_inv_def)
  have st: "post (rbind (do_paging_request_stop i bsub w') (\<lambda>(_, w). Ok w)) I" if "I w'" "i < length (pn_bts w)" for i w'
    using that stop_ok[of w' i bsub] same_trans[of ?w w'] by (auto simp: I_def same_def elim!: post_mono)
  have "post (case this of None \<Rightarrow> Ok ?w | Some i \<Rightarrow> rbind (do_paging_request_stop i bsub ?w) (\<lambda>(_, w). Ok w)) I"
    using I0 st assms(4) by (auto split: option.splits)
  then obtain w1 where w1: "(case this of None \<Rightarrow> Ok ?w | Some i \<Rightarrow> rbind (do_paging_request_stop i bsub ?w) (\<lambda>(_, w). Ok w)) = Ok w1" "I w1"
    by (auto simp: post_iff)
  have "post (for_each (filter (\<lambda>i. this \<noteq> Some i) [0..<length (pn_bts w)])
      (\<lambda>i w. rbind (do_paging_request_stop i bsub w) (\<lambda>(_, w). Ok w)) w1) I"
    using st w1(2) by (intro post_for_each) auto
  then show ?thesis using s(1) w1(1) unfolding paging_request_stop_def
    by (simp add: with_subs_def I_def same_def cong: option.case_cong)
qed

lemma space_ok:
  assumes "paging_inv w" "i < length (pn_bts w)"
  shows "post (paging_update_buffer_space i n w) (\<lambda>w'. paging_inv w' \<and> same w w')"
proof -
  obtain w1 where w1: "paging_init_if_needed i w = Ok w1" "paging_inv w1" "same w w1" using init_ok[OF assms] by (auto simp: post_iff)
  have i: "i < length (pn_bts w1)" using w1(3) assms(2) by (simp add: same_def)
  from schedule_ok[OF weak_upd[OF w1(2) i, of "\<lambda>p. p\<lparr> credit_timer := False, available_slots := n \<rparr>"]] i w1 show ?thesis
    by (simp add: paging_update_buffer_space_def same_def)
qed

lemma flush_requests_ok:
  assumes "paging_inv w" "i < length (pn_bts w)" "k + n = length (pending_requests (paging_of w i))"
  shows "post (flush_requests i msc k n w) (\<lambda>w'. paging_inv w' \<and> same w w' \<and>
    pending_requests (paging_of w' i) = take k (pending_requests (paging_of w i)) @
      filter (\<lambda>r. msc \<noteq> None \<and> Some (pr_msc r) \<noteq> msc) (drop k (pending_requests (paging_of w i))))"
  using assms
proof (induction n arbitrary: k w)
  case 0
  then show ?case by simp
next
  case (Suc n)
  let ?rs = "pending_requests (paging_of w i)"
  have k: "k < length ?rs" using Suc.prems(3) by simp
  note d = Cons_nth_drop_Suc[OF k, symmetric]
  show ?case
  proof (cases "msc \<noteq> None \<and> Some (pr_msc (?rs ! k)) \<noteq> msc")
    case True
    have "post (flush_requests i msc (Suc k) n w) (\<lambda>w'. paging_inv w' \<and> same w w' \<and>
      pending_requests (paging_of w' i) = take (Suc k) ?rs @ filter (\<lambda>r. msc \<noteq> None \<and> Some (pr_msc r) \<noteq> msc) (drop (Suc k) ?rs))"
      using Suc.IH[OF Suc.prems(1,2), of "Suc k"] Suc.prems(3) by simp
    then show ?thesis using True unfolding d by (simp add: take_Suc_conv_app_nth[OF k] Let_def)
  next
    case False
    have "pr_bsub (?rs ! k) \<in># refs_of w" using req_in_refs Suc.prems(2) k by simp
    from inv_live[OF Suc.prems(1) this] obtain b where b: "deref_bsub (pr_bsub (?rs ! k)) w = Ok b" by blast
    from remove_ok[OF Suc.prems(1,2) k] obtain w1 where w1: "paging_remove_request i k w = Ok w1" "paging_inv w1" "same w w1"
      "pending_requests (paging_of w1 i) = remove_nth k ?rs" by (auto simp: post_iff)
    have "take k (remove_nth k ?rs) = take k ?rs" "drop k (remove_nth k ?rs) = drop (Suc k) ?rs" "k + n = length (remove_nth k ?rs)"
      using k Suc.prems(3) by (simp_all add: remove_nth_def)
    with Suc.IH[OF w1(2), of k] w1(3,4) Suc.prems(2) have "post (flush_requests i msc k n w1) (\<lambda>w'. paging_inv w' \<and> same w w' \<and>
      pending_requests (paging_of w' i) = take k ?rs @ filter (\<lambda>r. msc \<noteq> None \<and> Some (pr_msc r) \<noteq> msc) (drop (Suc k) ?rs))"
      by (auto simp: same_def elim!: post_mono)
    moreover have "flush_requests i msc k (Suc n) w = flush_requests i msc k n w1" using False b w1(1) by (simp add: Let_def) blast
    ultimately show ?thesis using False unfolding d by (auto elim!: post_mono)
  qed
qed

lemma flush_ok:
  assumes "paging_inv w" "i < length (pn_bts w)"
  shows "post (paging_flush_bts i msc w) (\<lambda>w'. paging_inv w' \<and> same w w' \<and>
    pending_requests (paging_of w' i) = filter (\<lambda>r. msc \<noteq> None \<and> Some (pr_msc r) \<noteq> msc) (pending_requests (paging_of w i)))"
proof -
  obtain w1 where w1: "paging_init_if_needed i w = Ok w1" "paging_inv w1" "same w w1"
    "pending_requests (paging_of w1 i) = pending_requests (paging_of w i)" using init_ok[OF assms] by (auto simp: post_iff)
  have i: "i < length (pn_bts w1)" using w1(3) assms(2) by (simp add: same_def)
  from flush_requests_ok[OF w1(2) i, of 0] w1 show ?thesis
    by (auto simp: paging_flush_bts_def same_def elim!: post_mono)
qed

lemma flush_network_ok:
  assumes "paging_inv w"
  shows "post (paging_flush_network msc w) (\<lambda>w'. paging_inv w' \<and> same w w')"
proof -
  have "post (for_each [0..<length (pn_bts w)] (\<lambda>i. paging_flush_bts i msc) w) (\<lambda>w'. paging_inv w' \<and> same w w')"
  proof (rule post_for_each)
    fix i w' assume "i \<in> set [0..<length (pn_bts w)]" "paging_inv w' \<and> same w w'"
    then show "post (paging_flush_bts i msc w') (\<lambda>w'. paging_inv w' \<and> same w w')"
      using flush_ok[of w' i msc] by (auto simp: same_def elim!: post_mono)
  qed (simp add: assms)
  then show ?thesis by (simp add: paging_flush_network_def)
qed

section \<open>The network as an event system\<close>

text \<open>
  The inputs of the paging code: searches for subscribers by callers that keep the reference, and the
  release of one; paging requests and answers for a subscriber that the caller holds; the timers, as
  far as they run; buffer space reported by a BTS; queries and flushes; and any change of the channels and of the OML
  link of a BTS.
\<close>

datatype paging_input =
    Find_imsi string | Find_tmsi u32 | Put sub_ptr
  | Page nat sub_ptr rsl_chan_needed nat | Answer "nat option" sub_ptr
  | T3113 nat nat | Work nat | Credit nat | Space nat u16 | Pending_nr nat
  | Flush nat "nat option" | Flush_network "nat option" | Bts_change nat "gsm_bts_trx list" bool

definition with_found :: "(subscr_store \<Rightarrow> (sub_ptr \<times> subscr_store) res) \<Rightarrow> paging_net \<Rightarrow> paging_net res" where
  "with_found f w = rbind (f (pn_subs w)) (\<lambda>(p, s). Ok (w\<lparr> pn_subs := s, pn_conns := p # pn_conns w \<rparr>))"

fun paging_step :: "(string \<Rightarrow> nat) \<Rightarrow> paging_input \<Rightarrow> paging_net \<Rightarrow> paging_net res" where
  "paging_step g (Find_imsi im) w = with_found (bsc_subscr_find_or_create_by_imsi im) w"
| "paging_step g (Find_tmsi tm) w = with_found (bsc_subscr_find_or_create_by_tmsi tm) w"
| "paging_step g (Put p) w = rbind (with_subs (bsc_subscr_put p) w) (\<lambda>w. Ok (w\<lparr> pn_conns := remove1 p (pn_conns w) \<rparr>))"
| "paging_step g (Page i p type msc) w = rbind (paging_request_bts i p type msc w) (\<lambda>(_, w). Ok w)"
| "paging_step g (Answer this p) w = paging_request_stop this p w"
| "paging_step g (T3113 i k) w = paging_T3113_expired i k w"
| "paging_step g (Work i) w = paging_worker g i w"
| "paging_step g (Credit i) w = paging_give_credit g i w"
| "paging_step g (Space i n) w = paging_update_buffer_space i n w"
| "paging_step g (Pending_nr i) w = rbind (paging_pending_requests_nr i w) (\<lambda>(_, w). Ok w)"
| "paging_step g (Flush i msc) w = paging_flush_bts i msc w"
| "paging_step g (Flush_network msc) w = paging_flush_network msc w"
| "paging_step g (Bts_change i trxs oml) w = Ok (upd_bts i (\<lambda>b. b\<lparr> trx_list := trxs, oml_link := oml \<rparr>) w)"

definition paging_input_ok :: "paging_input \<Rightarrow> paging_net \<Rightarrow> bool" where
  "paging_input_ok inp w \<longleftrightarrow> size (refs_of w) < nat C_INT_MAX \<and>
     (case inp of
        Find_imsi im \<Rightarrow> im \<noteq> [] \<and> length im \<le> IMSI_MAX_DIGITS
      | Find_tmsi tm \<Rightarrow> tm \<noteq> GSM_RESERVED_TMSI
      | Put p \<Rightarrow> p \<in> set (pn_conns w)
      | Page i p type msc \<Rightarrow> i < length (pn_bts w) \<and> p \<in> set (pn_conns w)
      | Answer this p \<Rightarrow> p \<in> set (pn_conns w) \<and> (\<forall>i. this = Some i \<longrightarrow> i < length (pn_bts w))
      | T3113 i k \<Rightarrow> i < length (pn_bts w) \<and> k < length (pending_requests (paging_of w i))
      | Work i \<Rightarrow> i < length (pn_bts w) \<and> work_timer (paging_of w i)
      | Credit i \<Rightarrow> i < length (pn_bts w) \<and> credit_timer (paging_of w i)
      | Space i n \<Rightarrow> i < length (pn_bts w)
      | Pending_nr i \<Rightarrow> i < length (pn_bts w)
      | Flush i msc \<Rightarrow> i < length (pn_bts w)
      | Flush_network msc \<Rightarrow> True
      | Bts_change i trxs oml \<Rightarrow> i < length (pn_bts w))"

definition paging_initial :: "paging_net \<Rightarrow> bool" where
  "paging_initial w \<longleftrightarrow> pn_subs w = \<lparr> subs = [], next_sub = 0 \<rparr> \<and> pn_conns w = [] \<and>
     (\<forall>b \<in> set (pn_bts w). pending_requests (paging b) = [])"

inductive paging_reach :: "(string \<Rightarrow> nat) \<Rightarrow> paging_net \<Rightarrow> bool" for g where
  init: "paging_initial w \<Longrightarrow> paging_reach g w"
| step: "paging_reach g w \<Longrightarrow> paging_input_ok inp w \<Longrightarrow> paging_step g inp w = Ok w' \<Longrightarrow> paging_reach g w'"

lemma initial_inv: "paging_initial w \<Longrightarrow> paging_inv w"
  by (auto simp: paging_initial_def paging_inv_def refs_of_def subscr.owned_def store_ok_def sub_refs_def bsub_at_def reqs_def
      bts_ok_def paging_of_def)

lemma with_found_ok:
  assumes "paging_inv w" "post (f (pn_subs w)) (found P (refs_of w) (pn_subs w))"
  shows "post (with_found f w) paging_inv"
proof -
  obtain p s where f: "f (pn_subs w) = Ok (p, s)" "subscr.owned s (add_mset p (refs_of w))" using assms(2) by (auto simp: post_iff found_def)
  let ?w = "w\<lparr> pn_subs := s, pn_conns := p # pn_conns w \<rparr>"
  have "refs_of ?w = add_mset p (refs_of w)" "paging_of ?w j = paging_of w j" for j by (simp_all add: refs_of_def paging_of_def)
  then show ?thesis using f assms(1) by (simp add: with_found_def paging_inv_def)
qed

lemma put_ok:
  assumes "paging_inv w" "p \<in> set (pn_conns w)"
  shows "post (paging_step g (Put p) w) paging_inv"
proof -
  let ?w = "\<lambda>s. w\<lparr> pn_subs := s, pn_conns := remove1 p (pn_conns w) \<rparr>"
  have r: "refs_of w = add_mset p (refs_of (?w s))" "paging_of (?w s) j = paging_of w j" for s j
    using assms(2) by (simp_all add: refs_of_def paging_of_def)
  have "subscr.owned (pn_subs w) (add_mset p (refs_of (?w (pn_subs w))))"
    using assms(1) unfolding paging_inv_def r(1)[of "pn_subs w", symmetric] by simp
  from subscr.owned_release[OF this] obtain s where s: "bsc_subscr_put p (pn_subs w) = Ok s" "subscr.owned s (refs_of (?w (pn_subs w)))"
    by (auto simp: post_iff)
  have "refs_of (?w (pn_subs w)) = refs_of (?w s)" by (simp add: refs_of_def)
  with s assms(1) r(2) show ?thesis by (simp add: with_subs_def paging_inv_def)
qed

lemma page_ok:
  assumes "paging_inv w" "i < length (pn_bts w)" "p \<in> set (pn_conns w)" "size (refs_of w) < nat C_INT_MAX"
  shows "post (rbind (paging_request_bts i p type msc w) (\<lambda>(_, w). Ok w)) paging_inv"
proof (cases "trx_is_usable (bts_type (pn_bts w ! i)) (hd (trx_list (pn_bts w ! i)))")
  case False
  then show ?thesis using assms(1) by (simp add: paging_request_bts_def)
next
  case True
  obtain w1 where w1: "paging_init_if_needed i w = Ok w1" "paging_inv w1" "same w w1" "paging_initialized (paging_of w1 i)"
    "pending_requests (paging_of w1 i) = pending_requests (paging_of w i)" "pn_subs w1 = pn_subs w"
    using init_ok[OF assms(1,2)] by (auto simp: post_iff)
  have i: "i < length (pn_bts w1)" and c: "p \<in> set (pn_conns w1)" using w1(3) assms(2,3) by (simp_all add: same_def)
  have o: "others w1 i = others w i" using w1(1) by (auto simp: paging_init_if_needed_def split: if_splits)
  have "size (refs_of w1) < nat C_INT_MAX" using assms(2,4) i w1(5) o by (simp add: refs_of_split)
  from request_ok[OF w1(2) i c this w1(4), of type msc] show ?thesis using True w1(1)
    by (auto simp: paging_request_bts_def post_rbind case_prod_unfold elim!: post_mono)
qed

lemma change_ok:
  assumes "paging_inv w" "i < length (pn_bts w)"
  shows "paging_inv (upd_bts i (\<lambda>b. b\<lparr> trx_list := trxs, oml_link := oml \<rparr>) w)"
proof -
  have "paging ((pn_bts w)[i := (pn_bts w ! i)\<lparr> trx_list := trxs, oml_link := oml \<rparr>] ! j) = paging (pn_bts w ! j)" for j
    using assms(2) by (cases "j = i") simp_all
  then have p: "paging_of (upd_bts i (\<lambda>b. b\<lparr> trx_list := trxs, oml_link := oml \<rparr>) w) j = paging_of w j" for j
    by (simp add: paging_of_def upd_bts_def)
  moreover have "refs_of (upd_bts i (\<lambda>b. b\<lparr> trx_list := trxs, oml_link := oml \<rparr>) w) = refs_of w"
  proof -
    have "map reqs ((pn_bts w)[i := (pn_bts w ! i)\<lparr> trx_list := trxs, oml_link := oml \<rparr>]) = map reqs (pn_bts w)"
      using assms(2) by (intro nth_equalityI) (auto simp: nth_list_update reqs_def split: if_splits)
    then show ?thesis by (simp add: refs_of_def upd_bts_def)
  qed
  ultimately show ?thesis using assms(1) by (simp add: paging_inv_def upd_bts_def)
qed

lemma paging_step_ok: "paging_inv w \<Longrightarrow> paging_input_ok inp w \<Longrightarrow> post (paging_step g inp w) paging_inv"
proof (cases inp)
  case (Find_imsi im)
  assume a: "paging_inv w" "paging_input_ok inp w"
  then have "post (bsc_subscr_find_or_create_by_imsi im (pn_subs w)) (found (\<lambda>b. imsi b = im) (refs_of w) (pn_subs w))"
    using Find_imsi by (intro find_or_create_imsi) (auto simp: paging_inv_def paging_input_ok_def)
  with with_found_ok[OF a(1)] Find_imsi show ?thesis by simp
next
  case (Find_tmsi tm)
  assume a: "paging_inv w" "paging_input_ok inp w"
  then have "post (bsc_subscr_find_or_create_by_tmsi tm (pn_subs w)) (found (\<lambda>b. tmsi b = tm) (refs_of w) (pn_subs w))"
    using Find_tmsi by (intro find_or_create_tmsi) (auto simp: paging_inv_def paging_input_ok_def)
  with with_found_ok[OF a(1)] Find_tmsi show ?thesis by simp
next
  case (Pending_nr i)
  assume a: "paging_inv w" "paging_input_ok inp w"
  with init_ok[of w i] Pending_nr show ?thesis by (auto simp: paging_input_ok_def paging_pending_requests_nr_def post_rbind elim!: post_mono)
qed (auto simp: paging_input_ok_def post_def[symmetric] simp del: paging_step.simps(3)
    intro: put_ok page_ok change_ok post_mono[OF answer_ok] post_mono[OF T3113_ok] post_mono[OF worker_ok] post_mono[OF credit_ok] post_mono[OF space_ok] post_mono[OF flush_ok]
      post_mono[OF flush_network_ok])

lemma paging_reach_inv: "paging_reach g w \<Longrightarrow> paging_inv w"
proof (induction rule: paging_reach.induct)
  case (init w)
  then show ?case by (rule initial_inv)
next
  case (step w inp w')
  then show ?case using paging_step_ok[of w inp g] by simp
qed


section \<open>Properties\<close>

text \<open>Property C4. No paging operation ever accesses a subscriber that has been freed or fails an assertion: whatever
  sequence of searches, requests, answers, timer expiries, buffer space reports and flushes has happened, the
  next one returns.\<close>

theorem paging_no_use_after_free:
  assumes "paging_reach g w" "paging_input_ok inp w"
  shows "\<exists>w'. paging_step g inp w = Ok w'"
  using paging_step_ok[OF paging_reach_inv[OF assms(1)] assms(2), of g] by (auto simp: post_iff)

text \<open>Property C5. Subscribers are neither leaked nor freed too early: the use count of a subscriber is the number of
  references that connections, callers and pending requests of all BTSs hold to it, and a subscriber
  is in the list exactly if there is one.\<close>

theorem paging_references_balance:
  assumes "paging_reach g w"
  shows "sub_refs (pn_subs w) p = count_list (pn_conns w) p + sum_list (map (\<lambda>b. count_list (reqs b) p) (pn_bts w)) \<and>
    (bsub_at (pn_subs w) p \<noteq> None \<longleftrightarrow> p \<in> set (pn_conns w) \<or> (\<exists>b \<in> set (pn_bts w). p \<in> set (reqs b)))"
proof -
  have o: "subscr.owned (pn_subs w) (refs_of w)" using paging_reach_inv[OF assms] by (simp add: paging_inv_def)
  have "count (mset (concat (map reqs bs))) p = sum_list (map (\<lambda>b. count_list (reqs b) p) bs)" for bs
    by (induction bs) (simp_all add: count_mset)
  then have 1: "sub_refs (pn_subs w) p = count_list (pn_conns w) p + sum_list (map (\<lambda>b. count_list (reqs b) p) (pn_bts w))"
    using o by (simp add: subscr.owned_def refs_of_def count_mset)
  have "store_ok (pn_subs w)" using o by (simp add: subscr.owned_def)
  then have "bsub_at (pn_subs w) p \<noteq> None \<longleftrightarrow> 0 < sub_refs (pn_subs w) p"
    by (cases "bsub_at (pn_subs w) p") (fastforce simp: sub_refs_def store_ok_iff)+
  also have "\<dots> \<longleftrightarrow> p \<in># refs_of w" using o by (simp add: subscr.owned_def)
  also have "\<dots> \<longleftrightarrow> p \<in> set (pn_conns w) \<or> (\<exists>b \<in> set (pn_bts w). p \<in> set (reqs b))" by (auto simp: refs_of_def)
  finally show ?thesis using 1 by blast
qed

text \<open>Property C27. Paging never gets stuck: while a BTS has pending requests, its work timer or its credit timer
  runs; and no subscriber is paged twice at the same BTS.\<close>

theorem paging_not_stuck:
  assumes "paging_reach g w" "i < length (pn_bts w)"
  shows "(pending_requests (paging_of w i) \<noteq> [] \<longrightarrow> work_timer (paging_of w i) \<or> credit_timer (paging_of w i)) \<and>
    distinct (map pr_bsub (pending_requests (paging_of w i)))"
  using inv_bts_ok[OF paging_reach_inv[OF assms(1)] assms(2)] by (simp add: bts_ok_def)

text \<open>
  The dynamic T3113 is meant to cover all retransmissions of the mobile, but it multiplies with the
  code of the number (0 for one retransmission) instead of the number: nothing is added for the code 0.
\<close>

lemma T3113_one_retransmission:
  "rach_max_trans (pn_bts w ! i) = 0 \<Longrightarrow> T3113_val w < 2 ^ 32 \<Longrightarrow> calculate_timer_3113 w i = T3113_val w"
  by (simp add: calculate_timer_3113_def Let_def)

text \<open>Runs of the work timer, and the command that pages a request.\<close>

primrec workers :: "(string \<Rightarrow> nat) \<Rightarrow> nat \<Rightarrow> nat \<Rightarrow> paging_net \<Rightarrow> paging_net res" where
  "workers g i 0 w = Ok w"
| "workers g i (Suc n) w = rbind (paging_worker g i w) (workers g i n)"

definition page_cmd :: "(string \<Rightarrow> nat) \<Rightarrow> nat \<Rightarrow> subscr_store \<Rightarrow> gsm_paging_request \<Rightarrow> paging_cmd" where
  "page_cmd g i s req = (case bsub_at s (pr_bsub req) of Some b \<Rightarrow>
     Paging_cmd i (g (imsi b)) (if tmsi b = GSM_RESERVED_TMSI then MI_IMSI (imsi b) else MI_TMSI (tmsi b)) (pr_chan_type req))"

definition paged :: "gsm_paging_request \<Rightarrow> gsm_paging_request" where
  "paged r = r\<lparr> pr_attempts := pr_attempts r + 1 \<rparr>"

lemma oml_upd [simp]: "oml_link (pn_bts (upd_paging i f w) ! j) = oml_link (pn_bts w ! j)"
  by (cases "i < length (pn_bts w)"; cases "j = i") (simp_all add: upd_paging_def upd_bts_def list_update_beyond)

lemma page_ms_eq: "bsub_at (pn_subs w) (pr_bsub r) \<noteq> None \<Longrightarrow>
    page_ms g i r w = Ok (w\<lparr> pn_sent := pn_sent w @ [page_cmd g i (pn_subs w) r] \<rparr>)"
  by (auto simp: page_ms_def deref_bsub_def page_cmd_def Let_def)

lemma worker_sends:
  assumes "i < length (pn_bts w)" "pending_requests (paging_of w i) = r # rs" "free_chans_need (paging_of w i) = -1"
    "oml_link (pn_bts w ! i)" "available_slots (paging_of w i) \<noteq> 0" "bsub_at (pn_subs w) (pr_bsub r) \<noteq> None"
  shows "\<exists>w'. paging_worker g i w = Ok w' \<and> length (pn_bts w') = length (pn_bts w) \<and>
    paging_of w' i = (paging_of w i)\<lparr> pending_requests := rs @ [paged r], work_timer := True,
      available_slots := available_slots (paging_of w i) - 1 \<rparr> \<and>
    oml_link (pn_bts w' ! i) \<and> pn_subs w' = pn_subs w \<and> pn_sent w' = pn_sent w @ [page_cmd g i (pn_subs w) r]"
  using assms by (simp add: paging_worker_def paging_handle_pending_requests_def page_ms_eq paged_def del: rbind_Ok_iff)

lemma workers_round:
  assumes "i < length (pn_bts w)" "pending_requests (paging_of w i) = rs @ done" "free_chans_need (paging_of w i) = -1"
    "oml_link (pn_bts w ! i)" "length rs \<le> unat (available_slots (paging_of w i))" "\<forall>r \<in> set rs. bsub_at (pn_subs w) (pr_bsub r) \<noteq> None"
  shows "\<exists>w'. workers g i (length rs) w = Ok w' \<and> pending_requests (paging_of w' i) = done @ map paged rs \<and>
    unat (available_slots (paging_of w' i)) = unat (available_slots (paging_of w i)) - length rs \<and>
    pn_sent w' = pn_sent w @ map (page_cmd g i (pn_subs w)) rs"
  using assms
proof (induction rs arbitrary: w "done")
  case Nil
  then show ?case by simp
next
  case (Cons r rs)
  have nz: "available_slots (paging_of w i) \<noteq> 0" using Cons.prems(5) by auto
  have "pending_requests (paging_of w i) = r # (rs @ done)" using Cons.prems(2) by simp
  from worker_sends[OF Cons.prems(1) this Cons.prems(3,4) nz, of g] Cons.prems(6) obtain w1 where
    w1: "paging_worker g i w = Ok w1" "length (pn_bts w1) = length (pn_bts w)"
    "paging_of w1 i = (paging_of w i)\<lparr> pending_requests := (rs @ done) @ [paged r], work_timer := True,
      available_slots := available_slots (paging_of w i) - 1 \<rparr>"
    "oml_link (pn_bts w1 ! i)" "pn_subs w1 = pn_subs w" "pn_sent w1 = pn_sent w @ [page_cmd g i (pn_subs w) r]" by auto
  have u: "unat (available_slots (paging_of w i) - 1) = unat (available_slots (paging_of w i)) - 1" using nz by (simp add: unat_minus_one)
  from Cons.IH[of w1 "done @ [paged r]"] w1 Cons.prems u show ?case by auto
qed

text \<open>Property C28. Paging is fair: with enough buffer space and the BTS up, as many runs of the work timer as there are
  pending requests send the paging command of every request exactly once, in the order of the queue,
  and leave the queue in the same order with every attempt counted.\<close>

theorem paging_round_robin:
  assumes "paging_reach g w" "i < length (pn_bts w)" "free_chans_need (paging_of w i) = -1" "oml_link (pn_bts w ! i)"
    "length (pending_requests (paging_of w i)) \<le> unat (available_slots (paging_of w i))"
  shows "\<exists>w'. workers g i (length (pending_requests (paging_of w i))) w = Ok w' \<and>
    pending_requests (paging_of w' i) = map paged (pending_requests (paging_of w i)) \<and>
    unat (available_slots (paging_of w' i)) = unat (available_slots (paging_of w i)) - length (pending_requests (paging_of w i)) \<and>
    pn_sent w' = pn_sent w @ map (page_cmd g i (pn_subs w)) (pending_requests (paging_of w i))"
proof -
  have "bsub_at (pn_subs w) (pr_bsub r) \<noteq> None" if "r \<in> set (pending_requests (paging_of w i))" for r
    using inv_live[OF paging_reach_inv[OF assms(1)] req_in_refs[OF assms(2) that]] by (auto simp: deref_bsub_def split: option.splits)
  then show ?thesis using workers_round[of i w "pending_requests (paging_of w i)" "[]" g] assms by auto
qed

text \<open>Dynamic timeslots do not count as free channels: on a cell whose only traffic channels are on dynamic
  timeslots, a BTS that is configured to page only with at least one free channel never sends a
  paging command for a traffic channel, although all of them are free.\<close>

lemma dynamic_cell_never_pages_tch:
  assumes "pending_requests (paging_of w i) = r # rs" "pr_chan_type r \<in> {RSL_CHANNEED_TCH_F, RSL_CHANNEED_TCH_ForH}"
    "free_chans_need (paging_of w i) > 0" "available_slots (paging_of w i) \<noteq> 0"
    "\<forall>trx \<in> set (trx_list (pn_bts w ! i)). \<forall>ts \<in> set (trx_ts trx). pchan_on_init ts \<notin> {GSM_PCHAN_TCH_F, GSM_PCHAN_TCH_H}"
  shows "paging_handle_pending_requests g i w = Ok (upd_paging i (\<lambda>p. p\<lparr> work_timer := True \<rparr>) w)"
proof -
  have "lchans_on p (concat (map running_ts (trx_list (pn_bts w ! i)))) = []" if "p \<in> {GSM_PCHAN_TCH_F, GSM_PCHAN_TCH_H}" for p
    using assms(5) that by (auto simp: lchans_on_def running_ts_def split: if_splits)
  then have "bts_chan_load (\<lambda>_. no_load) (pn_bts w ! i) p = no_load" if "p \<in> {GSM_PCHAN_TCH_F, GSM_PCHAN_TCH_H}" for p
    using that by (simp add: bts_chan_load_eq)
  then have "can_send_pag_req w i (pr_chan_type r)"
    using assms(2,3) by (auto simp: can_send_pag_req_def Let_def free_on_def no_load_def paging_of_def)
  with assms show ?thesis by (simp add: paging_handle_pending_requests_def)
qed

section \<open>An example\<close>

definition pag_bts :: gsm_bts_pag where
  "pag_bts = \<lparr> bts_nr = 0, bts_type = GSM_BTS_TYPE_BS11, bts_mo = running, oml_link = True, gprs_mode = BTS_GPRS_NONE,
     chan_alloc_reverse = False, location_area_code = 1, cell_identity = 0, infinite_radio_link_timeout = False,
     radio_link_timeout = 7, depends_on = replicate 8 0, local_neighbors = [], trx_list = [],
     paging = \<lparr> pending_requests = [], paging_initialized = False, work_timer = False, credit_timer = False,
       free_chans_need = -1, available_slots = 0 \<rparr>,
     T3113_dynamic = False, bs_pa_mfrms = 3, rach_max_trans = 3 \<rparr>"

definition net0 :: paging_net where
  "net0 = \<lparr> pn_bts = [pag_bts], pn_subs = \<lparr> subs = [], next_sub = 0 \<rparr>, pn_conns = [], pn_sent = [],
     pag_any_tch = False, neci = False, T3113_val = 7 \<rparr>"

definition net1 :: paging_net where
  "net1 = net0\<lparr> pn_subs := \<lparr> subs = [(0, \<lparr> use_count = 1, imsi = ''00101'', tmsi = 0 \<rparr>)], next_sub = 1 \<rparr>, pn_conns := [0] \<rparr>"

definition net2 :: paging_net where
  "net2 = net0\<lparr> pn_subs := \<lparr> subs = [(0, \<lparr> use_count = 2, imsi = ''00101'', tmsi = 0 \<rparr>)], next_sub = 1 \<rparr>, pn_conns := [0],
     pn_bts := [pag_bts\<lparr> paging := \<lparr> pending_requests = [\<lparr> pr_bsub = 0, pr_chan_type = RSL_CHANNEED_SDCCH, pr_T3113 = 7, pr_attempts = 0, pr_msc = 0 \<rparr>],
       paging_initialized = True, work_timer = True, credit_timer = False, free_chans_need = -1, available_slots = 20 \<rparr> \<rparr>] \<rparr>"

lemma step1: "paging_step (\<lambda>_. 0) (Find_imsi ''00101'') net0 = Ok net1"
  by (simp add: net0_def net1_def with_found_def bsc_subscr_find_or_create_by_imsi_def bsc_subscr_find_by_imsi_def find_sub_def bsc_subscr_alloc_def
      bsc_subscr_set_imsi_def bsc_subscr_get_def bsub_at_def upd_bsub_def C_INT_MAX_def IMSI_MAX_DIGITS_def)

lemma step2: "paging_step (\<lambda>_. 0) (Page 0 0 RSL_CHANNEED_SDCCH 0) net1 = Ok net2"
  by (simp add: net0_def net1_def net2_def paging_request_bts_def paging_init_if_needed_def do_paging_request_def with_subs_def deref_bsub_def
      bsc_subscr_get_def bsub_at_def upd_bsub_def C_INT_MAX_def pag_bts_def trx_is_usable_def paging_of_def upd_paging_def upd_bts_def
      paging_pending_request_def paging_schedule_if_needed_def calculate_timer_3113_def)

lemma net2_reach: "paging_reach (\<lambda>_. 0) net2"
proof -
  have 0: "paging_reach (\<lambda>_. 0) net0" by (rule paging_reach.init) (simp add: paging_initial_def net0_def pag_bts_def)
  have 1: "paging_input_ok (Find_imsi ''00101'') net0"
    by (simp add: paging_input_ok_def net0_def refs_of_def reqs_def pag_bts_def C_INT_MAX_def IMSI_MAX_DIGITS_def)
  have 2: "paging_input_ok (Page 0 0 RSL_CHANNEED_SDCCH 0) net1"
    by (simp add: paging_input_ok_def net1_def net0_def refs_of_def reqs_def pag_bts_def C_INT_MAX_def)
  show ?thesis by (rule paging_reach.step[OF paging_reach.step[OF 0 1 step1] 2 step2])
qed

lemma net2_paging: "pending_requests (paging_of net2 0) = [\<lparr> pr_bsub = 0, pr_chan_type = RSL_CHANNEED_SDCCH, pr_T3113 = 7, pr_attempts = 0, pr_msc = 0 \<rparr>]"
    "length (pn_bts net2) = 1" "free_chans_need (paging_of net2 0) = -1" "oml_link (pn_bts net2 ! 0)" "available_slots (paging_of net2 0) = 20"
    "pn_conns net2 = [0]" "pn_sent net2 = []" "map (\<lambda>b. count_list (reqs b) 0) (pn_bts net2) = [1]"
  by (simp_all add: net2_def net0_def paging_of_def pag_bts_def reqs_def)

theorem paging_no_use_after_free_witness: "\<exists>w'. paging_step (\<lambda>_. 0) (Answer (Some 0) 0) net2 = Ok w'"
proof -
  have "paging_input_ok (Answer (Some 0) 0) net2"
    by (simp add: paging_input_ok_def net2_def net0_def refs_of_def reqs_def pag_bts_def C_INT_MAX_def)
  from paging_no_use_after_free[OF net2_reach this] show ?thesis .
qed

theorem paging_references_balance_witness: "sub_refs (pn_subs net2) 0 = 2"
  using paging_references_balance[OF net2_reach, of 0] by (simp add: net2_paging)

theorem paging_not_stuck_witness: "work_timer (paging_of net2 0) \<or> credit_timer (paging_of net2 0)"
  using paging_not_stuck[OF net2_reach, of 0] net2_paging by simp

theorem paging_round_robin_witness:
  "\<exists>w'. workers (\<lambda>_. 0) 0 1 net2 = Ok w' \<and> length (pn_sent w') = 1"
  using paging_round_robin[OF net2_reach, of 0] net2_paging by auto

end
