(* ===== verification/Keyed_Store.thy ===== *)
theory Keyed_Store
  imports Main
begin

text \<open>
  The lists of the program that hold at most one entry per key.  An entry is found by a search from the
  head; a new one is appended; an existing one is changed in place.  The contract of such a list is
  that of a map, with a function that combines the value of an entry with a new one.
\<close>

section \<open>The contract\<close>

locale keyed_store =
  fixes ok :: "'s \<Rightarrow> bool" and look :: "'s \<Rightarrow> 'k \<Rightarrow> 'v option"
    and add :: "'k \<Rightarrow> 'v \<Rightarrow> 's \<Rightarrow> 's" and del :: "'k \<Rightarrow> 's \<Rightarrow> 's" and join :: "'v option \<Rightarrow> 'v \<Rightarrow> 'v"
  assumes ok_add: "ok s \<Longrightarrow> ok (add k v s)" and ok_del: "ok s \<Longrightarrow> ok (del k s)"
    and look_add: "ok s \<Longrightarrow> look (add k v s) = (look s)(k \<mapsto> join (look s k) v)"
    and look_del: "ok s \<Longrightarrow> look (del k s) = (look s)(k := None)"
begin

text \<open>Sequences of commands, as additions and deletions, and what they leave for one key.\<close>

fun run :: "('k \<times> 'v option) list \<Rightarrow> 's \<Rightarrow> 's" where
  "run [] s = s"
| "run ((k, Some v) # cs) s = run cs (add k v s)"
| "run ((k, None) # cs) s = run cs (del k s)"

fun outcome :: "('k \<times> 'v option) list \<Rightarrow> 'k \<Rightarrow> 'v option \<Rightarrow> 'v option" where
  "outcome [] k x = x"
| "outcome ((k', c) # cs) k x =
     outcome cs k (if k' = k then (case c of None \<Rightarrow> None | Some v \<Rightarrow> Some (join x v)) else x)"

lemma run_ok: "ok s \<Longrightarrow> ok (run cs s)"
  by (induction cs s rule: run.induct) (simp_all add: ok_add ok_del)

lemma look_run: "ok s \<Longrightarrow> look (run cs s) k = outcome cs k (look s k)"
  by (induction cs s rule: run.induct) (auto simp: ok_add ok_del look_add look_del)

end

section \<open>Entries with unique keys\<close>

definition unique_keys :: "('k \<times> 'v) list \<Rightarrow> bool" where
  "unique_keys xs \<longleftrightarrow> distinct (map fst xs)"

text \<open>The first entry with a key is changed, or a new one appended.\<close>

fun upsert :: "'k \<Rightarrow> ('v \<Rightarrow> 'v) \<Rightarrow> 'v \<Rightarrow> ('k \<times> 'v) list \<Rightarrow> ('k \<times> 'v) list" where
  "upsert k f v [] = [(k, v)]"
| "upsert k f v ((k', x) # xs) = (if k' = k then (k', f x) # xs else (k', x) # upsert k f v xs)"

fun remove_first :: "'k \<Rightarrow> ('k \<times> 'v) list \<Rightarrow> ('k \<times> 'v) list" where
  "remove_first k [] = []"
| "remove_first k ((k', x) # xs) = (if k' = k then xs else (k', x) # remove_first k xs)"

lemma set_upsert: "fst ` set (upsert k f v xs) = insert k (fst ` set xs)"
  by (induction k f v xs rule: upsert.induct) (simp_all add: insert_commute)

lemma unique_upsert: "unique_keys xs \<Longrightarrow> unique_keys (upsert k f v xs)"
proof (induction xs)
  case (Cons e xs)
  then show ?case using set_upsert[of k f v xs] by (cases e) (auto simp: unique_keys_def)
qed (simp add: unique_keys_def)

lemma map_of_upsert: "map_of (upsert k f v xs) = (map_of xs)(k \<mapsto> (case map_of xs k of None \<Rightarrow> v | Some x \<Rightarrow> f x))"
  by (induction xs) (auto simp: fun_eq_iff split: option.splits)

lemma set_remove_first: "set (remove_first k xs) \<subseteq> set xs"
  by (induction xs) (auto split: if_splits)

lemma unique_remove_first: "unique_keys xs \<Longrightarrow> unique_keys (remove_first k xs)"
proof (induction xs)
  case (Cons e xs)
  then show ?case using set_remove_first[of k xs] by (cases e) (auto simp: unique_keys_def image_iff)
qed simp

lemma map_of_remove_first: "unique_keys xs \<Longrightarrow> map_of (remove_first k xs) = (map_of xs)(k := None)"
proof (induction xs)
  case (Cons e xs)
  then show ?case by (cases e) (auto simp: unique_keys_def fun_eq_iff map_of_eq_None_iff)
qed (simp add: fun_eq_iff)

lemma remove_first_filter: "unique_keys xs \<Longrightarrow> remove_first k xs = filter (\<lambda>(k', x). k' \<noteq> k) xs"
proof (induction xs)
  case (Cons e xs)
  then have "fst e = k \<Longrightarrow> filter (\<lambda>(k', x). k' \<noteq> k) xs = xs" by (auto simp: unique_keys_def filter_id_conv image_iff)
  then show ?case using Cons by (cases e) (auto simp: unique_keys_def)
qed simp

end
