(* ===== verification/Penalty_Timers.thy ===== *)
theory Penalty_Timers
  imports Keyed_Store Prelude
begin

text \<open>
  Penalty timers, \<^verbatim>\<open>penalty_timers.c\<close>: after a failed handover the target cell is not tried again for some
  time.  A list holds, per object, the time until which it is penalized, as an \<^verbatim>\<open>unsigned int\<close> number of
  seconds; the clock is an argument.  The objects are those of the caller.
\<close>

type_synonym 'o penalty_timers = "('o \<times> u32) list"

definition penalty_timers_init :: "'o penalty_timers" where
  "penalty_timers_init = []"

text \<open>The sum is one of \<^verbatim>\<open>unsigned int\<close>, and wraps.\<close>

definition penalty_timers_add :: "u32 \<Rightarrow> 'o \<Rightarrow> int \<Rightarrow> 'o penalty_timers \<Rightarrow> 'o penalty_timers" where
  "penalty_timers_add now obj timeout pt =
     (if timeout \<le> 0 then pt
      else let then_t = now + word_of_int timeout
           in upsert obj (\<lambda>t. if t < then_t then then_t else t) then_t pt)"

definition penalty_timers_remaining :: "u32 \<Rightarrow> 'o \<Rightarrow> 'o penalty_timers \<Rightarrow> u32" where
  "penalty_timers_remaining now obj pt =
     fold (\<lambda>(k, t) max_remaining.
         if k \<noteq> obj then max_remaining
         else if now \<ge> t then max_remaining
         else if t - now > max_remaining then t - now else max_remaining) pt 0"

definition penalty_timers_clear :: "'o option \<Rightarrow> 'o penalty_timers \<Rightarrow> 'o penalty_timers" where
  "penalty_timers_clear obj pt = filter (\<lambda>(k, t). obj \<noteq> None \<and> obj \<noteq> Some k) pt"

definition penalty_timers_free :: "'o penalty_timers option \<Rightarrow> 'o penalty_timers option" where
  "penalty_timers_free pt = (case pt of None \<Rightarrow> None | Some pt \<Rightarrow> (let pt = penalty_timers_clear None pt in None))"

section \<open>A map of expiry times\<close>

definition later :: "u32 option \<Rightarrow> u32 \<Rightarrow> u32" where
  "later x t = (case x of None \<Rightarrow> t | Some u \<Rightarrow> max u t)"

definition set_penalty :: "'o \<Rightarrow> u32 \<Rightarrow> 'o penalty_timers \<Rightarrow> 'o penalty_timers" where
  "set_penalty obj t = upsert obj (\<lambda>u. if u < t then t else u) t"

interpretation pen: keyed_store unique_keys map_of set_penalty "\<lambda>obj. penalty_timers_clear (Some obj)" later
proof unfold_locales
  fix s :: "'o penalty_timers" and k :: 'o and v
  assume u: "unique_keys s"
  show "unique_keys (set_penalty k v s)" using u by (simp add: set_penalty_def unique_upsert)
  have c: "penalty_timers_clear (Some k) s = remove_first k s"
    using remove_first_filter[OF u, of k] by (simp add: penalty_timers_clear_def eq_commute)
  show "unique_keys (penalty_timers_clear (Some k) s)" unfolding c by (rule unique_remove_first[OF u])
  show "map_of (set_penalty k v s) = (map_of s)(k \<mapsto> later (map_of s k) v)"
    unfolding set_penalty_def map_of_upsert later_def by (cases "map_of s k") (auto simp: max_def)
  show "map_of (penalty_timers_clear (Some k) s) = (map_of s)(k := None)" unfolding c by (rule map_of_remove_first[OF u])
qed

lemma remaining_other: "obj \<notin> fst ` set pt \<Longrightarrow>
    fold (\<lambda>(k, t) m. if k \<noteq> obj then m else if now \<ge> t then m else if t - now > m then t - now else m) pt m = m"
  by (induction pt) (auto simp: image_iff)

lemma remaining_eq:
  assumes "unique_keys pt"
  shows "penalty_timers_remaining now obj pt = (case map_of pt obj of None \<Rightarrow> 0 | Some t \<Rightarrow> if now < t then t - now else 0)"
  unfolding penalty_timers_remaining_def using assms
proof (induction pt)
  case Nil
  then show ?case by simp
next
  case (Cons e pt)
  obtain k t where e: "e = (k, t)" by fastforce
  show ?case
  proof (cases "k = obj")
    case True
    then have "obj \<notin> fst ` set pt" using Cons.prems e by (simp add: unique_keys_def)
    then have "fold (\<lambda>(k, t) m. if k \<noteq> obj then m else if now \<ge> t then m else if t - now > m then t - now else m) (e # pt) 0 =
        (if now < t then t - now else 0)"
      using e True remaining_other[of obj pt now] by (cases "now < t") (auto simp: word_gt_0)
    then show ?thesis using e True by simp
  next
    case False
    then show ?thesis using Cons e by (simp add: unique_keys_def)
  qed
qed

text \<open>Commands: a penalty for an object at some time, and the reset of one object or of all.\<close>

datatype 'o penalty_cmd = Penalize u32 'o int | Forgive "'o option"

fun penalty_exec :: "'o penalty_cmd \<Rightarrow> 'o penalty_timers \<Rightarrow> 'o penalty_timers" where
  "penalty_exec (Penalize now obj timeout) pt = penalty_timers_add now obj timeout pt"
| "penalty_exec (Forgive obj) pt = penalty_timers_clear obj pt"

text \<open>The expiry times that count for an object.\<close>

fun expiries :: "'o \<Rightarrow> 'o penalty_cmd list \<Rightarrow> int list \<Rightarrow> int list" where
  "expiries obj [] es = es"
| "expiries obj (Penalize now k timeout # cs) es =
     expiries obj cs (if k = obj \<and> timeout > 0 then (uint now + timeout) # es else es)"
| "expiries obj (Forgive k # cs) es = expiries obj cs (if k = None \<or> k = Some obj then [] else es)"

definition no_overflow :: "'o penalty_cmd \<Rightarrow> bool" where
  "no_overflow c = (case c of Penalize now k timeout \<Rightarrow> uint now + timeout < 2 ^ 32 | Forgive k \<Rightarrow> True)"

definition tracks_penalty :: "'o \<Rightarrow> 'o penalty_timers \<Rightarrow> int list \<Rightarrow> bool" where
  "tracks_penalty obj pt es \<longleftrightarrow> unique_keys pt \<and> (\<forall>e \<in> set es. 0 \<le> e \<and> e < 2 ^ 32) \<and>
     map_of pt obj = (if es = [] then None else Some (word_of_int (Max (set es))))"

lemma clear_all: "penalty_timers_clear None pt = []"
  by (simp add: penalty_timers_clear_def)

lemma penalty_add_eq: "0 < timeout \<Longrightarrow> penalty_timers_add now obj timeout pt = set_penalty obj (now + word_of_int timeout) pt"
  by (simp add: penalty_timers_add_def set_penalty_def Let_def)

lemma uint_of_range: "0 \<le> e \<Longrightarrow> e < 2 ^ 32 \<Longrightarrow> uint (word_of_int e :: u32) = e"
  by (simp add: uint_word_of_int)

lemma later_Max:
  assumes "\<forall>e \<in> set es. 0 \<le> e \<and> e < 2 ^ 32" "0 \<le> e" "e < 2 ^ 32"
  shows "later (if es = [] then None else Some (word_of_int (Max (set es)))) (word_of_int e) = word_of_int (Max (set (e # es)))"
proof (cases "es = []")
  case False
  then have "Max (set es) \<in> set es" by simp
  then have m: "0 \<le> Max (set es)" "Max (set es) < 2 ^ 32" using assms(1) by auto
  have "max (word_of_int (Max (set es)) :: u32) (word_of_int e) = word_of_int (max (Max (set es)) e)"
    using m assms(2,3) by (simp add: max_def word_le_def uint_of_range)
  then show ?thesis using False by (simp add: later_def max.commute)
qed (simp add: later_def)

lemma tracks_exec:
  assumes "tracks_penalty obj pt es" "no_overflow c"
  shows "tracks_penalty obj (penalty_exec c pt) (expiries obj [c] es)"
proof (cases c)
  case (Penalize now k timeout)
  have u: "unique_keys pt" using assms(1) by (simp add: tracks_penalty_def)
  show ?thesis
  proof (cases "0 < timeout")
    case False
    then show ?thesis using assms(1) Penalize by (simp add: penalty_timers_add_def)
  next
    case True
    let ?e = "uint now + timeout"
    have e: "0 \<le> ?e" "?e < 2 ^ 32" "now + word_of_int timeout = word_of_int ?e"
      using assms(2) True Penalize by (simp_all add: no_overflow_def add_nonneg_nonneg)
    note l = pen.look_add[OF u, of k "word_of_int ?e"]
    show ?thesis
    proof (cases "k = obj")
      case True
      have m: "map_of pt obj = (if es = [] then None else Some (word_of_int (Max (set es))))" "\<forall>e \<in> set es. 0 \<le> e \<and> e < 2 ^ 32"
        using assms(1) by (simp_all add: tracks_penalty_def)
      have "map_of (set_penalty k (word_of_int ?e) pt) obj = Some (word_of_int (Max (set (?e # es))))"
        using l True m(1) later_Max[OF m(2) e(1,2)] by simp
      then show ?thesis using \<open>0 < timeout\<close> True e(1,2) m(2) pen.ok_add[OF u]
        unfolding Penalize penalty_exec.simps penalty_add_eq[OF \<open>0 < timeout\<close>] e(3) tracks_penalty_def by simp
    next
      case False
      then show ?thesis using assms(1) l pen.ok_add[OF u]
        unfolding Penalize penalty_exec.simps penalty_add_eq[OF \<open>0 < timeout\<close>] e(3) tracks_penalty_def by simp
    qed
  qed
next
  case (Forgive k)
  have u: "unique_keys pt" using assms(1) by (simp add: tracks_penalty_def)
  show ?thesis using Forgive assms(1) pen.ok_del[OF u] pen.look_del[OF u]
    by (cases k) (auto simp: tracks_penalty_def clear_all unique_keys_def)
qed

lemma expiries_Cons: "expiries obj (c # cs) es = expiries obj cs (expiries obj [c] es)"
  by (cases c) simp_all

lemma tracks_fold:
  "tracks_penalty obj pt es \<Longrightarrow> \<forall>c \<in> set cs. no_overflow c \<Longrightarrow> tracks_penalty obj (fold penalty_exec cs pt) (expiries obj cs es)"
proof (induction cs arbitrary: pt es)
  case (Cons c cs)
  then have "tracks_penalty obj (fold penalty_exec cs (penalty_exec c pt)) (expiries obj cs (expiries obj [c] es))"
    using tracks_exec[of obj pt es c] by simp
  then show ?case unfolding expiries_Cons[of obj c cs] by simp
qed simp

text \<open>The remaining penalty of an object is the time to the latest expiry of the penalties set since its last
  reset, and 0 when that has passed, whatever the order of the commands, as long as no expiry
  overflows the 32-bit clock.\<close>

lemma penalty_remaining:
  assumes "\<forall>c \<in> set cs. no_overflow c"
  shows "uint (penalty_timers_remaining now obj (fold penalty_exec cs penalty_timers_init)) =
    Max (set (0 # map (\<lambda>e. e - uint now) (expiries obj cs [])))"
proof -
  have "tracks_penalty obj penalty_timers_init []" by (simp add: tracks_penalty_def unique_keys_def penalty_timers_init_def)
  note t = tracks_fold[OF this assms]
  define es where "es = expiries obj cs []"
  define pt where "pt = fold penalty_exec cs penalty_timers_init"
  have t: "tracks_penalty obj pt es" using t by (simp add: es_def pt_def)
  note r = remaining_eq[of pt now obj]
  have "uint (penalty_timers_remaining now obj pt) = Max (set (0 # map (\<lambda>e. e - uint now) es))"
  proof (cases "es = []")
    case True
    then show ?thesis using t r by (simp add: tracks_penalty_def)
  next
    case False
    then have m: "0 \<le> Max (set es)" "Max (set es) < 2 ^ 32" using t Max_in[of "set es"] by (auto simp: tracks_penalty_def)
    have "Max (set (0 # map (\<lambda>e. e - uint now) es)) = max 0 (Max (set es) - uint now)"
      using False Max_add_commute[of "set es" id "- uint now"] by simp
    moreover have "uint (word_of_int (Max (set es)) - now :: u32) = Max (set es) - uint now" if "uint now < Max (set es)"
      using that m by (simp add: uint_sub_if' uint_of_range)
    ultimately show ?thesis using False t r m by (auto simp: tracks_penalty_def word_less_def uint_of_range)
  qed
  then show ?thesis by (simp add: es_def pt_def)
qed

text \<open>An expiry past the end of the clock wraps to the past: the penalty is lost.\<close>

lemma penalty_lost_at_overflow:
  "penalty_timers_remaining 0xffffffff obj (penalty_timers_add 0xffffffff obj 10 penalty_timers_init) = 0"
  by (simp add: penalty_timers_remaining_def penalty_timers_add_def penalty_timers_init_def)

end
