(* ===== verification/Neighbor_Ident.thy ===== *)
theory Neighbor_Ident
  imports Keyed_Store Prelude
begin

text \<open>
  Identities of neighbor cells, \<^verbatim>\<open>neighbor_ident.c\<close>: cell identifier lists for keys of a BTS number, an ARFCN
  and a BSIC, where the BTS and the BSIC of an entry can be wildcards.  The cell identifier lists and
  the function that merges two of them belong to libosmocore: the merge is an argument that gives a
  result code and the merged list.
\<close>

section \<open>Operations\<close>

record neighbor_ident_key =
  from_bts :: int
  ni_arfcn :: u16
  ni_bsic :: u8

definition NEIGHBOR_IDENT_KEY_ANY_BTS :: int where "NEIGHBOR_IDENT_KEY_ANY_BTS = -1"
definition BSIC_ANY :: u8 where "BSIC_ANY = 0xff"

type_synonym 'v neighbor_ident_list = "(neighbor_ident_key \<times> 'v) list"

definition neighbor_ident_init :: "'v neighbor_ident_list" where
  "neighbor_ident_init = []"

definition neighbor_ident_key_match :: "neighbor_ident_key \<Rightarrow> neighbor_ident_key \<Rightarrow> bool \<Rightarrow> bool" where
  "neighbor_ident_key_match entry search_for exact_match =
     (if exact_match \<and> from_bts entry \<noteq> from_bts search_for then False
      else if from_bts search_for \<noteq> NEIGHBOR_IDENT_KEY_ANY_BTS \<and> from_bts entry \<noteq> NEIGHBOR_IDENT_KEY_ANY_BTS
              \<and> from_bts entry \<noteq> from_bts search_for then False
      else if ni_arfcn entry \<noteq> ni_arfcn search_for then False
      else if exact_match \<and> ni_bsic entry \<noteq> ni_bsic search_for then False
      else if ni_bsic entry = BSIC_ANY \<or> ni_bsic search_for = BSIC_ANY then True
      else ni_bsic entry = ni_bsic search_for)"

text \<open>The search gives the position of the entry.\<close>

fun ident_get :: "'v neighbor_ident_list \<Rightarrow> nat \<Rightarrow> neighbor_ident_key \<Rightarrow> bool \<Rightarrow> nat option \<Rightarrow> nat option" where
  "ident_get [] i key exact_match wildcard_match = wildcard_match"
| "ident_get ((k, v) # nil) i key exact_match wildcard_match =
     (if neighbor_ident_key_match k key True then Some i
      else ident_get nil (Suc i) key exact_match
        (if \<not> exact_match \<and> neighbor_ident_key_match k key False then Some i else wildcard_match))"

definition neighbor_ident_key_valid :: "neighbor_ident_key \<Rightarrow> bool" where
  "neighbor_ident_key_valid key =
     (if from_bts key \<noteq> NEIGHBOR_IDENT_KEY_ANY_BTS \<and> (from_bts key < 0 \<or> from_bts key > 255) then False
      else if ni_bsic key \<noteq> BSIC_ANY \<and> ni_bsic key > 0x3f then False
      else True)"

definition ENOMEM :: int where "ENOMEM = 12"
definition NI_ERANGE :: int where "NI_ERANGE = 34"

text \<open>The number of identifiers in a list is \<open>len\<close>; the list itself may be missing.\<close>

definition neighbor_ident_add :: "('v \<Rightarrow> 'v \<Rightarrow> int \<times> 'v) \<Rightarrow> ('v \<Rightarrow> int) \<Rightarrow> 'v neighbor_ident_list option \<Rightarrow> neighbor_ident_key \<Rightarrow> 'v
    \<Rightarrow> int \<times> 'v neighbor_ident_list option" where
  "neighbor_ident_add cell_id_list_add len nil key val =
     (case nil of
        None \<Rightarrow> (- ENOMEM, None)
      | Some nil \<Rightarrow>
          if \<not> neighbor_ident_key_valid key then (- NI_ERANGE, Some nil)
          else case ident_get nil 0 key True None of
            None \<Rightarrow> (len val, Some (nil @ [(key, val)]))
          | Some i \<Rightarrow> let (rc, v) = cell_id_list_add (snd (nil ! i)) val; nil = nil[i := (fst (nil ! i), v)]
                      in (if rc < 0 then rc else len v, Some nil))"

definition neighbor_ident_get :: "'v neighbor_ident_list option \<Rightarrow> neighbor_ident_key \<Rightarrow> 'v option" where
  "neighbor_ident_get nil key =
     (case nil of None \<Rightarrow> None | Some nil \<Rightarrow> map_option (\<lambda>i. snd (nil ! i)) (ident_get nil 0 key False None))"

definition neighbor_ident_del :: "'v neighbor_ident_list option \<Rightarrow> neighbor_ident_key \<Rightarrow> bool \<times> 'v neighbor_ident_list option" where
  "neighbor_ident_del nil key =
     (case nil of
        None \<Rightarrow> (False, None)
      | Some nil \<Rightarrow>
          (case ident_get nil 0 key True None of
             None \<Rightarrow> (False, Some nil)
           | Some i \<Rightarrow> (True, Some (take i nil @ drop (Suc i) nil))))"

definition neighbor_ident_clear :: "'v neighbor_ident_list \<Rightarrow> 'v neighbor_ident_list" where
  "neighbor_ident_clear nil = while (\<lambda>nil. nil \<noteq> []) tl nil"

text \<open>The iteration over the entries with a callback that can stop it, as the entries it was called for.\<close>

fun neighbor_ident_iter :: "('v neighbor_ident_list) \<Rightarrow> (neighbor_ident_key \<Rightarrow> 'v \<Rightarrow> bool) \<Rightarrow> 'v neighbor_ident_list" where
  "neighbor_ident_iter [] iter_cb = []"
| "neighbor_ident_iter ((k, v) # nil) iter_cb = (k, v) # (if iter_cb k v then neighbor_ident_iter nil iter_cb else [])"

section \<open>Exact matches\<close>

lemma match_exact [simp]: "neighbor_ident_key_match k key True \<longleftrightarrow> k = key"
  by (auto simp: neighbor_ident_key_match_def intro: neighbor_ident_key.equality)

lemma match_exact_wild: "neighbor_ident_key_match key key False"
  by (simp add: neighbor_ident_key_match_def)

definition pos :: "'v neighbor_ident_list \<Rightarrow> neighbor_ident_key \<Rightarrow> nat" where
  "pos nil key = length (takeWhile (\<lambda>e. fst e \<noteq> key) nil)"

lemma pos_simps [simp]: "pos ((k, v) # nil) key = (if k = key then 0 else Suc (pos nil key))"
  by (simp add: pos_def)

lemma ident_get_exact: "ident_get nil i key True w = (if key \<in> fst ` set nil then Some (i + pos nil key) else w)"
proof (induction nil arbitrary: i)
  case (Cons e nil)
  then show ?case by (cases e) auto
qed simp

lemma pos_entry:
  "key \<in> fst ` set nil \<Longrightarrow> pos nil key < length nil \<and> fst (nil ! pos nil key) = key \<and> map_of nil key = Some (snd (nil ! pos nil key))"
proof (induction nil)
  case (Cons e nil)
  then show ?case by (cases e) auto
qed simp

lemma upsert_at:
  "key \<in> fst ` set nil \<Longrightarrow> nil[pos nil key := (fst (nil ! pos nil key), f (snd (nil ! pos nil key)))] = upsert key f val nil"
proof (induction nil)
  case (Cons e nil)
  then show ?case by (cases e) auto
qed simp

lemma upsert_new: "key \<notin> fst ` set nil \<Longrightarrow> nil @ [(key, val)] = upsert key f val nil"
proof (induction nil)
  case (Cons e nil)
  then show ?case by (cases e) auto
qed simp

lemma remove_at: "key \<in> fst ` set nil \<Longrightarrow> take (pos nil key) nil @ drop (Suc (pos nil key)) nil = remove_first key nil"
proof (induction nil)
  case (Cons e nil)
  then show ?case by (cases e) auto
qed simp

lemma remove_none: "key \<notin> fst ` set nil \<Longrightarrow> remove_first key nil = nil"
proof (induction nil)
  case (Cons e nil)
  then show ?case by (cases e) auto
qed simp

lemma ident_add_eq:
  "snd (neighbor_ident_add ca len (Some nil) key val) =
     Some (if neighbor_ident_key_valid key then upsert key (\<lambda>v. snd (ca v val)) val nil else nil)"
  using upsert_at[of key nil "\<lambda>v. snd (ca v val)"] upsert_new[of key nil val]
  by (auto simp: neighbor_ident_add_def ident_get_exact case_prod_unfold Let_def)

lemma ident_del_eq: "neighbor_ident_del (Some nil) key = (key \<in> fst ` set nil, Some (remove_first key nil))"
  using remove_at[of key nil] remove_none[of key nil] by (auto simp: neighbor_ident_del_def ident_get_exact)

text \<open>The list as a map from keys, for keys that are valid.\<close>

definition merged :: "('v \<Rightarrow> 'v \<Rightarrow> int \<times> 'v) \<Rightarrow> 'v option \<Rightarrow> 'v \<Rightarrow> 'v" where
  "merged ca x v = (case x of None \<Rightarrow> v | Some u \<Rightarrow> snd (ca u v))"

definition add_entry :: "('v \<Rightarrow> 'v \<Rightarrow> int \<times> 'v) \<Rightarrow> neighbor_ident_key \<Rightarrow> 'v \<Rightarrow> 'v neighbor_ident_list \<Rightarrow> 'v neighbor_ident_list" where
  "add_entry ca key val nil = upsert key (\<lambda>v. snd (ca v val)) val nil"

interpretation ident: keyed_store unique_keys map_of "add_entry ca" remove_first "merged ca" for ca :: "'v \<Rightarrow> 'v \<Rightarrow> int \<times> 'v"
proof unfold_locales
  fix s :: "'v neighbor_ident_list" and k v
  assume u: "unique_keys s"
  show "unique_keys (add_entry ca k v s)" unfolding add_entry_def by (rule unique_upsert[OF u])
  show "unique_keys (remove_first k s)" by (rule unique_remove_first[OF u])
  show "map_of (add_entry ca k v s) = (map_of s)(k \<mapsto> merged ca (map_of s k) v)"
    unfolding add_entry_def map_of_upsert merged_def by (cases "map_of s k") simp_all
  show "map_of (remove_first k s) = (map_of s)(k := None)" by (rule map_of_remove_first[OF u])
qed

text \<open>Sequences of additions and deletions as the code executes them.\<close>

fun ident_exec :: "('v \<Rightarrow> 'v \<Rightarrow> int \<times> 'v) \<Rightarrow> ('v \<Rightarrow> int) \<Rightarrow> neighbor_ident_key \<times> 'v option \<Rightarrow> 'v neighbor_ident_list option \<Rightarrow> 'v neighbor_ident_list option" where
  "ident_exec ca len (key, Some v) nil = snd (neighbor_ident_add ca len nil key v)"
| "ident_exec ca len (key, None) nil = snd (neighbor_ident_del nil key)"

lemma ident_exec_run:
  "\<forall>(key, c) \<in> set cs. neighbor_ident_key_valid key \<Longrightarrow> fold (ident_exec ca len) cs (Some nil) = Some (ident.run ca cs nil)"
  by (induction cs nil rule: ident.run.induct) (auto simp: ident_add_eq ident_del_eq add_entry_def)

text \<open>Property C34. The neighbor list implements a map: after any sequence of additions and deletions with valid keys every
  key has at most one entry, which holds the merge of what was added for it since its last deletion.\<close>

theorem neighbor_ident_is_map:
  assumes "\<forall>(key, c) \<in> set cs. neighbor_ident_key_valid key"
  shows "\<exists>nil. fold (ident_exec ca len) cs (Some neighbor_ident_init) = Some nil \<and> unique_keys nil \<and>
    map_of nil key = ident.outcome ca cs key None"
  using ident_exec_run[OF assms, of ca len neighbor_ident_init] ident.run_ok[of neighbor_ident_init ca cs]
    ident.look_run[of neighbor_ident_init ca cs key] by (simp add: unique_keys_def neighbor_ident_init_def)

section \<open>Wildcards\<close>

text \<open>Entries that match with wildcards, and the last of them.\<close>

definition wild :: "neighbor_ident_key \<Rightarrow> neighbor_ident_key \<Rightarrow> bool" where
  "wild k key \<longleftrightarrow> ni_arfcn k = ni_arfcn key \<and>
     (from_bts k = from_bts key \<or> from_bts k = NEIGHBOR_IDENT_KEY_ANY_BTS \<or> from_bts key = NEIGHBOR_IDENT_KEY_ANY_BTS) \<and>
     (ni_bsic k = ni_bsic key \<or> ni_bsic k = BSIC_ANY \<or> ni_bsic key = BSIC_ANY)"

lemma match_wild [simp]: "neighbor_ident_key_match k key False = wild k key"
  by (auto simp: neighbor_ident_key_match_def wild_def)

lemma ident_get_wild:
  "map_option (\<lambda>i. snd ((pre @ nil) ! i)) (ident_get nil (length pre) key False w) =
     (case map_of nil key of Some v \<Rightarrow> Some v | None \<Rightarrow>
        (case filter (\<lambda>e. wild (fst e) key) nil of [] \<Rightarrow> map_option (\<lambda>i. snd ((pre @ nil) ! i)) w | e # es \<Rightarrow> Some (snd (last (e # es)))))"
proof (induction nil arbitrary: pre w)
  case (Cons e nil)
  obtain k v where e: "e = (k, v)" by fastforce
  show ?case
  proof (cases "k = key")
    case False
    with Cons.IH[of "pre @ [e]" "if wild k key then Some (length pre) else w"] e show ?thesis
      by (auto split: option.splits list.splits)
  qed (simp add: e)
qed simp

text \<open>A search for the neighbor seen in a measurement report prefers the entry for exactly that key over all
  wildcard entries, wherever they stand in the list; without one it takes the last entry whose ARFCN
  is the same and whose BTS and BSIC are the same or wildcards; and it fails only if there is none.\<close>

lemma neighbor_ident_get_prefers_exact:
  "neighbor_ident_get (Some nil) key =
     (case map_of nil key of Some v \<Rightarrow> Some v | None \<Rightarrow>
        (case filter (\<lambda>e. wild (fst e) key) nil of [] \<Rightarrow> None | e # es \<Rightarrow> Some (snd (last (e # es)))))"
  using ident_get_wild[of "[]" nil key None] by (simp add: neighbor_ident_get_def split: option.splits list.splits)

lemma neighbor_ident_clear_eq: "neighbor_ident_clear nil = []"
proof -
  show ?thesis unfolding neighbor_ident_clear_def
    by (induction nil) (subst while_unfold, simp)+
qed

theorem neighbor_ident_is_map_witness:
  "\<exists>nil. fold (ident_exec (\<lambda>u v. (0, u @ v)) (\<lambda>v. int (length v)))
      [(\<lparr> from_bts = 3, ni_arfcn = 871, ni_bsic = 12 \<rparr>, Some ''a''), (\<lparr> from_bts = 3, ni_arfcn = 871, ni_bsic = 12 \<rparr>, Some ''b'')]
      (Some neighbor_ident_init) = Some nil \<and> map_of nil \<lparr> from_bts = 3, ni_arfcn = 871, ni_bsic = 12 \<rparr> = Some ''ab''"
  using neighbor_ident_is_map[of "[(\<lparr> from_bts = 3, ni_arfcn = 871, ni_bsic = 12 \<rparr>, Some ''a''), (\<lparr> from_bts = 3, ni_arfcn = 871, ni_bsic = 12 \<rparr>, Some ''b'')]"
      "\<lambda>u v. (0, u @ v)" "\<lambda>v. int (length v)" "\<lparr> from_bts = 3, ni_arfcn = 871, ni_bsic = 12 \<rparr>"]
  by (auto simp: neighbor_ident_key_valid_def merged_def)

end
