(* ===== verification/A_Reset.thy ===== *)
theory A_Reset
  imports Osmo_Fsm "HOL-Library.Sublist"
begin

text \<open>
  The reset procedure of the A interface, \<^verbatim>\<open>a_reset.c\<close>: a machine per MSC that sends BSSMAP RESET until it is
  acknowledged and starts over after too many failed connections.  The state of an MSC is that of its
  machine, if it has one, the counter of failures and the number of resets sent.
\<close>

section \<open>The machine\<close>

datatype reset_fsm_states = ST_DISC | ST_CONN

datatype reset_fsm_evt = EV_RESET_ACK | EV_N_DISCONNECT | EV_N_CONNECT

fun reset_st_nr :: "reset_fsm_states \<Rightarrow> nat" where
  "reset_st_nr ST_DISC = 0"
| "reset_st_nr ST_CONN = 1"

fun reset_ev_nr :: "reset_fsm_evt \<Rightarrow> nat" where
  "reset_ev_nr EV_RESET_ACK = 0"
| "reset_ev_nr EV_N_DISCONNECT = 1"
| "reset_ev_nr EV_N_CONNECT = 2"

record reset_inst =
  rs_state :: reset_fsm_states
  rs_timer :: "(nat \<times> nat) option"
  conn_loss_counter :: nat

record reset_msc =
  reset_fsm :: "reset_inst option"
  resets_sent :: nat

definition RESET_RESEND_INTERVAL :: nat where "RESET_RESEND_INTERVAL = 2"
definition RESET_RESEND_TIMER_NO :: nat where "RESET_RESEND_TIMER_NO = 4"
definition BAD_CONNECTION_THRESOLD :: nat where "BAD_CONNECTION_THRESOLD = 3"

fun reset_in_mask :: "reset_fsm_states \<Rightarrow> u32" where
  "reset_in_mask ST_DISC = S_mask [reset_ev_nr EV_RESET_ACK]"
| "reset_in_mask ST_CONN = S_mask [reset_ev_nr EV_N_DISCONNECT, reset_ev_nr EV_N_CONNECT]"

definition reset_out_mask :: "reset_fsm_states \<Rightarrow> u32" where
  "reset_out_mask st = S_mask [reset_st_nr ST_DISC, reset_st_nr ST_CONN]"

definition upd_inst :: "(reset_inst \<Rightarrow> reset_inst) \<Rightarrow> reset_msc \<Rightarrow> reset_msc" where
  "upd_inst f m = m\<lparr> reset_fsm := map_option f (reset_fsm m) \<rparr>"

text \<open>A transition, with a timer or without.\<close>

definition reset_chg :: "reset_msc fsm_engine \<Rightarrow> reset_fsm_states \<Rightarrow> (nat \<times> nat) option \<Rightarrow> reset_msc \<Rightarrow> reset_msc res" where
  "reset_chg e st T m =
     (case reset_fsm m of
        None \<Rightarrow> Abort
      | Some fi \<Rightarrow> fsm_state_chg e (reset_out_mask (rs_state fi)) (reset_st_nr st)
          (\<lambda>m. Ok (upd_inst (\<lambda>fi. fi\<lparr> rs_state := st, rs_timer := T \<rparr>) m)) m)"

definition fsm_disc_cb :: "reset_msc fsm_engine \<Rightarrow> reset_msc \<Rightarrow> reset_msc res" where
  "fsm_disc_cb e m = reset_chg e ST_CONN None (upd_inst (\<lambda>fi. fi\<lparr> conn_loss_counter := 0 \<rparr>) m)"

definition fsm_conn_cb :: "reset_msc fsm_engine \<Rightarrow> reset_fsm_evt \<Rightarrow> reset_msc \<Rightarrow> reset_msc res" where
  "fsm_conn_cb e ev m =
     (case reset_fsm m of
        None \<Rightarrow> Abort
      | Some fi \<Rightarrow>
          (case ev of
             EV_N_DISCONNECT \<Rightarrow>
               if conn_loss_counter fi \<ge> BAD_CONNECTION_THRESOLD
               then reset_chg e ST_DISC (Some (RESET_RESEND_INTERVAL, RESET_RESEND_TIMER_NO)) m
               else Ok (upd_inst (\<lambda>fi. fi\<lparr> conn_loss_counter := conn_loss_counter fi + 1 \<rparr>) m)
           | EV_N_CONNECT \<Rightarrow> Ok (upd_inst (\<lambda>fi. fi\<lparr> conn_loss_counter := 0 \<rparr>) m)
           | EV_RESET_ACK \<Rightarrow> Ok m))"

fun reset_action :: "reset_msc fsm_engine \<Rightarrow> reset_fsm_states \<Rightarrow> reset_fsm_evt \<Rightarrow> reset_msc \<Rightarrow> reset_msc res" where
  "reset_action e ST_DISC ev m = fsm_disc_cb e m"
| "reset_action e ST_CONN ev m = fsm_conn_cb e ev m"

text \<open>The callback sends the message.\<close>

definition fsm_reset_ack_timeout_cb :: "reset_msc fsm_engine \<Rightarrow> reset_msc \<Rightarrow> reset_msc res" where
  "fsm_reset_ack_timeout_cb e m =
     reset_chg e ST_DISC (Some (RESET_RESEND_INTERVAL, RESET_RESEND_TIMER_NO)) (m\<lparr> resets_sent := resets_sent m + 1 \<rparr>)"

definition a_reset_alloc :: "reset_msc fsm_engine \<Rightarrow> reset_msc \<Rightarrow> reset_msc res" where
  "a_reset_alloc e m =
     (if reset_fsm m \<noteq> None then Abort
      else reset_chg e ST_DISC (Some (RESET_RESEND_INTERVAL, RESET_RESEND_TIMER_NO))
        (m\<lparr> reset_fsm := Some \<lparr> rs_state = ST_DISC, rs_timer = None, conn_loss_counter = 0 \<rparr> \<rparr>))"

definition reset_dispatch :: "reset_msc fsm_engine \<Rightarrow> reset_fsm_evt \<Rightarrow> reset_msc \<Rightarrow> reset_msc res" where
  "reset_dispatch e ev m =
     (case reset_fsm m of
        None \<Rightarrow> Ok m
      | Some fi \<Rightarrow> rbind (fsm_dispatch e 0 (reset_in_mask (rs_state fi)) (reset_ev_nr ev) Ok (reset_action e (rs_state fi) ev) m)
          (\<lambda>(rc, m). Ok m))"

definition a_reset_ack_confirm :: "reset_msc fsm_engine \<Rightarrow> reset_msc \<Rightarrow> reset_msc res" where
  "a_reset_ack_confirm e = reset_dispatch e EV_RESET_ACK"

definition a_reset_conn_fail :: "reset_msc fsm_engine \<Rightarrow> reset_msc \<Rightarrow> reset_msc res" where
  "a_reset_conn_fail e = reset_dispatch e EV_N_DISCONNECT"

definition a_reset_conn_success :: "reset_msc fsm_engine \<Rightarrow> reset_msc \<Rightarrow> reset_msc res" where
  "a_reset_conn_success e = reset_dispatch e EV_N_CONNECT"

definition a_reset_conn_ready :: "reset_msc \<Rightarrow> bool" where
  "a_reset_conn_ready m = (case reset_fsm m of None \<Rightarrow> False | Some fi \<Rightarrow> rs_state fi = ST_CONN)"

section \<open>What the machine does\<close>

lemma chg_eq:
  "fsm_contract e \<Longrightarrow> reset_fsm m \<noteq> None \<Longrightarrow> reset_chg e st T m = Ok (upd_inst (\<lambda>fi. fi\<lparr> rs_state := st, rs_timer := T \<rparr>) m)"
  by (cases st) (auto simp: reset_chg_def fsm_contract_state_chg reset_out_mask_def bit_S_mask)

text \<open>The same machine without the engine.\<close>

fun reset_next :: "reset_fsm_evt \<Rightarrow> reset_inst \<Rightarrow> reset_inst" where
  "reset_next EV_RESET_ACK fi =
     (if rs_state fi = ST_DISC then fi\<lparr> rs_state := ST_CONN, rs_timer := None, conn_loss_counter := 0 \<rparr> else fi)"
| "reset_next EV_N_CONNECT fi = (if rs_state fi = ST_CONN then fi\<lparr> conn_loss_counter := 0 \<rparr> else fi)"
| "reset_next EV_N_DISCONNECT fi =
     (if rs_state fi = ST_DISC then fi
      else if conn_loss_counter fi < 3 then fi\<lparr> conn_loss_counter := conn_loss_counter fi + 1 \<rparr>
      else fi\<lparr> rs_state := ST_DISC, rs_timer := Some (2, 4) \<rparr>)"

lemma dispatch_eq:
  assumes "fsm_contract e" "reset_fsm m = Some fi"
  shows "reset_dispatch e ev m = Ok (upd_inst (reset_next ev) m)"
  using assms
  by (cases ev; cases "rs_state fi")
    (auto simp: reset_dispatch_def fsm_contract_dispatch bit_S_mask fsm_disc_cb_def fsm_conn_cb_def chg_eq upd_inst_def
      BAD_CONNECTION_THRESOLD_def RESET_RESEND_INTERVAL_def RESET_RESEND_TIMER_NO_def)

text \<open>Events and timer expiries, and runs of them.\<close>

fun reset_step :: "reset_msc fsm_engine \<Rightarrow> reset_fsm_evt option \<Rightarrow> reset_msc \<Rightarrow> reset_msc res" where
  "reset_step e (Some ev) m = reset_dispatch e ev m"
| "reset_step e None m = fsm_reset_ack_timeout_cb e m"

definition timer_runs :: "reset_msc \<Rightarrow> bool" where
  "timer_runs m = (case reset_fsm m of None \<Rightarrow> False | Some fi \<Rightarrow> rs_timer fi \<noteq> None)"

inductive reset_reach :: "reset_msc fsm_engine \<Rightarrow> reset_msc \<Rightarrow> bool" for e where
  init: "reset_fsm m = None \<Longrightarrow> a_reset_alloc e m = Ok m' \<Longrightarrow> reset_reach e m'"
| step: "reset_reach e m \<Longrightarrow> (ev = None \<longrightarrow> timer_runs m) \<Longrightarrow> reset_step e ev m = Ok m' \<Longrightarrow> reset_reach e m'"

definition reset_inv :: "reset_msc \<Rightarrow> bool" where
  "reset_inv m = (case reset_fsm m of None \<Rightarrow> False | Some fi \<Rightarrow>
     (case rs_state fi of ST_DISC \<Rightarrow> rs_timer fi = Some (2, 4) | ST_CONN \<Rightarrow> rs_timer fi = None) \<and> conn_loss_counter fi \<le> 3)"

lemma reset_step_ok:
  assumes "fsm_contract e" "reset_inv m"
  shows "post (reset_step e ev m) reset_inv"
proof -
  obtain fi where fi: "reset_fsm m = Some fi" using assms(2) by (auto simp: reset_inv_def split: option.splits)
  show ?thesis
  proof (cases ev)
    case None
    then show ?thesis using assms fi
      by (auto simp: fsm_reset_ack_timeout_cb_def chg_eq reset_inv_def upd_inst_def RESET_RESEND_INTERVAL_def RESET_RESEND_TIMER_NO_def)
  next
    case (Some v)
    then show ?thesis using assms fi dispatch_eq[OF assms(1) fi]
      by (cases v; cases "rs_state fi") (auto simp: reset_inv_def upd_inst_def)
  qed
qed

lemma reset_reach_inv: "reset_reach e m \<Longrightarrow> fsm_contract e \<Longrightarrow> reset_inv m"
proof (induction rule: reset_reach.induct)
  case (init m m')
  then have "m' = upd_inst (\<lambda>fi. fi\<lparr> rs_state := ST_DISC, rs_timer := Some (2, 4) \<rparr>)
      (m\<lparr> reset_fsm := Some \<lparr> rs_state = ST_DISC, rs_timer = None, conn_loss_counter = 0 \<rparr> \<rparr>)"
    by (simp add: a_reset_alloc_def chg_eq RESET_RESEND_INTERVAL_def RESET_RESEND_TIMER_NO_def)
  then show ?case by (simp add: reset_inv_def upd_inst_def)
next
  case (step m ev m')
  then show ?case using reset_step_ok[of e m ev] by simp
qed

text \<open>Property C32. Resets are sent until they are acknowledged: in every reachable state the retransmission timer runs
  exactly while the MSC is not connected, its expiry sends one more RESET and keeps it running, and
  no input fails an assertion.\<close>

theorem reset_resent_until_ack:
  assumes "fsm_contract e" "reset_reach e m"
  shows "(timer_runs m \<longleftrightarrow> \<not> a_reset_conn_ready m) \<and> post (reset_step e ev m) (\<lambda>m'. True) \<and>
    (timer_runs m \<longrightarrow> post (reset_step e None m) (\<lambda>m'. resets_sent m' = resets_sent m + 1 \<and> timer_runs m'))"
proof -
  have i: "reset_inv m" using reset_reach_inv assms by blast
  obtain fi where fi: "reset_fsm m = Some fi" using i by (auto simp: reset_inv_def split: option.splits)
  have "timer_runs m \<longleftrightarrow> \<not> a_reset_conn_ready m"
    using i fi by (cases "rs_state fi") (simp_all add: timer_runs_def a_reset_conn_ready_def reset_inv_def)
  moreover have "post (reset_step e None m) (\<lambda>m'. resets_sent m' = resets_sent m + 1 \<and> timer_runs m')"
    using assms(1) fi by (simp add: fsm_reset_ack_timeout_cb_def chg_eq upd_inst_def timer_runs_def)
  moreover have "post (reset_step e ev m) (\<lambda>m'. True)" using reset_step_ok[OF assms(1) i, of ev] by (auto elim: post_mono)
  ultimately show ?thesis by blast
qed

text \<open>Four failures in a row, \<open>n\<close> of which have already happened.\<close>

fun gives_up :: "bool list \<Rightarrow> nat \<Rightarrow> bool" where
  "gives_up [] n = False"
| "gives_up (True # cs) n = gives_up cs 0"
| "gives_up (False # cs) n = (n \<ge> 3 \<or> gives_up cs (n + 1))"

lemma gives_up_iff:
  "n \<le> 3 \<Longrightarrow> gives_up cs n \<longleftrightarrow> prefix (replicate (4 - n) False) cs \<or> sublist (replicate 4 False) cs"
proof (induction cs n rule: gives_up.induct)
  case (1 n)
  then show ?case by (cases "4 - n") auto
next
  case (2 cs n)
  have "replicate (4 - n) False = False # replicate (3 - n) False" using 2 by (simp add: Suc_diff_le flip: replicate_Suc)
  then show ?case using 2 by (auto simp: sublist_Cons_right numeral_eq_Suc)
next
  case (3 cs n)
  have r: "replicate (4 - n) False = False # replicate (3 - n) False" using 3 by (simp add: Suc_diff_le flip: replicate_Suc)
  show ?case
  proof (cases "n = 3")
    case True
    then show ?thesis using r by simp
  next
    case False
    have "prefix (replicate 3 False) cs \<Longrightarrow> prefix (replicate (3 - n) False) cs"
      by (metis append_prefixD diff_le_self le_add_diff_inverse replicate_add)
    moreover have "replicate 4 False = False # replicate 3 False" by (simp add: numeral_eq_Suc)
    ultimately show ?thesis using 3 False r by (auto simp: sublist_Cons_right)
  qed
qed

definition attempt :: "reset_msc fsm_engine \<Rightarrow> bool \<Rightarrow> reset_msc \<Rightarrow> reset_msc res" where
  "attempt e c = (if c then a_reset_conn_success e else a_reset_conn_fail e)"

lemma attempts_ready:
  assumes "fsm_contract e" "reset_fsm m = Some fi" "conn_loss_counter fi \<le> 3"
  shows "post (for_each cs (attempt e) m) (\<lambda>m'. a_reset_conn_ready m' \<longleftrightarrow> rs_state fi = ST_CONN \<and> \<not> gives_up cs (conn_loss_counter fi))"
  using assms(2,3)
proof (induction cs arbitrary: m fi)
  case Nil
  then show ?case by (simp add: a_reset_conn_ready_def)
next
  case (Cons c cs)
  let ?ev = "if c then EV_N_CONNECT else EV_N_DISCONNECT"
  have d: "attempt e c m = Ok (upd_inst (reset_next ?ev) m)"
    using dispatch_eq[OF assms(1) Cons.prems(1)] by (simp add: attempt_def a_reset_conn_success_def a_reset_conn_fail_def)
  have f: "reset_fsm (upd_inst (reset_next ?ev) m) = Some (reset_next ?ev fi)" using Cons.prems(1) by (simp add: upd_inst_def)
  have "conn_loss_counter (reset_next ?ev fi) \<le> 3" using Cons.prems(2) by simp
  from Cons.IH[OF f this] d show ?case using Cons.prems(2)
    by (cases c; cases "rs_state fi") (auto split: if_splits elim!: post_mono)
qed

text \<open>Property C33. The connection to the MSC is given up exactly after four failed attempts in a row: starting with a
  fresh acknowledgement, it is ready after a sequence of attempts unless four consecutive ones failed.\<close>

theorem reset_after_four_failures:
  assumes "fsm_contract e" "reset_fsm m = Some fi" "rs_state fi = ST_DISC"
  shows "post (steps [a_reset_ack_confirm e, for_each cs (attempt e)] m) (\<lambda>m'. a_reset_conn_ready m' \<longleftrightarrow> \<not> sublist (replicate 4 False) cs)"
proof -
  let ?m = "upd_inst (reset_next EV_RESET_ACK) m"
  have a: "a_reset_ack_confirm e m = Ok ?m" using dispatch_eq[OF assms(1,2)] by (simp add: a_reset_ack_confirm_def)
  have f: "reset_fsm ?m = Some (fi\<lparr> rs_state := ST_CONN, rs_timer := None, conn_loss_counter := 0 \<rparr>)" using assms(2,3) by (simp add: upd_inst_def)
  have "gives_up cs 0 \<longleftrightarrow> sublist (replicate 4 False) cs" using gives_up_iff[of 0 cs] by auto
  with attempts_ready[OF assms(1) f, of cs] a show ?thesis by (auto elim!: post_mono)
qed

section \<open>Examples\<close>

definition fresh_msc :: reset_msc where
  "fresh_msc = \<lparr> reset_fsm = Some \<lparr> rs_state = ST_DISC, rs_timer = Some (2, 4), conn_loss_counter = 0 \<rparr>, resets_sent = 0 \<rparr>"

theorem reset_after_four_failures_witness:
  "post (steps [a_reset_ack_confirm example_engine, for_each [False, False, False, True, False] (attempt example_engine)] fresh_msc) a_reset_conn_ready"
  using reset_after_four_failures[OF example_engine_contract, of fresh_msc _ "[False, False, False, True, False]"]
  by (auto simp: fresh_msc_def numeral_eq_Suc sublist_code elim!: post_mono)

theorem reset_resent_until_ack_witness: "timer_runs fresh_msc"
proof -
  have "a_reset_alloc example_engine (fresh_msc\<lparr> reset_fsm := None \<rparr>) = Ok fresh_msc"
    by (simp add: a_reset_alloc_def chg_eq example_engine_contract upd_inst_def fresh_msc_def RESET_RESEND_INTERVAL_def RESET_RESEND_TIMER_NO_def)
  then have "reset_reach example_engine fresh_msc" by (rule reset_reach.init[rotated]) simp
  from reset_resent_until_ack[OF example_engine_contract this] show ?thesis by (simp add: a_reset_conn_ready_def fresh_msc_def)
qed

end
