(* ===== verification/Lcls.thy ===== *)
theory Lcls
  imports Gsm_Data Osmo_Fsm
begin

text \<open>
  Local call, local switch, \<^verbatim>\<open>osmo_bsc_lcls.c\<close>: every connection has a machine that correlates it with the
  other leg of the same call and, on the instruction of the MSC, switches the voice stream locally.
  The two machines of a call send events to each other and hold pointers to each other's connection.

  A connection is named by a number, its address; the list \<^verbatim>\<open>subscr_conns\<close> is an association list in the
  order of the code, and an access to a connection that is not in it, one that has been freed, is \<open>Abort\<close>,
  as a failed assertion is.  The engine of the machines is that of libosmocore, an argument; a dispatch
  inside a dispatch uses up one of a bounded number of levels, \<open>Deep\<close> when there are too many.
\<close>

section \<open>State\<close>

datatype lcls_fsm_state =
    ST_NO_LCLS | ST_NOT_YET_LS | ST_NOT_POSSIBLE_LS | ST_NO_LONGER_LS | ST_REQ_LCLS_NOT_SUPP
  | ST_LOCALLY_SWITCHED | ST_LOCALLY_SWITCHED_WAIT_BREAK | ST_LOCALLY_SWITCHED_WAIT_OTHER_BREAK

datatype lcls_config = LCLS_CFG_BOTH_WAY | LCLS_CFG_NA | LCLS_CFG_other nat

datatype lcls_control = LCLS_CSC_CONNECT | LCLS_CSC_RELEASE_LCLS | LCLS_CSC_NA | LCLS_CSC_other nat

type_synonym conn_ptr = nat

datatype lcls_event =
    LCLS_EV_UPDATE_CFG_CSC lcls_config lcls_control
  | LCLS_EV_APPLY_CFG_CSC
  | LCLS_EV_CORRELATED conn_ptr
  | LCLS_EV_OTHER_ENABLED conn_ptr
  | LCLS_EV_OTHER_BREAK conn_ptr
  | LCLS_EV_OTHER_DEAD conn_ptr

datatype bsc_lcls_mode = BSC_LCLS_MODE_DISABLED | BSC_LCLS_MODE_MGW_LOOP | BSC_LCLS_MODE_BTS_LOOP

datatype lcls_status =
    LCLS_STS_NA | LCLS_STS_NOT_YET_LS | LCLS_STS_NOT_POSSIBLE_LS | LCLS_STS_NO_LONGER_LS
  | LCLS_STS_REQ_LCLS_NOT_SUPP | LCLS_STS_LOCALLY_SWITCHED

fun lcls_st_nr :: "lcls_fsm_state \<Rightarrow> nat" where
  "lcls_st_nr ST_NO_LCLS = 0"
| "lcls_st_nr ST_NOT_YET_LS = 1"
| "lcls_st_nr ST_NOT_POSSIBLE_LS = 2"
| "lcls_st_nr ST_NO_LONGER_LS = 3"
| "lcls_st_nr ST_REQ_LCLS_NOT_SUPP = 4"
| "lcls_st_nr ST_LOCALLY_SWITCHED = 5"
| "lcls_st_nr ST_LOCALLY_SWITCHED_WAIT_BREAK = 6"
| "lcls_st_nr ST_LOCALLY_SWITCHED_WAIT_OTHER_BREAK = 7"

abbreviation (input) EV_UPDATE :: nat where "EV_UPDATE \<equiv> 0"
abbreviation (input) EV_APPLY :: nat where "EV_APPLY \<equiv> 1"
abbreviation (input) EV_CORRELATED :: nat where "EV_CORRELATED \<equiv> 2"
abbreviation (input) EV_OTHER_ENABLED :: nat where "EV_OTHER_ENABLED \<equiv> 3"
abbreviation (input) EV_OTHER_BREAK :: nat where "EV_OTHER_BREAK \<equiv> 4"
abbreviation (input) EV_OTHER_DEAD :: nat where "EV_OTHER_DEAD \<equiv> 5"

fun lcls_ev_nr :: "lcls_event \<Rightarrow> nat" where
  "lcls_ev_nr (LCLS_EV_UPDATE_CFG_CSC c k) = EV_UPDATE"
| "lcls_ev_nr LCLS_EV_APPLY_CFG_CSC = EV_APPLY"
| "lcls_ev_nr (LCLS_EV_CORRELATED d) = EV_CORRELATED"
| "lcls_ev_nr (LCLS_EV_OTHER_ENABLED d) = EV_OTHER_ENABLED"
| "lcls_ev_nr (LCLS_EV_OTHER_BREAK d) = EV_OTHER_BREAK"
| "lcls_ev_nr (LCLS_EV_OTHER_DEAD d) = EV_OTHER_DEAD"

text \<open>Addresses and ports, the lchan of a connection, and its endpoint at the media gateway with the RTP information known.\<close>

type_synonym rtp_peer = "nat \<times> u16"

record lcls_lchan =
  ll_type :: gsm_chan_t
  ll_tch_mode :: gsm48_chan_mode
  ll_bound :: rtp_peer
  ll_connect :: rtp_peer

record lcls_conn =
  lcls_fi :: "lcls_fsm_state option"
  lcls_other :: "conn_ptr option"
  conn_config :: lcls_config
  conn_control :: lcls_control
  global_call_ref :: "u8 list"
  lcls_mode :: bsc_lcls_mode
  codec_mismatch_allow :: bool
  conn_lchan :: "lcls_lchan option"
  mgw_endpoint_ci_msc :: "rtp_peer option option"
  msc_assigned_rtp :: rtp_peer

datatype lcls_effect =
    LCLS_NOTIFICATION conn_ptr lcls_status
  | LCLS_CONNECT_CTRL_ACK conn_ptr lcls_status
  | MGCP_MDCX conn_ptr rtp_peer
  | RSL_IPACC_MDCX conn_ptr rtp_peer

record lcls_net =
  subscr_conns :: "(conn_ptr \<times> lcls_conn) list"
  ln_out :: "lcls_effect list"

definition conn_at :: "lcls_net \<Rightarrow> conn_ptr \<Rightarrow> lcls_conn option" where
  "conn_at w i = map_of (subscr_conns w) i"

text \<open>Access to a connection, with a continuation.\<close>

definition with_conn :: "conn_ptr \<Rightarrow> (lcls_conn \<Rightarrow> 'a res) \<Rightarrow> lcls_net \<Rightarrow> 'a res" where
  "with_conn i f w = (case conn_at w i of None \<Rightarrow> Abort | Some c \<Rightarrow> f c)"

definition upd_conn :: "conn_ptr \<Rightarrow> (lcls_conn \<Rightarrow> lcls_conn) \<Rightarrow> lcls_net \<Rightarrow> lcls_net" where
  "upd_conn i f w = w\<lparr> subscr_conns := map (\<lambda>(j, c). (j, if j = i then f c else c)) (subscr_conns w) \<rparr>"

definition ln_emit :: "lcls_effect \<Rightarrow> lcls_net \<Rightarrow> lcls_net" where
  "ln_emit x w = w\<lparr> ln_out := ln_out w @ [x] \<rparr>"

section \<open>Tables\<close>

fun lcls_in_events :: "lcls_fsm_state \<Rightarrow> nat list" where
  "lcls_in_events ST_NO_LCLS = [EV_UPDATE, EV_APPLY]"
| "lcls_in_events ST_NOT_YET_LS = [EV_UPDATE, EV_APPLY, EV_CORRELATED, EV_OTHER_ENABLED, EV_OTHER_DEAD]"
| "lcls_in_events ST_NOT_POSSIBLE_LS = [EV_UPDATE, EV_APPLY, EV_CORRELATED]"
| "lcls_in_events ST_NO_LONGER_LS = [EV_UPDATE, EV_APPLY, EV_CORRELATED, EV_OTHER_ENABLED, EV_OTHER_DEAD]"
| "lcls_in_events ST_REQ_LCLS_NOT_SUPP = [EV_UPDATE, EV_APPLY, EV_CORRELATED, EV_OTHER_DEAD]"
| "lcls_in_events ST_LOCALLY_SWITCHED = [EV_UPDATE, EV_APPLY, EV_OTHER_BREAK, EV_OTHER_DEAD]"
| "lcls_in_events ST_LOCALLY_SWITCHED_WAIT_BREAK = [EV_UPDATE, EV_APPLY, EV_OTHER_BREAK, EV_OTHER_DEAD]"
| "lcls_in_events ST_LOCALLY_SWITCHED_WAIT_OTHER_BREAK = [EV_UPDATE, EV_OTHER_BREAK, EV_OTHER_DEAD]"

fun lcls_out_states :: "lcls_fsm_state \<Rightarrow> lcls_fsm_state list" where
  "lcls_out_states ST_NO_LCLS = [ST_NO_LCLS, ST_NOT_YET_LS, ST_NOT_POSSIBLE_LS, ST_REQ_LCLS_NOT_SUPP, ST_LOCALLY_SWITCHED]"
| "lcls_out_states ST_NOT_YET_LS = [ST_NOT_YET_LS, ST_REQ_LCLS_NOT_SUPP, ST_LOCALLY_SWITCHED]"
| "lcls_out_states ST_NOT_POSSIBLE_LS = [ST_NOT_YET_LS, ST_NOT_POSSIBLE_LS, ST_REQ_LCLS_NOT_SUPP, ST_LOCALLY_SWITCHED]"
| "lcls_out_states ST_NO_LONGER_LS = [ST_NO_LONGER_LS, ST_REQ_LCLS_NOT_SUPP, ST_LOCALLY_SWITCHED]"
| "lcls_out_states ST_REQ_LCLS_NOT_SUPP = [ST_NOT_YET_LS, ST_REQ_LCLS_NOT_SUPP, ST_LOCALLY_SWITCHED]"
| "lcls_out_states ST_LOCALLY_SWITCHED = [ST_NO_LONGER_LS, ST_NOT_POSSIBLE_LS, ST_REQ_LCLS_NOT_SUPP,
     ST_LOCALLY_SWITCHED_WAIT_BREAK, ST_LOCALLY_SWITCHED_WAIT_OTHER_BREAK, ST_LOCALLY_SWITCHED]"
| "lcls_out_states ST_LOCALLY_SWITCHED_WAIT_BREAK = [ST_NO_LONGER_LS, ST_REQ_LCLS_NOT_SUPP, ST_LOCALLY_SWITCHED,
     ST_LOCALLY_SWITCHED_WAIT_BREAK]"
| "lcls_out_states ST_LOCALLY_SWITCHED_WAIT_OTHER_BREAK = [ST_NO_LONGER_LS, ST_REQ_LCLS_NOT_SUPP, ST_LOCALLY_SWITCHED,
     ST_LOCALLY_SWITCHED_WAIT_OTHER_BREAK]"

section \<open>Utility functions\<close>

text \<open>Nested dispatches go through \<open>disp\<close>.\<close>

record lcls_env =
  le_eng :: "lcls_net fsm_engine"
  le_disp :: "conn_ptr \<Rightarrow> lcls_event \<Rightarrow> lcls_net \<Rightarrow> lcls_net res"

definition lcls_get_status :: "lcls_conn \<Rightarrow> lcls_status" where
  "lcls_get_status conn =
     (case lcls_fi conn of
        None \<Rightarrow> LCLS_STS_NA
      | Some st \<Rightarrow>
          (case st of
             ST_NO_LCLS \<Rightarrow> LCLS_STS_NA
           | ST_NOT_YET_LS \<Rightarrow> LCLS_STS_NOT_YET_LS
           | ST_NOT_POSSIBLE_LS \<Rightarrow> LCLS_STS_NOT_POSSIBLE_LS
           | ST_NO_LONGER_LS \<Rightarrow> LCLS_STS_NO_LONGER_LS
           | ST_REQ_LCLS_NOT_SUPP \<Rightarrow> LCLS_STS_REQ_LCLS_NOT_SUPP
           | _ \<Rightarrow> LCLS_STS_LOCALLY_SWITCHED))"

definition lcls_send_notify :: "conn_ptr \<Rightarrow> lcls_net \<Rightarrow> lcls_net res" where
  "lcls_send_notify i w = with_conn i (\<lambda>conn.
     if lcls_get_status conn = LCLS_STS_NA then Ok w else Ok (ln_emit (LCLS_NOTIFICATION i (lcls_get_status conn)) w)) w"

definition find_conn_with_same_gcr :: "conn_ptr \<Rightarrow> lcls_conn \<Rightarrow> lcls_net \<Rightarrow> conn_ptr option" where
  "find_conn_with_same_gcr i conn_local w =
     map_option fst (find (\<lambda>(j, c). j \<noteq> i \<and> global_call_ref c = global_call_ref conn_local) (subscr_conns w))"

definition lcls_is_supported_config :: "lcls_config \<Rightarrow> bool" where
  "lcls_is_supported_config cfg = (cfg = LCLS_CFG_BOTH_WAY)"

text \<open>In active local switching.\<close>

definition in_ls :: "lcls_conn \<Rightarrow> bool" where
  "in_ls c = (lcls_fi c \<in> {Some ST_LOCALLY_SWITCHED, Some ST_LOCALLY_SWITCHED_WAIT_BREAK, Some ST_LOCALLY_SWITCHED_WAIT_OTHER_BREAK})"

definition ENODEV :: int where "ENODEV = 19"
definition LCLS_EINVAL :: int where "LCLS_EINVAL = 22"

definition lcls_perform_correlation :: "lcls_env \<Rightarrow> conn_ptr \<Rightarrow> lcls_net \<Rightarrow> (int \<times> lcls_net) res" where
  "lcls_perform_correlation x i w = with_conn i (\<lambda>conn.
     if global_call_ref conn = [] \<or> in_ls conn then Abort
     else rbind (case lcls_other conn of
                   None \<Rightarrow> Ok w
                 | Some j \<Rightarrow> with_conn j (\<lambda>other.
                     if in_ls other then Abort
                     else Ok (upd_conn i (\<lambda>c. c\<lparr> lcls_other := None \<rparr>) (upd_conn j (\<lambda>c. c\<lparr> lcls_other := None \<rparr>) w))) w)
       (\<lambda>w. case find_conn_with_same_gcr i conn w of
              None \<Rightarrow> Ok (- ENODEV, w)
            | Some j \<Rightarrow> rbind (le_disp x j (LCLS_EV_CORRELATED i) (upd_conn i (\<lambda>c. c\<lparr> lcls_other := Some j \<rparr>) w)) (\<lambda>w. Ok (0, w)))) w"

text \<open>False is the null pointer of the code: the configuration is not supported.\<close>

definition update_lcls_cfg_csc :: "conn_ptr \<Rightarrow> lcls_config \<Rightarrow> lcls_control \<Rightarrow> lcls_net \<Rightarrow> bool \<times> lcls_net" where
  "update_lcls_cfg_csc i config control w =
     (if config \<noteq> LCLS_CFG_NA \<and> \<not> lcls_is_supported_config config then (False, w)
      else (True, upd_conn i (\<lambda>c. c\<lparr> conn_config := (if config \<noteq> LCLS_CFG_NA then config else conn_config c),
                                     conn_control := (if control \<noteq> LCLS_CSC_NA then control else conn_control c) \<rparr>) w))"

text \<open>A transition of the machine of a connection; \<open>onenter\<close> is that of the new state.\<close>

definition lcls_chg_to :: "lcls_env \<Rightarrow> conn_ptr \<Rightarrow> lcls_fsm_state \<Rightarrow> (lcls_net \<Rightarrow> lcls_net res) \<Rightarrow> lcls_net \<Rightarrow> lcls_net res" where
  "lcls_chg_to x i st onenter w = with_conn i (\<lambda>conn.
     case lcls_fi conn of
       None \<Rightarrow> Abort
     | Some s \<Rightarrow> fsm_state_chg (le_eng x) (S_mask (map lcls_st_nr (lcls_out_states s))) (lcls_st_nr st)
         (\<lambda>w. onenter (upd_conn i (\<lambda>c. c\<lparr> lcls_fi := Some st \<rparr>) w)) w) w"

definition lcls_chg :: "lcls_env \<Rightarrow> conn_ptr \<Rightarrow> lcls_fsm_state \<Rightarrow> lcls_net \<Rightarrow> lcls_net res" where
  "lcls_chg x i st = lcls_chg_to x i st Ok"

definition lcls_handle_cfg_update :: "lcls_env \<Rightarrow> conn_ptr \<Rightarrow> lcls_config \<Rightarrow> lcls_control \<Rightarrow> lcls_net \<Rightarrow> (int \<times> lcls_net) res" where
  "lcls_handle_cfg_update x i config control w =
     (case update_lcls_cfg_csc i config control w of
        (False, w) \<Rightarrow> rbind (lcls_chg x i ST_REQ_LCLS_NOT_SUPP w) (\<lambda>w. Ok (- LCLS_EINVAL, w))
      | (True, w) \<Rightarrow> Ok (0, w))"

text \<open>The code reads through the pointer to the other connection before it checks it.\<close>

definition lcls_rsl :: "conn_ptr \<Rightarrow> bool \<Rightarrow> lcls_net \<Rightarrow> lcls_net res" where
  "lcls_rsl i enable w = with_conn i (\<lambda>conn.
     case conn_lchan conn of
       None \<Rightarrow> Abort
     | Some lchan \<Rightarrow>
         if enable then
           (case lcls_other conn of
              None \<Rightarrow> Abort
            | Some j \<Rightarrow> with_conn j (\<lambda>other. case conn_lchan other of
                None \<Rightarrow> Abort | Some l \<Rightarrow> Ok (ln_emit (RSL_IPACC_MDCX i (ll_bound l)) w)) w)
         else if lcls_other conn = None then Ok w
         else Ok (ln_emit (RSL_IPACC_MDCX i (ll_connect lchan)) w)) w"

definition lcls_check_toggle_allowed :: "conn_ptr \<Rightarrow> lcls_net \<Rightarrow> bool res" where
  "lcls_check_toggle_allowed i w = with_conn i (\<lambda>conn.
     rbind (case lcls_other conn of None \<Rightarrow> Ok False | Some j \<Rightarrow> with_conn j (\<lambda>other. Ok (lcls_mode conn \<noteq> lcls_mode other)) w)
       (\<lambda>mismatch. if mismatch then Ok False
                   else if lcls_mode conn = BSC_LCLS_MODE_MGW_LOOP \<and> mgw_endpoint_ci_msc conn = None then Ok False
                   else Ok True)) w"

text \<open>The codec of the request is chosen from the lchan, which is dereferenced.\<close>

definition lcls_mdcx :: "conn_ptr \<Rightarrow> rtp_peer \<Rightarrow> lcls_net \<Rightarrow> lcls_net res" where
  "lcls_mdcx i peer w = with_conn i (\<lambda>conn. if conn_lchan conn = None then Abort else Ok (ln_emit (MGCP_MDCX i peer) w)) w"

definition lcls_break_local_switching :: "conn_ptr \<Rightarrow> lcls_net \<Rightarrow> lcls_net res" where
  "lcls_break_local_switching i w =
     rbind (lcls_check_toggle_allowed i w) (\<lambda>allowed.
       if \<not> allowed then Ok w
       else with_conn i (\<lambda>conn. case lcls_mode conn of
         BSC_LCLS_MODE_MGW_LOOP \<Rightarrow> lcls_mdcx i (msc_assigned_rtp conn) w
       | BSC_LCLS_MODE_BTS_LOOP \<Rightarrow> lcls_rsl i False w
       | BSC_LCLS_MODE_DISABLED \<Rightarrow> Ok w) w)"

definition lcls_enable_possible :: "conn_ptr \<Rightarrow> lcls_net \<Rightarrow> bool res" where
  "lcls_enable_possible i w = with_conn i (\<lambda>conn.
     case lcls_other conn of
       None \<Rightarrow> Abort
     | Some j \<Rightarrow> with_conn j (\<lambda>other.
         if \<not> lcls_is_supported_config (conn_config conn) then Ok False
         else if \<not> lcls_is_supported_config (conn_config other) then Ok False
         else if conn_control conn \<noteq> LCLS_CSC_CONNECT then Ok False
         else if conn_control other \<noteq> LCLS_CSC_CONNECT then Ok False
         else case (conn_lchan conn, conn_lchan other) of
           (Some l, Some m) \<Rightarrow>
             if ll_type l \<noteq> ll_type m \<and> \<not> codec_mismatch_allow conn then Ok False
             else if ll_tch_mode l \<noteq> ll_tch_mode m \<and> \<not> codec_mismatch_allow conn then Ok False
             else Ok True
         | _ \<Rightarrow> Abort) w) w"

section \<open>State callback functions\<close>

definition lcls_locally_switched_onenter :: "conn_ptr \<Rightarrow> lcls_net \<Rightarrow> lcls_net res" where
  "lcls_locally_switched_onenter i w = with_conn i (\<lambda>conn.
     case lcls_other conn of
       None \<Rightarrow> Abort
     | Some j \<Rightarrow> rbind (lcls_check_toggle_allowed i w) (\<lambda>allowed.
         if \<not> allowed then Ok w
         else with_conn j (\<lambda>other. case mgw_endpoint_ci_msc other of
             None \<Rightarrow> Ok w
           | Some None \<Rightarrow> Ok w
           | Some (Some other_mgw_info) \<Rightarrow>
               (case lcls_mode conn of
                  BSC_LCLS_MODE_MGW_LOOP \<Rightarrow> lcls_mdcx i other_mgw_info w
                | BSC_LCLS_MODE_BTS_LOOP \<Rightarrow> lcls_rsl i True w
                | BSC_LCLS_MODE_DISABLED \<Rightarrow> Ok w)) w)) w"

definition lcls_chg_switched :: "lcls_env \<Rightarrow> conn_ptr \<Rightarrow> lcls_net \<Rightarrow> lcls_net res" where
  "lcls_chg_switched x i = lcls_chg_to x i ST_LOCALLY_SWITCHED (lcls_locally_switched_onenter i)"

text \<open>An event to the machine of the other connection, which is dereferenced.\<close>

definition lcls_tell_other :: "lcls_env \<Rightarrow> conn_ptr \<Rightarrow> lcls_event \<Rightarrow> lcls_net \<Rightarrow> lcls_net res" where
  "lcls_tell_other x i ev w = with_conn i (\<lambda>conn. case lcls_other conn of None \<Rightarrow> Abort | Some j \<Rightarrow> le_disp x j ev w) w"

definition lcls_set_other :: "conn_ptr \<Rightarrow> conn_ptr option \<Rightarrow> lcls_net \<Rightarrow> lcls_net" where
  "lcls_set_other i p = upd_conn i (\<lambda>c. c\<lparr> lcls_other := p \<rparr>)"

text \<open>The assertion that the pointer to the other connection is as given.\<close>

definition assert_other :: "(conn_ptr option \<Rightarrow> bool) \<Rightarrow> conn_ptr \<Rightarrow> lcls_net \<Rightarrow> lcls_net res" where
  "assert_other P i w = with_conn i (\<lambda>conn. osmo_assert (P (lcls_other conn)) w) w"

text \<open>Enable local switching and tell the other side, or do \<open>otherwise\<close>.\<close>

definition lcls_try_enable :: "lcls_env \<Rightarrow> conn_ptr \<Rightarrow> (lcls_net \<Rightarrow> lcls_net res) \<Rightarrow> lcls_net \<Rightarrow> lcls_net res" where
  "lcls_try_enable x i otherwise w = rbind (lcls_enable_possible i w) (\<lambda>possible.
     if possible then rbind (lcls_chg_switched x i w) (lcls_tell_other x i (LCLS_EV_OTHER_ENABLED i)) else otherwise w)"

text \<open>The other side has enabled local switching: follow, or ask it to break.\<close>

definition lcls_follow :: "lcls_env \<Rightarrow> conn_ptr \<Rightarrow> lcls_net \<Rightarrow> lcls_net res" where
  "lcls_follow x i w = rbind (lcls_enable_possible i w) (\<lambda>possible.
     if possible then rbind (lcls_chg_switched x i w) (lcls_send_notify i) else lcls_tell_other x i (LCLS_EV_OTHER_BREAK i) w)"

text \<open>The other side is dead, in the states that then give up.\<close>

definition lcls_lost_other :: "lcls_env \<Rightarrow> conn_ptr \<Rightarrow> conn_ptr \<Rightarrow> lcls_net \<Rightarrow> lcls_net res" where
  "lcls_lost_other x i d w = rbind (assert_other (\<lambda>p. p = Some d) i w) (\<lambda>w.
     rbind (lcls_chg x i ST_NOT_POSSIBLE_LS (lcls_set_other i None w)) (lcls_send_notify i))"

text \<open>Update of the configuration; \<open>ok\<close> and \<open>err\<close> are what follows.\<close>

definition lcls_do_update :: "lcls_env \<Rightarrow> conn_ptr \<Rightarrow> lcls_config \<Rightarrow> lcls_control \<Rightarrow> (lcls_net \<Rightarrow> lcls_net res) \<Rightarrow>
    (lcls_net \<Rightarrow> lcls_net res) \<Rightarrow> lcls_net \<Rightarrow> lcls_net res" where
  "lcls_do_update x i config control ok err w =
     rbind (lcls_handle_cfg_update x i config control w) (\<lambda>(rc, w). if rc \<noteq> 0 then err w else ok w)"

definition lcls_no_lcls_fn :: "lcls_env \<Rightarrow> conn_ptr \<Rightarrow> lcls_event \<Rightarrow> lcls_net \<Rightarrow> lcls_net res" where
  "lcls_no_lcls_fn x i ev w = rbind (assert_other (\<lambda>p. p = None) i w) (\<lambda>w. with_conn i (\<lambda>conn.
     if lcls_mode conn = BSC_LCLS_MODE_DISABLED then Ok w
     else if global_call_ref conn = [] then Ok w
     else case ev of
       LCLS_EV_UPDATE_CFG_CSC config control \<Rightarrow> lcls_do_update x i config control Ok Ok w
     | LCLS_EV_APPLY_CFG_CSC \<Rightarrow>
         if conn_config conn = LCLS_CFG_NA then Ok w
         else rbind (lcls_perform_correlation x i w) (\<lambda>(rc, w).
           if rc \<noteq> 0 then lcls_chg x i ST_NOT_POSSIBLE_LS w
           else rbind (assert_other (\<lambda>p. p \<noteq> None) i w) (lcls_try_enable x i (lcls_chg x i ST_NOT_YET_LS)))
     | _ \<Rightarrow> Abort) w)"

definition lcls_not_yet_ls_fn :: "lcls_env \<Rightarrow> conn_ptr \<Rightarrow> lcls_event \<Rightarrow> lcls_net \<Rightarrow> lcls_net res" where
  "lcls_not_yet_ls_fn x i ev w = rbind (assert_other (\<lambda>p. p \<noteq> None) i w) (\<lambda>w.
     case ev of
       LCLS_EV_UPDATE_CFG_CSC config control \<Rightarrow> lcls_do_update x i config control Ok Ok w
     | LCLS_EV_APPLY_CFG_CSC \<Rightarrow> lcls_try_enable x i Ok w
     | LCLS_EV_OTHER_ENABLED d \<Rightarrow> rbind (assert_other (\<lambda>p. p = Some d) i w) (lcls_follow x i)
     | LCLS_EV_CORRELATED d \<Rightarrow> Ok (lcls_set_other i (Some d) w)
     | LCLS_EV_OTHER_DEAD d \<Rightarrow> lcls_lost_other x i d w
     | _ \<Rightarrow> Abort)"

definition lcls_not_possible_ls_fn :: "lcls_env \<Rightarrow> conn_ptr \<Rightarrow> lcls_event \<Rightarrow> lcls_net \<Rightarrow> lcls_net res" where
  "lcls_not_possible_ls_fn x i ev w = rbind (assert_other (\<lambda>p. p = None) i w) (\<lambda>w.
     case ev of
       LCLS_EV_UPDATE_CFG_CSC config control \<Rightarrow> lcls_do_update x i config control Ok Ok w
     | LCLS_EV_APPLY_CFG_CSC \<Rightarrow> rbind (lcls_perform_correlation x i w) (\<lambda>(rc, w).
         if rc \<noteq> 0 then Ok w
         else rbind (assert_other (\<lambda>p. p \<noteq> None) i w) (lcls_try_enable x i (lcls_chg x i ST_NOT_YET_LS)))
     | LCLS_EV_CORRELATED d \<Rightarrow> rbind (lcls_chg x i ST_NOT_YET_LS (lcls_set_other i (Some d) w)) (lcls_send_notify i)
     | LCLS_EV_OTHER_DEAD d \<Rightarrow> rbind (assert_other (\<lambda>p. p = Some d) i w) (\<lambda>w. Ok (lcls_set_other i None w))
     | _ \<Rightarrow> Abort)"

definition lcls_no_longer_ls_fn :: "lcls_env \<Rightarrow> conn_ptr \<Rightarrow> lcls_event \<Rightarrow> lcls_net \<Rightarrow> lcls_net res" where
  "lcls_no_longer_ls_fn x i ev w = rbind (assert_other (\<lambda>p. p \<noteq> None) i w) (\<lambda>w.
     case ev of
       LCLS_EV_UPDATE_CFG_CSC config control \<Rightarrow> lcls_do_update x i config control (lcls_try_enable x i Ok) Ok w
     | LCLS_EV_OTHER_ENABLED d \<Rightarrow> rbind (assert_other (\<lambda>p. p = Some d) i w) (lcls_follow x i)
     | LCLS_EV_CORRELATED d \<Rightarrow> Ok (lcls_set_other i (Some d) w)
     | LCLS_EV_OTHER_DEAD d \<Rightarrow> lcls_lost_other x i d w
     | _ \<Rightarrow> Abort)"

definition lcls_req_lcls_not_supp_fn :: "lcls_env \<Rightarrow> conn_ptr \<Rightarrow> lcls_event \<Rightarrow> lcls_net \<Rightarrow> lcls_net res" where
  "lcls_req_lcls_not_supp_fn x i ev w =
     (case ev of
       LCLS_EV_UPDATE_CFG_CSC config control \<Rightarrow> lcls_do_update x i config control Ok Ok w
     | LCLS_EV_APPLY_CFG_CSC \<Rightarrow> rbind (lcls_perform_correlation x i w) (\<lambda>(rc, w).
         if rc \<noteq> 0 then lcls_chg x i ST_NOT_POSSIBLE_LS w
         else rbind (assert_other (\<lambda>p. p \<noteq> None) i w) (\<lambda>w. with_conn i (\<lambda>conn.
           if \<not> lcls_is_supported_config (conn_config conn) then Ok w
           else rbind (lcls_enable_possible i w) (\<lambda>possible.
             if possible then lcls_chg_switched x i w else lcls_chg x i ST_NOT_YET_LS w)) w))
     | LCLS_EV_CORRELATED d \<Rightarrow> Ok (lcls_set_other i (Some d) w)
     | LCLS_EV_OTHER_DEAD d \<Rightarrow> rbind (assert_other (\<lambda>p. p = Some d) i w) (\<lambda>w. Ok (lcls_set_other i None w))
     | _ \<Rightarrow> Abort)"

definition lcls_locally_switched_fn :: "lcls_env \<Rightarrow> conn_ptr \<Rightarrow> lcls_event \<Rightarrow> lcls_net \<Rightarrow> lcls_net res" where
  "lcls_locally_switched_fn x i ev w = rbind (assert_other (\<lambda>p. p \<noteq> None) i w) (\<lambda>w.
     case ev of
       LCLS_EV_UPDATE_CFG_CSC config control \<Rightarrow> lcls_do_update x i config control Ok (lcls_break_local_switching i) w
     | LCLS_EV_APPLY_CFG_CSC \<Rightarrow> with_conn i (\<lambda>conn.
         if conn_control conn = LCLS_CSC_RELEASE_LCLS
         then rbind (lcls_chg x i ST_LOCALLY_SWITCHED_WAIT_OTHER_BREAK w) (lcls_tell_other x i (LCLS_EV_OTHER_BREAK i))
         else Ok w) w
     | LCLS_EV_OTHER_BREAK d \<Rightarrow> rbind (assert_other (\<lambda>p. p = Some d) i w) (lcls_chg x i ST_LOCALLY_SWITCHED_WAIT_BREAK)
     | LCLS_EV_OTHER_DEAD d \<Rightarrow> lcls_lost_other x i d w
     | _ \<Rightarrow> Abort)"

definition lcls_locally_switched_wait_break_fn :: "lcls_env \<Rightarrow> conn_ptr \<Rightarrow> lcls_event \<Rightarrow> lcls_net \<Rightarrow> lcls_net res" where
  "lcls_locally_switched_wait_break_fn x i ev w = rbind (assert_other (\<lambda>p. p \<noteq> None) i w) (\<lambda>w.
     case ev of
       LCLS_EV_UPDATE_CFG_CSC config control \<Rightarrow> lcls_do_update x i config control Ok (lcls_break_local_switching i) w
     | LCLS_EV_APPLY_CFG_CSC \<Rightarrow> with_conn i (\<lambda>conn.
         if conn_control conn = LCLS_CSC_RELEASE_LCLS
         then rbind (lcls_break_local_switching i w) (\<lambda>w.
           rbind (lcls_chg x i ST_NO_LONGER_LS w) (lcls_tell_other x i (LCLS_EV_OTHER_BREAK i)))
         else Ok w) w
     | LCLS_EV_OTHER_BREAK d \<Rightarrow> Ok w
     | LCLS_EV_OTHER_DEAD d \<Rightarrow> rbind (assert_other (\<lambda>p. p = Some d) i w) (\<lambda>w. Ok (lcls_set_other i None w))
     | _ \<Rightarrow> lcls_locally_switched_fn x i ev w)"

definition lcls_locally_switched_wait_other_break_fn ::
    "lcls_env \<Rightarrow> conn_ptr \<Rightarrow> lcls_event \<Rightarrow> lcls_net \<Rightarrow> lcls_net res" where
  "lcls_locally_switched_wait_other_break_fn x i ev w = rbind (assert_other (\<lambda>p. p \<noteq> None) i w) (\<lambda>w.
     let broken = (\<lambda>d. rbind (assert_other (\<lambda>p. p = Some d) i w) (\<lambda>w.
           rbind (lcls_break_local_switching i w) (\<lambda>w.
             rbind (lcls_chg x i ST_NO_LONGER_LS w) (lcls_send_notify i))))
     in case ev of
       LCLS_EV_UPDATE_CFG_CSC config control \<Rightarrow> lcls_do_update x i config control Ok (lcls_break_local_switching i) w
     | LCLS_EV_OTHER_BREAK d \<Rightarrow> broken d
     | LCLS_EV_OTHER_DEAD d \<Rightarrow> broken d
     | _ \<Rightarrow> lcls_locally_switched_fn x i ev w)"

fun lcls_action :: "lcls_fsm_state \<Rightarrow> lcls_env \<Rightarrow> conn_ptr \<Rightarrow> lcls_event \<Rightarrow> lcls_net \<Rightarrow> lcls_net res" where
  "lcls_action ST_NO_LCLS = lcls_no_lcls_fn"
| "lcls_action ST_NOT_YET_LS = lcls_not_yet_ls_fn"
| "lcls_action ST_NOT_POSSIBLE_LS = lcls_not_possible_ls_fn"
| "lcls_action ST_NO_LONGER_LS = lcls_no_longer_ls_fn"
| "lcls_action ST_REQ_LCLS_NOT_SUPP = lcls_req_lcls_not_supp_fn"
| "lcls_action ST_LOCALLY_SWITCHED = lcls_locally_switched_fn"
| "lcls_action ST_LOCALLY_SWITCHED_WAIT_BREAK = lcls_locally_switched_wait_break_fn"
| "lcls_action ST_LOCALLY_SWITCHED_WAIT_OTHER_BREAK = lcls_locally_switched_wait_other_break_fn"

text \<open>
  The dispatch of an event to the machine of a connection.  The pointer to the machine is null when the
  machine has terminated, and libosmocore then refuses the event.
\<close>

definition lcls_dispatch :: "lcls_env \<Rightarrow> conn_ptr \<Rightarrow> lcls_event \<Rightarrow> lcls_net \<Rightarrow> lcls_net res" where
  "lcls_dispatch x i ev w = with_conn i (\<lambda>conn.
     case lcls_fi conn of
       None \<Rightarrow> Ok w
     | Some st \<Rightarrow> rbind (fsm_dispatch (le_eng x) 0 (S_mask (lcls_in_events st)) (lcls_ev_nr ev) Ok (lcls_action st x i ev) w)
                    (\<lambda>(rc, w). Ok w)) w"

primrec lcls_env_of :: "lcls_net fsm_engine \<Rightarrow> nat \<Rightarrow> lcls_env" where
  "lcls_env_of e 0 = \<lparr> le_eng = e, le_disp = (\<lambda>i ev w. Deep) \<rparr>"
| "lcls_env_of e (Suc n) = \<lparr> le_eng = e, le_disp = lcls_dispatch (lcls_env_of e n) \<rparr>"

text \<open>At most \<open>LCLS_NEST\<close> dispatches are nested in the one that comes from outside.\<close>

definition LCLS_NEST :: nat where "LCLS_NEST = 2"

definition lcls_osmo_dispatch :: "lcls_net fsm_engine \<Rightarrow> conn_ptr \<Rightarrow> lcls_event \<Rightarrow> lcls_net \<Rightarrow> lcls_net res" where
  "lcls_osmo_dispatch e = lcls_dispatch (lcls_env_of e LCLS_NEST)"

section \<open>Operations of the connection\<close>

definition lcls_update_config :: "lcls_net fsm_engine \<Rightarrow> conn_ptr \<Rightarrow> lcls_config option \<Rightarrow> lcls_control option \<Rightarrow>
    lcls_net \<Rightarrow> lcls_net res" where
  "lcls_update_config e i config control w =
     (if config = None \<and> control = None then Ok w
      else lcls_osmo_dispatch e i (LCLS_EV_UPDATE_CFG_CSC (case config of None \<Rightarrow> LCLS_CFG_NA | Some c \<Rightarrow> c)
                                     (case control of None \<Rightarrow> LCLS_CSC_NA | Some c \<Rightarrow> c)) w)"

definition lcls_apply_config :: "lcls_net fsm_engine \<Rightarrow> conn_ptr \<Rightarrow> lcls_net \<Rightarrow> lcls_net res" where
  "lcls_apply_config e i = lcls_osmo_dispatch e i LCLS_EV_APPLY_CFG_CSC"

definition lcls_fsm_cleanup :: "lcls_net fsm_engine \<Rightarrow> conn_ptr \<Rightarrow> lcls_net \<Rightarrow> lcls_net res" where
  "lcls_fsm_cleanup e i w = with_conn i (\<lambda>conn.
     case lcls_other conn of
       None \<Rightarrow> Ok w
     | Some j \<Rightarrow> rbind (lcls_osmo_dispatch e j (LCLS_EV_OTHER_DEAD i) w) (\<lambda>w. Ok (lcls_set_other i None w))) w"

definition gscon_pre_term :: "lcls_net fsm_engine \<Rightarrow> conn_ptr \<Rightarrow> lcls_net \<Rightarrow> lcls_net res" where
  "gscon_pre_term e i w = with_conn i (\<lambda>conn.
     if lcls_fi conn = None then Ok w
     else rbind (fsm_term e (lcls_fsm_cleanup e i) Ok w) (\<lambda>w. Ok (upd_conn i (\<lambda>c. c\<lparr> lcls_fi := None \<rparr>) w))) w"

definition gscon_cleanup :: "conn_ptr \<Rightarrow> lcls_net \<Rightarrow> lcls_net res" where
  "gscon_cleanup i w = with_conn i (\<lambda>conn. Ok (w\<lparr> subscr_conns := filter (\<lambda>p. fst p \<noteq> i) (subscr_conns w) \<rparr>)) w"

definition gscon_term :: "lcls_net fsm_engine \<Rightarrow> conn_ptr \<Rightarrow> lcls_net \<Rightarrow> lcls_net res" where
  "gscon_term e i w = rbind (gscon_pre_term e i w) (gscon_cleanup i)"

text \<open>A new connection, with the configuration of the MSC it belongs to.\<close>

definition bsc_subscr_con_allocate :: "conn_ptr \<Rightarrow> bsc_lcls_mode \<Rightarrow> bool \<Rightarrow> lcls_net \<Rightarrow> lcls_net" where
  "bsc_subscr_con_allocate i mode allow w =
     w\<lparr> subscr_conns := subscr_conns w @ [(i,
        \<lparr> lcls_fi = Some ST_NO_LCLS, lcls_other = None, conn_config = LCLS_CFG_NA, conn_control = LCLS_CSC_NA,
          global_call_ref = [], lcls_mode = mode, codec_mismatch_allow = allow, conn_lchan = None,
          mgw_endpoint_ci_msc = None, msc_assigned_rtp = (0, 0) \<rparr>)] \<rparr>"

text \<open>
  The LCLS part of the assignment request: the global call reference is at most 15 octets and at least
  13; an information element that is absent has length 0.
\<close>

definition bssmap_handle_ass_req_lcls :: "lcls_net fsm_engine \<Rightarrow> conn_ptr \<Rightarrow> u8 list \<Rightarrow> lcls_config option \<Rightarrow>
    lcls_control option \<Rightarrow> lcls_net \<Rightarrow> lcls_net res" where
  "bssmap_handle_ass_req_lcls e i gcr config control w = with_conn i (\<lambda>conn.
     lcls_update_config e i config control
       (if length gcr > 15 then w
        else if length gcr \<ge> 13 then upd_conn i (\<lambda>c. c\<lparr> global_call_ref := gcr \<rparr>) w
        else w)) w"

definition bssmap_handle_lcls_connect_ctrl :: "lcls_net fsm_engine \<Rightarrow> conn_ptr \<Rightarrow> lcls_config option \<Rightarrow>
    lcls_control option \<Rightarrow> lcls_net \<Rightarrow> lcls_net res" where
  "bssmap_handle_lcls_connect_ctrl e i config control w = with_conn i (\<lambda>conn.
     if global_call_ref conn = [] then Ok w
     else rbind (lcls_update_config e i config control w) (\<lambda>w.
       rbind (lcls_apply_config e i w) (\<lambda>w.
         with_conn i (\<lambda>conn. Ok (ln_emit (LCLS_CONNECT_CTRL_ACK i (lcls_get_status conn)) w)) w))) w"

end
