(* ===== verification/Lcls_Props.thy ===== *)
theory Lcls_Props
  imports Lcls
begin

text \<open>
  Properties of local switching: the bound on nested dispatches is never reached, what holds of a
  connection in local switching, how a call is switched and switched back, and when the
  assertions of the machine fail.
\<close>

section \<open>The engine and the list of connections\<close>

lemma lcls_st_nr_inj [simp]: "lcls_st_nr a = lcls_st_nr b \<longleftrightarrow> a = b"
  by (cases a; cases b) simp_all

lemma lcls_st_nr_lt [simp]: "lcls_st_nr a < 32"
  by (cases a) simp_all

lemma lcls_ev_nr_lt [simp]: "lcls_ev_nr a < 32"
  by (cases a) simp_all

lemma lcls_chg_to_eq:
  assumes "fsm_contract (le_eng x)"
  shows "lcls_chg_to x i st f w = with_conn i (\<lambda>c. case lcls_fi c of None \<Rightarrow> Abort
     | Some s \<Rightarrow> if st \<in> set (lcls_out_states s) then f (upd_conn i (\<lambda>c. c\<lparr> lcls_fi := Some st \<rparr>) w) else Ok w) w"
  using assms
  by (auto simp: lcls_chg_to_def with_conn_def fsm_contract_state_chg bit_S_mask split: option.splits)

lemma lcls_dispatch_eq:
  assumes "fsm_contract (le_eng x)"
  shows "lcls_dispatch x i ev w = with_conn i (\<lambda>c. case lcls_fi c of None \<Rightarrow> Ok w
     | Some s \<Rightarrow> if lcls_ev_nr ev \<in> set (lcls_in_events s) then lcls_action s x i ev w else Ok w) w"
proof -
  have "rbind (rbind m (\<lambda>s. Ok (0, s))) (\<lambda>(rc, s). Ok s) = m" for m :: "lcls_net res"
    by (cases m) simp_all
  then show ?thesis
    using assms by (auto simp: lcls_dispatch_def with_conn_def fsm_contract_dispatch bit_S_mask split: option.splits)
qed

lemma le_eng_env_of [simp]: "le_eng (lcls_env_of e n) = e"
  by (cases n) simp_all

lemma conn_at_upd_conn [simp]:
  "conn_at (upd_conn i f w) j = (if j = i then map_option f (conn_at w j) else conn_at w j)"
proof -
  have "map_of (map (\<lambda>(j, c). (j, if j = i then f c else c)) xs) j =
      (if j = i then map_option f (map_of xs j) else map_of xs j)" for xs
    by (induction xs) auto
  then show ?thesis by (simp add: conn_at_def upd_conn_def)
qed

lemma upd_conn_twice [simp]: "upd_conn i f (upd_conn i g w) = upd_conn i (\<lambda>c. f (g c)) w"
  by (auto simp: upd_conn_def comp_def split_def)

lemma conn_at_ln_emit [simp]: "conn_at (ln_emit x w) i = conn_at w i"
  by (simp add: conn_at_def ln_emit_def)

lemma conn_at_set_other [simp]:
  "conn_at (lcls_set_other i p w) j =
     (if j = i then map_option (\<lambda>c. c\<lparr> lcls_other := p \<rparr>) (conn_at w j) else conn_at w j)"
  by (simp add: lcls_set_other_def)

lemma conn_at_remove [simp]:
  "conn_at (w\<lparr> subscr_conns := filter (\<lambda>p. fst p \<noteq> i) (subscr_conns w) \<rparr>) j = (if j = i then None else conn_at w j)"
proof -
  have "map_of (filter (\<lambda>p. fst p \<noteq> i) xs) j = (if j = i then None else map_of xs j)" for xs :: "(conn_ptr \<times> lcls_conn) list"
    by (induction xs) auto
  then show ?thesis by (simp add: conn_at_def)
qed

lemma ln_out_simps [simp]:
  "ln_out (upd_conn i f w) = ln_out w" "ln_out (lcls_set_other i p w) = ln_out w" "ln_out (ln_emit x w) = ln_out w @ [x]"
  by (simp_all add: upd_conn_def lcls_set_other_def ln_emit_def)

section \<open>Examples\<close>

text \<open>A leg of a call that may be switched in the media gateway: its endpoint has the address \<open>p\<close>.\<close>

definition ready_leg :: "lcls_conn \<Rightarrow> rtp_peer \<Rightarrow> gsm_chan_t \<Rightarrow> gsm48_chan_mode \<Rightarrow> bool" where
  "ready_leg c p t m \<longleftrightarrow> global_call_ref c \<noteq> [] \<and> conn_config c = LCLS_CFG_BOTH_WAY \<and> conn_control c = LCLS_CSC_CONNECT \<and>
     lcls_mode c = BSC_LCLS_MODE_MGW_LOOP \<and> mgw_endpoint_ci_msc c = Some (Some p) \<and>
     (\<exists>l. conn_lchan c = Some l \<and> ll_type l = t \<and> ll_tch_mode l = m)"

definition example_leg :: "lcls_fsm_state \<Rightarrow> conn_ptr option \<Rightarrow> rtp_peer \<Rightarrow> lcls_conn" where
  "example_leg st other p = \<lparr> lcls_fi = Some st, lcls_other = other, conn_config = LCLS_CFG_BOTH_WAY, conn_control = LCLS_CSC_CONNECT,
     global_call_ref = [1], lcls_mode = BSC_LCLS_MODE_MGW_LOOP, codec_mismatch_allow = False,
     conn_lchan = Some \<lparr> ll_type = GSM_LCHAN_TCH_F, ll_tch_mode = GSM48_CMODE_SPEECH_V1, ll_bound = (1, 1), ll_connect = (2, 2) \<rparr>,
     mgw_endpoint_ci_msc = Some (Some p), msc_assigned_rtp = (0, 4000) \<rparr>"

definition example_net :: "lcls_conn \<Rightarrow> lcls_conn \<Rightarrow> lcls_net" where
  "example_net a b = \<lparr> subscr_conns = [(1, a), (2, b)], ln_out = [] \<rparr>"

lemma example_net_at [simp]: "conn_at (example_net a b) 1 = Some a" "conn_at (example_net a b) 2 = Some b"
  "conn_at (example_net a b) (Suc 0) = Some a" "conn_at (example_net a b) (Suc (Suc 0)) = Some b"
  by (simp_all add: example_net_def conn_at_def)

lemma example_leg_ready: "ready_leg (example_leg st other p) p GSM_LCHAN_TCH_F GSM48_CMODE_SPEECH_V1"
  by (simp add: ready_leg_def example_leg_def)

section \<open>Nested dispatches\<close>

text \<open>How deep the handling of an event can nest further dispatches.\<close>

fun ev_rank :: "lcls_event \<Rightarrow> nat" where
  "ev_rank (LCLS_EV_UPDATE_CFG_CSC c k) = 2"
| "ev_rank LCLS_EV_APPLY_CFG_CSC = 2"
| "ev_rank (LCLS_EV_OTHER_ENABLED d) = 1"
| "ev_rank (LCLS_EV_CORRELATED d) = 0"
| "ev_rank (LCLS_EV_OTHER_BREAK d) = 0"
| "ev_rank (LCLS_EV_OTHER_DEAD d) = 0"

lemma not_Deep_simps:
  "with_conn i f w = Deep \<longleftrightarrow> (\<exists>c. conn_at w i = Some c \<and> f c = Deep)"
  "assert_other P i w \<noteq> Deep" "lcls_mdcx i p w \<noteq> Deep" "lcls_rsl i en w \<noteq> Deep"
  "lcls_check_toggle_allowed i w \<noteq> Deep" "lcls_send_notify i w \<noteq> Deep" "lcls_enable_possible i w \<noteq> Deep"
  by (auto simp: with_conn_def assert_other_def osmo_assert_def lcls_mdcx_def lcls_rsl_def lcls_check_toggle_allowed_def
      lcls_send_notify_def lcls_enable_possible_def split: option.splits if_splits)

lemma break_not_Deep: "lcls_break_local_switching i w \<noteq> Deep"
  by (auto simp: lcls_break_local_switching_def not_Deep_simps split: if_splits bsc_lcls_mode.splits)

lemma onenter_not_Deep: "lcls_locally_switched_onenter i w \<noteq> Deep"
  by (auto simp: lcls_locally_switched_onenter_def not_Deep_simps split: if_splits bsc_lcls_mode.splits option.splits)

lemma chg_not_Deep:
  assumes "fsm_contract (le_eng x)"
  shows "lcls_chg x i st w \<noteq> Deep" "lcls_chg_switched x i w \<noteq> Deep"
  using assms onenter_not_Deep
  by (auto simp: lcls_chg_def lcls_chg_switched_def lcls_chg_to_eq not_Deep_simps split: option.splits if_splits)

lemma update_not_Deep:
  assumes "fsm_contract (le_eng x)" "\<And>w. ok w \<noteq> Deep" "\<And>w. err w \<noteq> Deep"
  shows "lcls_do_update x i config control ok err w \<noteq> Deep"
  using assms
  by (auto simp: lcls_do_update_def lcls_handle_cfg_update_def chg_not_Deep split: prod.splits bool.splits if_splits)

lemma tell_other_not_Deep:
  "(\<And>j w. le_disp x j ev w \<noteq> Deep) \<Longrightarrow> lcls_tell_other x i ev w \<noteq> Deep"
  by (auto simp: lcls_tell_other_def not_Deep_simps split: option.splits)

lemma correlation_not_Deep:
  "(\<And>j w. le_disp x j (LCLS_EV_CORRELATED i) w \<noteq> Deep) \<Longrightarrow> lcls_perform_correlation x i w \<noteq> Deep"
  by (auto simp: lcls_perform_correlation_def not_Deep_simps split: option.splits if_splits)

lemma enable_not_Deep:
  assumes "fsm_contract (le_eng x)" "\<And>j w. le_disp x j (LCLS_EV_OTHER_ENABLED i) w \<noteq> Deep" "\<And>w. f w \<noteq> Deep"
  shows "lcls_try_enable x i f w \<noteq> Deep"
  using assms by (auto simp: lcls_try_enable_def not_Deep_simps chg_not_Deep tell_other_not_Deep split: if_splits)

lemma follow_not_Deep:
  assumes "fsm_contract (le_eng x)" "\<And>j w. le_disp x j (LCLS_EV_OTHER_BREAK i) w \<noteq> Deep"
  shows "lcls_follow x i w \<noteq> Deep"
  using assms by (auto simp: lcls_follow_def not_Deep_simps chg_not_Deep tell_other_not_Deep split: if_splits)

lemma lost_other_not_Deep: "fsm_contract (le_eng x) \<Longrightarrow> lcls_lost_other x i d w \<noteq> Deep"
  by (auto simp: lcls_lost_other_def not_Deep_simps chg_not_Deep)

lemmas lcls_fn_defs = lcls_no_lcls_fn_def lcls_not_yet_ls_fn_def lcls_not_possible_ls_fn_def lcls_no_longer_ls_fn_def
  lcls_req_lcls_not_supp_fn_def lcls_locally_switched_fn_def lcls_locally_switched_wait_break_fn_def
  lcls_locally_switched_wait_other_break_fn_def

lemma action_not_Deep:
  assumes c: "fsm_contract (le_eng x)" and n: "\<And>j ev' w. ev_rank ev' < ev_rank ev \<Longrightarrow> le_disp x j ev' w \<noteq> Deep"
  shows "lcls_action s x i ev w \<noteq> Deep"
proof (cases ev)
  case (LCLS_EV_UPDATE_CFG_CSC c k)
  have *: "lcls_do_update x i c k Ok Ok w \<noteq> Deep" "lcls_do_update x i c k Ok (lcls_break_local_switching i) w \<noteq> Deep"
    "lcls_do_update x i c k (lcls_try_enable x i Ok) Ok w \<noteq> Deep" for w
    using c n LCLS_EV_UPDATE_CFG_CSC by (simp_all add: update_not_Deep enable_not_Deep break_not_Deep)
  show ?thesis
    using * by (cases s) (auto simp: LCLS_EV_UPDATE_CFG_CSC lcls_fn_defs not_Deep_simps split: if_splits)
next
  case LCLS_EV_APPLY_CFG_CSC
  have d: "le_disp x j (LCLS_EV_CORRELATED k) w \<noteq> Deep" "le_disp x j (LCLS_EV_OTHER_ENABLED k) w \<noteq> Deep"
    "le_disp x j (LCLS_EV_OTHER_BREAK k) w \<noteq> Deep" for j k w
    using n LCLS_EV_APPLY_CFG_CSC by simp_all
  show ?thesis
    using c d by (cases s) (auto simp: LCLS_EV_APPLY_CFG_CSC lcls_fn_defs not_Deep_simps chg_not_Deep correlation_not_Deep
        enable_not_Deep tell_other_not_Deep break_not_Deep split: if_splits prod.splits)
next
  case (LCLS_EV_OTHER_ENABLED d)
  then have "lcls_follow x i w \<noteq> Deep" for w using c n by (simp add: follow_not_Deep)
  then show ?thesis by (cases s) (auto simp: LCLS_EV_OTHER_ENABLED lcls_fn_defs not_Deep_simps split: if_splits)
qed (cases s; auto simp: lcls_fn_defs not_Deep_simps chg_not_Deep [OF c] lost_other_not_Deep [OF c] break_not_Deep
      Let_def split: if_splits)+

lemma dispatch_not_Deep:
  "fsm_contract e \<Longrightarrow> ev_rank ev \<le> n \<Longrightarrow> lcls_dispatch (lcls_env_of e n) i ev w \<noteq> Deep"
proof (induction n arbitrary: i ev w)
  case 0
  then have "lcls_action s (lcls_env_of e 0) i ev w \<noteq> Deep" for s
    by (intro action_not_Deep) auto
  then show ?case using 0 by (auto simp: lcls_dispatch_eq not_Deep_simps split: option.splits)
next
  case (Suc n)
  have "lcls_action s (lcls_env_of e (Suc n)) i ev w \<noteq> Deep" for s
    using Suc by (intro action_not_Deep) auto
  then show ?case using Suc by (auto simp: lcls_dispatch_eq not_Deep_simps split: option.splits)
qed

text \<open>
  Property C29.  Handling an event of the local switching of a connection ends: the two machines of a call do
  not send each other events forever, and at most two dispatches are nested in the first one.
\<close>

theorem lcls_dispatch_ends:
  assumes "fsm_contract e"
  shows "lcls_osmo_dispatch e i ev w \<noteq> Deep"
proof -
  have "ev_rank ev \<le> LCLS_NEST" by (cases ev) (simp_all add: LCLS_NEST_def)
  then show ?thesis unfolding lcls_osmo_dispatch_def by (rule dispatch_not_Deep [OF assms])
qed

theorem lcls_dispatch_ends_witness:
  "lcls_osmo_dispatch example_engine 1 LCLS_EV_APPLY_CFG_CSC
     (example_net (example_leg ST_NO_LCLS None (1, 1)) (example_leg ST_NOT_POSSIBLE_LS None (2, 2))) \<noteq> Deep"
  by (rule lcls_dispatch_ends [OF example_engine_contract])

section \<open>Invariant\<close>

text \<open>
  What holds of every connection: its machine has left \<^const>\<open>ST_NO_LCLS\<close> only with a global call reference; it
  is in local switching only with the supported configuration; and while it is switched and has not been
  told to break, it has another leg.
\<close>

definition conn_ok :: "lcls_conn \<Rightarrow> bool" where
  "conn_ok c \<longleftrightarrow> (lcls_fi c \<notin> {None, Some ST_NO_LCLS} \<longrightarrow> global_call_ref c \<noteq> []) \<and>
     (in_ls c \<longrightarrow> conn_config c = LCLS_CFG_BOTH_WAY) \<and>
     (lcls_fi c \<in> {Some ST_LOCALLY_SWITCHED, Some ST_LOCALLY_SWITCHED_WAIT_OTHER_BREAK} \<longrightarrow> lcls_other c \<noteq> None)"

text \<open>No event changes a global call reference, given by \<open>G\<close>.\<close>

definition lcls_inv :: "(conn_ptr \<Rightarrow> u8 list) \<Rightarrow> lcls_net \<Rightarrow> bool" where
  "lcls_inv G w \<longleftrightarrow> (\<forall>i c. conn_at w i = Some c \<longrightarrow> conn_ok c \<and> global_call_ref c = G i)"

definition keeps :: "(conn_ptr \<Rightarrow> u8 list) \<Rightarrow> lcls_net res \<Rightarrow> bool" where
  "keeps G m \<longleftrightarrow> (\<forall>w. m = Ok w \<longrightarrow> lcls_inv G w)"

lemma keeps_simps [simp]: "keeps G (Ok w) = lcls_inv G w" "keeps G Abort" "keeps G Deep"
  by (simp_all add: keeps_def)

lemma keeps_rbind: "(\<And>a. m = Ok a \<Longrightarrow> keeps G (f a)) \<Longrightarrow> keeps G (rbind m f)"
  by (cases m) simp_all

lemma keeps_rbind_keeps: "keeps G m \<Longrightarrow> (\<And>w. lcls_inv G w \<Longrightarrow> keeps G (f w)) \<Longrightarrow> keeps G (rbind m f)"
  by (cases m) simp_all

lemma keeps_with_conn: "(\<And>c. conn_at w i = Some c \<Longrightarrow> keeps G (f c)) \<Longrightarrow> keeps G (with_conn i f w)"
  by (simp add: with_conn_def split: option.splits)

lemma keeps_assert: "keeps G (f w) \<Longrightarrow> keeps G (rbind (assert_other P i w) f)"
  by (auto simp: assert_other_def with_conn_def osmo_assert_def split: option.splits)

lemma lcls_inv_upd:
  assumes "lcls_inv G w" "\<And>c. conn_at w i = Some c \<Longrightarrow> conn_ok c \<Longrightarrow> global_call_ref c = G i \<Longrightarrow> conn_ok (f c) \<and> global_call_ref (f c) = G i"
  shows "lcls_inv G (upd_conn i f w)"
  using assms by (auto simp: lcls_inv_def)

lemma lcls_invD: "lcls_inv G w \<Longrightarrow> conn_at w i = Some c \<Longrightarrow> conn_ok c \<and> global_call_ref c = G i"
  by (simp add: lcls_inv_def)

lemma lcls_inv_emit [simp]: "lcls_inv G (ln_emit x w) = lcls_inv G w"
  by (simp add: lcls_inv_def)

lemma keeps_effects:
  assumes "lcls_inv G w"
  shows "keeps G (lcls_mdcx i p w)" "keeps G (lcls_rsl i en w)" "keeps G (lcls_send_notify i w)"
    "keeps G (lcls_break_local_switching i w)" "keeps G (lcls_locally_switched_onenter i w)"
proof -
  have m: "keeps G (lcls_mdcx i p w)" and r: "keeps G (lcls_rsl i en w)" and n: "keeps G (lcls_send_notify i w)" for p en
    using assms by (auto simp: lcls_mdcx_def lcls_rsl_def lcls_send_notify_def with_conn_def split: option.splits)
  show "keeps G (lcls_mdcx i p w)" "keeps G (lcls_rsl i en w)" "keeps G (lcls_send_notify i w)" by (rule m r n)+
  show "keeps G (lcls_break_local_switching i w)"
    using assms by (auto simp: m r lcls_break_local_switching_def with_conn_def intro!: keeps_rbind split: option.splits bsc_lcls_mode.splits)
  show "keeps G (lcls_locally_switched_onenter i w)"
    using assms by (auto simp: m r lcls_locally_switched_onenter_def with_conn_def intro!: keeps_rbind split: option.splits bsc_lcls_mode.splits)
qed

lemma keeps_chg_to:
  assumes "fsm_contract (le_eng x)" "lcls_inv G w"
    and "\<And>c. conn_at w i = Some c \<Longrightarrow> conn_ok c \<Longrightarrow> global_call_ref c = G i \<Longrightarrow> conn_ok (c\<lparr> lcls_fi := Some st \<rparr>)"
    and "\<And>w. lcls_inv G w \<Longrightarrow> keeps G (f w)"
  shows "keeps G (lcls_chg_to x i st f w)"
proof -
  have "lcls_inv G (upd_conn i (\<lambda>c. c\<lparr> lcls_fi := Some st \<rparr>) w)"
    using assms(2,3) by (intro lcls_inv_upd) auto
  then show ?thesis
    using assms(1,2,4) by (auto simp: lcls_chg_to_eq with_conn_def split: option.splits)
qed

text \<open>Transitions out of local switching need only the global call reference.\<close>

lemma keeps_chg:
  assumes "fsm_contract (le_eng x)" "lcls_inv G w" "G i \<noteq> []"
    and "st \<in> {ST_NOT_YET_LS, ST_NOT_POSSIBLE_LS, ST_NO_LONGER_LS, ST_REQ_LCLS_NOT_SUPP}"
  shows "keeps G (lcls_chg x i st w)"
  unfolding lcls_chg_def using assms by (intro keeps_chg_to) (auto simp: conn_ok_def in_ls_def)

lemma keeps_chg_switched:
  assumes "fsm_contract (le_eng x)" "lcls_inv G w" "G i \<noteq> []" "lcls_enable_possible i w = Ok True"
  shows "keeps G (lcls_chg_switched x i w)"
  unfolding lcls_chg_switched_def using assms
  by (intro keeps_chg_to)
    (auto simp: conn_ok_def in_ls_def keeps_effects lcls_enable_possible_def with_conn_def lcls_is_supported_config_def
        split: option.splits if_splits)

lemma lcls_inv_set_other:
  assumes "lcls_inv G w" "p \<noteq> None \<or> (\<exists>c. conn_at w i = Some c \<and> lcls_fi c \<notin> {Some ST_LOCALLY_SWITCHED, Some ST_LOCALLY_SWITCHED_WAIT_OTHER_BREAK})"
  shows "lcls_inv G (lcls_set_other i p w)"
  unfolding lcls_set_other_def using assms by (intro lcls_inv_upd) (auto simp: conn_ok_def in_ls_def)

lemma keeps_do_update:
  assumes "fsm_contract (le_eng x)" "lcls_inv G w" "G i \<noteq> []"
    and "\<And>w. lcls_inv G w \<Longrightarrow> keeps G (ok w)" "\<And>w. lcls_inv G w \<Longrightarrow> keeps G (err w)"
  shows "keeps G (lcls_do_update x i config control ok err w)"
proof -
  have "lcls_inv G (snd (update_lcls_cfg_csc i config control w))"
    unfolding update_lcls_cfg_csc_def using assms(2)
    by (auto intro!: lcls_inv_upd simp: conn_ok_def in_ls_def lcls_is_supported_config_def)
  moreover have "keeps G (rbind (lcls_chg x i ST_REQ_LCLS_NOT_SUPP w') err)" if "lcls_inv G w'" for w'
    using that assms by (intro keeps_rbind_keeps keeps_chg) simp_all
  ultimately show ?thesis
    using assms(4)
    by (cases "update_lcls_cfg_csc i config control w"; cases "fst (update_lcls_cfg_csc i config control w)";
        cases "lcls_chg x i ST_REQ_LCLS_NOT_SUPP (snd (update_lcls_cfg_csc i config control w))")
      (fastforce simp: lcls_do_update_def lcls_handle_cfg_update_def LCLS_EINVAL_def)+
qed

lemma keeps_correlation:
  assumes "lcls_inv G w" "\<And>j ev w. lcls_inv G w \<Longrightarrow> keeps G (le_disp x j ev w)"
    and "lcls_perform_correlation x i w = Ok (rc, w')"
  shows "lcls_inv G w'"
proof -
  have inv1: "lcls_inv G (upd_conn j (\<lambda>c. c\<lparr> lcls_other := None \<rparr>) w)"
    if "lcls_inv G w" "\<exists>d. conn_at w j = Some d \<and> \<not> in_ls d" for j w
    using that by (intro lcls_inv_upd) (auto simp: conn_ok_def in_ls_def)
  have inv: "lcls_inv G (upd_conn i (\<lambda>c. c\<lparr> lcls_other := None \<rparr>) (upd_conn j (\<lambda>c. c\<lparr> lcls_other := None \<rparr>) w))"
    if "conn_at w i = Some c" "\<not> in_ls c" "conn_at w j = Some d" "\<not> in_ls d" for c d j
    using that assms(1) by (intro inv1) (auto simp: in_ls_def)
  have inv2: "lcls_inv G (upd_conn i (\<lambda>c. c\<lparr> lcls_other := Some j \<rparr>) w)" if "lcls_inv G w" for j w
    using that by (intro lcls_inv_upd) (auto simp: conn_ok_def in_ls_def)
  have res: "lcls_inv G w''" if "lcls_inv G w" "le_disp x j ev (upd_conn i (\<lambda>c. c\<lparr> lcls_other := Some j \<rparr>) w) = Ok w''" for w w'' j ev
    using assms(2) inv2 that unfolding keeps_def by blast
  from assms(3) show ?thesis
    using assms(1) by (auto simp: lcls_perform_correlation_def with_conn_def intro: inv res split: option.splits if_splits)
qed

text \<open>The steps the handlers are made of, for an environment whose nested dispatches keep the invariant.\<close>

definition env_keeps :: "(conn_ptr \<Rightarrow> u8 list) \<Rightarrow> lcls_env \<Rightarrow> bool" where
  "env_keeps G x \<longleftrightarrow> fsm_contract (le_eng x) \<and> (\<forall>j ev w. lcls_inv G w \<longrightarrow> keeps G (le_disp x j ev w))"

lemma keeps_tell_other: "env_keeps G x \<Longrightarrow> lcls_inv G w \<Longrightarrow> keeps G (lcls_tell_other x i ev w)"
  by (auto simp: lcls_tell_other_def with_conn_def env_keeps_def split: option.splits)

lemma keeps_enabling:
  assumes "env_keeps G x" "lcls_inv G w" "G i \<noteq> []" "\<And>w. lcls_inv G w \<Longrightarrow> keeps G (f w)"
    and "\<And>w. lcls_inv G w \<Longrightarrow> keeps G (g w)"
  shows "keeps G (rbind (lcls_enable_possible i w) (\<lambda>possible. if possible then rbind (lcls_chg_switched x i w) f else g w))"
  using assms by (intro keeps_rbind) (auto simp: env_keeps_def intro!: keeps_rbind_keeps keeps_chg_switched)

lemma keeps_switch_or:
  assumes "env_keeps G x" "lcls_inv G w" "G i \<noteq> []" "keeps G (g w)"
  shows "keeps G (rbind (lcls_enable_possible i w) (\<lambda>possible. if possible then lcls_chg_switched x i w else g w))"
  using assms by (intro keeps_rbind) (auto simp: env_keeps_def intro!: keeps_chg_switched)

lemma keeps_try_enable:
  assumes "env_keeps G x" "lcls_inv G w" "G i \<noteq> []" "\<And>w. lcls_inv G w \<Longrightarrow> keeps G (f w)"
  shows "keeps G (lcls_try_enable x i f w)"
  unfolding lcls_try_enable_def using assms by (intro keeps_enabling) (auto intro: keeps_tell_other)

lemma keeps_follow: "env_keeps G x \<Longrightarrow> lcls_inv G w \<Longrightarrow> G i \<noteq> [] \<Longrightarrow> keeps G (lcls_follow x i w)"
  unfolding lcls_follow_def by (intro keeps_enabling) (auto intro: keeps_tell_other keeps_effects)

lemma keeps_correlate:
  assumes "env_keeps G x" "lcls_inv G w" "\<And>rc w. lcls_inv G w \<Longrightarrow> keeps G (f (rc, w))"
  shows "keeps G (rbind (lcls_perform_correlation x i w) f)"
  using assms keeps_correlation [of G w x i] by (intro keeps_rbind) (auto simp: env_keeps_def)

lemma keeps_lost_other:
  assumes "fsm_contract (le_eng x)" "lcls_inv G w" "conn_at w i = Some c" "lcls_fi c = Some s" "G i \<noteq> []"
    and "s \<in> {ST_NOT_YET_LS, ST_NO_LONGER_LS, ST_LOCALLY_SWITCHED}"
  shows "keeps G (lcls_lost_other x i d w)"
proof -
  have "keeps G (lcls_chg x i ST_NOT_POSSIBLE_LS (lcls_set_other i None w))"
  proof (cases "s = ST_LOCALLY_SWITCHED")
    case True
    have "lcls_inv G (upd_conn i (\<lambda>c. c\<lparr> lcls_fi := Some ST_NOT_POSSIBLE_LS \<rparr>) (lcls_set_other i None w))"
      unfolding lcls_set_other_def upd_conn_twice using assms by (intro lcls_inv_upd) (auto simp: conn_ok_def in_ls_def)
    then show ?thesis using assms True by (simp add: lcls_chg_def lcls_chg_to_eq with_conn_def)
  next
    case False
    then show ?thesis
      using assms by (intro keeps_chg lcls_inv_set_other) auto
  qed
  then show ?thesis
    unfolding lcls_lost_other_def by (intro keeps_assert keeps_rbind_keeps keeps_effects)
qed

lemma keeps_update:
  assumes "env_keeps G x" "lcls_inv G w" "G i \<noteq> []"
  shows "keeps G (lcls_do_update x i config control Ok Ok w)"
    "keeps G (lcls_do_update x i config control Ok (lcls_break_local_switching i) w)"
    "keeps G (lcls_do_update x i config control (lcls_try_enable x i Ok) Ok w)"
  using assms by (auto simp: env_keeps_def [THEN iffD1, THEN conjunct1, OF assms(1)] intro!: keeps_do_update keeps_effects keeps_try_enable)

lemma keeps_locally_switched_fn:
  assumes "env_keeps G x" "lcls_inv G w" "conn_at w i = Some c" "lcls_fi c = Some ST_LOCALLY_SWITCHED" "G i \<noteq> []"
  shows "keeps G (lcls_locally_switched_fn x i ev w)"
proof -
  have c: "fsm_contract (le_eng x)" using assms(1) by (simp add: env_keeps_def)
  have "keeps G (lcls_chg x i st w)" if "st \<in> {ST_LOCALLY_SWITCHED_WAIT_OTHER_BREAK, ST_LOCALLY_SWITCHED_WAIT_BREAK}" for st
    unfolding lcls_chg_def using that assms c by (intro keeps_chg_to) (auto simp: conn_ok_def in_ls_def)
  then show ?thesis
    unfolding lcls_locally_switched_fn_def using assms c
    by (intro keeps_assert)
      (auto split: lcls_event.splits intro!: keeps_with_conn keeps_update keeps_rbind_keeps keeps_tell_other keeps_lost_other keeps_assert)
qed

lemma keeps_wait_break_fn:
  assumes "env_keeps G x" "lcls_inv G w" "conn_at w i = Some c" "lcls_fi c = Some ST_LOCALLY_SWITCHED_WAIT_BREAK" "G i \<noteq> []"
    and "lcls_ev_nr ev \<in> set (lcls_in_events ST_LOCALLY_SWITCHED_WAIT_BREAK)"
  shows "keeps G (lcls_locally_switched_wait_break_fn x i ev w)"
proof -
  have c: "fsm_contract (le_eng x)" using assms(1) by (simp add: env_keeps_def)
  show ?thesis
    unfolding lcls_locally_switched_wait_break_fn_def using assms c
    by (intro keeps_assert; cases ev)
      (auto intro!: keeps_with_conn keeps_update keeps_rbind_keeps keeps_tell_other keeps_assert keeps_chg keeps_effects lcls_inv_set_other)
qed

lemma keeps_wait_other_break_fn:
  assumes "env_keeps G x" "lcls_inv G w" "G i \<noteq> []"
    and "lcls_ev_nr ev \<in> set (lcls_in_events ST_LOCALLY_SWITCHED_WAIT_OTHER_BREAK)"
  shows "keeps G (lcls_locally_switched_wait_other_break_fn x i ev w)"
proof -
  have c: "fsm_contract (le_eng x)" using assms(1) by (simp add: env_keeps_def)
  show ?thesis
    unfolding lcls_locally_switched_wait_other_break_fn_def Let_def using assms c
    by (intro keeps_assert; cases ev) (auto intro!: keeps_update keeps_rbind_keeps keeps_assert keeps_chg keeps_effects)
qed

lemma keeps_action:
  assumes x: "env_keeps G x" and w: "lcls_inv G w" "conn_at w i = Some c" "lcls_fi c = Some s"
    and ev: "lcls_ev_nr ev \<in> set (lcls_in_events s)"
  shows "keeps G (lcls_action s x i ev w)"
proof (cases "G i = []")
  case True
  then have "s = ST_NO_LCLS" "global_call_ref c = []" using w lcls_invD [OF w(1,2)] by (auto simp: conn_ok_def)
  then show ?thesis using w by (auto simp: lcls_no_lcls_fn_def with_conn_def intro!: keeps_assert)
next
  case False
  have c: "fsm_contract (le_eng x)" using x by (simp add: env_keeps_def)
  note intros = keeps_assert keeps_with_conn keeps_update keeps_correlate keeps_chg keeps_try_enable keeps_follow
    keeps_lost_other keeps_effects lcls_inv_set_other
  show ?thesis
  proof (cases s)
    case ST_LOCALLY_SWITCHED
    then show ?thesis using x w False by (simp add: keeps_locally_switched_fn)
  next
    case ST_LOCALLY_SWITCHED_WAIT_BREAK
    then show ?thesis using x w False ev by (simp add: keeps_wait_break_fn)
  next
    case ST_LOCALLY_SWITCHED_WAIT_OTHER_BREAK
    then show ?thesis using x w False ev by (simp add: keeps_wait_other_break_fn)
  next
    case ST_NO_LCLS
    then show ?thesis
      using x w False ev c by (cases ev) (auto simp: lcls_no_lcls_fn_def intro!: intros)
  next
    case ST_NOT_YET_LS
    then show ?thesis
      using x w False ev c by (cases ev) (auto simp: lcls_not_yet_ls_fn_def intro!: intros)
  next
    case ST_NOT_POSSIBLE_LS
    then show ?thesis
      using x w False ev c by (cases ev) (auto simp: lcls_not_possible_ls_fn_def intro!: intros keeps_rbind_keeps [OF keeps_chg])
  next
    case ST_NO_LONGER_LS
    then show ?thesis
      using x w False ev c by (cases ev) (auto simp: lcls_no_longer_ls_fn_def intro!: intros)
  next
    case ST_REQ_LCLS_NOT_SUPP
    then show ?thesis
      using x w False ev c
      by (cases ev) (auto simp: lcls_req_lcls_not_supp_fn_def intro!: intros keeps_switch_or)
  qed
qed

lemma keeps_dispatch_env:
  assumes "env_keeps G x" "lcls_inv G w"
  shows "keeps G (lcls_dispatch x i ev w)"
  using assms keeps_action [OF assms]
  by (auto simp: lcls_dispatch_eq env_keeps_def with_conn_def split: option.splits)

lemma env_keeps_env_of: "fsm_contract e \<Longrightarrow> env_keeps G (lcls_env_of e n)"
  by (induction n) (simp_all add: env_keeps_def keeps_dispatch_env [unfolded env_keeps_def])

lemma keeps_dispatch: "fsm_contract e \<Longrightarrow> lcls_inv G w \<Longrightarrow> keeps G (lcls_osmo_dispatch e i ev w)"
  unfolding lcls_osmo_dispatch_def by (intro keeps_dispatch_env env_keeps_env_of)

section \<open>Reachable networks\<close>

text \<open>
  Connections are made, assigned and terminated, the MSC sends LCLS CONNECT CONTROL, an assignment
  completes, and the lchan and the media gateway endpoint of a connection change.
\<close>

inductive lcls_reach :: "lcls_net fsm_engine \<Rightarrow> lcls_net \<Rightarrow> bool" for e where
  start: "lcls_reach e \<lparr> subscr_conns = [], ln_out = [] \<rparr>"
| new: "lcls_reach e w \<Longrightarrow> conn_at w i = None \<Longrightarrow> lcls_reach e (bsc_subscr_con_allocate i mode allow w)"
| ass_req: "lcls_reach e w \<Longrightarrow> bssmap_handle_ass_req_lcls e i gcr config control w = Ok w' \<Longrightarrow> lcls_reach e w'"
| connect_ctrl: "lcls_reach e w \<Longrightarrow> bssmap_handle_lcls_connect_ctrl e i config control w = Ok w' \<Longrightarrow> lcls_reach e w'"
| assigned: "lcls_reach e w \<Longrightarrow> lcls_apply_config e i w = Ok w' \<Longrightarrow> lcls_reach e w'"
| user_plane: "lcls_reach e w \<Longrightarrow>
    lcls_reach e (upd_conn i (\<lambda>c. c\<lparr> conn_lchan := l, mgw_endpoint_ci_msc := m, msc_assigned_rtp := r \<rparr>) w)"
| ended: "lcls_reach e w \<Longrightarrow> gscon_term e i w = Ok w' \<Longrightarrow> lcls_reach e w'"

definition gcrs :: "lcls_net \<Rightarrow> conn_ptr \<Rightarrow> u8 list" where
  "gcrs w i = (case conn_at w i of None \<Rightarrow> [] | Some c \<Rightarrow> global_call_ref c)"

lemma lcls_inv_gcrs: "lcls_inv (gcrs w) w \<longleftrightarrow> (\<forall>i c. conn_at w i = Some c \<longrightarrow> conn_ok c)"
  by (auto simp: lcls_inv_def gcrs_def)

lemma lcls_inv_any: "lcls_inv G w \<Longrightarrow> lcls_inv (gcrs w) w"
  by (simp add: lcls_inv_gcrs) (simp add: lcls_inv_def)

lemma keeps_update_config:
  "fsm_contract e \<Longrightarrow> lcls_inv G w \<Longrightarrow> keeps G (lcls_update_config e i config control w)"
  by (simp add: lcls_update_config_def keeps_dispatch)

lemma keeps_apply_config: "fsm_contract e \<Longrightarrow> lcls_inv G w \<Longrightarrow> keeps G (lcls_apply_config e i w)"
  by (simp add: lcls_apply_config_def keeps_dispatch)

lemma keeps_connect_ctrl:
  "fsm_contract e \<Longrightarrow> lcls_inv G w \<Longrightarrow> keeps G (bssmap_handle_lcls_connect_ctrl e i config control w)"
  unfolding bssmap_handle_lcls_connect_ctrl_def
  by (auto intro!: keeps_with_conn keeps_rbind_keeps keeps_update_config keeps_apply_config)

lemma ass_req_inv:
  assumes "fsm_contract e" "lcls_inv (gcrs w) w" "bssmap_handle_ass_req_lcls e i gcr config control w = Ok w'"
  shows "lcls_inv (gcrs w') w'"
proof -
  let ?w = "if length gcr > 15 then w
        else if length gcr \<ge> 13 then upd_conn i (\<lambda>c. c\<lparr> global_call_ref := gcr \<rparr>) w
        else w"
  have "lcls_inv (gcrs ?w) ?w"
    using assms(2) unfolding lcls_inv_gcrs by (auto simp: conn_ok_def in_ls_def)
  moreover have "lcls_update_config e i config control ?w = Ok w'"
    using assms(3) by (simp only: bssmap_handle_ass_req_lcls_def with_conn_def split: option.splits) simp_all
  ultimately show ?thesis
    using keeps_update_config [OF assms(1)] lcls_inv_any unfolding keeps_def by blast
qed

lemma term_inv:
  assumes "fsm_contract e" "lcls_inv G w" "gscon_term e i w = Ok w'"
  shows "lcls_inv G w'"
proof -
  have dead: "lcls_inv G (upd_conn i (\<lambda>c. c\<lparr> lcls_fi := None \<rparr>) w)"
    "lcls_inv G (upd_conn i (\<lambda>c. c\<lparr> lcls_fi := None \<rparr>) (lcls_set_other i None w))" if "lcls_inv G w" for w
    unfolding lcls_set_other_def upd_conn_twice using that
    by (intro lcls_inv_upd; auto simp: conn_ok_def in_ls_def)+
  have disp: "lcls_inv G w2" if "lcls_inv G w1" "lcls_osmo_dispatch e j ev w1 = Ok w2" for w1 w2 j ev
    using keeps_dispatch [OF assms(1) that(1)] that(2) by (simp add: keeps_def)
  have "lcls_inv G w1" if "gscon_pre_term e i w = Ok w1" for w1
    using that assms(1,2) dead disp
    by (auto simp: gscon_pre_term_def with_conn_def fsm_contract_term lcls_fsm_cleanup_def split: option.splits if_splits)
  then show ?thesis
    using assms(3) by (auto simp: gscon_term_def gscon_cleanup_def with_conn_def lcls_inv_def split: option.splits if_splits)
qed

lemma lcls_reach_inv: "fsm_contract e \<Longrightarrow> lcls_reach e w \<Longrightarrow> lcls_inv (gcrs w) w"
proof (rotate_tac, induction rule: lcls_reach.induct)
  case (connect_ctrl w i config control w')
  then show ?case using keeps_connect_ctrl lcls_inv_any unfolding keeps_def by blast
next
  case (assigned w i w')
  then show ?case using keeps_apply_config lcls_inv_any unfolding keeps_def by blast
next
  case (ass_req w i gcr config control w')
  then show ?case using ass_req_inv by blast
next
  case (ended w i w')
  then show ?case using term_inv lcls_inv_any by blast
next
  case (new w i mode allow)
  then show ?case
    by (auto simp: lcls_inv_gcrs bsc_subscr_con_allocate_def conn_at_def map_add_Some_iff conn_ok_def in_ls_def split: if_splits)
next
  case (user_plane w i l m r)
  then show ?case by (auto simp: lcls_inv_gcrs conn_ok_def in_ls_def)
qed (simp add: lcls_inv_def conn_at_def)

lemma find_gcr_upd [simp]:
  assumes "\<And>c. global_call_ref (f c) = global_call_ref c"
  shows "find_conn_with_same_gcr i c (upd_conn k f w) = find_conn_with_same_gcr i c w"
proof -
  have "map_option fst (find (\<lambda>(j, d). j \<noteq> i \<and> global_call_ref d = g) (map (\<lambda>(j, c). (j, if j = k then f c else c)) xs)) =
      map_option fst (find (\<lambda>(j, d). j \<noteq> i \<and> global_call_ref d = g) xs)" for g xs
    using assms by (induction xs) auto
  then show ?thesis by (simp add: find_conn_with_same_gcr_def upd_conn_def)
qed

lemmas lcls_eval = lcls_dispatch_eq with_conn_def lcls_chg_to_eq lcls_chg_def lcls_chg_switched_def assert_other_def osmo_assert_def
  lcls_locally_switched_onenter_def lcls_check_toggle_allowed_def lcls_enable_possible_def lcls_is_supported_config_def
  lcls_mdcx_def lcls_tell_other_def lcls_send_notify_def lcls_get_status_def lcls_try_enable_def lcls_follow_def
  lcls_perform_correlation_def in_ls_def lcls_break_local_switching_def lcls_do_update_def lcls_handle_cfg_update_def
  update_lcls_cfg_csc_def lcls_lost_other_def

lemmas lcls_ops = lcls_apply_config_def lcls_update_config_def lcls_osmo_dispatch_def LCLS_NEST_def eval_nat_numeral

text \<open>A reachable network with a connection in local switching.\<close>

definition example_assigned :: "u8 list \<Rightarrow> lcls_conn" where
  "example_assigned g = (example_leg ST_NO_LCLS None (1, 1))\<lparr> conn_config := (if g = [] then LCLS_CFG_NA else LCLS_CFG_BOTH_WAY),
     conn_control := (if g = [] then LCLS_CSC_NA else LCLS_CSC_CONNECT), global_call_ref := g \<rparr>"

lemma example_allocated: "lcls_reach e (example_net (example_assigned []) (example_assigned []))"
proof -
  let ?new = "\<lambda>i w. bsc_subscr_con_allocate i BSC_LCLS_MODE_MGW_LOOP False w"
  let ?up = "\<lambda>i. upd_conn i (\<lambda>c. c\<lparr> conn_lchan := conn_lchan (example_assigned []),
     mgw_endpoint_ci_msc := mgw_endpoint_ci_msc (example_assigned []), msc_assigned_rtp := msc_assigned_rtp (example_assigned []) \<rparr>)"
  have "lcls_reach e (?up 2 (?up 1 (?new 2 (?new 1 \<lparr> subscr_conns = [], ln_out = [] \<rparr>))))"
    by (intro lcls_reach.user_plane lcls_reach.new lcls_reach.start) (simp_all add: conn_at_def bsc_subscr_con_allocate_def)
  moreover have "?up 2 (?up 1 (?new 2 (?new 1 \<lparr> subscr_conns = [], ln_out = [] \<rparr>))) =
      example_net (example_assigned []) (example_assigned [])"
    by (simp add: example_net_def bsc_subscr_con_allocate_def upd_conn_def example_assigned_def example_leg_def)
  ultimately show ?thesis by simp
qed

lemma example_ass_req:
  "bssmap_handle_ass_req_lcls example_engine 1 (replicate 13 1) (Some LCLS_CFG_BOTH_WAY) (Some LCLS_CSC_CONNECT)
     (example_net (example_assigned []) b) = Ok (example_net (example_assigned (replicate 13 1)) b)"
  "bssmap_handle_ass_req_lcls example_engine 2 (replicate 13 1) (Some LCLS_CFG_BOTH_WAY) (Some LCLS_CSC_CONNECT)
     (example_net a (example_assigned [])) = Ok (example_net a (example_assigned (replicate 13 1)))"
  by (simp_all add: bssmap_handle_ass_req_lcls_def lcls_ops lcls_eval example_engine_contract lcls_no_lcls_fn_def
      example_assigned_def example_leg_def del: rbind_Ok_iff)
    (simp_all add: example_net_def upd_conn_def)

lemma example_reach: "\<exists>w c. lcls_reach example_engine w \<and> conn_at w 1 = Some c \<and> lcls_fi c = Some ST_LOCALLY_SWITCHED"
proof -
  let ?g = "replicate 13 1 :: u8 list"
  have "lcls_reach example_engine (example_net (example_assigned ?g) (example_assigned ?g))"
    using example_allocated example_ass_req by (blast intro: lcls_reach.ass_req)
  moreover have "\<exists>w c. lcls_apply_config example_engine 1 (example_net (example_assigned ?g) (example_assigned ?g)) = Ok w \<and>
      conn_at w 1 = Some c \<and> lcls_fi c = Some ST_LOCALLY_SWITCHED"
  proof -
    have "find_conn_with_same_gcr 1 (example_assigned ?g) (example_net (example_assigned ?g) (example_assigned ?g)) = Some 2"
      by (simp add: find_conn_with_same_gcr_def example_net_def example_assigned_def)
    then show ?thesis
      by (simp add: lcls_ops lcls_eval example_engine_contract lcls_no_lcls_fn_def example_assigned_def example_leg_def
          del: rbind_Ok_iff)
  qed
  ultimately show ?thesis by (blast intro: lcls_reach.assigned)
qed

text \<open>
  Property C12.  In every reachable state of the network a connection in local switching has a global call reference
  and the supported configuration, and one that is switched and not told to break has another leg.
\<close>

theorem lcls_switched_invariant:
  assumes "fsm_contract e" "lcls_reach e w" "conn_at w i = Some c"
  shows "(in_ls c \<longrightarrow> global_call_ref c \<noteq> [] \<and> lcls_is_supported_config (conn_config c)) \<and>
    (lcls_fi c \<in> {Some ST_LOCALLY_SWITCHED, Some ST_LOCALLY_SWITCHED_WAIT_OTHER_BREAK} \<longrightarrow> lcls_other c \<noteq> None)"
  using lcls_invD [OF lcls_reach_inv [OF assms(1,2)] assms(3)]
  by (auto simp: conn_ok_def in_ls_def lcls_is_supported_config_def)

theorem lcls_switched_invariant_witness:
  "\<exists>w c. lcls_reach example_engine w \<and> conn_at w 1 = Some c \<and> in_ls c \<and> global_call_ref c \<noteq> [] \<and> lcls_other c \<noteq> None"
proof -
  obtain w c where w: "lcls_reach example_engine w" "conn_at w 1 = Some c" "lcls_fi c = Some ST_LOCALLY_SWITCHED"
    using example_reach by blast
  then show ?thesis using lcls_switched_invariant [OF example_engine_contract w(1,2)] by (auto simp: in_ls_def)
qed

section \<open>A call is switched and switched back\<close>

lemma find_gcr_other:
  assumes "find_conn_with_same_gcr i c w = Some j"
  shows "j \<noteq> i"
  using assms by (auto simp: find_conn_with_same_gcr_def find_Some_iff)

text \<open>
  Property C11.  When the second leg of a call is assigned, and both legs have been told to connect locally, both are
  switched: each endpoint of the media gateway is connected to that of the other leg, each leg has the
  other one as its peer, and the MSC of the first leg is notified twice, that the call was correlated and
  that it is switched.
\<close>

theorem lcls_call_switched:
  assumes "fsm_contract e"
    and "conn_at w i = Some a" "lcls_fi a \<in> {Some ST_NO_LCLS, Some ST_NOT_POSSIBLE_LS}" "lcls_other a = None" "ready_leg a p t m"
    and "find_conn_with_same_gcr i a w = Some j"
    and "conn_at w j = Some b" "lcls_fi b = Some ST_NOT_POSSIBLE_LS" "lcls_other b = None" "ready_leg b q t m"
  shows "\<exists>w'. lcls_apply_config e i w = Ok w' \<and>
    conn_at w' i = Some (a\<lparr> lcls_fi := Some ST_LOCALLY_SWITCHED, lcls_other := Some j \<rparr>) \<and>
    conn_at w' j = Some (b\<lparr> lcls_fi := Some ST_LOCALLY_SWITCHED, lcls_other := Some i \<rparr>) \<and>
    ln_out w' = ln_out w @ [LCLS_NOTIFICATION j LCLS_STS_NOT_YET_LS, MGCP_MDCX i q, MGCP_MDCX j p,
                            LCLS_NOTIFICATION j LCLS_STS_LOCALLY_SWITCHED]"
proof -
  have ne: "j \<noteq> i" using find_gcr_other [OF assms(6)] .
  from assms(3) consider "lcls_fi a = Some ST_NO_LCLS" | "lcls_fi a = Some ST_NOT_POSSIBLE_LS" by blast
  then show ?thesis
    using assms(1,2,4-) ne
    by cases (auto simp: lcls_ops lcls_eval ready_leg_def lcls_no_lcls_fn_def lcls_not_possible_ls_fn_def lcls_not_yet_ls_fn_def
        simp del: rbind_Ok_iff)
qed

theorem lcls_call_switched_witness:
  "\<exists>w'. lcls_apply_config example_engine 1 (example_net (example_leg ST_NO_LCLS None (1, 1)) (example_leg ST_NOT_POSSIBLE_LS None (2, 2))) = Ok w' \<and>
    conn_at w' 1 = Some (example_leg ST_LOCALLY_SWITCHED (Some 2) (1, 1)) \<and>
    conn_at w' 2 = Some (example_leg ST_LOCALLY_SWITCHED (Some 1) (2, 2))"
  using lcls_call_switched [OF example_engine_contract, of "example_net (example_leg ST_NO_LCLS None (1, 1)) (example_leg ST_NOT_POSSIBLE_LS None (2, 2))"
      1 "example_leg ST_NO_LCLS None (1, 1)" "(1, 1)" GSM_LCHAN_TCH_F GSM48_CMODE_SPEECH_V1 2 "example_leg ST_NOT_POSSIBLE_LS None (2, 2)" "(2, 2)"]
  by (auto simp: example_leg_ready) (auto simp: example_leg_def find_conn_with_same_gcr_def example_net_def)

text \<open>
  Property C30.  When the MSC tells both legs of a switched call to release it, the first leg waits for the other and
  both endpoints are connected back to the addresses the MSC had assigned.
\<close>

theorem lcls_call_released:
  assumes "fsm_contract e" "i \<noteq> j"
    and "conn_at w i = Some a" "lcls_fi a = Some ST_LOCALLY_SWITCHED" "lcls_other a = Some j" "ready_leg a p t m"
    and "conn_at w j = Some b" "lcls_fi b = Some ST_LOCALLY_SWITCHED" "lcls_other b = Some i" "ready_leg b q t m"
  shows "\<exists>w1 w2. bssmap_handle_lcls_connect_ctrl e i None (Some LCLS_CSC_RELEASE_LCLS) w = Ok w1 \<and>
    conn_at w1 i = Some (a\<lparr> lcls_fi := Some ST_LOCALLY_SWITCHED_WAIT_OTHER_BREAK, conn_control := LCLS_CSC_RELEASE_LCLS \<rparr>) \<and>
    conn_at w1 j = Some (b\<lparr> lcls_fi := Some ST_LOCALLY_SWITCHED_WAIT_BREAK \<rparr>) \<and>
    bssmap_handle_lcls_connect_ctrl e j None (Some LCLS_CSC_RELEASE_LCLS) w1 = Ok w2 \<and>
    conn_at w2 i = Some (a\<lparr> lcls_fi := Some ST_NO_LONGER_LS, conn_control := LCLS_CSC_RELEASE_LCLS \<rparr>) \<and>
    conn_at w2 j = Some (b\<lparr> lcls_fi := Some ST_NO_LONGER_LS, conn_control := LCLS_CSC_RELEASE_LCLS \<rparr>) \<and>
    ln_out w2 = ln_out w @ [LCLS_CONNECT_CTRL_ACK i LCLS_STS_LOCALLY_SWITCHED, MGCP_MDCX j (msc_assigned_rtp b),
      MGCP_MDCX i (msc_assigned_rtp a), LCLS_NOTIFICATION i LCLS_STS_NO_LONGER_LS, LCLS_CONNECT_CTRL_ACK j LCLS_STS_NO_LONGER_LS]"
  using assms
  by (auto simp: bssmap_handle_lcls_connect_ctrl_def lcls_ops lcls_eval ready_leg_def lcls_locally_switched_fn_def
      lcls_locally_switched_wait_break_fn_def lcls_locally_switched_wait_other_break_fn_def simp del: rbind_Ok_iff)

theorem lcls_call_released_witness:
  "\<exists>w1 w2. bssmap_handle_lcls_connect_ctrl example_engine 1 None (Some LCLS_CSC_RELEASE_LCLS)
      (example_net (example_leg ST_LOCALLY_SWITCHED (Some 2) (1, 1)) (example_leg ST_LOCALLY_SWITCHED (Some 1) (2, 2))) = Ok w1 \<and>
    bssmap_handle_lcls_connect_ctrl example_engine 2 None (Some LCLS_CSC_RELEASE_LCLS) w1 = Ok w2 \<and>
    map_option lcls_fi (conn_at w2 1) = Some (Some ST_NO_LONGER_LS)"
  using lcls_call_released [OF example_engine_contract,
      of 1 2 "example_net (example_leg ST_LOCALLY_SWITCHED (Some 2) (1, 1)) (example_leg ST_LOCALLY_SWITCHED (Some 1) (2, 2))"
      "example_leg ST_LOCALLY_SWITCHED (Some 2) (1, 1)" "(1, 1)" GSM_LCHAN_TCH_F GSM48_CMODE_SPEECH_V1
      "example_leg ST_LOCALLY_SWITCHED (Some 1) (2, 2)" "(2, 2)"]
  by (auto simp: example_leg_ready) (auto simp: example_leg_def)

section \<open>Failed assertions\<close>

text \<open>
  Property C31.  Once a leg is no longer locally switched, an LCLS CONNECT CONTROL that does not enable switching again
  stops the process: the state admits the event that applies the configuration, but its handler has no
  case for it.
\<close>

theorem lcls_no_longer_ls_aborts:
  assumes "fsm_contract e" "conn_at w i = Some c" "lcls_fi c = Some ST_NO_LONGER_LS"
  shows "lcls_apply_config e i w = Abort"
  using assms by (auto simp: lcls_ops lcls_eval lcls_no_longer_ls_fn_def)

theorem lcls_no_longer_ls_aborts_witness:
  "lcls_apply_config example_engine 1
     (example_net (example_leg ST_NO_LONGER_LS (Some 2) (1, 1)) (example_leg ST_NO_LONGER_LS (Some 1) (2, 2))) = Abort"
  by (rule lcls_no_longer_ls_aborts [OF example_engine_contract example_net_at(1)]) (simp add: example_leg_def)

text \<open>
  A leg that is correlated and not yet switched survives the end of the other leg in a state that needs
  one: its machine may not change to \<^const>\<open>ST_NOT_POSSIBLE_LS\<close>, and the next event from the MSC stops the process.
\<close>

lemma lcls_survivor_aborts:
  assumes "fsm_contract e" "i \<noteq> j" "conn_at w i = Some a" "lcls_fi a \<noteq> None" "lcls_other a = Some j"
    and "conn_at w j = Some b" "lcls_fi b \<in> {Some ST_NOT_YET_LS, Some ST_NO_LONGER_LS}" "lcls_other b = Some i"
  shows "\<exists>w'. gscon_term e i w = Ok w' \<and> conn_at w' i = None \<and> conn_at w' j = Some (b\<lparr> lcls_other := None \<rparr>) \<and>
    lcls_apply_config e j w' = Abort \<and>
    (config \<noteq> None \<or> control \<noteq> None \<longrightarrow> lcls_update_config e j config control w' = Abort)"
proof -
  from assms(7) consider "lcls_fi b = Some ST_NOT_YET_LS" | "lcls_fi b = Some ST_NO_LONGER_LS" by blast
  then show ?thesis
    using assms(1-6,8)
    by cases (auto simp: gscon_term_def gscon_pre_term_def gscon_cleanup_def lcls_fsm_cleanup_def fsm_contract_term lcls_ops lcls_eval
        lcls_not_yet_ls_fn_def lcls_no_longer_ls_fn_def simp del: rbind_Ok_iff)
qed

text \<open>
  A leg that waits for the other one to break takes its death for the break, and keeps the pointer to the
  connection that is then freed.
\<close>

lemma lcls_dangling_other:
  assumes "fsm_contract e" "i \<noteq> j" "conn_at w i = Some a" "lcls_fi a = Some ST_LOCALLY_SWITCHED_WAIT_BREAK" "lcls_other a = Some j"
    "ready_leg a p t m"
    and "conn_at w j = Some b" "lcls_fi b = Some ST_LOCALLY_SWITCHED_WAIT_OTHER_BREAK" "lcls_other b = Some i" "ready_leg b q t m"
  shows "\<exists>w'. gscon_term e i w = Ok w' \<and> conn_at w' i = None \<and>
    conn_at w' j = Some (b\<lparr> lcls_fi := Some ST_NO_LONGER_LS \<rparr>) \<and>
    gscon_term e j w' = Abort"
  using assms
  by (auto simp: gscon_term_def gscon_pre_term_def gscon_cleanup_def lcls_fsm_cleanup_def fsm_contract_term lcls_ops lcls_eval
      ready_leg_def lcls_locally_switched_wait_other_break_fn_def lcls_no_longer_ls_fn_def simp del: rbind_Ok_iff)

end
