(* ===== verification/Hodec2.thy ===== *)
theory Hodec2
  imports Handover_Decision Penalty_Timers Neighbor_Ident Codec_Pref
begin

unbundle bit_operations_syntax

text \<open>
  Handover decision algorithm 2, \<^verbatim>\<open>handover_decision_2.c\<close>, with the functions of \<^verbatim>\<open>handover_logic.c\<close> it uses: the
  requirements a cell meets for a call, the collection of candidates, the choice made on a measurement
  report, the resolution of congestion and the penalties after a failure.

  A BTS is named by its position in the list of the network, an lchan by the positions of its BTS, TRX
  and timeslot and its own one.  A remote cell list is named by the key of its entry in the neighbor
  list.  The clock is part of the state, \<^verbatim>\<open>rxlev2dbm\<close> of libosmocore is the argument \<open>dbm\<close>, and the function that
  starts a handover, \<^verbatim>\<open>handover_request\<close>, is the argument \<open>hreq\<close>.
\<close>

section \<open>Data\<close>

record hodec2_cfg =
  h2_ho_active :: bool
  h2_rxlev_avg_win :: nat
  h2_rxqual_avg_win :: nat
  h2_rxlev_neigh_avg_win :: nat
  h2_pwr_interval :: nat
  h2_pwr_hysteresis :: nat
  h2_max_distance :: nat
  h2_as_active :: bool
  h2_full_tdma :: bool
  h2_min_rxlev :: int
  h2_min_rxqual :: int
  h2_afs_bias_rxlev :: int
  h2_afs_bias_rxqual :: int
  h2_tchf_min_slots :: int
  h2_tchh_min_slots :: int
  h2_ho_max :: int
  h2_penalty_max_dist :: int
  h2_penalty_failed_ho :: int
  h2_penalty_failed_as :: int
  h2_retries :: int

record ho_bts = gsm_bts_codec +
  bts_bsic :: u8
  bts_ho :: hodec2_cfg

datatype gsm0808_speech_codec_type =
    GSM0808_SCT_FR1 | GSM0808_SCT_FR2 | GSM0808_SCT_FR3 | GSM0808_SCT_HR1 | GSM0808_SCT_HR3 | GSM0808_SCT_other nat

datatype handover_scope =
    HO_NO_HANDOVER | HO_INTRA_CELL | HO_INTRA_BSC | HO_INTER_BSC_OUT | HO_INTER_BSC_IN

fun scope_bits :: "handover_scope \<Rightarrow> u16" where
  "scope_bits HO_NO_HANDOVER = 0"
| "scope_bits HO_INTRA_CELL = 1"
| "scope_bits HO_INTRA_BSC = 2"
| "scope_bits HO_INTER_BSC_OUT = 4"
| "scope_bits HO_INTER_BSC_IN = 8"

definition HO_SCOPE_ALL :: u16 where "HO_SCOPE_ALL = 0xffff"

text \<open>What a penalty can be set for.\<close>

datatype penalty_obj = PEN_BTS nat | PEN_CIL neighbor_ident_key

record ho_conn =
  hc_lchan :: "lchan_ref option"
  hc_assignment_new_lchan :: "lchan_ref option"
  hc_ho_fi :: bool
  hc_ho_scope :: handover_scope
  hc_ho_new_lchan :: "lchan_ref option"
  hc_ho_target_cell :: neighbor_ident_key
  hc_failures :: int
  hc_penalty_timers :: "penalty_obj penalty_timers option"
  hc_codec_list :: "gsm0808_speech_codec_type list"

datatype ho_reason =
    HO_REASON_INTERFERENCE | HO_REASON_BAD_QUALITY | HO_REASON_LOW_RXLEVEL | HO_REASON_MAX_DISTANCE
  | HO_REASON_BETTER_CELL | HO_REASON_CONGESTION

record 'v ho_net =
  hn_bts :: "ho_bts list"
  hn_meas :: "lchan_ref \<Rightarrow> meas_lchan"
  hn_neigh :: "lchan_ref \<Rightarrow> neigh_meas_proc list"
  hn_conn :: "conn_ref \<Rightarrow> ho_conn"
  hn_cells :: "'v neighbor_ident_list option"
  hn_time :: u32
  global_ho_reason :: ho_reason
  congestion_check_interval_s :: u32
  congestion_check_timer :: "u32 option"
  hodec2_initialized :: bool

record ho_candidate =
  ca_lchan :: lchan_ref
  ca_nik :: neighbor_ident_key
  ca_bts :: "nat option"
  ca_cil :: "neighbor_ident_key option"
  ca_requirements :: u8
  ca_avg :: int

text \<open>The request to start a handover; \<^const>\<open>GSM_LCHAN_NONE\<close> asks for any type.\<close>

record handover_out_req =
  hr_old_lchan :: lchan_ref
  hr_target_nik :: neighbor_ident_key
  hr_new_lchan_type :: gsm_chan_t

definition REQUIREMENT_A_TCHF :: u8 where "REQUIREMENT_A_TCHF = 0x01"
definition REQUIREMENT_B_TCHF :: u8 where "REQUIREMENT_B_TCHF = 0x02"
definition REQUIREMENT_C_TCHF :: u8 where "REQUIREMENT_C_TCHF = 0x04"
definition REQUIREMENT_A_TCHH :: u8 where "REQUIREMENT_A_TCHH = 0x10"
definition REQUIREMENT_B_TCHH :: u8 where "REQUIREMENT_B_TCHH = 0x20"
definition REQUIREMENT_C_TCHH :: u8 where "REQUIREMENT_C_TCHH = 0x40"
definition REQUIREMENT_TCHF_MASK :: u8 where "REQUIREMENT_TCHF_MASK = REQUIREMENT_A_TCHF OR REQUIREMENT_B_TCHF OR REQUIREMENT_C_TCHF"
definition REQUIREMENT_TCHH_MASK :: u8 where "REQUIREMENT_TCHH_MASK = REQUIREMENT_A_TCHH OR REQUIREMENT_B_TCHH OR REQUIREMENT_C_TCHH"
definition REQUIREMENT_A_MASK :: u8 where "REQUIREMENT_A_MASK = REQUIREMENT_A_TCHF OR REQUIREMENT_A_TCHH"
definition REQUIREMENT_B_MASK :: u8 where "REQUIREMENT_B_MASK = REQUIREMENT_B_TCHF OR REQUIREMENT_B_TCHH"
definition REQUIREMENT_C_MASK :: u8 where "REQUIREMENT_C_MASK = REQUIREMENT_C_TCHF OR REQUIREMENT_C_TCHH"

definition bts_at :: "'v ho_net \<Rightarrow> nat \<Rightarrow> ho_bts" where
  "bts_at w b = hn_bts w ! b"

definition cfg_at :: "'v ho_net \<Rightarrow> nat \<Rightarrow> hodec2_cfg" where
  "cfg_at w b = bts_ho (bts_at w b)"

fun lchan_at :: "'v ho_net \<Rightarrow> lchan_ref \<Rightarrow> gsm_lchan" where
  "lchan_at w (b, t, s, l) = lchans (trx_ts (trx_list (bts_at w b) ! t) ! s) ! l"

fun lchan_bts :: "lchan_ref \<Rightarrow> nat" where
  "lchan_bts (b, t, s, l) = b"

definition free_ts :: "'v ho_net \<Rightarrow> nat \<Rightarrow> gsm_phys_chan_config \<Rightarrow> int" where
  "free_ts w b pchan = int (bts_count_free_ts (gsm_bts.truncate (bts_at w b)) pchan)"

section \<open>Handover logic\<close>

definition bts_handover_count :: "'v ho_net \<Rightarrow> nat \<Rightarrow> u16 \<Rightarrow> nat" where
  "bts_handover_count w b ho_scopes =
     length (concat (map (\<lambda>trx. concat (map (\<lambda>ts.
         if \<not> nm_is_running (ts_mo ts) then []
         else filter (\<lambda>l. case lc_conn (lchans ts ! l) of
                None \<Rightarrow> False
              | Some c \<Rightarrow> hc_ho_fi (hn_conn w c) \<and> scope_bits (hc_ho_scope (hn_conn w c)) AND ho_scopes \<noteq> 0)
            (ts_for_each_lchan ts)) (trx_ts trx))) (trx_list (bts_at w b))))"

definition bts_c0_arfcn :: "ho_bts \<Rightarrow> u16" where
  "bts_c0_arfcn b = trx_arfcn (trx_list b ! 0)"

fun find_neighbor_bts :: "ho_bts list \<Rightarrow> nat \<Rightarrow> neighbor_ident_key \<Rightarrow> nat option \<Rightarrow> nat option \<Rightarrow> nat option" where
  "find_neighbor_bts [] i search_for found wildcard_match = (case found of Some b \<Rightarrow> Some b | None \<Rightarrow> wildcard_match)"
| "find_neighbor_bts (b # bs) i search_for found wildcard_match =
     (let entry = \<lparr> from_bts = NEIGHBOR_IDENT_KEY_ANY_BTS, ni_arfcn = bts_c0_arfcn b, ni_bsic = bts_bsic b \<rparr>;
          exact = neighbor_ident_key_match entry search_for True
      in if exact \<and> found \<noteq> None then found
         else find_neighbor_bts bs (Suc i) search_for (if exact then Some i else found)
                (if neighbor_ident_key_match entry search_for False then Some i else wildcard_match))"

definition bts_by_neighbor_ident :: "'v ho_net \<Rightarrow> neighbor_ident_key \<Rightarrow> nat option" where
  "bts_by_neighbor_ident w search_for = find_neighbor_bts (hn_bts w) 0 search_for None None"

definition bts_ident_key :: "ho_bts \<Rightarrow> neighbor_ident_key" where
  "bts_ident_key b = \<lparr> from_bts = 0, ni_arfcn = bts_c0_arfcn b, ni_bsic = bts_bsic b \<rparr>"

text \<open>The entry that \<^verbatim>\<open>neighbor_ident_get\<close> finds, by its key.\<close>

definition neighbor_cil :: "'v ho_net \<Rightarrow> neighbor_ident_key \<Rightarrow> neighbor_ident_key option" where
  "neighbor_cil w key = (case hn_cells w of None \<Rightarrow> None | Some nil \<Rightarrow> map_option (\<lambda>i. fst (nil ! i)) (ident_get nil 0 key False None))"

section \<open>Congestion timer and penalties\<close>

definition reinit_congestion_timer :: "'v ho_net \<Rightarrow> 'v ho_net" where
  "reinit_congestion_timer w =
     (if \<not> hodec2_initialized w then w
      else if sint (congestion_check_interval_s w) < 1 then w\<lparr> congestion_check_timer := None \<rparr>
      else w\<lparr> congestion_check_timer := Some (congestion_check_interval_s w) \<rparr>)"

definition hodec2_on_change_congestion_check_interval :: "u32 \<Rightarrow> 'v ho_net \<Rightarrow> 'v ho_net" where
  "hodec2_on_change_congestion_check_interval new_interval w =
     reinit_congestion_timer (w\<lparr> congestion_check_interval_s := new_interval \<rparr>)"

definition upd_conn2 :: "conn_ref \<Rightarrow> (ho_conn \<Rightarrow> ho_conn) \<Rightarrow> 'v ho_net \<Rightarrow> 'v ho_net" where
  "upd_conn2 c f w = w\<lparr> hn_conn := (hn_conn w)(c := f (hn_conn w c)) \<rparr>"

definition conn_penalty_time_add :: "conn_ref \<Rightarrow> penalty_obj option \<Rightarrow> int \<Rightarrow> 'v ho_net \<Rightarrow> 'v ho_net" where
  "conn_penalty_time_add c for_object penalty_time w =
     (case for_object of
        None \<Rightarrow> w
      | Some obj \<Rightarrow> upd_conn2 c (\<lambda>conn. conn\<lparr> hc_penalty_timers := Some (penalty_timers_add (hn_time w) obj penalty_time
          (case hc_penalty_timers conn of None \<Rightarrow> penalty_timers_init | Some pt \<Rightarrow> pt)) \<rparr>) w)"

definition nik_penalty_time_add :: "conn_ref \<Rightarrow> neighbor_ident_key \<Rightarrow> int \<Rightarrow> 'v ho_net \<Rightarrow> 'v ho_net" where
  "nik_penalty_time_add c nik penalty_time w = conn_penalty_time_add c (map_option PEN_CIL (neighbor_cil w nik)) penalty_time w"

definition bts_penalty_time_add :: "conn_ref \<Rightarrow> nat \<Rightarrow> int \<Rightarrow> 'v ho_net \<Rightarrow> 'v ho_net" where
  "bts_penalty_time_add c b penalty_time = conn_penalty_time_add c (Some (PEN_BTS b)) penalty_time"

definition conn_penalty_time_remaining :: "'v ho_net \<Rightarrow> ho_conn \<Rightarrow> penalty_obj \<Rightarrow> u32" where
  "conn_penalty_time_remaining w conn obj =
     (case hc_penalty_timers conn of None \<Rightarrow> 0 | Some pt \<Rightarrow> penalty_timers_remaining (hn_time w) obj pt)"

section \<open>Measured neighbors\<close>

definition cell_in_rep :: "gsm_meas_rep \<Rightarrow> u16 \<Rightarrow> u8 \<Rightarrow> nat option" where
  "cell_in_rep mr arfcn bsic =
     find (\<lambda>i. mc_arfcn (mr_cells mr ! i) = arfcn \<and> mc_bsic (mr_cells mr ! i) = bsic) [0..<length (mr_cells mr)]"

definition hodec2_neigh_meas_avg :: "neigh_meas_proc \<Rightarrow> int \<Rightarrow> int" where
  "hodec2_neigh_meas_avg nmp window0 =
     (let window = (if window0 > int (nm_rxlev_cnt nmp) then int (nm_rxlev_cnt nmp) else window0) in
      if window \<le> 0 then 0
      else let idx = calc_initial_idx (length (nm_rxlev nmp)) (nm_rxlev_cnt nmp mod length (nm_rxlev nmp)) (nat window)
           in fold (\<lambda>i avg. avg + uint (nm_rxlev nmp ! ((idx + i) mod 2 ^ 32 mod length (nm_rxlev nmp)))) [0..<nat window] 0 sdiv window)"

fun worst_neigh_from :: "neigh_meas_proc list \<Rightarrow> nat \<Rightarrow> nat option \<Rightarrow> int \<Rightarrow> nat option" where
  "worst_neigh_from [] j nmp_worst worst = nmp_worst"
| "worst_neigh_from (nmp # ns) j nmp_worst worst =
     (let avg = hodec2_neigh_meas_avg nmp (int MAX_WIN_NEIGH_AVG) in
      if nmp_worst \<noteq> None \<and> avg \<ge> worst then worst_neigh_from ns (Suc j) nmp_worst worst
      else worst_neigh_from ns (Suc j) (Some j) avg)"

definition find_unused_or_worst_neigh :: "neigh_meas_proc list \<Rightarrow> nat option" where
  "find_unused_or_worst_neigh neigh =
     (case find (\<lambda>j. nm_arfcn (neigh ! j) = 0) [0..<length neigh] of
        Some j \<Rightarrow> Some j
      | None \<Rightarrow> worst_neigh_from neigh 0 None 0)"

fun hodec2_update_neighs :: "neigh_meas_proc list \<Rightarrow> gsm_meas_rep \<Rightarrow> neigh_meas_proc list \<times> gsm_meas_rep" where
  "hodec2_update_neighs [] mr = ([], mr)"
| "hodec2_update_neighs (nmp # ns) mr =
     (let (nmp, mr) =
        (if nm_arfcn nmp = 0 then (nmp, mr)
         else let idx = nm_rxlev_cnt nmp mod length (nm_rxlev nmp) in
           case cell_in_rep mr (nm_arfcn nmp) (nm_bsic nmp) of
             Some i \<Rightarrow>
               (nmp\<lparr> nm_rxlev := (nm_rxlev nmp)[idx := mc_rxlev (mr_cells mr ! i)], nm_last_seen_nr := mr_nr mr,
                     nm_rxlev_cnt := nm_rxlev_cnt nmp + 1 \<rparr>,
                mr\<lparr> mr_cells := (mr_cells mr)[i := (mr_cells mr ! i)\<lparr> mc_processed := True \<rparr>] \<rparr>)
           | None \<Rightarrow> (nmp\<lparr> nm_rxlev := (nm_rxlev nmp)[idx := 0], nm_rxlev_cnt := nm_rxlev_cnt nmp + 1 \<rparr>, mr));
        (ns, mr) = hodec2_update_neighs ns mr
      in (nmp # ns, mr))"

fun hodec2_add_neighs :: "u8 \<Rightarrow> gsm_meas_rep_cell list \<Rightarrow> neigh_meas_proc list \<Rightarrow> gsm_meas_rep_cell list \<times> neigh_meas_proc list" where
  "hodec2_add_neighs nr [] neigh = ([], neigh)"
| "hodec2_add_neighs nr (mrc # cells) neigh =
     (let (mrc, neigh) =
        (if mc_processed mrc then (mrc, neigh)
         else case find_unused_or_worst_neigh neigh of
           None \<Rightarrow> (mrc, neigh)
         | Some j \<Rightarrow>
             let nmp = (neigh ! j)\<lparr> nm_arfcn := mc_arfcn mrc, nm_bsic := mc_bsic mrc, nm_rxlev_cnt := 0 \<rparr>;
                 idx = nm_rxlev_cnt nmp mod length (nm_rxlev nmp);
                 nmp = nmp\<lparr> nm_rxlev := (nm_rxlev nmp)[idx := mc_rxlev mrc], nm_rxlev_cnt := nm_rxlev_cnt nmp + 1, nm_last_seen_nr := nr \<rparr>
             in (mrc\<lparr> mc_processed := True \<rparr>, neigh[j := nmp]));
        (cells, neigh) = hodec2_add_neighs nr cells neigh
      in (mrc # cells, neigh))"

definition hodec2_process_meas_neigh :: "gsm_meas_rep \<Rightarrow> neigh_meas_proc list \<Rightarrow> gsm_meas_rep \<times> neigh_meas_proc list" where
  "hodec2_process_meas_neigh mr neigh =
     (let (neigh, mr) = hodec2_update_neighs neigh mr;
          (cells, neigh) = hodec2_add_neighs (mr_nr mr) (mr_cells mr) neigh
      in (mr\<lparr> mr_cells := cells \<rparr>, neigh))"

section \<open>Requirements\<close>

definition codec_type_is_supported :: "ho_conn \<Rightarrow> gsm0808_speech_codec_type \<Rightarrow> bool" where
  "codec_type_is_supported conn type = (hc_codec_list conn = [] \<or> type \<in> set (hc_codec_list conn))"

text \<open>
  What the codec of the call allows on a cell that supports HR, EFR and AMR as given; \<^const>\<open>None\<close> is a return
  with 0 from inside the switch.
\<close>

definition codec_requirement :: "bool \<Rightarrow> bool \<Rightarrow> bool \<Rightarrow> gsm_lchan \<Rightarrow> ho_conn \<Rightarrow> u8 option" where
  "codec_requirement hr efr amr lchan conn =
     (case tch_mode lchan of
        GSM48_CMODE_SPEECH_V1 \<Rightarrow>
          (case lc_type lchan of
             GSM_LCHAN_TCH_F \<Rightarrow> Some REQUIREMENT_A_TCHF
           | GSM_LCHAN_TCH_H \<Rightarrow>
               if \<not> hr then Some 0
               else if codec_type_is_supported conn GSM0808_SCT_HR1 then Some REQUIREMENT_A_TCHH else Some 0
           | _ \<Rightarrow> None)
      | GSM48_CMODE_SPEECH_EFR \<Rightarrow>
          if \<not> efr then Some 0
          else if codec_type_is_supported conn GSM0808_SCT_FR2 then Some REQUIREMENT_A_TCHF else Some 0
      | GSM48_CMODE_SPEECH_AMR \<Rightarrow>
          if \<not> amr then Some 0
          else Some ((if codec_type_is_supported conn GSM0808_SCT_FR3 then REQUIREMENT_A_TCHF else 0) OR
                     (if codec_type_is_supported conn GSM0808_SCT_HR3 then REQUIREMENT_A_TCHH else 0))
      | _ \<Rightarrow> None)"

definition drop_req :: "u8 \<Rightarrow> u8 \<Rightarrow> u8" where
  "drop_req r requirement = requirement AND NOT r"

definition check_requirements :: "'v ho_net \<Rightarrow> lchan_ref \<Rightarrow> ho_conn \<Rightarrow> nat \<Rightarrow> int \<Rightarrow> int \<Rightarrow> u8" where
  "check_requirements w r conn b tchf_count tchh_count =
     (let lchan = lchan_at w r; current_bts = lchan_bts r; bts = bts_at w b; cfg = cfg_at w b in
      if current_bts = b \<and> \<not> h2_as_active cfg then 0
      else if current_bts \<noteq> b \<and> \<not> h2_ho_active cfg then 0
      else if conn_penalty_time_remaining w conn (PEN_BTS b) \<noteq> 0 then 0
      else case codec_requirement (codec_hr bts) (codec_efr bts) (codec_amr bts) lchan conn of
        None \<Rightarrow> 0
      | Some requirement \<Rightarrow>
          if requirement = 0 then 0
          else
            let requirement = (if tchf_count = 0 \<and> requirement AND REQUIREMENT_A_TCHF \<noteq> 0
                               then drop_req REQUIREMENT_A_TCHF requirement else requirement);
                requirement = (if tchh_count = 0 \<and> requirement AND REQUIREMENT_A_TCHH \<noteq> 0
                               then drop_req REQUIREMENT_A_TCHH requirement else requirement)
            in if requirement = 0 then 0
            else
              let requirement = (if b = current_bts then
                    (case lc_type lchan of
                       GSM_LCHAN_TCH_F \<Rightarrow> drop_req REQUIREMENT_A_TCHF requirement
                     | GSM_LCHAN_TCH_H \<Rightarrow> drop_req REQUIREMENT_A_TCHH requirement
                     | _ \<Rightarrow> requirement) else requirement)
              in if b = current_bts \<and> requirement = 0 then 0
              else if current_bts \<noteq> b \<and> int (bts_handover_count w b HO_SCOPE_ALL) \<ge> h2_ho_max cfg then 0
              else
                let requirement = (if requirement AND REQUIREMENT_A_TCHF \<noteq> 0 \<and> tchf_count - 1 \<ge> h2_tchf_min_slots cfg
                                   then requirement OR REQUIREMENT_B_TCHF else requirement);
                    requirement = (if requirement AND REQUIREMENT_A_TCHH \<noteq> 0 \<and> tchh_count - 1 \<ge> h2_tchh_min_slots cfg
                                   then requirement OR REQUIREMENT_B_TCHH else requirement);
                    count = free_ts w current_bts (if lc_type lchan = GSM_LCHAN_TCH_H then GSM_PCHAN_TCH_H else GSM_PCHAN_TCH_F);
                    requirement = (if requirement AND REQUIREMENT_A_TCHF \<noteq> 0 \<and> tchf_count - 1 \<ge> count + 1
                                   then requirement OR REQUIREMENT_C_TCHF else requirement);
                    requirement = (if requirement AND REQUIREMENT_A_TCHH \<noteq> 0 \<and> tchh_count - 1 \<ge> count + 1
                                   then requirement OR REQUIREMENT_C_TCHH else requirement)
                in requirement)"

definition check_requirements_remote_bss :: "'v ho_net \<Rightarrow> lchan_ref \<Rightarrow> ho_conn \<Rightarrow> neighbor_ident_key \<Rightarrow> u8" where
  "check_requirements_remote_bss w r conn cil =
     (if conn_penalty_time_remaining w conn (PEN_CIL cil) \<noteq> 0 then 0
      else case codec_requirement True True True (lchan_at w r) conn of
        None \<Rightarrow> 0
      | Some requirement \<Rightarrow>
          if requirement = 0 then 0
          else
            let requirement = (if requirement AND REQUIREMENT_A_TCHF \<noteq> 0
                               then requirement OR (REQUIREMENT_B_TCHF OR REQUIREMENT_C_TCHF) else requirement);
                requirement = (if requirement AND REQUIREMENT_A_TCHH \<noteq> 0
                               then requirement OR (REQUIREMENT_B_TCHH OR REQUIREMENT_C_TCHH) else requirement)
            in requirement)"

section \<open>Starting a handover or an assignment\<close>

text \<open>The type of the new lchan, or the code returned without a request.\<close>

definition choose_rate :: "'v ho_net \<Rightarrow> ho_candidate \<Rightarrow> nat \<Rightarrow> u8 \<Rightarrow> int + gsm_chan_t" where
  "choose_rate w c new_bts requirements =
     (let lchan = lchan_at w (ca_lchan c); current_bts = lchan_bts (ca_lchan c);
          afs_bias = (if tch_mode lchan = GSM48_CMODE_SPEECH_AMR then h2_afs_bias_rxlev (cfg_at w new_bts) else 0);
          tchf = (requirements AND REQUIREMENT_TCHF_MASK \<noteq> 0); tchh = (requirements AND REQUIREMENT_TCHH_MASK \<noteq> 0)
      in case lc_type lchan of
        GSM_LCHAN_TCH_F \<Rightarrow>
          if tchf then (if current_bts = new_bts then Inl 0 else Inr GSM_LCHAN_TCH_F)
          else if \<not> tchh then Inl (- EINVAL)
          else Inr GSM_LCHAN_TCH_H
      | GSM_LCHAN_TCH_H \<Rightarrow>
          if afs_bias > 0 \<and> tchf then Inr GSM_LCHAN_TCH_F
          else if tchf \<and> \<not> tchh then Inr GSM_LCHAN_TCH_F
          else if \<not> tchh then Inl (- EINVAL)
          else if current_bts = new_bts then Inl 0
          else Inr GSM_LCHAN_TCH_H
      | _ \<Rightarrow> Inl (- EINVAL))"

definition trigger_local_ho_or_as :: "(handover_out_req \<Rightarrow> 'v ho_net \<Rightarrow> 'v ho_net) \<Rightarrow> ho_candidate \<Rightarrow> nat \<Rightarrow> u8 \<Rightarrow> 'v ho_net \<Rightarrow> int \<times> 'v ho_net" where
  "trigger_local_ho_or_as hreq c new_bts requirements w =
     (case choose_rate w c new_bts requirements of
        Inl rc \<Rightarrow> (rc, w)
      | Inr t \<Rightarrow> (0, hreq \<lparr> hr_old_lchan = ca_lchan c, hr_target_nik = bts_ident_key (bts_at w new_bts), hr_new_lchan_type = t \<rparr> w))"

definition trigger_remote_bss_ho :: "(handover_out_req \<Rightarrow> 'v ho_net \<Rightarrow> 'v ho_net) \<Rightarrow> ho_candidate \<Rightarrow> 'v ho_net \<Rightarrow> int \<times> 'v ho_net" where
  "trigger_remote_bss_ho hreq c w = (0, hreq \<lparr> hr_old_lchan = ca_lchan c, hr_target_nik = ca_nik c, hr_new_lchan_type = GSM_LCHAN_NONE \<rparr> w)"

definition trigger_ho :: "(handover_out_req \<Rightarrow> 'v ho_net \<Rightarrow> 'v ho_net) \<Rightarrow> ho_candidate \<Rightarrow> u8 \<Rightarrow> 'v ho_net \<Rightarrow> int \<times> 'v ho_net" where
  "trigger_ho hreq c requirements w =
     (case ca_bts c of Some b \<Rightarrow> trigger_local_ho_or_as hreq c b requirements w | None \<Rightarrow> trigger_remote_bss_ho hreq c w)"

section \<open>Candidates\<close>

text \<open>The key of a candidate for an assignment is not set: all its members are 0.\<close>

definition collect_assignment_candidate :: "'v ho_net \<Rightarrow> lchan_ref \<Rightarrow> ho_conn \<Rightarrow> int \<Rightarrow> ho_candidate" where
  "collect_assignment_candidate w r conn av_rxlev =
     (let b = lchan_bts r; tchf_count = free_ts w b GSM_PCHAN_TCH_F; tchh_count = free_ts w b GSM_PCHAN_TCH_H
      in \<lparr> ca_lchan = r, ca_nik = \<lparr> from_bts = 0, ni_arfcn = 0, ni_bsic = 0 \<rparr>, ca_bts = Some b, ca_cil = None,
           ca_requirements = check_requirements w r conn b tchf_count tchh_count, ca_avg = av_rxlev \<rparr>)"

definition collect_handover_candidate :: "(u8 \<Rightarrow> int) \<Rightarrow> 'v ho_net \<Rightarrow> lchan_ref \<Rightarrow> ho_conn \<Rightarrow> bool \<Rightarrow> int \<Rightarrow> neigh_meas_proc \<Rightarrow> ho_candidate option" where
  "collect_handover_candidate dbm w r conn include_weaker_rxlev av_rxlev nmp =
     (let b = lchan_bts r; ni = \<lparr> from_bts = uint (bts_nr (bts_at w b)), ni_arfcn = nm_arfcn nmp, ni_bsic = nm_bsic nmp \<rparr> in
      if nm_arfcn nmp = 0 then None
      else if nm_last_seen_nr nmp \<noteq> last_seen_nr (hn_meas w r) then None
      else
        let neighbor_bts = bts_by_neighbor_ident w ni;
            cil = (if neighbor_bts \<noteq> None then None else neighbor_cil w ni)
        in if neighbor_bts = None \<and> cil = None then None
        else if neighbor_bts = Some b then None
        else
          let neigh_cfg = (case neighbor_bts of Some n \<Rightarrow> cfg_at w n | None \<Rightarrow> cfg_at w b);
              avg = hodec2_neigh_meas_avg nmp (int (h2_rxlev_neigh_avg_win (cfg_at w b)))
          in if \<not> include_weaker_rxlev \<and> avg \<le> av_rxlev + int (h2_pwr_hysteresis (cfg_at w b)) then None
          else if dbm (word_of_int avg) < h2_min_rxlev neigh_cfg then None
          else
            let requirements = (case neighbor_bts of
                  Some n \<Rightarrow> check_requirements w r conn n (free_ts w n GSM_PCHAN_TCH_F) (free_ts w n GSM_PCHAN_TCH_H)
                | None \<Rightarrow> (case cil of None \<Rightarrow> 0 | Some k \<Rightarrow> check_requirements_remote_bss w r conn k))
            in Some \<lparr> ca_lchan = r, ca_nik = ni, ca_bts = neighbor_bts, ca_cil = cil, ca_requirements = requirements, ca_avg = avg \<rparr>)"

text \<open>The candidates and the average level of the lchan, negative when there are not enough reports.\<close>

definition lchan_av_rxlev :: "'v ho_net \<Rightarrow> lchan_ref \<Rightarrow> int" where
  "lchan_av_rxlev w r =
     (let cfg = cfg_at w (lchan_bts r)
      in get_meas_rep_avg (hn_meas w r) (if h2_full_tdma cfg then MEAS_REP_DL_RXLEV_FULL else MEAS_REP_DL_RXLEV_SUB) (h2_rxlev_avg_win cfg))"

definition collect_candidates_for_lchan :: "(u8 \<Rightarrow> int) \<Rightarrow> 'v ho_net \<Rightarrow> lchan_ref \<Rightarrow> ho_conn \<Rightarrow> bool \<Rightarrow> ho_candidate list" where
  "collect_candidates_for_lchan dbm w r conn include_weaker_rxlev =
     (let cfg = cfg_at w (lchan_bts r); av_rxlev = lchan_av_rxlev w r in
      if av_rxlev < 0 then []
      else (if h2_as_active cfg then [collect_assignment_candidate w r conn av_rxlev] else []) @
           (if h2_ho_active cfg then List.map_filter (collect_handover_candidate dbm w r conn include_weaker_rxlev av_rxlev) (hn_neigh w r)
            else []))"

section \<open>An alternative for one lchan\<close>

text \<open>The comparison is one of \<^verbatim>\<open>unsigned int\<close>: a signed difference is converted.\<close>

fun pick_best :: "(ho_candidate \<Rightarrow> int option) \<Rightarrow> ho_candidate list \<Rightarrow> ho_candidate option \<Rightarrow> u32 \<Rightarrow> ho_candidate option" where
  "pick_best score [] best_cand best_better_db = best_cand"
| "pick_best score (c # cs) best_cand best_better_db =
     (case score c of
        None \<Rightarrow> pick_best score cs best_cand best_better_db
      | Some better \<Rightarrow>
          if word_of_int better > best_better_db then pick_best score cs (Some c) (word_of_int better)
          else pick_best score cs best_cand best_better_db)"

text \<open>The gain of a candidate that meets a requirement, with the bias for a change from AHS to AFS.\<close>

definition gain :: "'v ho_net \<Rightarrow> bool \<Rightarrow> int \<Rightarrow> u8 \<Rightarrow> u8 \<Rightarrow> bool \<Rightarrow> ho_candidate \<Rightarrow> int option" where
  "gain w ahs av_rxlev msk tchf local_only c =
     (if ca_requirements c AND msk = 0 then None
      else if local_only \<and> ca_bts c = None then None
      else Some (ca_avg c - av_rxlev +
             (case ca_bts c of
                Some b \<Rightarrow> if ahs \<and> ca_requirements c AND tchf \<noteq> 0 then h2_afs_bias_rxlev (cfg_at w b) else 0
              | None \<Rightarrow> 0)))"

definition find_alternative_lchan :: "(handover_out_req \<Rightarrow> 'v ho_net \<Rightarrow> 'v ho_net) \<Rightarrow> (u8 \<Rightarrow> int) \<Rightarrow> lchan_ref \<Rightarrow> ho_conn \<Rightarrow> bool \<Rightarrow> 'v ho_net \<Rightarrow> int \<times> 'v ho_net" where
  "find_alternative_lchan hreq dbm r conn include_weaker_rxlev w =
     (let cfg = cfg_at w (lchan_bts r); lchan = lchan_at w r;
          ahs = (tch_mode lchan = GSM48_CMODE_SPEECH_AMR \<and> lc_type lchan = GSM_LCHAN_TCH_H) in
      if \<not> h2_as_active cfg \<and> \<not> h2_ho_active cfg then (0, w)
      else
        let clist = collect_candidates_for_lchan dbm w r conn include_weaker_rxlev; av_rxlev = lchan_av_rxlev w r in
        if clist = [] then (0, w)
        else case pick_best (gain w ahs av_rxlev REQUIREMENT_B_MASK REQUIREMENT_B_TCHF True) clist None 0 of
          Some c \<Rightarrow> trigger_ho hreq c (ca_requirements c AND REQUIREMENT_B_MASK) w
        | None \<Rightarrow>
            (case pick_best (gain w ahs av_rxlev REQUIREMENT_C_MASK REQUIREMENT_C_TCHF True) clist None 0 of
               Some c \<Rightarrow> trigger_ho hreq c (ca_requirements c AND REQUIREMENT_C_MASK) w
             | None \<Rightarrow>
                 if \<not> include_weaker_rxlev then (0, w)
                 else (case pick_best (gain w ahs av_rxlev REQUIREMENT_A_MASK REQUIREMENT_A_TCHF False) clist None 0 of
                    Some c \<Rightarrow> trigger_ho hreq c (ca_requirements c AND REQUIREMENT_A_MASK) w
                  | None \<Rightarrow> (0, w))))"

text \<open>
  A measurement report \<open>mr\<close> of the lchan \<open>r\<close>, already stored in its ring buffer; the result has the report with
  its cells marked.  \<open>Abort\<close> is the assertion on the interval.
\<close>

definition hodec2_on_measurement_report :: "(handover_out_req \<Rightarrow> 'v ho_net \<Rightarrow> 'v ho_net) \<Rightarrow> (u8 \<Rightarrow> int) \<Rightarrow> lchan_ref \<Rightarrow> gsm_meas_rep
    \<Rightarrow> 'v ho_net \<Rightarrow> (gsm_meas_rep \<times> 'v ho_net) res" where
  "hodec2_on_measurement_report hreq dbm r mr w =
     (let lchan = lchan_at w r; b = lchan_bts r; cfg = cfg_at w b in
      if lc_type lchan \<notin> {GSM_LCHAN_TCH_F, GSM_LCHAN_TCH_H} then Ok (mr, w)
      else
        let (mr, w) = (if length (mr_cells mr) > 0 \<and> length (mr_cells mr) < 7
                       then let (mr, neigh) = hodec2_process_meas_neigh mr (hn_neigh w r) in (mr, w\<lparr> hn_neigh := (hn_neigh w)(r := neigh) \<rparr>)
                       else (mr, w))
        in case lc_conn lchan of
          None \<Rightarrow> Ok (mr, w)
        | Some c \<Rightarrow>
            if hc_assignment_new_lchan (hn_conn w c) \<noteq> None then Ok (mr, w)
            else if hc_ho_fi (hn_conn w c) then Ok (mr, w)
            else
              let av_rxlev = lchan_av_rxlev w r;
                  av_rxqual = get_meas_rep_avg (hn_meas w r)
                    (if h2_full_tdma cfg then MEAS_REP_DL_RXQUAL_FULL else MEAS_REP_DL_RXQUAL_SUB) (h2_rxqual_avg_win cfg)
              in if av_rxlev < 0 \<and> av_rxqual < 0 then Ok (mr, w)
              else
                let afs = (lc_type lchan = GSM_LCHAN_TCH_F \<and> tch_mode lchan = GSM48_CMODE_SPEECH_AMR);
                    av_rxlev = (if afs \<and> av_rxlev \<ge> 0 then av_rxlev + h2_afs_bias_rxlev cfg else av_rxlev);
                    av_rxqual = (if afs \<and> av_rxqual \<ge> 0 then max 0 (av_rxqual - h2_afs_bias_rxqual cfg) else av_rxqual);
                    alternative = (\<lambda>weaker w. Ok (mr, snd (find_alternative_lchan hreq dbm r (hn_conn w c) weaker w)))
                in if av_rxqual \<ge> 0 \<and> av_rxqual > h2_min_rxqual cfg then
                     alternative True (w\<lparr> global_ho_reason :=
                       (if dbm (word_of_int av_rxlev) > -85 then HO_REASON_INTERFERENCE else HO_REASON_BAD_QUALITY) \<rparr>)
                   else if av_rxlev \<ge> 0 \<and> dbm (word_of_int av_rxlev) < h2_min_rxlev cfg then
                     alternative True (w\<lparr> global_ho_reason := HO_REASON_LOW_RXLEVEL \<rparr>)
                   else if meas_rep_count (hn_meas w r) > 0 \<and> unat (ml_rqd_ta (hn_meas w r)) > h2_max_distance cfg then
                     alternative True (bts_penalty_time_add c b (h2_penalty_max_dist cfg) (w\<lparr> global_ho_reason := HO_REASON_MAX_DISTANCE \<rparr>))
                   else if h2_pwr_interval cfg = 0 then Abort
                   else if av_rxlev \<ge> 0 \<and> unat (mr_nr mr) mod h2_pwr_interval cfg = 0 then
                     alternative False (w\<lparr> global_ho_reason := HO_REASON_BETTER_CELL \<rparr>)
                   else Ok (mr, w))"

section \<open>Congestion\<close>

text \<open>The lchans of a BTS that carry a call and have no handover or assignment going on, with their connections.\<close>

definition movable :: "'v ho_net \<Rightarrow> gsm_chan_t \<Rightarrow> lchan_ref \<Rightarrow> (lchan_ref \<times> ho_conn) list" where
  "movable w t r =
     (let lc = lchan_at w r in
      if lc_type lc \<noteq> t \<or> \<not> lchan_state_is lc LCHAN_ST_ESTABLISHED then []
      else case lc_conn lc of
        None \<Rightarrow> []
      | Some c \<Rightarrow> if hc_assignment_new_lchan (hn_conn w c) \<noteq> None \<or> hc_ho_fi (hn_conn w c) then [] else [(r, hn_conn w c)])"

definition movable_ts :: "'v ho_net \<Rightarrow> nat \<Rightarrow> nat \<Rightarrow> nat \<Rightarrow> (lchan_ref \<times> ho_conn) list" where
  "movable_ts w b t i =
     (let trx = trx_list (bts_at w b) ! t; ts = trx_ts trx ! i in
      if \<not> ts_is_usable (bts_type (bts_at w b)) trx ts then []
      else case pchan_is ts of
        GSM_PCHAN_TCH_F \<Rightarrow> movable w GSM_LCHAN_TCH_F (b, t, i, 0)
      | GSM_PCHAN_TCH_H \<Rightarrow> concat (map (\<lambda>j. movable w GSM_LCHAN_TCH_H (b, t, i, j)) [0..<2])
      | _ \<Rightarrow> [])"

definition congestion_candidates :: "(u8 \<Rightarrow> int) \<Rightarrow> 'v ho_net \<Rightarrow> nat \<Rightarrow> ho_candidate list" where
  "congestion_candidates dbm w b =
     concat (map (\<lambda>t. if \<not> trx_is_usable (bts_type (bts_at w b)) (trx_list (bts_at w b) ! t) then []
         else concat (map (\<lambda>i. concat (map (\<lambda>(r, conn). collect_candidates_for_lchan dbm w r conn True) (movable_ts w b t i))) [0..<8]))
       [0..<length (trx_list (bts_at w b))])"

text \<open>
  The level of a candidate for the best one that meets a requirement, leaving out changes from AHS to AFS on
  the same cell and lchans of a type that is not congested.
\<close>

definition solving_level :: "'v ho_net \<Rightarrow> int \<Rightarrow> int \<Rightarrow> u8 \<Rightarrow> u8 \<Rightarrow> ho_candidate \<Rightarrow> int option" where
  "solving_level w tchf_congestion tchh_congestion msk tchf c =
     (let lchan = lchan_at w (ca_lchan c) in
      case ca_bts c of
        None \<Rightarrow> None
      | Some b \<Rightarrow>
          if ca_requirements c AND msk = 0 then None
          else if lchan_bts (ca_lchan c) = b \<and> lc_type lchan = GSM_LCHAN_TCH_H \<and> ca_requirements c AND tchf \<noteq> 0 then None
          else if lc_type lchan = GSM_LCHAN_TCH_F \<and> tchf_congestion \<le> 0 then None
          else if lc_type lchan = GSM_LCHAN_TCH_H \<and> tchh_congestion \<le> 0 then None
          else Some (ca_avg c + (if tch_mode lchan = GSM48_CMODE_SPEECH_AMR \<and> lc_type lchan = GSM_LCHAN_TCH_H \<and> ca_requirements c AND tchf \<noteq> 0
                                 then h2_afs_bias_rxlev (cfg_at w b) else 0)))"

text \<open>The level of a candidate for the worst one that changes from AHS to AFS.\<close>

definition upgrade_level :: "'v ho_net \<Rightarrow> u8 \<Rightarrow> u8 \<Rightarrow> ho_candidate \<Rightarrow> int option" where
  "upgrade_level w msk tchf c =
     (let lchan = lchan_at w (ca_lchan c) in
      case ca_bts c of
        None \<Rightarrow> None
      | Some b \<Rightarrow>
          if ca_requirements c AND msk = 0 then None
          else if lchan_bts (ca_lchan c) \<noteq> b \<or> lc_type lchan \<noteq> GSM_LCHAN_TCH_H \<or> ca_requirements c AND tchf = 0 then None
          else Some (ca_avg c + (if tch_mode lchan = GSM48_CMODE_SPEECH_AMR \<and> lc_type lchan = GSM_LCHAN_TCH_H
                                 then h2_afs_bias_rxlev (cfg_at w b) else 0)))"

fun pick_worst :: "(ho_candidate \<Rightarrow> int option) \<Rightarrow> ho_candidate list \<Rightarrow> ho_candidate option \<Rightarrow> u32 \<Rightarrow> ho_candidate option" where
  "pick_worst level [] worst_cand worst_avg_db = worst_cand"
| "pick_worst level (c # cs) worst_cand worst_avg_db =
     (case level c of
        None \<Rightarrow> pick_worst level cs worst_cand worst_avg_db
      | Some avg \<Rightarrow>
          if word_of_int avg < worst_avg_db then pick_worst level cs (Some c) (word_of_int avg)
          else pick_worst level cs worst_cand worst_avg_db)"

text \<open>The candidate that is moved and the requirements it is moved with.\<close>

definition choose_congested :: "(u8 \<Rightarrow> int) \<Rightarrow> 'v ho_net \<Rightarrow> nat \<Rightarrow> int \<Rightarrow> int \<Rightarrow> (ho_candidate \<times> u8) option" where
  "choose_congested dbm w b tchf_congestion tchh_congestion =
     (let clist = congestion_candidates dbm w b;
          best = (\<lambda>msk tchf. map_option (\<lambda>c. (c, ca_requirements c AND msk))
                    (pick_best (solving_level w tchf_congestion tchh_congestion msk tchf) clist None 0));
          worst = (\<lambda>msk tchf. if tchh_congestion > 0
                    then map_option (\<lambda>c. (c, ca_requirements c AND msk)) (pick_worst (upgrade_level w msk tchf) clist None 999)
                    else None)
      in case best REQUIREMENT_B_MASK REQUIREMENT_B_TCHF of Some x \<Rightarrow> Some x
      | None \<Rightarrow> (case worst REQUIREMENT_B_MASK REQUIREMENT_B_TCHF of Some x \<Rightarrow> Some x
      | None \<Rightarrow> (case best REQUIREMENT_C_MASK REQUIREMENT_C_TCHF of Some x \<Rightarrow> Some x
      | None \<Rightarrow> worst REQUIREMENT_C_MASK REQUIREMENT_C_TCHF)))"

definition bts_resolve_congestion :: "(handover_out_req \<Rightarrow> 'v ho_net \<Rightarrow> 'v ho_net) \<Rightarrow> (u8 \<Rightarrow> int) \<Rightarrow> nat \<Rightarrow> int \<Rightarrow> int \<Rightarrow> 'v ho_net \<Rightarrow> 'v ho_net" where
  "bts_resolve_congestion hreq dbm b tchf_congestion0 tchh_congestion0 w =
     (let tchf_congestion = (if tchf_congestion0 < 0 then 0 else tchf_congestion0);
          tchh_congestion = (if tchh_congestion0 < 0 then 0 else tchh_congestion0)
      in case choose_congested dbm w b tchf_congestion tchh_congestion of
           None \<Rightarrow> w
         | Some (c, requirements) \<Rightarrow> snd (trigger_ho hreq c requirements w))"

definition bts_congestion_check :: "(handover_out_req \<Rightarrow> 'v ho_net \<Rightarrow> 'v ho_net) \<Rightarrow> (u8 \<Rightarrow> int) \<Rightarrow> nat \<Rightarrow> 'v ho_net \<Rightarrow> 'v ho_net" where
  "bts_congestion_check hreq dbm b w0 =
     (let w = w0\<lparr> global_ho_reason := HO_REASON_CONGESTION \<rparr>; cfg = cfg_at w b in
      if \<not> trx_is_usable (bts_type (bts_at w b)) (trx_list (bts_at w b) ! 0) then w
      else if \<not> h2_as_active cfg \<and> \<not> h2_ho_active cfg then w
      else
        let min_free_tchf = h2_tchf_min_slots cfg; min_free_tchh = h2_tchh_min_slots cfg in
        if min_free_tchf = 0 \<and> min_free_tchh = 0 then w
        else
          let tchf_count = free_ts w b GSM_PCHAN_TCH_F; tchh_count = free_ts w b GSM_PCHAN_TCH_H in
          if tchf_count \<ge> min_free_tchf \<and> tchh_count \<ge> min_free_tchh then w
          else bts_resolve_congestion hreq dbm b (min_free_tchf - tchf_count) (min_free_tchh - tchh_count) w)"

definition hodec2_congestion_check :: "(handover_out_req \<Rightarrow> 'v ho_net \<Rightarrow> 'v ho_net) \<Rightarrow> (u8 \<Rightarrow> int) \<Rightarrow> 'v ho_net \<Rightarrow> 'v ho_net" where
  "hodec2_congestion_check hreq dbm w = fold (bts_congestion_check hreq dbm) [0..<length (hn_bts w)] w"

definition congestion_check_cb :: "(handover_out_req \<Rightarrow> 'v ho_net \<Rightarrow> 'v ho_net) \<Rightarrow> (u8 \<Rightarrow> int) \<Rightarrow> 'v ho_net \<Rightarrow> 'v ho_net" where
  "congestion_check_cb hreq dbm w = reinit_congestion_timer (hodec2_congestion_check hreq dbm (w\<lparr> congestion_check_timer := None \<rparr>))"

section \<open>The end of a handover\<close>

definition on_handover_end :: "conn_ref \<Rightarrow> bool \<Rightarrow> 'v ho_net \<Rightarrow> 'v ho_net" where
  "on_handover_end c ok w =
     (let conn = hn_conn w c in
      if ok then w
      else case hc_lchan conn of
        None \<Rightarrow> w
      | Some r \<Rightarrow>
          let cfg = cfg_at w (lchan_bts r) in
          if hc_failures conn < h2_retries cfg then upd_conn2 c (\<lambda>conn. conn\<lparr> hc_failures := hc_failures conn + 1 \<rparr>) w
          else
            let penalty = (if hc_ho_scope conn = HO_INTRA_CELL then h2_penalty_failed_as cfg else h2_penalty_failed_ho cfg);
                w = upd_conn2 c (\<lambda>conn. conn\<lparr> hc_failures := 0 \<rparr>) w
            in case hc_ho_new_lchan conn of
                 Some n \<Rightarrow> bts_penalty_time_add c (lchan_bts n) penalty w
               | None \<Rightarrow> nik_penalty_time_add c (hc_ho_target_cell conn) penalty w)"

definition hodec2_init :: "'v ho_net \<Rightarrow> 'v ho_net" where
  "hodec2_init w = reinit_congestion_timer (w\<lparr> hodec2_initialized := True \<rparr>)"

end
