(* ===== verification/Hodec2_Props.thy ===== *)
theory Hodec2_Props
  imports Hodec2
begin

unbundle bit_operations_syntax

text \<open>
  Properties of handover decision 2: the requirements are the documented ones; the choice of the best
  candidate is right as long as no candidate is weaker than the current cell, and wrong otherwise; the
  arrays of candidates are long enough; moves that resolve congestion help; a penalty keeps a cell
  from being chosen.
\<close>

section \<open>Neighbor measurements are those of algorithm 1\<close>

lemma hodec2_neigh_meas_avg_eq: "hodec2_neigh_meas_avg nmp (int n) = neigh_meas_avg nmp n"
proof -
  have f: "fold (\<lambda>i avg. avg + uint (xs ! g i)) is a = fold (\<lambda>v avg. avg + uint v) (map (\<lambda>i. xs ! g i) is) a"
    for xs :: "u8 list" and g :: "nat \<Rightarrow> nat" and "is" and a :: int
    by (induction "is" arbitrary: a) auto
  show ?thesis
    unfolding hodec2_neigh_meas_avg_def neigh_meas_avg_def ring_window_def Let_def
    by (simp add: f)
qed

lemma worst_neigh_from_eq:
  "worst_neigh_from ns j (map_option fst acc) (case acc of None \<Rightarrow> 0 | Some (k, x) \<Rightarrow> x) = map_option fst (worst_neigh ns j acc)"
proof (induction ns arbitrary: j acc)
  case (Cons n ns)
  let ?avg = "neigh_meas_avg n MAX_WIN_NEIGH_AVG"
  show ?case
  proof (cases acc)
    case None
    then show ?thesis using Cons.IH[of "Suc j" "Some (j, ?avg)"] by (simp add: hodec2_neigh_meas_avg_eq Let_def)
  next
    case (Some a)
    then show ?thesis
      using Cons.IH[of "Suc j" "Some (j, ?avg)"] Cons.IH[of "Suc j" "Some a"]
      by (cases a) (simp add: hodec2_neigh_meas_avg_eq Let_def)
  qed
qed simp

lemma find_unused_eq: "find_unused_or_worst_neigh neigh = find_evict_neigh neigh"
  using worst_neigh_from_eq[of neigh 0 None] by (simp add: find_unused_or_worst_neigh_def find_evict_neigh_def cong: option.case_cong)

lemma update_neighs_eq: "hodec2_update_neighs ns mr = update_neighs ns mr"
  by (induction ns arbitrary: mr)
    (auto simp: update_neigh_def rxlev_for_cell_in_rep_def cell_in_rep_def store_rxlev_def Let_def split: option.splits prod.splits)

lemma add_neighs_eq: "hodec2_add_neighs nr cs ns = add_neighs nr cs ns"
  by (induction cs arbitrary: ns)
    (auto simp: find_unused_eq new_neigh_def store_rxlev_def Let_def split: option.splits prod.splits)

text \<open>Both algorithms keep the same table of measured neighbors.\<close>

lemma process_meas_neigh_eq: "hodec2_process_meas_neigh mr ns = process_meas_neigh mr ns"
  by (simp add: hodec2_process_meas_neigh_def process_meas_neigh_def update_neighs_eq add_neighs_eq)

section \<open>Choosing a candidate\<close>

lemma uint_u32_nonneg: "0 \<le> s \<Longrightarrow> s < 2 ^ 31 \<Longrightarrow> uint (word_of_int s :: u32) = s"
  by (simp add: uint_word_of_int)

lemma uint_u32_neg: "- (2 ^ 31) \<le> s \<Longrightarrow> s < 0 \<Longrightarrow> uint (word_of_int s :: u32) = s + 2 ^ 32"
proof -
  assume s: "- (2 ^ 31) \<le> s" "s < 0"
  have "s mod 2 ^ 32 = (s + 2 ^ 32) mod 2 ^ 32" by simp
  also have "\<dots> = s + 2 ^ 32" using s by (intro mod_pos_pos_trivial) auto
  finally show ?thesis by (simp add: uint_word_of_int)
qed

text \<open>The result of the search: the converted gain of the candidate is the largest one.\<close>

lemma pick_best_max:
  "pick_best score cs best x = best' \<Longrightarrow>
   (best' = best \<and> (\<forall>c \<in> set cs. \<forall>s. score c = Some s \<longrightarrow> word_of_int s \<le> x)) \<or>
   (\<exists>c s. best' = Some c \<and> c \<in> set cs \<and> score c = Some s \<and> word_of_int s > x \<and>
      (\<forall>c' \<in> set cs. \<forall>s'. score c' = Some s' \<longrightarrow> word_of_int s' \<le> (word_of_int s :: u32)))"
proof (induction score cs best x rule: pick_best.induct)
  case (2 score c cs best x)
  show ?case
  proof (cases "score c")
    case None
    with 2 show ?thesis by auto
  next
    case (Some s)
    show ?thesis
    proof (cases "word_of_int s > x")
      case True
      then have "pick_best score cs (Some c) (word_of_int s) = best'" using 2(4) Some by simp
      from 2(2)[OF Some True this] Some True show ?thesis
        by (elim disjE exE conjE) (auto dest: less_trans intro: less_imp_le)
    next
      case False
      then have "pick_best score cs best x = best'" using 2(4) Some by simp
      from 2(3)[OF Some False this] Some False show ?thesis by (elim disjE exE conjE) (auto simp: not_less dest: less_imp_le intro: order_trans)
    qed
  qed
qed auto

lemma pick_best_None:
  "pick_best score cs None 0 = None \<longleftrightarrow> (\<forall>c \<in> set cs. \<forall>s. score c = Some s \<longrightarrow> (word_of_int s :: u32) = 0)"
proof
  assume "pick_best score cs None 0 = None"
  from pick_best_max[OF this] show "\<forall>c \<in> set cs. \<forall>s. score c = Some s \<longrightarrow> (word_of_int s :: u32) = 0" by auto
next
  assume a: "\<forall>c \<in> set cs. \<forall>s. score c = Some s \<longrightarrow> (word_of_int s :: u32) = 0"
  show "pick_best score cs None 0 = None"
    using pick_best_max[of score cs None 0 "pick_best score cs None 0"] a by (auto simp: word_gt_0)
qed

text \<open>Without negative gains it is the candidate with the largest gain.\<close>

lemma pick_best_right:
  assumes "\<forall>c \<in> set cs. \<forall>s. score c = Some s \<longrightarrow> 0 \<le> s \<and> s < 2 ^ 31"
  shows "(pick_best score cs None 0 = None \<longleftrightarrow> (\<forall>c \<in> set cs. \<forall>s. score c = Some s \<longrightarrow> s = 0)) \<and>
    (\<forall>c. pick_best score cs None 0 = Some c \<longrightarrow>
       c \<in> set cs \<and> (\<exists>s. score c = Some s \<and> 0 < s \<and> (\<forall>c' \<in> set cs. \<forall>s'. score c' = Some s' \<longrightarrow> s' \<le> s)))"
proof -
  have u: "uint (word_of_int s :: u32) = s" if "c \<in> set cs" "score c = Some s" for c s
    using assms that by (simp add: uint_u32_nonneg)
  have z: "(word_of_int s :: u32) = 0 \<longleftrightarrow> s = 0" if "c \<in> set cs" "score c = Some s" for c s
    using u[OF that] by auto
  show ?thesis
  proof (intro conjI allI impI)
    show "pick_best score cs None 0 = None \<longleftrightarrow> (\<forall>c \<in> set cs. \<forall>s. score c = Some s \<longrightarrow> s = 0)"
      unfolding pick_best_None using z by blast
  next
    fix c assume "pick_best score cs None 0 = Some c"
    from pick_best_max[OF this] obtain s where s: "c \<in> set cs" "score c = Some s" "word_of_int s > (0 :: u32)"
      "\<forall>c' \<in> set cs. \<forall>s'. score c' = Some s' \<longrightarrow> word_of_int s' \<le> (word_of_int s :: u32)" by auto
    show "c \<in> set cs" by fact
    show "\<exists>s. score c = Some s \<and> 0 < s \<and> (\<forall>c' \<in> set cs. \<forall>s'. score c' = Some s' \<longrightarrow> s' \<le> s)"
      using s u[OF s(1,2)] u by (intro exI[of _ s]) (auto simp: word_less_def word_le_def)
  qed
qed

text \<open>A negative gain beats every other one.\<close>

lemma pick_best_wrong:
  assumes "\<forall>c \<in> set cs. \<forall>s. score c = Some s \<longrightarrow> - (2 ^ 31) \<le> s \<and> s < 2 ^ 31"
    and "c0 \<in> set cs" "score c0 = Some s0" "s0 < 0"
  shows "\<exists>c s. pick_best score cs None 0 = Some c \<and> c \<in> set cs \<and> score c = Some s \<and> s < 0"
proof -
  have b0: "- (2 ^ 31) \<le> s0" using assms by blast
  have n: "uint (word_of_int s0 :: u32) = s0 + 2 ^ 32" by (rule uint_u32_neg[OF b0 assms(4)])
  have "(word_of_int s0 :: u32) \<noteq> 0"
  proof
    assume "(word_of_int s0 :: u32) = 0"
    then show False using n b0 by simp
  qed
  then have "pick_best score cs None 0 \<noteq> None" unfolding pick_best_None using assms(2,3) by blast
  then obtain c where c: "pick_best score cs None 0 = Some c" by blast
  from pick_best_max[OF this] obtain s where s: "c \<in> set cs" "score c = Some s"
      "\<forall>c' \<in> set cs. \<forall>s'. score c' = Some s' \<longrightarrow> word_of_int s' \<le> (word_of_int s :: u32)" by auto
  have bs: "s < 2 ^ 31" using assms(1) s(1,2) by blast
  have "(word_of_int s0 :: u32) \<le> word_of_int s" using s(3) assms(2,3) by blast
  then have le: "uint (word_of_int s0 :: u32) \<le> uint (word_of_int s :: u32)" by (simp only: word_le_def)
  have "s < 0"
  proof (rule ccontr)
    assume "\<not> s < 0"
    then have "uint (word_of_int s :: u32) = s" using bs by (intro uint_u32_nonneg) simp_all
    then show False using le n b0 bs by simp
  qed
  with c s(1,2) show ?thesis by blast
qed

section \<open>The documented requirements\<close>

text \<open>
  Requirement A for one kind of traffic channel, as the comment of the function lists it: handover or
  assignment is enabled, no penalty runs, the codec can be continued, a slot is free, the channel changes,
  and the number of handovers to the cell is not exhausted.
\<close>

definition may_serve :: "'v ho_net \<Rightarrow> lchan_ref \<Rightarrow> ho_conn \<Rightarrow> nat \<Rightarrow> bool" where
  "may_serve w r conn b \<longleftrightarrow>
     (if lchan_bts r = b then h2_as_active (cfg_at w b)
      else h2_ho_active (cfg_at w b) \<and> int (bts_handover_count w b HO_SCOPE_ALL) < h2_ho_max (cfg_at w b)) \<and>
     conn_penalty_time_remaining w conn (PEN_BTS b) = 0"

fun codec_serves :: "ho_bts \<Rightarrow> ho_conn \<Rightarrow> gsm_chan_t \<Rightarrow> gsm48_chan_mode \<Rightarrow> gsm_chan_t \<Rightarrow> bool" where
  "codec_serves bts conn GSM_LCHAN_TCH_F GSM48_CMODE_SPEECH_V1 t = (t = GSM_LCHAN_TCH_F)"
| "codec_serves bts conn GSM_LCHAN_TCH_F GSM48_CMODE_SPEECH_EFR t = (codec_efr bts \<and> codec_type_is_supported conn GSM0808_SCT_FR2)"
| "codec_serves bts conn GSM_LCHAN_TCH_F GSM48_CMODE_SPEECH_AMR t = (codec_amr bts \<and> codec_type_is_supported conn GSM0808_SCT_FR3)"
| "codec_serves bts conn GSM_LCHAN_TCH_H GSM48_CMODE_SPEECH_V1 t =
     (t = GSM_LCHAN_TCH_H \<and> codec_hr bts \<and> codec_type_is_supported conn GSM0808_SCT_HR1)"
| "codec_serves bts conn GSM_LCHAN_TCH_H GSM48_CMODE_SPEECH_AMR t = (codec_amr bts \<and> codec_type_is_supported conn GSM0808_SCT_HR3)"
| "codec_serves bts conn _ _ _ = False"

definition req_A :: "'v ho_net \<Rightarrow> lchan_ref \<Rightarrow> ho_conn \<Rightarrow> nat \<Rightarrow> gsm_chan_t \<Rightarrow> int \<Rightarrow> bool" where
  "req_A w r conn b t free \<longleftrightarrow>
     may_serve w r conn b \<and> codec_serves (bts_at w b) conn t (tch_mode (lchan_at w r)) (lc_type (lchan_at w r)) \<and> free \<noteq> 0 \<and>
     \<not> (lchan_bts r = b \<and> lc_type (lchan_at w r) = t)"

text \<open>Requirement B: the minimum number of free slots remains.  Requirement C: no fewer free slots than on the current cell.\<close>

definition own_free :: "'v ho_net \<Rightarrow> lchan_ref \<Rightarrow> int" where
  "own_free w r = free_ts w (lchan_bts r) (if lc_type (lchan_at w r) = GSM_LCHAN_TCH_H then GSM_PCHAN_TCH_H else GSM_PCHAN_TCH_F)"

definition req_B :: "'v ho_net \<Rightarrow> lchan_ref \<Rightarrow> ho_conn \<Rightarrow> nat \<Rightarrow> gsm_chan_t \<Rightarrow> int \<Rightarrow> bool" where
  "req_B w r conn b t free \<longleftrightarrow> req_A w r conn b t free \<and>
     free - 1 \<ge> (if t = GSM_LCHAN_TCH_F then h2_tchf_min_slots (cfg_at w b) else h2_tchh_min_slots (cfg_at w b))"

definition req_C :: "'v ho_net \<Rightarrow> lchan_ref \<Rightarrow> ho_conn \<Rightarrow> nat \<Rightarrow> gsm_chan_t \<Rightarrow> int \<Rightarrow> bool" where
  "req_C w r conn b t free \<longleftrightarrow> req_A w r conn b t free \<and> free - 1 \<ge> own_free w r + 1"

lemmas requirement_defs = REQUIREMENT_A_TCHF_def REQUIREMENT_B_TCHF_def REQUIREMENT_C_TCHF_def REQUIREMENT_A_TCHH_def
  REQUIREMENT_B_TCHH_def REQUIREMENT_C_TCHH_def REQUIREMENT_TCHF_MASK_def REQUIREMENT_TCHH_MASK_def REQUIREMENT_A_MASK_def
  REQUIREMENT_B_MASK_def REQUIREMENT_C_MASK_def

text \<open>A mask from its six bits.\<close>

definition req_word :: "bool \<Rightarrow> bool \<Rightarrow> bool \<Rightarrow> bool \<Rightarrow> bool \<Rightarrow> bool \<Rightarrow> u8" where
  "req_word af bf cf ah bh ch =
     (if af then 0x01 else 0) OR (if bf then 0x02 else 0) OR (if cf then 0x04 else 0) OR
     (if ah then 0x10 else 0) OR (if bh then 0x20 else 0) OR (if ch then 0x40 else 0)"

lemma req_word_bits:
  "req_word af bf cf ah bh ch AND REQUIREMENT_A_TCHF \<noteq> 0 \<longleftrightarrow> af" "req_word af bf cf ah bh ch AND REQUIREMENT_B_TCHF \<noteq> 0 \<longleftrightarrow> bf"
  "req_word af bf cf ah bh ch AND REQUIREMENT_C_TCHF \<noteq> 0 \<longleftrightarrow> cf" "req_word af bf cf ah bh ch AND REQUIREMENT_A_TCHH \<noteq> 0 \<longleftrightarrow> ah"
  "req_word af bf cf ah bh ch AND REQUIREMENT_B_TCHH \<noteq> 0 \<longleftrightarrow> bh" "req_word af bf cf ah bh ch AND REQUIREMENT_C_TCHH \<noteq> 0 \<longleftrightarrow> ch"
  by (cases af; cases bf; cases cf; cases ah; cases bh; cases ch; simp add: req_word_def requirement_defs)+

lemma req_word_ops:
  "req_word af bf cf ah bh ch OR REQUIREMENT_B_TCHF = req_word af True cf ah bh ch"
  "req_word af bf cf ah bh ch OR REQUIREMENT_C_TCHF = req_word af bf True ah bh ch"
  "req_word af bf cf ah bh ch OR REQUIREMENT_B_TCHH = req_word af bf cf ah True ch"
  "req_word af bf cf ah bh ch OR REQUIREMENT_C_TCHH = req_word af bf cf ah bh True"
  "drop_req REQUIREMENT_A_TCHF (req_word af bf cf ah bh ch) = req_word False bf cf ah bh ch"
  "drop_req REQUIREMENT_A_TCHH (req_word af bf cf ah bh ch) = req_word af bf cf False bh ch"
  "req_word af bf cf ah bh ch = 0 \<longleftrightarrow> \<not> (af \<or> bf \<or> cf \<or> ah \<or> bh \<or> ch)"
  by (cases af; cases bf; cases cf; cases ah; cases bh; cases ch; simp add: req_word_def requirement_defs drop_req_def)+

lemma codec_requirement_word:
  "(case codec_requirement (codec_hr bts) (codec_efr bts) (codec_amr bts) lchan conn of None \<Rightarrow> 0 | Some q \<Rightarrow> q) =
     req_word (codec_serves bts conn GSM_LCHAN_TCH_F (tch_mode lchan) (lc_type lchan)) False False
       (codec_serves bts conn GSM_LCHAN_TCH_H (tch_mode lchan) (lc_type lchan)) False False"
  by (cases "tch_mode lchan"; cases "lc_type lchan"; simp add: codec_requirement_def req_word_def requirement_defs)

lemma if_req_word:
  "(if b then req_word af bf cf ah bh ch else req_word af' bf' cf' ah' bh' ch') =
     req_word (if b then af else af') (if b then bf else bf') (if b then cf else cf') (if b then ah else ah') (if b then bh else bh') (if b then ch else ch')"
  by simp

text \<open>The part of the function after the codec check, on the bits for TCH/F and TCH/H.\<close>

definition refine_requirements :: "'v ho_net \<Rightarrow> lchan_ref \<Rightarrow> nat \<Rightarrow> int \<Rightarrow> int \<Rightarrow> bool \<Rightarrow> bool \<Rightarrow> u8" where
  "refine_requirements w r b f h cf ch =
     (let t = lc_type (lchan_at w r); same = (b = lchan_bts r);
          af = (cf \<and> f \<noteq> 0 \<and> \<not> (same \<and> t = GSM_LCHAN_TCH_F)); ah = (ch \<and> h \<noteq> 0 \<and> \<not> (same \<and> t = GSM_LCHAN_TCH_H))
      in if \<not> same \<and> int (bts_handover_count w b HO_SCOPE_ALL) \<ge> h2_ho_max (cfg_at w b) then 0
         else req_word af (af \<and> f - 1 \<ge> h2_tchf_min_slots (cfg_at w b)) (af \<and> f - 1 \<ge> own_free w r + 1)
                ah (ah \<and> h - 1 \<ge> h2_tchh_min_slots (cfg_at w b)) (ah \<and> h - 1 \<ge> own_free w r + 1))"

text \<open>The steps of the function on a mask given by its bits.\<close>

lemma requirement_step_rules:
  "(if P \<and> req_word af bf cf ah bh ch AND REQUIREMENT_A_TCHF \<noteq> 0 then drop_req REQUIREMENT_A_TCHF (req_word af bf cf ah bh ch)
    else req_word af bf cf ah bh ch) = req_word (af \<and> \<not> P) bf cf ah bh ch"
  "(if P \<and> req_word af bf cf ah bh ch AND REQUIREMENT_A_TCHH \<noteq> 0 then drop_req REQUIREMENT_A_TCHH (req_word af bf cf ah bh ch)
    else req_word af bf cf ah bh ch) = req_word af bf cf (ah \<and> \<not> P) bh ch"
  "(if req_word af bf cf ah bh ch AND REQUIREMENT_A_TCHF \<noteq> 0 \<and> P then req_word af bf cf ah bh ch OR REQUIREMENT_B_TCHF
    else req_word af bf cf ah bh ch) = req_word af (bf \<or> af \<and> P) cf ah bh ch"
  "(if req_word af bf cf ah bh ch AND REQUIREMENT_A_TCHH \<noteq> 0 \<and> P then req_word af bf cf ah bh ch OR REQUIREMENT_B_TCHH
    else req_word af bf cf ah bh ch) = req_word af bf cf ah (bh \<or> ah \<and> P) ch"
  "(if req_word af bf cf ah bh ch AND REQUIREMENT_A_TCHF \<noteq> 0 \<and> P then req_word af bf cf ah bh ch OR REQUIREMENT_C_TCHF
    else req_word af bf cf ah bh ch) = req_word af bf (cf \<or> af \<and> P) ah bh ch"
  "(if req_word af bf cf ah bh ch AND REQUIREMENT_A_TCHH \<noteq> 0 \<and> P then req_word af bf cf ah bh ch OR REQUIREMENT_C_TCHH
    else req_word af bf cf ah bh ch) = req_word af bf cf ah bh (ch \<or> ah \<and> P)"
  "(if same then (case t of GSM_LCHAN_TCH_F \<Rightarrow> drop_req REQUIREMENT_A_TCHF (req_word af bf cf ah bh ch)
      | GSM_LCHAN_TCH_H \<Rightarrow> drop_req REQUIREMENT_A_TCHH (req_word af bf cf ah bh ch) | _ \<Rightarrow> req_word af bf cf ah bh ch)
    else req_word af bf cf ah bh ch) = req_word (af \<and> \<not> (same \<and> t = GSM_LCHAN_TCH_F)) bf cf (ah \<and> \<not> (same \<and> t = GSM_LCHAN_TCH_H)) bh ch"
  by (simp_all add: req_word_bits req_word_ops split: gsm_chan_t.split) auto

text \<open>The steps of the function after the codec check, for any numbers in place of what the state gives.\<close>

lemma requirement_steps:
  fixes cf ch same ho_full :: bool and t :: gsm_chan_t and f h mf mh own :: int
  shows "(let requirement = req_word cf False False ch False False in
      if requirement = 0 then 0
      else
        let requirement = (if f = 0 \<and> requirement AND REQUIREMENT_A_TCHF \<noteq> 0 then drop_req REQUIREMENT_A_TCHF requirement else requirement);
            requirement = (if h = 0 \<and> requirement AND REQUIREMENT_A_TCHH \<noteq> 0 then drop_req REQUIREMENT_A_TCHH requirement else requirement)
        in if requirement = 0 then 0
        else
          let requirement = (if same then
                (case t of GSM_LCHAN_TCH_F \<Rightarrow> drop_req REQUIREMENT_A_TCHF requirement
                 | GSM_LCHAN_TCH_H \<Rightarrow> drop_req REQUIREMENT_A_TCHH requirement | _ \<Rightarrow> requirement) else requirement)
          in if same \<and> requirement = 0 then 0
          else if \<not> same \<and> ho_full then 0
          else
            let requirement = (if requirement AND REQUIREMENT_A_TCHF \<noteq> 0 \<and> f - 1 \<ge> mf then requirement OR REQUIREMENT_B_TCHF else requirement);
                requirement = (if requirement AND REQUIREMENT_A_TCHH \<noteq> 0 \<and> h - 1 \<ge> mh then requirement OR REQUIREMENT_B_TCHH else requirement);
                requirement = (if requirement AND REQUIREMENT_A_TCHF \<noteq> 0 \<and> f - 1 \<ge> own + 1 then requirement OR REQUIREMENT_C_TCHF else requirement);
                requirement = (if requirement AND REQUIREMENT_A_TCHH \<noteq> 0 \<and> h - 1 \<ge> own + 1 then requirement OR REQUIREMENT_C_TCHH else requirement)
            in requirement) =
     (let af = (cf \<and> f \<noteq> 0 \<and> \<not> (same \<and> t = GSM_LCHAN_TCH_F)); ah = (ch \<and> h \<noteq> 0 \<and> \<not> (same \<and> t = GSM_LCHAN_TCH_H))
      in if \<not> same \<and> ho_full then 0
         else req_word af (af \<and> f - 1 \<ge> mf) (af \<and> f - 1 \<ge> own + 1) ah (ah \<and> h - 1 \<ge> mh) (ah \<and> h - 1 \<ge> own + 1))"
  by (simp only: Let_def requirement_step_rules req_word_ops(7)) (auto simp: req_word_ops(7))

lemma check_requirements_refine:
  "check_requirements w r conn b f h =
     (if lchan_bts r = b \<and> \<not> h2_as_active (cfg_at w b) \<or> lchan_bts r \<noteq> b \<and> \<not> h2_ho_active (cfg_at w b) \<or>
         conn_penalty_time_remaining w conn (PEN_BTS b) \<noteq> 0 then 0
      else refine_requirements w r b f h (codec_serves (bts_at w b) conn GSM_LCHAN_TCH_F (tch_mode (lchan_at w r)) (lc_type (lchan_at w r)))
             (codec_serves (bts_at w b) conn GSM_LCHAN_TCH_H (tch_mode (lchan_at w r)) (lc_type (lchan_at w r))))"
proof -
  let ?cf = "codec_serves (bts_at w b) conn GSM_LCHAN_TCH_F (tch_mode (lchan_at w r)) (lc_type (lchan_at w r))"
  let ?ch = "codec_serves (bts_at w b) conn GSM_LCHAN_TCH_H (tch_mode (lchan_at w r)) (lc_type (lchan_at w r))"
  let ?q = "codec_requirement (codec_hr (bts_at w b)) (codec_efr (bts_at w b)) (codec_amr (bts_at w b)) (lchan_at w r) conn"
  have cw: "(case ?q of None \<Rightarrow> 0 | Some q \<Rightarrow> q) = req_word ?cf False False ?ch False False"
    by (rule codec_requirement_word)
  show ?thesis
  proof (cases ?q)
    case None
    then have "\<not> ?cf" "\<not> ?ch" using cw req_word_ops(7)[of ?cf False False ?ch False False] by auto
    then show ?thesis
      by (simp add: check_requirements_def Let_def None refine_requirements_def req_word_ops)
  next
    case (Some q)
    then have q: "q = req_word ?cf False False ?ch False False" using cw by simp
    show ?thesis
    proof (cases "lchan_bts r = b \<and> \<not> h2_as_active (cfg_at w b) \<or> lchan_bts r \<noteq> b \<and> \<not> h2_ho_active (cfg_at w b) \<or>
         conn_penalty_time_remaining w conn (PEN_BTS b) \<noteq> 0")
      case True
      then show ?thesis by (auto simp: check_requirements_def Let_def)
    next
      case False
      show ?thesis
        using requirement_steps[of ?cf ?ch f h "b = lchan_bts r" "lc_type (lchan_at w r)"
            "int (bts_handover_count w b HO_SCOPE_ALL) \<ge> h2_ho_max (cfg_at w b)" "h2_tchf_min_slots (cfg_at w b)"
            "h2_tchh_min_slots (cfg_at w b)" "own_free w r"] False
        unfolding check_requirements_def Let_def Some option.case q refine_requirements_def own_free_def
        by (simp only: if_False if_True simp_thms eq_commute[of b] de_Morgan_disj)
    qed
  qed
qed

text \<open>
  Property C13.  The requirements computed for a cell are exactly the documented ones: for TCH/F and TCH/H each the
  bit A says that the cell can continue the call there, B that the minimum of free slots is kept after
  the move, and C that the cell then has no fewer free slots than the current one.
\<close>

theorem check_requirements_documented:
  "check_requirements w r conn b f h =
     req_word (req_A w r conn b GSM_LCHAN_TCH_F f) (req_B w r conn b GSM_LCHAN_TCH_F f) (req_C w r conn b GSM_LCHAN_TCH_F f)
              (req_A w r conn b GSM_LCHAN_TCH_H h) (req_B w r conn b GSM_LCHAN_TCH_H h) (req_C w r conn b GSM_LCHAN_TCH_H h)"
  by (cases "lchan_bts r = b")
    (auto simp: check_requirements_refine refine_requirements_def req_A_def req_B_def req_C_def may_serve_def Let_def req_word_ops(7)
      intro!: arg_cong2[where f = "\<lambda>x y. req_word x _ _ _ _ y"])

section \<open>Candidates\<close>

lemma find_neighbor_bts_range:
  "find_neighbor_bts bs i key fd wm = Some b \<Longrightarrow> fd = Some b \<or> wm = Some b \<or> i \<le> b \<and> b < i + length bs"
proof (induction bs arbitrary: i fd wm)
  case (Cons x bs)
  show ?case
  proof (rule ccontr)
    assume n: "\<not> ?thesis"
    obtain fd' wm' where f: "fd' \<in> {fd, Some i}" "wm' \<in> {wm, Some i}"
        "find_neighbor_bts bs (Suc i) key fd' wm' = Some b"
      using Cons.prems n by (auto simp: Let_def split: if_splits)
    from Cons.IH[OF f(3)] f(1,2) n show False by auto
  qed
qed (auto split: option.splits)

lemma bts_by_neighbor_ident_less: "bts_by_neighbor_ident w key = Some b \<Longrightarrow> b < length (hn_bts w)"
  using find_neighbor_bts_range[of "hn_bts w" 0 key None None b] by (simp add: bts_by_neighbor_ident_def)

lemma fold_add_bounds:
  "0 \<le> fold (\<lambda>v avg. avg + uint v) xs 0 \<and> fold (\<lambda>v avg. avg + uint v) (xs :: u8 list) 0 \<le> 255 * int (length xs)"
proof -
  have "uint v \<le> 255" for v :: u8 using uint_bounded[of v] by simp
  then have "a \<le> fold (\<lambda>v avg. avg + uint v) xs a \<and> fold (\<lambda>v avg. avg + uint v) xs a \<le> a + 255 * int (length xs)" for a :: int
  proof (induction xs arbitrary: a)
    case (Cons v xs)
    have "0 \<le> uint v" "uint v \<le> 255" using Cons.prems by simp_all
    moreover have "a + uint v \<le> fold (\<lambda>v avg. avg + uint v) xs (a + uint v) \<and>
        fold (\<lambda>v avg. avg + uint v) xs (a + uint v) \<le> a + uint v + 255 * int (length xs)"
      using Cons.IH Cons.prems by blast
    ultimately show ?case unfolding fold_simps length_Cons by (auto intro: order_trans[of a "a + uint v"])
  qed simp
  from this[of 0] show ?thesis by simp
qed

lemma avg_bounds: "0 \<le> hodec2_neigh_meas_avg n (int k)" "hodec2_neigh_meas_avg n (int k) \<le> 255"
proof -
  have d: "0 \<le> x sdiv int m \<and> x sdiv int m \<le> 255" if "0 \<le> x" "x \<le> 255 * int m" "m \<noteq> 0" for x m
    using that zdiv_mono1[of x "255 * int m" "int m"] by (simp add: pos_imp_zdiv_nonneg_iff)
  have l: "length (ring_window a p m) = m" for a :: "u8 list" and p m by (simp add: ring_window_def Let_def)
  define m where "m = (if k > nm_rxlev_cnt n then nm_rxlev_cnt n else k)"
  define x where "x = fold (\<lambda>v avg. avg + uint v) (ring_window (nm_rxlev n) (nm_rxlev_cnt n mod length (nm_rxlev n)) m) 0"
  have x: "0 \<le> x \<and> x \<le> 255 * int m" using fold_add_bounds unfolding x_def by (metis l)
  have "neigh_meas_avg n k = (if m = 0 then 0 else x sdiv int m)"
    unfolding neigh_meas_avg_def Let_def m_def x_def ..
  then have "0 \<le> neigh_meas_avg n k \<and> neigh_meas_avg n k \<le> 255" using d[of x m] x by simp
  then show "0 \<le> hodec2_neigh_meas_avg n (int k)" "hodec2_neigh_meas_avg n (int k) \<le> 255"
    by (simp_all add: hodec2_neigh_meas_avg_eq)
qed

lemma fold_valid_bounds:
  fixes f :: "'r \<Rightarrow> int" and a n :: int
  assumes "\<And>m. f m < 256"
  shows "(case fold (\<lambda>rep (avg, n). let val = f rep in if val \<ge> 0 then (avg + val, n + 1) else (avg, n)) reps (a, n) of
    (avg, n') \<Rightarrow> 0 \<le> a \<and> 0 \<le> n \<longrightarrow> 0 \<le> avg \<and> n \<le> n' \<and> avg \<le> a + 255 * (n' - n))"
proof (induction reps arbitrary: a n)
  case (Cons m reps)
  show ?case
  proof (cases "f m \<ge> 0")
    case True
    then show ?thesis using Cons.IH[of "a + f m" "n + 1"] assms[of m] by (auto simp: Let_def split: prod.splits)
  next
    case False
    then show ?thesis using Cons.IH[of a n] by (simp add: Let_def)
  qed
qed simp

lemma av_rxlev_bound: "lchan_av_rxlev w r < 256"
proof -
  have g: "get_field rep fld < 256" for rep fld
    by (cases fld) (auto simp: EINVAL_def intro: order.strict_trans2[OF uint_bounded])
  have "get_meas_rep_avg l fld n < 256" for l fld n
  proof -
    define p where "p = fold (\<lambda>rep (avg, valid_num). let val = get_field rep fld in if val \<ge> 0 then (avg + val, valid_num + 1) else (avg, valid_num))
        (ring_window (meas_rep l) (meas_rep_idx l) n) (0, 0 :: int)"
    obtain avg num where p: "p = (avg, num)" by fastforce
    have "0 \<le> avg \<and> 0 \<le> num \<and> avg \<le> 255 * num"
      using fold_valid_bounds[where f = "\<lambda>rep. get_field rep fld" and reps = "ring_window (meas_rep l) (meas_rep_idx l) n" and a = 0 and n = 0, OF g] p
      unfolding p_def by simp
    moreover have "get_meas_rep_avg l fld n = - EINVAL \<or> get_meas_rep_avg l fld n = avg sdiv num \<and> num \<noteq> 0"
      using p unfolding p_def get_meas_rep_avg_def by (auto simp: Let_def split: prod.splits)
    ultimately show ?thesis
      using zdiv_mono1[of avg "255 * num" num] by (auto simp: EINVAL_def)
  qed
  then show ?thesis by (simp add: lchan_av_rxlev_def Let_def)
qed

text \<open>A configuration as the command line accepts it, as far as it matters here.\<close>

definition bias_ok :: "'v ho_net \<Rightarrow> bool" where
  "bias_ok w \<longleftrightarrow> (\<forall>b < length (hn_bts w). 0 \<le> h2_afs_bias_rxlev (cfg_at w b) \<and> h2_afs_bias_rxlev (cfg_at w b) \<le> 20)"

lemma set_map_filter: "set (List.map_filter f xs) = {y. \<exists>x \<in> set xs. f x = Some y}"
  by (force simp: List.map_filter_def)

lemma candidate_cases:
  assumes "c \<in> set (collect_candidates_for_lchan dbm w r conn weaker)"
  shows "lchan_av_rxlev w r \<ge> 0 \<and> (c = collect_assignment_candidate w r conn (lchan_av_rxlev w r) \<or>
     (\<exists>n \<in> set (hn_neigh w r). collect_handover_candidate dbm w r conn weaker (lchan_av_rxlev w r) n = Some c))"
  using assms unfolding collect_candidates_for_lchan_def Let_def
  by (simp add: set_map_filter split: if_splits) auto

lemma handover_candidate_facts:
  assumes "collect_handover_candidate dbm w r conn weaker av n = Some c"
  shows "ca_lchan c = r \<and> ca_bts c \<noteq> Some (lchan_bts r) \<and> (\<forall>b. ca_bts c = Some b \<longrightarrow> b < length (hn_bts w) \<and>
      ca_requirements c = check_requirements w r conn b (free_ts w b GSM_PCHAN_TCH_F) (free_ts w b GSM_PCHAN_TCH_H)) \<and>
    0 \<le> ca_avg c \<and> ca_avg c \<le> 255 \<and> (\<not> weaker \<longrightarrow> ca_avg c > av)"
  using assms avg_bounds[of n "h2_rxlev_neigh_avg_win (cfg_at w (lchan_bts r))"]
  by (auto simp: collect_handover_candidate_def Let_def bts_by_neighbor_ident_less split: if_splits option.splits)

lemma candidate_facts:
  assumes "c \<in> set (collect_candidates_for_lchan dbm w r conn weaker)" "lchan_bts r < length (hn_bts w)"
  shows "ca_lchan c = r \<and> (\<forall>b. ca_bts c = Some b \<longrightarrow> b < length (hn_bts w) \<and>
      ca_requirements c = check_requirements w r conn b (free_ts w b GSM_PCHAN_TCH_F) (free_ts w b GSM_PCHAN_TCH_H)) \<and>
    0 \<le> ca_avg c \<and> ca_avg c \<le> 255 \<and> 0 \<le> lchan_av_rxlev w r \<and> (\<not> weaker \<longrightarrow> ca_avg c \<ge> lchan_av_rxlev w r)"
proof -
  have av: "0 \<le> lchan_av_rxlev w r" using candidate_cases[OF assms(1)] by auto
  from candidate_cases[OF assms(1)] consider "c = collect_assignment_candidate w r conn (lchan_av_rxlev w r)"
    | n where "collect_handover_candidate dbm w r conn weaker (lchan_av_rxlev w r) n = Some c" by blast
  then show ?thesis
  proof cases
    case 1
    then show ?thesis using av assms(2) av_rxlev_bound[of w r] by (simp add: collect_assignment_candidate_def Let_def)
  next
    case 2
    then show ?thesis using handover_candidate_facts[OF 2] av by fastforce
  qed
qed

lemma gain_bounds:
  assumes "c \<in> set (collect_candidates_for_lchan dbm w r conn weaker)" "lchan_bts r < length (hn_bts w)" "bias_ok w"
    and "gain w ahs (lchan_av_rxlev w r) msk tf lo c = Some s"
  shows "- (2 ^ 31) \<le> s \<and> s < 2 ^ 31 \<and> (\<not> weaker \<longrightarrow> 0 \<le> s)"
proof -
  note f = candidate_facts[OF assms(1,2)]
  define d where "d = s - (ca_avg c - lchan_av_rxlev w r)"
  have "0 \<le> d \<and> d \<le> 20"
    using assms(3,4) f unfolding d_def gain_def bias_ok_def by (auto split: if_splits option.splits)
  moreover have "s = ca_avg c - lchan_av_rxlev w r + d" by (simp add: d_def)
  ultimately show ?thesis using f av_rxlev_bound[of w r] by auto
qed

section \<open>The choice on a measurement report\<close>

definition uses_ahs :: "'v ho_net \<Rightarrow> lchan_ref \<Rightarrow> bool" where
  "uses_ahs w r \<longleftrightarrow> tch_mode (lchan_at w r) = GSM48_CMODE_SPEECH_AMR \<and> lc_type (lchan_at w r) = GSM_LCHAN_TCH_H"

abbreviation gain_B :: "'v ho_net \<Rightarrow> lchan_ref \<Rightarrow> ho_candidate \<Rightarrow> int option" where
  "gain_B w r \<equiv> gain w (uses_ahs w r) (lchan_av_rxlev w r) REQUIREMENT_B_MASK REQUIREMENT_B_TCHF True"

abbreviation gain_C :: "'v ho_net \<Rightarrow> lchan_ref \<Rightarrow> ho_candidate \<Rightarrow> int option" where
  "gain_C w r \<equiv> gain w (uses_ahs w r) (lchan_av_rxlev w r) REQUIREMENT_C_MASK REQUIREMENT_C_TCHF True"

definition best_of :: "(ho_candidate \<Rightarrow> int option) \<Rightarrow> ho_candidate list \<Rightarrow> ho_candidate \<Rightarrow> bool" where
  "best_of score cs c \<longleftrightarrow> c \<in> set cs \<and> (\<exists>s. score c = Some s \<and> 0 < s \<and> (\<forall>c' \<in> set cs. \<forall>s'. score c' = Some s' \<longrightarrow> s' \<le> s))"

definition none_better :: "(ho_candidate \<Rightarrow> int option) \<Rightarrow> ho_candidate list \<Rightarrow> bool" where
  "none_better score cs \<longleftrightarrow> (\<forall>c \<in> set cs. \<forall>s. score c = Some s \<longrightarrow> s \<le> 0)"

lemma pick_best_cases:
  assumes "\<forall>c \<in> set cs. \<forall>s. score c = Some s \<longrightarrow> 0 \<le> s \<and> s < 2 ^ 31"
  shows "(pick_best score cs None 0 = None \<and> none_better score cs) \<or> (\<exists>c. pick_best score cs None 0 = Some c \<and> best_of score cs c)"
  using pick_best_right[OF assms] assms unfolding none_better_def best_of_def by (cases "pick_best score cs None 0") auto

lemma no_candidates:
  assumes "\<not> h2_as_active (cfg_at w (lchan_bts r))" "\<not> h2_ho_active (cfg_at w (lchan_bts r))"
  shows "collect_candidates_for_lchan dbm w r conn weaker = []"
  using assms by (simp add: collect_candidates_for_lchan_def Let_def)

lemma find_alternative_eq:
  "find_alternative_lchan hreq dbm r conn weaker w =
     (let cs = collect_candidates_for_lchan dbm w r conn weaker in
      case pick_best (gain_B w r) cs None 0 of
        Some c \<Rightarrow> trigger_ho hreq c (ca_requirements c AND REQUIREMENT_B_MASK) w
      | None \<Rightarrow>
          (case pick_best (gain_C w r) cs None 0 of
             Some c \<Rightarrow> trigger_ho hreq c (ca_requirements c AND REQUIREMENT_C_MASK) w
           | None \<Rightarrow>
               if \<not> weaker then (0, w)
               else (case pick_best (gain w (uses_ahs w r) (lchan_av_rxlev w r) REQUIREMENT_A_MASK REQUIREMENT_A_TCHF False) cs None 0 of
                  Some c \<Rightarrow> trigger_ho hreq c (ca_requirements c AND REQUIREMENT_A_MASK) w
                | None \<Rightarrow> (0, w))))"
proof (cases "collect_candidates_for_lchan dbm w r conn weaker = []")
  case True
  show ?thesis
    unfolding find_alternative_lchan_def Let_def True by (simp only: pick_best.simps option.case simp_thms if_True if_cancel)
next
  case False
  then have "(\<not> h2_as_active (cfg_at w (lchan_bts r)) \<and> \<not> h2_ho_active (cfg_at w (lchan_bts r))) = False"
    using no_candidates by blast
  then show ?thesis
    unfolding find_alternative_lchan_def Let_def uses_ahs_def[symmetric] using False by (simp only: if_False)
qed

text \<open>
  Property C14.  The periodic search for a better cell chooses the strongest one: among the candidates that stay
  uncongested the one with the largest gain, without such a candidate the one with the largest gain among
  those that are less congested, and without any it leaves the call where it is.
\<close>

theorem hodec2_better_cell:
  assumes "lchan_bts r < length (hn_bts w)" "bias_ok w"
  shows "let cs = collect_candidates_for_lchan dbm w r conn False; res = find_alternative_lchan hreq dbm r conn False w in
    (\<exists>c. best_of (gain_B w r) cs c \<and> res = trigger_ho hreq c (ca_requirements c AND REQUIREMENT_B_MASK) w) \<or>
    none_better (gain_B w r) cs \<and>
      ((\<exists>c. best_of (gain_C w r) cs c \<and> res = trigger_ho hreq c (ca_requirements c AND REQUIREMENT_C_MASK) w) \<or>
       none_better (gain_C w r) cs \<and> res = (0, w))"
proof -
  let ?cs = "collect_candidates_for_lchan dbm w r conn False"
  have g: "\<forall>c \<in> set ?cs. \<forall>s. gain w a (lchan_av_rxlev w r) m t lo c = Some s \<longrightarrow> 0 \<le> s \<and> s < 2 ^ 31" for a m t lo
    using gain_bounds[OF _ assms] by blast
  have p: "(pick_best score ?cs None 0 = None \<longrightarrow> none_better score ?cs) \<and> (\<forall>c. pick_best score ?cs None 0 = Some c \<longrightarrow> best_of score ?cs c)"
    if "score = gain w a (lchan_av_rxlev w r) m t lo" for score a m t lo
    using pick_best_cases[OF g, of a m t lo] that by auto
  show ?thesis
  proof (cases "pick_best (gain_B w r) ?cs None 0")
    case None
    then have n: "none_better (gain_B w r) ?cs" using p by blast
    show ?thesis
    proof (cases "pick_best (gain_C w r) ?cs None 0")
      case None
      then have "none_better (gain_C w r) ?cs" using p by blast
      then show ?thesis using n None \<open>pick_best (gain_B w r) ?cs None 0 = None\<close> by (simp add: find_alternative_eq Let_def)
    next
      case (Some c)
      then have "best_of (gain_C w r) ?cs c" using p by blast
      then show ?thesis using n Some None by (auto simp: find_alternative_eq Let_def)
    qed
  next
    case (Some c)
    then have "best_of (gain_B w r) ?cs c" using p by blast
    then show ?thesis using Some by (auto simp: find_alternative_eq Let_def)
  qed
qed

text \<open>
  Property C15.  When the current cell is bad, the strongest cell is not chosen: the gain is compared as an unsigned number,
  so that as soon as some uncongested cell is weaker than the current one, a cell that is weaker is
  chosen, even when others are stronger.
\<close>

theorem hodec2_weaker_cell_chosen:
  assumes "lchan_bts r < length (hn_bts w)" "bias_ok w"
    and "c0 \<in> set (collect_candidates_for_lchan dbm w r conn True)" "gain_B w r c0 = Some s0" "s0 < 0"
  shows "\<exists>c \<in> set (collect_candidates_for_lchan dbm w r conn True). \<exists>s < 0. gain_B w r c = Some s \<and>
    find_alternative_lchan hreq dbm r conn True w = trigger_ho hreq c (ca_requirements c AND REQUIREMENT_B_MASK) w"
proof -
  let ?cs = "collect_candidates_for_lchan dbm w r conn True"
  have g: "\<forall>c \<in> set ?cs. \<forall>s. gain_B w r c = Some s \<longrightarrow> - (2 ^ 31) \<le> s \<and> s < 2 ^ 31"
    using gain_bounds[OF _ assms(1,2)] by blast
  from pick_best_wrong[OF g assms(3-5)] obtain c s where
    "pick_best (gain_B w r) ?cs None 0 = Some c" "c \<in> set ?cs" "gain_B w r c = Some s" "s < 0" by blast
  then show ?thesis unfolding find_alternative_eq Let_def by auto
qed

section \<open>Sizes of the arrays\<close>

lemma length_map_filter: "length (List.map_filter f xs) \<le> length xs"
  by (simp add: List.map_filter_def)

lemma length_candidates: "length (collect_candidates_for_lchan dbm w r conn weaker) \<le> 1 + length (hn_neigh w r)"
  using length_map_filter[of "collect_handover_candidate dbm w r conn weaker (lchan_av_rxlev w r)" "hn_neigh w r"]
  by (simp add: collect_candidates_for_lchan_def Let_def)

lemma length_concat_le: "(\<And>x. x \<in> set xs \<Longrightarrow> length (f x) \<le> n) \<Longrightarrow> length (concat (map f xs)) \<le> length xs * n"
  by (induction xs) (simp_all add: add_le_mono)

lemma length_movable: "length (movable w t r) \<le> 1"
  by (simp add: movable_def Let_def split: option.splits)

lemma length_movable_ts: "length (movable_ts w b t i) \<le> 2"
proof -
  have "length (concat (map (\<lambda>j. movable w GSM_LCHAN_TCH_H (b, t, i, j)) [0..<2])) \<le> length [0..<2] * 1"
    by (rule length_concat_le) (rule length_movable)
  then show ?thesis
    using length_movable[of w GSM_LCHAN_TCH_F "(b, t, i, 0)"] by (simp add: movable_ts_def Let_def split: gsm_phys_chan_config.split)
qed

text \<open>
  Property C17.  The candidates fit into the arrays: one for each of the ten neighbors and the current cell for one
  lchan, and that for two lchans on each of the eight timeslots of every TRX when a congestion is resolved.
\<close>

theorem candidates_fit:
  assumes "\<forall>r. length (hn_neigh w r) = MAX_NEIGH_MEAS"
  shows "length (collect_candidates_for_lchan dbm w r conn weaker) \<le> 1 + MAX_NEIGH_MEAS \<and>
    length (congestion_candidates dbm w b) \<le> length (trx_list (bts_at w b)) * 8 * 2 * (1 + MAX_NEIGH_MEAS)"
proof
  show l: "length (collect_candidates_for_lchan dbm w r conn weaker) \<le> 1 + MAX_NEIGH_MEAS" for r conn weaker
    using length_candidates[of dbm w r conn weaker] assms by simp
  have "length (concat (map (\<lambda>(r, conn). collect_candidates_for_lchan dbm w r conn True) (movable_ts w b t i))) \<le> 2 * (1 + MAX_NEIGH_MEAS)" for t i
    using length_concat_le[of "movable_ts w b t i" "\<lambda>(r, conn). collect_candidates_for_lchan dbm w r conn True" "1 + MAX_NEIGH_MEAS"] l
      mult_le_mono1[OF length_movable_ts[of w b t i], of "1 + MAX_NEIGH_MEAS"] by (fastforce split: prod.splits)
  then have ts: "length (concat (map (\<lambda>i. concat (map (\<lambda>(r, conn). collect_candidates_for_lchan dbm w r conn True) (movable_ts w b t i))) [0..<8]))
      \<le> length [0..<8] * (2 * (1 + MAX_NEIGH_MEAS))" for t
    by (intro length_concat_le)
  have "length (congestion_candidates dbm w b) \<le> length [0..<length (trx_list (bts_at w b))] * (length [0..<8] * (2 * (1 + MAX_NEIGH_MEAS)))"
    unfolding congestion_candidates_def by (rule length_concat_le) (use ts in simp)
  then show "length (congestion_candidates dbm w b) \<le> length (trx_list (bts_at w b)) * 8 * 2 * (1 + MAX_NEIGH_MEAS)"
    by (simp add: algebra_simps)
qed

section \<open>Congestion\<close>

fun tch_pchan :: "gsm_chan_t \<Rightarrow> gsm_phys_chan_config" where
  "tch_pchan GSM_LCHAN_TCH_H = GSM_PCHAN_TCH_H"
| "tch_pchan _ = GSM_PCHAN_TCH_F"

definition min_slots :: "'v ho_net \<Rightarrow> nat \<Rightarrow> gsm_chan_t \<Rightarrow> int" where
  "min_slots w b t = (if t = GSM_LCHAN_TCH_F then h2_tchf_min_slots (cfg_at w b) else h2_tchh_min_slots (cfg_at w b))"

lemma masked_bits:
  "(req_word af bf cf ah bh ch AND REQUIREMENT_B_MASK) AND REQUIREMENT_TCHF_MASK \<noteq> 0 \<longleftrightarrow> bf"
  "(req_word af bf cf ah bh ch AND REQUIREMENT_B_MASK) AND REQUIREMENT_TCHH_MASK \<noteq> 0 \<longleftrightarrow> bh"
  "(req_word af bf cf ah bh ch AND REQUIREMENT_C_MASK) AND REQUIREMENT_TCHF_MASK \<noteq> 0 \<longleftrightarrow> cf"
  "(req_word af bf cf ah bh ch AND REQUIREMENT_C_MASK) AND REQUIREMENT_TCHH_MASK \<noteq> 0 \<longleftrightarrow> ch"
  by (cases af; cases bf; cases cf; cases ah; cases bh; cases ch; simp add: req_word_def requirement_defs)+

lemma pick_best_Some: "pick_best score cs None 0 = Some c \<Longrightarrow> c \<in> set cs \<and> score c \<noteq> None"
  using pick_best_max[of score cs None 0 "Some c"] by auto

lemma pick_worst_Some: "pick_worst level cs best x = Some c \<Longrightarrow> best = Some c \<or> c \<in> set cs \<and> level c \<noteq> None"
  by (induction level cs best x rule: pick_worst.induct) (auto split: option.splits if_splits)

lemma movable_tsD:
  assumes "x \<in> set (movable_ts w b t i)"
  shows "\<exists>j ty. ty \<in> {GSM_LCHAN_TCH_F, GSM_LCHAN_TCH_H} \<and> x \<in> set (movable w ty (b, t, i, j))"
proof (cases "pchan_is (trx_ts (trx_list (bts_at w b) ! t) ! i)")
  case GSM_PCHAN_TCH_F
  then show ?thesis using assms by (simp add: movable_ts_def Let_def split: if_splits) blast
next
  case GSM_PCHAN_TCH_H
  then have "\<exists>j. x \<in> set (movable w GSM_LCHAN_TCH_H (b, t, i, j))"
    using assms by (simp add: movable_ts_def Let_def split: if_splits) blast
  then show ?thesis by blast
qed (use assms in \<open>simp_all add: movable_ts_def Let_def split: if_splits\<close>)

lemma congestion_candidateD:
  assumes "c \<in> set (congestion_candidates dbm w b)"
  obtains r conn where "c \<in> set (collect_candidates_for_lchan dbm w r conn True)" "lchan_bts r = b"
    "lc_type (lchan_at w r) \<in> {GSM_LCHAN_TCH_F, GSM_LCHAN_TCH_H}" "lchan_state_is (lchan_at w r) LCHAN_ST_ESTABLISHED"
    "\<exists>k. lc_conn (lchan_at w r) = Some k \<and> hc_assignment_new_lchan (hn_conn w k) = None \<and> \<not> hc_ho_fi (hn_conn w k)"
proof -
  have m: "lc_type (lchan_at w r) = t \<and> lchan_state_is (lchan_at w r) LCHAN_ST_ESTABLISHED \<and> r = r' \<and>
      (\<exists>k. lc_conn (lchan_at w r) = Some k \<and> hc_assignment_new_lchan (hn_conn w k) = None \<and> \<not> hc_ho_fi (hn_conn w k))"
    if "(r, conn) \<in> set (movable w t r')" for r r' conn t
    using that by (cases "lc_conn (lchan_at w r')"; cases "hc_assignment_new_lchan (hn_conn w (the (lc_conn (lchan_at w r'))))") (simp_all add: movable_def Let_def split: if_splits)
  from assms obtain t i r conn where "(r, conn) \<in> set (movable_ts w b t i)" "c \<in> set (collect_candidates_for_lchan dbm w r conn True)"
    by (auto simp: congestion_candidates_def split: if_splits)
  moreover from this(1) obtain j ty where "(r, conn) \<in> set (movable w ty (b, t, i, j))" "ty \<in> {GSM_LCHAN_TCH_F, GSM_LCHAN_TCH_H}"
    using movable_tsD by blast
  ultimately have "c \<in> set (collect_candidates_for_lchan dbm w r conn True)" "ty \<in> {GSM_LCHAN_TCH_F, GSM_LCHAN_TCH_H}"
    and f: "lc_type (lchan_at w r) = ty \<and> lchan_state_is (lchan_at w r) LCHAN_ST_ESTABLISHED \<and> r = (b, t, i, j) \<and>
      (\<exists>k. lc_conn (lchan_at w r) = Some k \<and> hc_assignment_new_lchan (hn_conn w k) = None \<and> \<not> hc_ho_fi (hn_conn w k))"
    using m by blast+
  moreover have "lchan_bts r = b" using f by simp
  ultimately show ?thesis using that by blast
qed

text \<open>What is chosen: a candidate on this BSS that meets B or C, from an lchan of a type that is congested.\<close>

lemma choose_congestedD:
  assumes "choose_congested dbm w b fc hc = Some (c, q)"
  shows "c \<in> set (congestion_candidates dbm w b) \<and> q \<in> {ca_requirements c AND REQUIREMENT_B_MASK, ca_requirements c AND REQUIREMENT_C_MASK} \<and>
    ca_bts c \<noteq> None \<and> (lc_type (lchan_at w (ca_lchan c)) = GSM_LCHAN_TCH_F \<longrightarrow> fc > 0) \<and>
    (lc_type (lchan_at w (ca_lchan c)) = GSM_LCHAN_TCH_H \<longrightarrow> hc > 0)"
proof -
  have sl: "solving_level w fc hc m t c \<noteq> None \<Longrightarrow> ca_bts c \<noteq> None \<and> (lc_type (lchan_at w (ca_lchan c)) = GSM_LCHAN_TCH_F \<longrightarrow> fc > 0) \<and>
    (lc_type (lchan_at w (ca_lchan c)) = GSM_LCHAN_TCH_H \<longrightarrow> hc > 0)" for m t c
    by (auto simp: solving_level_def Let_def split: option.splits if_splits)
  have ul: "upgrade_level w m t c \<noteq> None \<Longrightarrow> ca_bts c \<noteq> None \<and> lc_type (lchan_at w (ca_lchan c)) = GSM_LCHAN_TCH_H" for m t c
    by (auto simp: upgrade_level_def Let_def split: option.splits if_splits)
  from assms obtain m t where q: "q = ca_requirements c AND m" "m \<in> {REQUIREMENT_B_MASK, REQUIREMENT_C_MASK}" and
    p: "pick_best (solving_level w fc hc m t) (congestion_candidates dbm w b) None 0 = Some c \<or>
     hc > 0 \<and> pick_worst (upgrade_level w m t) (congestion_candidates dbm w b) None 999 = Some c"
    unfolding choose_congested_def Let_def by (auto split: option.splits if_splits)
  from p show ?thesis
  proof
    assume "pick_best (solving_level w fc hc m t) (congestion_candidates dbm w b) None 0 = Some c"
    from pick_best_Some[OF this] show ?thesis using sl q by blast
  next
    assume h: "hc > 0 \<and> pick_worst (upgrade_level w m t) (congestion_candidates dbm w b) None 999 = Some c"
    then have "c \<in> set (congestion_candidates dbm w b)" "upgrade_level w m t c \<noteq> None" using pick_worst_Some by blast+
    then show ?thesis using h ul[of m t c] q by auto
  qed
qed

lemma choose_rateD:
  assumes "choose_rate w c n q = Inr t"
  shows "(t = GSM_LCHAN_TCH_F \<and> q AND REQUIREMENT_TCHF_MASK \<noteq> 0 \<or> t = GSM_LCHAN_TCH_H \<and> q AND REQUIREMENT_TCHH_MASK \<noteq> 0) \<and>
    (n \<noteq> lchan_bts (ca_lchan c) \<or> t \<noteq> lc_type (lchan_at w (ca_lchan c)))"
  using assms by (auto simp: choose_rate_def Let_def split: gsm_chan_t.splits if_splits)

text \<open>
  Property C16.  The congestion check of a cell makes at most one move, and one that helps: it moves an established
  call without handover or assignment from a kind of channel of which the cell has too few free ones, to
  another cell or the other kind of channel; and the target keeps its minimum of free channels, or has
  no fewer free ones than were left here.
\<close>

theorem congestion_move_helps:
  assumes "b < length (hn_bts w)" "v = w\<lparr> global_ho_reason := HO_REASON_CONGESTION \<rparr>"
  shows "bts_congestion_check hreq dbm b w = v \<or>
    (\<exists>req n. bts_congestion_check hreq dbm b w = hreq req v \<and>
       (let r = hr_old_lchan req; old = lc_type (lchan_at v r); new = hr_new_lchan_type req in
        lchan_bts r = b \<and> old \<in> {GSM_LCHAN_TCH_F, GSM_LCHAN_TCH_H} \<and> lchan_state_is (lchan_at v r) LCHAN_ST_ESTABLISHED \<and>
        (\<exists>k. lc_conn (lchan_at v r) = Some k \<and> hc_assignment_new_lchan (hn_conn v k) = None \<and> \<not> hc_ho_fi (hn_conn v k)) \<and>
        free_ts v b (tch_pchan old) < min_slots v b old \<and>
        hr_target_nik req = bts_ident_key (bts_at v n) \<and> n < length (hn_bts v) \<and> new \<in> {GSM_LCHAN_TCH_F, GSM_LCHAN_TCH_H} \<and> (n \<noteq> b \<or> new \<noteq> old) \<and>
        (free_ts v n (tch_pchan new) - 1 \<ge> min_slots v n new \<or> free_ts v n (tch_pchan new) - 1 \<ge> free_ts v b (tch_pchan old) + 1)))"
proof -
  let ?ff = "free_ts v b GSM_PCHAN_TCH_F" and ?fh = "free_ts v b GSM_PCHAN_TCH_H"
  let ?mf = "h2_tchf_min_slots (cfg_at v b)" and ?mh = "h2_tchh_min_slots (cfg_at v b)"
  define fc where "fc = (if ?mf - ?ff < 0 then 0 else ?mf - ?ff)"
  define hc where "hc = (if ?mh - ?fh < 0 then 0 else ?mh - ?fh)"
  have e: "bts_congestion_check hreq dbm b w = v \<or>
      (\<exists>c q. choose_congested dbm v b fc hc = Some (c, q) \<and> bts_congestion_check hreq dbm b w = snd (trigger_ho hreq c q v))"
    unfolding bts_congestion_check_def bts_resolve_congestion_def Let_def assms(2)[symmetric] fc_def[symmetric] hc_def[symmetric]
    by (auto split: option.splits prod.splits)
  show ?thesis
  proof (cases "bts_congestion_check hreq dbm b w = v")
    case False
    then obtain c q where cq: "choose_congested dbm v b fc hc = Some (c, q)" "bts_congestion_check hreq dbm b w = snd (trigger_ho hreq c q v)"
      using e by blast
    note d = choose_congestedD[OF cq(1)]
    from d obtain r conn where r: "c \<in> set (collect_candidates_for_lchan dbm v r conn True)" "lchan_bts r = b"
      "lc_type (lchan_at v r) \<in> {GSM_LCHAN_TCH_F, GSM_LCHAN_TCH_H}" "lchan_state_is (lchan_at v r) LCHAN_ST_ESTABLISHED"
      "\<exists>k. lc_conn (lchan_at v r) = Some k \<and> hc_assignment_new_lchan (hn_conn v k) = None \<and> \<not> hc_ho_fi (hn_conn v k)"
      using congestion_candidateD by metis
    have "lchan_bts r < length (hn_bts v)" using assms r(2) by simp
    note f = candidate_facts[OF r(1) this]
    from d obtain n where n: "ca_bts c = Some n" by blast
    with f have l: "ca_lchan c = r" "n < length (hn_bts v)" and
      q: "ca_requirements c = check_requirements v r conn n (free_ts v n GSM_PCHAN_TCH_F) (free_ts v n GSM_PCHAN_TCH_H)" by auto
    from False cq(2) n obtain t where t: "choose_rate v c n q = Inr t"
      by (cases "choose_rate v c n q") (simp_all add: trigger_ho_def trigger_local_ho_or_as_def)
    note rt = choose_rateD[OF t]
    have bits: "req_B v r conn n t (free_ts v n (tch_pchan t)) \<or> req_C v r conn n t (free_ts v n (tch_pchan t))"
      using rt d unfolding q check_requirements_documented by (auto simp: masked_bits)
    have own: "own_free v r = free_ts v b (tch_pchan (lc_type (lchan_at v r)))" using r(2,3) by (auto simp: own_free_def)
    have "free_ts v b (tch_pchan (lc_type (lchan_at v r))) < min_slots v b (lc_type (lchan_at v r))"
      using d r(3) l(1) by (auto simp: fc_def hc_def min_slots_def split: if_splits)
    moreover have "bts_congestion_check hreq dbm b w =
        hreq \<lparr> hr_old_lchan = r, hr_target_nik = bts_ident_key (bts_at v n), hr_new_lchan_type = t \<rparr> v"
      using cq(2) n t l(1) by (simp add: trigger_ho_def trigger_local_ho_or_as_def)
    moreover have "free_ts v n (tch_pchan t) - 1 \<ge> min_slots v n t \<or> free_ts v n (tch_pchan t) - 1 \<ge> free_ts v b (tch_pchan (lc_type (lchan_at v r))) + 1"
      using bits own by (auto simp: req_B_def req_C_def min_slots_def)
    ultimately show ?thesis
      using r l rt by (intro disjI2 exI[of _ "\<lparr> hr_old_lchan = r, hr_target_nik = bts_ident_key (bts_at v n), hr_new_lchan_type = t \<rparr>"] exI[of _ n])
        (auto simp: Let_def)
  qed simp
qed

section \<open>Penalties\<close>

lemma remaining_ge:
  "(obj, x) \<in> set pt \<Longrightarrow> t < x \<Longrightarrow> x - t \<le> penalty_timers_remaining t obj pt"
proof -
  let ?f = "\<lambda>(k, t') m :: u32. if k \<noteq> obj then m else if t \<ge> t' then m else if t' - t > m then t' - t else m"
  have ge: "m \<le> fold ?f pt m" for m pt
  proof (induction pt arbitrary: m)
    case (Cons e pt)
    have "m \<le> ?f e m" by (auto split: prod.splits)
    also have "\<dots> \<le> fold ?f pt (?f e m)" by (rule Cons.IH)
    finally show ?case by simp
  qed simp
  have "x - t \<le> fold ?f pt m" if "(obj, x) \<in> set pt" "t < x" for m pt
    using that
  proof (induction pt arbitrary: m)
    case (Cons e pt)
    show ?case
    proof (cases "e = (obj, x)")
      case True
      then have "x - t \<le> ?f e m" using Cons.prems by auto
      also have "\<dots> \<le> fold ?f pt (?f e m)" by (rule ge)
      finally show ?thesis by simp
    next
      case False
      then show ?thesis using Cons by simp
    qed
  qed simp
  then show "(obj, x) \<in> set pt \<Longrightarrow> t < x \<Longrightarrow> x - t \<le> penalty_timers_remaining t obj pt"
    by (simp add: penalty_timers_remaining_def)
qed

lemma upsert_later: "\<exists>x \<ge> v. (k, x) \<in> set (upsert k (\<lambda>u. if u < v then v else u) v (pt :: ('o \<times> u32) list))"
  by (induction pt) (auto simp: not_less)

lemma penalty_runs:
  assumes "0 < p" "uint now + p < 2 ^ 32" "uint t < uint now + p"
  shows "penalty_timers_remaining t obj (penalty_timers_add now obj p pt) \<noteq> 0"
proof -
  let ?v = "now + word_of_int p"
  have "p < 2 ^ 32" using assms(2) uint_ge_0[of now] by linarith
  then have p: "uint (word_of_int p :: u32) = p" using assms(1) by (simp add: uint_word_of_int)
  have v: "uint ?v = uint now + p" using assms p by (simp add: uint_plus_simple_iff word_le_def uint_word_ariths(1) uint_word_of_int)
  obtain x where x: "x \<ge> ?v" "(obj, x) \<in> set (penalty_timers_add now obj p pt)"
    using upsert_later[of ?v obj pt] assms(1) unfolding penalty_timers_add_def Let_def by auto
  have "uint ?v \<le> uint x" using x(1) by (simp only: word_le_def)
  then have "t < x" using v assms(3) by (simp add: word_less_def)
  from remaining_ge[OF x(2) this] \<open>t < x\<close> show ?thesis by (auto simp: word_le_0_iff)
qed

text \<open>
  Property C18.  After a failed handover that may not be tried again, the target cell is out of question for the call
  until the configured penalty has passed: no requirement of the handover decision is met there.
\<close>

theorem failed_handover_blocks_target:
  assumes "hc_lchan (hn_conn w c) = Some r" "hc_ho_new_lchan (hn_conn w c) = Some n"
    and "hc_failures (hn_conn w c) \<ge> h2_retries (cfg_at w (lchan_bts r))"
    and "p = (if hc_ho_scope (hn_conn w c) = HO_INTRA_CELL then h2_penalty_failed_as (cfg_at w (lchan_bts r))
              else h2_penalty_failed_ho (cfg_at w (lchan_bts r)))"
    and "0 < p" "uint (hn_time w) + p < 2 ^ 32" "uint t < uint (hn_time w) + p"
    and "v = (on_handover_end c False w)\<lparr> hn_time := t \<rparr>"
  shows "hc_failures (hn_conn v c) = 0 \<and> check_requirements v r' (hn_conn v c) (lchan_bts n) tchf tchh = 0"
proof -
  let ?pt = "case hc_penalty_timers (hn_conn w c) of None \<Rightarrow> penalty_timers_init | Some pt \<Rightarrow> pt"
  have v: "hn_conn v c = (hn_conn w c)\<lparr> hc_failures := 0, hc_penalty_timers :=
      Some (penalty_timers_add (hn_time w) (PEN_BTS (lchan_bts n)) p ?pt) \<rparr>" "hn_time v = t"
    using assms(1-4,8) by (simp_all add: on_handover_end_def Let_def bts_penalty_time_add_def conn_penalty_time_add_def upd_conn2_def)
  then have "conn_penalty_time_remaining v (hn_conn v c) (PEN_BTS (lchan_bts n)) \<noteq> 0"
    using penalty_runs[OF assms(5-7)] by (simp add: conn_penalty_time_remaining_def)
  then show ?thesis using v by (simp add: check_requirements_refine)
qed

section \<open>An example\<close>

text \<open>
  Three cells with one TRX each.  On each, one TCH/F is in use and seven are free.  The call is on the first cell; the
  second one is received weaker and the third one stronger.
\<close>

definition h2_running :: gsm_nm_state where
  "h2_running = \<lparr> operational = NM_OPSTATE_ENABLED, availability = NM_AVSTATE_OK \<rparr>"

definition h2_ts :: "nat \<Rightarrow> lchan_fsm_state \<Rightarrow> conn_ref option \<Rightarrow> gsm_bts_trx_ts" where
  "h2_ts k st c = (alloc_ts k)\<lparr> ts_fi := Some \<lparr> tf_state = (if st = LCHAN_ST_UNUSED then TS_ST_UNUSED else TS_ST_IN_USE), tf_T = None \<rparr>,
     pchan_from_config := GSM_PCHAN_TCH_F, pchan_on_init := GSM_PCHAN_TCH_F, pchan_is := GSM_PCHAN_TCH_F, ts_mo := h2_running,
     lchans := [(zero_lchan 0 (Some \<lparr> lf_state = st, lf_T = None \<rparr>) None)
       \<lparr> lc_type := (if st = LCHAN_ST_UNUSED then GSM_LCHAN_NONE else GSM_LCHAN_TCH_F),
         tch_mode := (if st = LCHAN_ST_UNUSED then GSM48_CMODE_SIGN else GSM48_CMODE_SPEECH_V1), lc_conn := c \<rparr>] \<rparr>"

definition h2_cfg :: "int \<Rightarrow> hodec2_cfg" where
  "h2_cfg slots = \<lparr> h2_ho_active = True, h2_rxlev_avg_win = 1, h2_rxqual_avg_win = 1, h2_rxlev_neigh_avg_win = 1, h2_pwr_interval = 1,
     h2_pwr_hysteresis = 3, h2_max_distance = 9999, h2_as_active = False, h2_full_tdma = True, h2_min_rxlev = -100, h2_min_rxqual = 5,
     h2_afs_bias_rxlev = 0, h2_afs_bias_rxqual = 0, h2_tchf_min_slots = slots, h2_tchh_min_slots = 0, h2_ho_max = 9999,
     h2_penalty_max_dist = 300, h2_penalty_failed_ho = 60, h2_penalty_failed_as = 60, h2_retries = 0 \<rparr>"

definition h2_bts :: "u8 \<Rightarrow> u16 \<Rightarrow> conn_ref option \<Rightarrow> int \<Rightarrow> ho_bts" where
  "h2_bts n arfcn c slots = \<lparr> bts_nr = n, bts_type = GSM_BTS_TYPE_OSMOBTS, bts_mo = h2_running, oml_link = True, gprs_mode = BTS_GPRS_NONE,
     chan_alloc_reverse = False, location_area_code = 1, cell_identity = 0, infinite_radio_link_timeout = False,
     radio_link_timeout = 7, depends_on = replicate 8 0, local_neighbors = [],
     trx_list = [\<lparr> trx_nr = 0, trx_mo = h2_running, bb_transc_mo = h2_running, trx_arfcn = arfcn,
       trx_ts = h2_ts 0 LCHAN_ST_ESTABLISHED c # map (\<lambda>k. h2_ts k LCHAN_ST_UNUSED None) [1..<8] \<rparr>],
     codec_hr = False, codec_efr = False, codec_amr = False, mr_full = (0, 0), mr_half = (0, 0), bts_bsic = 12, bts_ho = h2_cfg slots \<rparr>"

definition h2_neigh :: "u16 \<Rightarrow> u8 \<Rightarrow> neigh_meas_proc" where
  "h2_neigh arfcn lev = \<lparr> nm_arfcn = arfcn, nm_bsic = 12, nm_rxlev = replicate 10 lev, nm_rxlev_cnt = 1, nm_last_seen_nr = 5 \<rparr>"

definition h2_conn :: ho_conn where
  "h2_conn = \<lparr> hc_lchan = Some (0, 0, 0, 0), hc_assignment_new_lchan = None, hc_ho_fi = False, hc_ho_scope = HO_NO_HANDOVER,
     hc_ho_new_lchan = Some (1, 0, 1, 0), hc_ho_target_cell = \<lparr> from_bts = 0, ni_arfcn = 872, ni_bsic = 12 \<rparr>, hc_failures = 0,
     hc_penalty_timers = None, hc_codec_list = [] \<rparr>"

definition h2_net :: "int \<Rightarrow> unit ho_net" where
  "h2_net slots = \<lparr> hn_bts = [h2_bts 0 871 (Some 1) slots, h2_bts 1 872 None 1, h2_bts 2 873 None 1],
     hn_meas = (\<lambda>_. \<lparr> meas_rep = replicate 10 (zero_meas_rep\<lparr> mr_nr := 5, F_DL_VALID := True, mr_dl := zero_unidir\<lparr> full_rx_lev := 30 \<rparr> \<rparr>),
       meas_rep_idx = 1, meas_rep_count = 1, last_seen_nr = 5, ml_rqd_ta = 0 \<rparr>),
     hn_neigh = (\<lambda>_. [h2_neigh 872 20, h2_neigh 873 40] @ replicate 8 free_neigh),
     hn_conn = (\<lambda>_. h2_conn), hn_cells = None, hn_time = 1000, global_ho_reason = HO_REASON_BETTER_CELL,
     congestion_check_interval_s = 10, congestion_check_timer = None, hodec2_initialized = True \<rparr>"

definition h2_dbm :: "u8 \<Rightarrow> int" where
  "h2_dbm x = uint x - 110"

text \<open>What the example gives, step by step.\<close>

lemma h2_av_rxlev: "lchan_av_rxlev (h2_net s) (0, 0, 0, 0) = 30"
  by (simp add: lchan_av_rxlev_def cfg_at_def bts_at_def h2_net_def h2_bts_def h2_cfg_def get_meas_rep_avg_def ring_window_def
    calc_initial_idx_def zero_meas_rep_def)

lemma h2_avg: "hodec2_neigh_meas_avg (h2_neigh a l) 1 = uint l"
  by (simp add: hodec2_neigh_meas_avg_def h2_neigh_def calc_initial_idx_def)

lemma h2_by_ident: "bts_by_neighbor_ident (h2_net s) \<lparr> from_bts = 0, ni_arfcn = 872, ni_bsic = 12 \<rparr> = Some 1"
  by (simp add: bts_by_neighbor_ident_def h2_net_def h2_bts_def neighbor_ident_key_match_def bts_c0_arfcn_def NEIGHBOR_IDENT_KEY_ANY_BTS_def
      BSIC_ANY_def Let_def)

lemma h2_free: "free_ts (h2_net s) (Suc 0) GSM_PCHAN_TCH_F = 7" "free_ts (h2_net s) 0 GSM_PCHAN_TCH_F = 7"
  by code_simp+

lemma h2_count: "bts_handover_count (h2_net s) b q = 0"
proof -
  have n: "\<not> hc_ho_fi (hn_conn (h2_net s) c)" for c by (simp add: h2_net_def h2_conn_def)
  have "(case x of None \<Rightarrow> False | Some c \<Rightarrow> hc_ho_fi (hn_conn (h2_net s) c) \<and> P c) = False" for x P
    by (cases x) (simp_all add: n)
  then show ?thesis by (auto simp: bts_handover_count_def)
qed

lemma h2_lchan: "tch_mode (lchan_at (h2_net s) (0, 0, 0, 0)) = GSM48_CMODE_SPEECH_V1" "lc_type (lchan_at (h2_net s) (0, 0, 0, 0)) = GSM_LCHAN_TCH_F"
  by (simp_all add: bts_at_def h2_net_def h2_bts_def h2_ts_def)

lemma h2_cfg_at: "cfg_at (h2_net s) 0 = h2_cfg s" "cfg_at (h2_net s) (Suc 0) = h2_cfg 1" "cfg_at (h2_net s) 2 = h2_cfg 1"
  by (simp_all add: cfg_at_def bts_at_def h2_net_def h2_bts_def)

lemma h2_req_A: "req_A (h2_net s) (0, 0, 0, 0) h2_conn (Suc 0) GSM_LCHAN_TCH_F 7"
  by (simp add: req_A_def may_serve_def h2_cfg_at h2_count conn_penalty_time_remaining_def h2_lchan del: lchan_at.simps) (simp add: h2_cfg_def h2_conn_def)

definition h2_weak :: "int \<Rightarrow> ho_candidate" where
  "h2_weak s = \<lparr> ca_lchan = (0, 0, 0, 0), ca_nik = \<lparr> from_bts = 0, ni_arfcn = 872, ni_bsic = 12 \<rparr>, ca_bts = Some 1, ca_cil = None,
     ca_requirements = check_requirements (h2_net s) (0, 0, 0, 0) h2_conn 1 7 (free_ts (h2_net s) 1 GSM_PCHAN_TCH_H), ca_avg = 20 \<rparr>"

lemma h2_weak_candidate: "h2_weak s \<in> set (collect_candidates_for_lchan h2_dbm (h2_net s) (0, 0, 0, 0) h2_conn True)"
proof -
  have "collect_handover_candidate h2_dbm (h2_net s) (0, 0, 0, 0) h2_conn True 30 (h2_neigh 872 20) = Some (h2_weak s)"
  proof -
    have "bts_nr (bts_at (h2_net s) 0) = 0" "last_seen_nr (hn_meas (h2_net s) (0, 0, 0, 0)) = 5"
      "nm_arfcn (h2_neigh 872 20) = 872" "nm_bsic (h2_neigh 872 20) = 12" "nm_last_seen_nr (h2_neigh 872 20) = 5"
      by (simp_all add: bts_at_def h2_net_def h2_bts_def h2_neigh_def)
    moreover have "h2_rxlev_neigh_avg_win (h2_cfg s) = 1" "h2_min_rxlev (h2_cfg 1) = -100" by (simp_all add: h2_cfg_def)
    ultimately show ?thesis
      by (simp add: collect_handover_candidate_def Let_def h2_by_ident h2_cfg_at h2_avg h2_dbm_def h2_weak_def h2_free)
  qed
  moreover have "h2_neigh 872 20 \<in> set (hn_neigh (h2_net s) (0, 0, 0, 0))" by (simp add: h2_net_def)
  moreover have "h2_ho_active (h2_cfg s)" "\<not> h2_as_active (h2_cfg s)" by (simp_all add: h2_cfg_def)
  ultimately show ?thesis
    by (auto simp add: collect_candidates_for_lchan_def h2_av_rxlev h2_cfg_at set_map_filter)
qed

lemma meets_B: "req_word af True cf ah bh ch AND REQUIREMENT_B_MASK \<noteq> 0"
  using masked_bits(1)[of af True cf ah bh ch] by auto

lemma h2_weak_gain: "gain_B (h2_net s) (0, 0, 0, 0) (h2_weak s) = Some (- 10)"
proof -
  have "\<not> uses_ahs (h2_net s) (0, 0, 0, 0)" by (simp add: uses_ahs_def h2_lchan del: lchan_at.simps)
  moreover have "req_B (h2_net s) (0, 0, 0, 0) h2_conn (Suc 0) GSM_LCHAN_TCH_F 7"
    by (simp add: req_B_def h2_req_A h2_cfg_at) (simp add: h2_cfg_def)
  then have "ca_requirements (h2_weak s) AND REQUIREMENT_B_MASK \<noteq> 0"
    using meets_B by (simp add: h2_weak_def check_requirements_documented)
  ultimately show ?thesis by (simp add: gain_def h2_av_rxlev h2_weak_def)
qed

lemma h2_bias_ok: "bias_ok (h2_net s)"
  unfolding bias_ok_def
proof (intro allI impI)
  fix b assume "b < length (hn_bts (h2_net s))"
  then have "b = 0 \<or> b = Suc 0 \<or> b = 2" by (auto simp: h2_net_def)
  then show "0 \<le> h2_afs_bias_rxlev (cfg_at (h2_net s) b) \<and> h2_afs_bias_rxlev (cfg_at (h2_net s) b) \<le> 20"
    by (auto simp: h2_cfg_at) (simp_all add: h2_cfg_def)
qed

lemma h2_length: "length (hn_bts (h2_net s)) = 3" by (simp add: h2_net_def)

theorem hodec2_weaker_cell_chosen_witness:
  "\<exists>c \<in> set (collect_candidates_for_lchan h2_dbm (h2_net 1) (0, 0, 0, 0) h2_conn True). \<exists>s < 0.
    gain_B (h2_net 1) (0, 0, 0, 0) c = Some s \<and>
    find_alternative_lchan (\<lambda>req w. w) h2_dbm (0, 0, 0, 0) h2_conn True (h2_net 1) =
      trigger_ho (\<lambda>req w. w) c (ca_requirements c AND REQUIREMENT_B_MASK) (h2_net 1)"
  by (rule hodec2_weaker_cell_chosen[OF _ h2_bias_ok h2_weak_candidate h2_weak_gain]) (simp_all add: h2_length)

theorem hodec2_better_cell_witness:
  "let cs = collect_candidates_for_lchan h2_dbm (h2_net 1) (0, 0, 0, 0) h2_conn False;
       res = find_alternative_lchan (\<lambda>req w. w) h2_dbm (0, 0, 0, 0) h2_conn False (h2_net 1) in
    (\<exists>c. best_of (gain_B (h2_net 1) (0, 0, 0, 0)) cs c \<and> res = trigger_ho (\<lambda>req w. w) c (ca_requirements c AND REQUIREMENT_B_MASK) (h2_net 1)) \<or>
    none_better (gain_B (h2_net 1) (0, 0, 0, 0)) cs \<and>
      ((\<exists>c. best_of (gain_C (h2_net 1) (0, 0, 0, 0)) cs c \<and> res = trigger_ho (\<lambda>req w. w) c (ca_requirements c AND REQUIREMENT_C_MASK) (h2_net 1)) \<or>
       none_better (gain_C (h2_net 1) (0, 0, 0, 0)) cs \<and> res = (0, h2_net 1))"
  by (rule hodec2_better_cell[OF _ h2_bias_ok]) (simp add: h2_length)

theorem candidates_fit_witness:
  "length (collect_candidates_for_lchan h2_dbm (h2_net 1) (0, 0, 0, 0) h2_conn True) \<le> 11 \<and> length (congestion_candidates h2_dbm (h2_net 1) 0) \<le> 176"
  using candidates_fit[of "h2_net 1" h2_dbm "(0, 0, 0, 0)" h2_conn True 0] by (simp add: h2_net_def MAX_NEIGH_MEAS_def bts_at_def h2_bts_def)

theorem congestion_move_helps_witness:
  "let v = (h2_net 8)\<lparr> global_ho_reason := HO_REASON_CONGESTION \<rparr>; hreq = (\<lambda>req w. w\<lparr> hn_time := 2000 \<rparr>) in
    bts_congestion_check hreq h2_dbm 0 (h2_net 8) = v \<or>
    bts_congestion_check hreq h2_dbm 0 (h2_net 8) = v\<lparr> hn_time := 2000 \<rparr> \<and> free_ts v 0 GSM_PCHAN_TCH_F < 8"
proof -
  let ?v = "(h2_net 8)\<lparr> global_ho_reason := HO_REASON_CONGESTION \<rparr>"
  have "free_ts ?v 0 GSM_PCHAN_TCH_F < 8" by code_simp
  then show ?thesis
    using congestion_move_helps[of 0 "h2_net 8" ?v "\<lambda>req w. w\<lparr> hn_time := 2000 \<rparr>" h2_dbm, OF _ refl]
    by (auto simp: Let_def h2_length)
qed

theorem failed_handover_blocks_target_witness:
  "let v = (on_handover_end 1 False (h2_net 1))\<lparr> hn_time := 1059 \<rparr> in
    hc_failures (hn_conn v 1) = 0 \<and> check_requirements v (0, 0, 0, 0) (hn_conn v 1) 1 2 0 = 0"
proof -
  have "hn_conn (h2_net 1) c = h2_conn" "hn_time (h2_net 1) = 1000" for c by (simp_all add: h2_net_def)
  moreover have "h2_retries (h2_cfg 1) = 0" "h2_penalty_failed_ho (h2_cfg 1) = 60" by (simp_all add: h2_cfg_def)
  moreover have "hc_lchan h2_conn = Some (0, 0, 0, 0)" "hc_ho_new_lchan h2_conn = Some (1, 0, 1, 0)" "hc_failures h2_conn = 0"
    "hc_ho_scope h2_conn = HO_NO_HANDOVER" by (simp_all add: h2_conn_def)
  ultimately show ?thesis
    using failed_handover_blocks_target[of "h2_net 1" 1 "(0, 0, 0, 0)" "(1, 0, 1, 0)" 60 1059, OF _ _ _ _ _ _ _ refl]
    by (simp add: h2_cfg_at)
qed

end
