(* ===== verification/Rest_Octets.thy ===== *)
theory Rest_Octets
  imports Freq_List Osmo_Fsm
begin

unbundle bit_operations_syntax

text \<open>
  The rest octets of the system information messages, \<^verbatim>\<open>rest_octets.c\<close>, and the part of
  \<^verbatim>\<open>system_information.c\<close> that keeps the lists of UMTS and LTE neighbors and distributes them over
  SI2quater messages.

  The bit vectors (\<^verbatim>\<open>bitvec_set_bit\<close>, \<^verbatim>\<open>bitvec_set_uint\<close>, \<^verbatim>\<open>bitvec_spare_padding\<close>, \<^verbatim>\<open>bitvec_add_range1024\<close> and the member
  \<^verbatim>\<open>cur_bit\<close>) belong to libosmocore: they are the record \<open>bitvec_ops\<close>, an argument of every encoder.  The table of
  EARFCNs belongs to libosmocore too; an entry that is \<^verbatim>\<open>OSMO_EARFCN_INVALID\<close> and a bandwidth that is
  \<^verbatim>\<open>OSMO_EARFCN_MEAS_INVALID\<close> are \<^const>\<open>None\<close>, and \<^verbatim>\<open>osmo_earfcn_add\<close> is an argument.  An access outside an array
  and a failed assertion are \<open>Abort\<close>.
\<close>

section \<open>Bit vectors\<close>

datatype bit_value = ZERO | ONE | L | H

record 'b bitvec_ops =
  bv_start :: "nat \<Rightarrow> 'b"
  bv_set_bit :: "bit_value \<Rightarrow> 'b \<Rightarrow> 'b"
  bv_set_uint :: "nat \<Rightarrow> nat \<Rightarrow> 'b \<Rightarrow> 'b"
  bv_spare_padding :: "nat \<Rightarrow> 'b \<Rightarrow> 'b"
  bv_add_range1024 :: "u8 list \<Rightarrow> 'b \<Rightarrow> 'b"
  bv_cur_bit :: "'b \<Rightarrow> nat"
  bv_set_cur_bit :: "nat \<Rightarrow> 'b \<Rightarrow> 'b"

text \<open>Writes one after the other.\<close>

definition writes :: "('b \<Rightarrow> 'b) list \<Rightarrow> 'b \<Rightarrow> 'b" where
  "writes fs bv = fold (\<lambda>f bv. f bv) fs bv"

definition flag :: "'b bitvec_ops \<Rightarrow> bool \<Rightarrow> 'b \<Rightarrow> 'b" where
  "flag lib b = bv_set_bit lib (if b then ONE else ZERO)"

definition lh :: "'b bitvec_ops \<Rightarrow> bool \<Rightarrow> 'b \<Rightarrow> 'b" where
  "lh lib b = bv_set_bit lib (if b then H else L)"

section \<open>Rest octets of single messages\<close>

definition rest_octets_si1 :: "'b bitvec_ops \<Rightarrow> u8 option \<Rightarrow> bool \<Rightarrow> int \<times> 'b" where
  "rest_octets_si1 lib nch_pos is1800_net =
     (1, bv_spare_padding lib 6 (writes [
        (case nch_pos of Some p \<Rightarrow> writes [lh lib True, bv_set_uint lib (unat p) 5] | None \<Rightarrow> lh lib False),
        (if is1800_net then lh lib False else lh lib True)] (bv_start lib 1)))"

definition rest_octets_si2ter :: "'b bitvec_ops \<Rightarrow> int \<times> 'b" where
  "rest_octets_si2ter lib = (4, bv_spare_padding lib (4 * 8 - 1) (lh lib False (bv_start lib 4)))"

definition rest_octets_si2bis :: "'b bitvec_ops \<Rightarrow> int \<times> 'b" where
  "rest_octets_si2bis lib = (1, bv_spare_padding lib (1 * 8 - 1) (bv_start lib 1))"

record gsm48_si_selection_params =
  sp_penalty_time :: u8
  sp_temp_offs :: u8
  sp_cell_resel_off :: u8
  sp_cbq :: bool
  sp_present :: bool

record gsm48_si_power_offset =
  po_power_offset :: u8
  po_present :: bool

record gsm48_si3_gprs_ind =
  gi_si13_position :: bool
  gi_ra_colour :: u8
  gi_present :: bool

record gsm48_si_ro_info =
  selection_params :: gsm48_si_selection_params
  power_offset :: gsm48_si_power_offset
  si2ter_indicator :: bool
  early_cm_ctrl :: bool
  sched_where :: u8
  sched_present :: bool
  gprs_ind :: gsm48_si3_gprs_ind
  early_cm_restrict_3g :: bool
  si2quater_indicator :: bool
  break_ind :: bool

definition append_selection_params :: "'b bitvec_ops \<Rightarrow> gsm48_si_selection_params \<Rightarrow> 'b \<Rightarrow> 'b" where
  "append_selection_params lib sp =
     (if sp_present sp
      then writes [lh lib True, flag lib (sp_cbq sp), bv_set_uint lib (unat (sp_cell_resel_off sp)) 6,
                   bv_set_uint lib (unat (sp_temp_offs sp)) 3, bv_set_uint lib (unat (sp_penalty_time sp)) 5]
      else lh lib False)"

definition append_power_offset :: "'b bitvec_ops \<Rightarrow> gsm48_si_power_offset \<Rightarrow> 'b \<Rightarrow> 'b" where
  "append_power_offset lib po =
     (if po_present po then writes [lh lib True, bv_set_uint lib (unat (po_power_offset po)) 2] else lh lib False)"

definition append_gprs_ind :: "'b bitvec_ops \<Rightarrow> gsm48_si3_gprs_ind \<Rightarrow> 'b \<Rightarrow> 'b" where
  "append_gprs_ind lib gi =
     (if gi_present gi then writes [lh lib True, bv_set_uint lib (unat (gi_ra_colour gi)) 3, flag lib (gi_si13_position gi)]
      else lh lib False)"

definition rest_octets_si3 :: "'b bitvec_ops \<Rightarrow> gsm48_si_ro_info \<Rightarrow> int \<times> 'b" where
  "rest_octets_si3 lib si3 =
     (4, bv_spare_padding lib (4 * 8 - 1) (writes [
        append_selection_params lib (selection_params si3),
        append_power_offset lib (power_offset si3),
        lh lib (si2ter_indicator si3),
        lh lib (early_cm_ctrl si3),
        (if sched_present si3 then writes [lh lib True, bv_set_uint lib (unat (sched_where si3)) 3] else lh lib False),
        append_gprs_ind lib (gprs_ind si3),
        (if early_cm_restrict_3g si3 then lh lib False else lh lib True),
        (if si2quater_indicator si3 then writes [lh lib True, bv_set_uint lib 0 1] else writes [])] (bv_start lib 4)))"

text \<open>The branch for the LSA parameters is disabled in the code; there is no padding.\<close>

definition rest_octets_si4 :: "'b bitvec_ops \<Rightarrow> gsm48_si_ro_info \<Rightarrow> nat \<Rightarrow> int \<times> 'b" where
  "rest_octets_si4 lib si4 len =
     (int len, writes [
        append_selection_params lib (selection_params si4),
        append_power_offset lib (power_offset si4),
        append_gprs_ind lib (gprs_ind si4),
        lh lib False,
        lh lib (break_ind si4)] (bv_start lib len))"

definition rest_octets_si6 :: "'b bitvec_ops \<Rightarrow> bool \<Rightarrow> int \<times> 'b" where
  "rest_octets_si6 lib is1800_net =
     (1, bv_spare_padding lib (1 * 8 - 1) (writes [lh lib False, lh lib False, lh lib False,
        (if is1800_net then lh lib False else lh lib True), lh lib False] (bv_start lib 1)))"

section \<open>SI13\<close>

record gprs_cell_options =
  gco_nmo :: nat
  gco_t3168 :: u32
  gco_t3192 :: u32
  gco_drx_timer_max :: u32
  gco_bs_cv_max :: u32
  supports_egprs_11bit_rach :: u8
  ctrl_ack_type_use_block :: bool
  ext_info_present :: bool
  egprs_supported :: bool
  use_egprs_p_ch_req :: bool
  bep_period :: u8
  pfc_supported :: bool
  dtm_supported :: bool
  bss_paging_coordination :: bool

record gprs_power_ctrl_pars =
  pcp_alpha :: u8
  pcp_t_avg_w :: u8
  pcp_t_avg_t :: u8
  pcp_pc_meas_chan :: u8
  pcp_n_avg_i :: u8

record gsm48_si13_info =
  cell_opts :: gprs_cell_options
  pwr_ctrl_pars :: gprs_power_ctrl_pars
  bcch_change_mark :: u8
  si_change_field :: u8
  si13_rac :: u8
  spgc_ccch_sup :: bool
  net_ctrl_ord :: u8
  prio_acc_thr :: u8

definition RO_EINVAL :: int where "RO_EINVAL = 22"

definition encode_t3192 :: "u32 \<Rightarrow> int" where
  "encode_t3192 t3192 =
     (if t3192 = 0 then 3 else if t3192 \<le> 80 then 4 else if t3192 \<le> 120 then 5 else if t3192 \<le> 160 then 6
      else if t3192 \<le> 200 then 7 else if t3192 \<le> 500 then 0 else if t3192 \<le> 1000 then 1 else if t3192 \<le> 1500 then 2
      else - RO_EINVAL)"

definition encode_drx_timer :: "u32 \<Rightarrow> int" where
  "encode_drx_timer drx =
     (if drx = 0 then 0 else if drx = 1 then 1 else if drx = 2 then 2 else if drx \<le> 4 then 3 else if drx \<le> 8 then 4
      else if drx \<le> 16 then 5 else if drx \<le> 32 then 6 else if drx \<le> 64 then 7 else - RO_EINVAL)"

definition append_gprs_cell_opt :: "'b bitvec_ops \<Rightarrow> gprs_cell_options \<Rightarrow> 'b \<Rightarrow> int \<times> 'b" where
  "append_gprs_cell_opt lib gco bv =
     (let t3192 = encode_t3192 (gco_t3192 gco); drx_timer_max = encode_drx_timer (gco_drx_timer_max gco) in
      if t3192 < 0 then (t3192, bv)
      else if drx_timer_max < 0 then (drx_timer_max, bv)
      else (0, writes [
        bv_set_uint lib (gco_nmo gco) 2,
        bv_set_uint lib (unat (gco_t3168 gco div 500 - 1)) 3,
        bv_set_uint lib (nat t3192) 3,
        bv_set_uint lib (nat drx_timer_max) 3,
        flag lib False,
        flag lib (ctrl_ack_type_use_block gco),
        bv_set_uint lib (unat (gco_bs_cv_max gco)) 4,
        flag lib True, bv_set_uint lib 1 3, bv_set_uint lib 1 3, bv_set_uint lib 15 3,
        (if \<not> ext_info_present gco then flag lib False
         else writes [
           flag lib True,
           (if \<not> egprs_supported gco then writes [bv_set_uint lib ((1 + 3) - 1) 6, flag lib False]
            else writes [
              bv_set_uint lib ((1 + 5 + 3) - 1) 6,
              flag lib True,
              (if supports_egprs_11bit_rach gco = 0 then flag lib (use_egprs_p_ch_req gco) else flag lib False),
              bv_set_uint lib (unat (bep_period gco)) 4]),
           flag lib (pfc_supported gco),
           flag lib (dtm_supported gco),
           flag lib (bss_paging_coordination gco)])] bv))"

definition append_gprs_pwr_ctrl_pars :: "'b bitvec_ops \<Rightarrow> gprs_power_ctrl_pars \<Rightarrow> 'b \<Rightarrow> 'b" where
  "append_gprs_pwr_ctrl_pars lib pcp = writes [
     bv_set_uint lib (unat (pcp_alpha pcp)) 4, bv_set_uint lib (unat (pcp_t_avg_w pcp)) 5, bv_set_uint lib (unat (pcp_t_avg_t pcp)) 5,
     bv_set_uint lib (unat (pcp_pc_meas_chan pcp)) 1, bv_set_uint lib (unat (pcp_n_avg_i pcp)) 4]"

text \<open>The result of \<open>append_gprs_cell_opt\<close> is not checked.\<close>

definition rest_octets_si13 :: "'b bitvec_ops \<Rightarrow> gsm48_si13_info \<Rightarrow> int \<times> 'b" where
  "rest_octets_si13 lib si13 =
     (20, bv_spare_padding lib (20 * 8 - 1) (writes [
        lh lib True,
        bv_set_uint lib (unat (bcch_change_mark si13)) 3,
        bv_set_uint lib (unat (si_change_field si13)) 4,
        flag lib False,
        flag lib False,
        bv_set_uint lib (unat (si13_rac si13)) 8,
        flag lib (spgc_ccch_sup si13),
        bv_set_uint lib (unat (prio_acc_thr si13)) 3,
        bv_set_uint lib (unat (net_ctrl_ord si13)) 2,
        (\<lambda>bv. snd (append_gprs_cell_opt lib (cell_opts si13) bv)),
        append_gprs_pwr_ctrl_pars lib (pwr_ctrl_pars si13),
        lh lib True,
        flag lib True] (bv_start lib 20)))"

section \<open>Neighbors of other systems\<close>

record earfcn_si2q =
  e_arfcn :: "u16 option list"
  e_meas_bw :: "u8 option list"
  e_thresh_hi :: u8
  e_thresh_lo :: u8
  e_thresh_lo_valid :: bool
  e_prio :: u8
  e_prio_valid :: bool
  e_qrxlm :: u8
  e_qrxlm_valid :: bool

record si2q_bts =
  si2q_index :: nat
  si2q_count :: nat
  e_offset :: nat
  u_offset :: nat
  uarfcn_length :: nat
  uarfcn_list :: "u16 list"
  scramble_list :: "u16 list"
  si2quater_neigh_list :: earfcn_si2q

definition SI2Q_MAX_NUM :: nat where "SI2Q_MAX_NUM = 16"
definition SI2Q_MAX_LEN :: int where "SI2Q_MAX_LEN = 160"
definition MAX_EARFCN_LIST :: nat where "MAX_EARFCN_LIST = 32"
definition RO_ENOMEM :: int where "RO_ENOMEM = 12"
definition ENOSPC :: int where "ENOSPC = 28"
definition EADDRINUSE :: int where "EADDRINUSE = 98"

fun range1024_p :: "nat \<Rightarrow> nat" where
  "range1024_p n =
     (if n = 0 then 0 else if n = 1 then 10 else if n = 2 then 19 else if n = 3 then 28 else if n = 4 then 36
      else if n = 5 then 44 else if n = 6 then 52 else if n = 7 then 60 else if n = 8 then 67 else if n = 9 then 74
      else if n = 10 then 81 else if n = 11 then 88 else if n = 12 then 95 else if n = 13 then 102 else if n = 14 then 109
      else if n = 15 then 116 else if n = 16 then 122 else 0)"

definition si2q_earfcn_count :: "earfcn_si2q \<Rightarrow> nat" where
  "si2q_earfcn_count e = fold (\<lambda>i ret. if e_arfcn e ! i \<noteq> None then ret + 1 else ret) [0..<length (e_arfcn e)] 0"

text \<open>
  The loop over the EARFCNs: those of earlier messages are skipped, and the loop ends when one does not fit.
  The result has the count of those that were added.
\<close>

fun eutran_loop :: "'b bitvec_ops \<Rightarrow> (u16 option \<times> u8 option) list \<Rightarrow> nat \<Rightarrow> nat \<Rightarrow> int \<Rightarrow> nat \<Rightarrow> 'b \<Rightarrow> nat \<times> 'b" where
  "eutran_loop lib [] offset skip rem added bv = (added, bv)"
| "eutran_loop lib ((None, bw) # es) offset skip rem added bv = eutran_loop lib es offset skip rem added bv"
| "eutran_loop lib ((Some arfcn, bw) # es) offset skip rem added bv =
     (if skip < offset then eutran_loop lib es offset (skip + 1) rem added bv
      else
        let earfcn_budget = 17 + (if bw = None then 1 else 4) in
        if rem - earfcn_budget < 0 then (added, bv)
        else eutran_loop lib es offset skip (rem - earfcn_budget) (added + 1)
               (writes [flag lib True, bv_set_uint lib (unat arfcn) 16,
                        (case bw of None \<Rightarrow> flag lib False | Some b \<Rightarrow> writes [flag lib True, bv_set_uint lib (unat b) 3])] bv))"

definition optional_uint :: "'b bitvec_ops \<Rightarrow> bool \<Rightarrow> u8 \<Rightarrow> nat \<Rightarrow> 'b \<Rightarrow> 'b" where
  "optional_uint lib valid v n = (if valid then writes [flag lib True, bv_set_uint lib (unat v) n] else flag lib False)"

definition append_eutran_neib_cell :: "'b bitvec_ops \<Rightarrow> int \<Rightarrow> si2q_bts \<Rightarrow> 'b \<Rightarrow> (bool \<times> si2q_bts \<times> 'b) res" where
  "append_eutran_neib_cell lib budget bts bv =
     (let e = si2quater_neigh_list bts;
          rem = budget - 6 - (if e_prio_valid e then 4 else 1) - (if e_thresh_lo_valid e then 6 else 1) - (if e_qrxlm_valid e then 6 else 1)
      in if budget \<le> 6 then Ok (False, bts, bv)
      else if \<not> budget \<le> SI2Q_MAX_LEN then Abort
      else if rem < 0 then Ok (False, bts, bv)
      else
        let (added, bv) = eutran_loop lib (zip (e_arfcn e) (e_meas_bw e)) (e_offset bts) 0 rem 0 bv
        in Ok (True, bts\<lparr> e_offset := e_offset bts + added \<rparr>, writes [
             flag lib False,
             optional_uint lib (e_prio_valid e) (e_prio e) 3,
             bv_set_uint lib (unat (e_thresh_hi e)) 5,
             optional_uint lib (e_thresh_lo_valid e) (e_thresh_lo e) 5,
             optional_uint lib (e_qrxlm_valid e) (e_qrxlm e) 5] bv))"

text \<open>The constant bits in front of the neighbor cells, from the additions of Release 5 on.\<close>

definition earfcn_prefix :: "'b bitvec_ops \<Rightarrow> 'b \<Rightarrow> 'b" where
  "earfcn_prefix lib = writes [lh lib True, flag lib False, flag lib False, lh lib True, flag lib False, lh lib True, flag lib False,
     flag lib False, lh lib True, flag lib True, flag lib False, flag lib False, flag lib True, flag lib False, flag lib True,
     flag lib True, flag lib False, flag lib False, flag lib True]"

definition append_earfcn :: "'b bitvec_ops \<Rightarrow> int \<Rightarrow> si2q_bts \<Rightarrow> 'b \<Rightarrow> (si2q_bts \<times> 'b) res" where
  "append_earfcn lib budget bts bv =
     (let old = bv_cur_bit lib bv; rem = budget - 25 in
      if rem \<le> 0 then Ok (bts, bv)
      else if \<not> budget \<le> SI2Q_MAX_LEN then Abort
      else rbind (append_eutran_neib_cell lib rem bts (earfcn_prefix lib bv)) (\<lambda>(appended, bts, bv).
        if \<not> appended then Ok (bts, bv_set_cur_bit lib old bv)
        else Ok (bts, writes [flag lib False, flag lib False, flag lib False, flag lib False, flag lib False, lh lib False] bv)))"

definition f0_helper :: "int list \<Rightarrow> nat \<Rightarrow> (int \<times> u8 list) res" where
  "f0_helper sc len =
     (case range_encode ARFCN_RANGE_1024 sc len (replicate RANGE_ENC_MAX_ARFCNS 0) 0 (replicate 16 0) of
        None \<Rightarrow> Abort | Some r \<Rightarrow> Ok r)"

definition append_utran_fdd_length :: "int list \<Rightarrow> nat \<Rightarrow> int res" where
  "append_utran_fdd_length sc len =
     rbind (f0_helper sc len) (\<lambda>(f0, chan_list). if f0 < 0 then Ok f0 else Ok (21 + int (range1024_p len)))"

definition append_utran_fdd :: "'b bitvec_ops \<Rightarrow> u16 \<Rightarrow> int list \<Rightarrow> nat \<Rightarrow> 'b \<Rightarrow> (int \<times> 'b) res" where
  "append_utran_fdd lib u sc len bv =
     rbind (f0_helper sc len) (\<lambda>(f0, chan_list).
       if f0 < 0 then Ok (f0, bv)
       else
         let bv = writes [flag lib True, flag lib False, bv_set_uint lib (unat u) 14, flag lib (f0 \<noteq> 0), bv_set_uint lib len 5] bv;
             pos = bv_cur_bit lib bv
         in Ok (21 + int (range1024_p len), bv_set_cur_bit lib (pos + range1024_p len) (bv_add_range1024 lib chan_list bv)))"

text \<open>The scrambling codes from \<open>start_pos\<close> to \<open>num_sc\<close>, read from the array.\<close>

fun copy_codes :: "u16 list \<Rightarrow> nat list \<Rightarrow> int list res" where
  "copy_codes scl [] = Ok []"
| "copy_codes scl (i # is) = (if i < length scl then rbind (copy_codes scl is) (\<lambda>a. Ok (uint (scl ! i) # a)) else Abort)"

definition try_adding_uarfcn :: "'b bitvec_ops \<Rightarrow> u16 \<Rightarrow> nat \<Rightarrow> nat \<Rightarrow> int \<Rightarrow> si2q_bts \<Rightarrow> 'b \<Rightarrow> (int \<times> si2q_bts \<times> 'b) res" where
  "try_adding_uarfcn lib uarfcn num_sc start_pos budget bts bv =
     (if budget < 23 then Ok (- RO_ENOMEM, bts, bv)
      else rbind (copy_codes (scramble_list bts) [start_pos..<num_sc]) (\<lambda>a.
        let k = length a in
        rbind (append_utran_fdd_length a k) (\<lambda>rc.
          if rc < 0 then Ok (rc, bts, bv)
          else if budget - rc \<le> 0 then Ok (- RO_ENOMEM, bts, bv)
          else rbind (append_utran_fdd lib uarfcn a k bv) (\<lambda>(n, bv).
            Ok (budget - n, bts\<lparr> u_offset := u_offset bts + k \<rparr>, bv)))))"

text \<open>
  The loop over the sorted list, up to and including the position \<open>uarfcn_length\<close>: a group of equal UARFCNs, from
  \<open>st\<close> on, is added when a different one follows.
\<close>

fun uarfcn_loop :: "'b bitvec_ops \<Rightarrow> nat list \<Rightarrow> u16 \<Rightarrow> nat \<Rightarrow> int \<Rightarrow> si2q_bts \<Rightarrow> 'b \<Rightarrow> (si2q_bts \<times> 'b) res" where
  "uarfcn_loop lib [] cu st rem bts bv = Ok (bts, bv)"
| "uarfcn_loop lib (i # is) cu st rem bts bv =
     (if \<not> i < length (uarfcn_list bts) then Abort
      else if uarfcn_list bts ! i \<noteq> cu then
        rbind (try_adding_uarfcn lib cu i st rem bts bv) (\<lambda>(rem, bts, bv).
          if rem < 0 then Ok (bts, bv)
          else if i < uarfcn_length bts then uarfcn_loop lib is (uarfcn_list bts ! i) i rem bts bv
          else Ok (bts, bv))
      else uarfcn_loop lib is cu st rem bts bv)"

definition append_uarfcns :: "'b bitvec_ops \<Rightarrow> int \<Rightarrow> si2q_bts \<Rightarrow> 'b \<Rightarrow> (si2q_bts \<times> 'b) res" where
  "append_uarfcns lib budget bts bv =
     (if \<not> u_offset bts < length (uarfcn_list bts) then Abort
      else if \<not> budget \<le> SI2Q_MAX_LEN then Abort
      else if budget \<le> 7 then Ok (bts, bv)
      else rbind (uarfcn_loop lib [u_offset bts..<uarfcn_length bts + 1] (uarfcn_list bts ! u_offset bts) (u_offset bts) (budget - 7) bts
            (writes [flag lib True, flag lib False, flag lib False, flag lib True, flag lib False] bv)) (\<lambda>(bts, bv).
        Ok (bts, writes [flag lib False, flag lib False] bv)))"

text \<open>The differences with the offsets are unsigned: they are positive unless the numbers are equal.\<close>

definition rest_octets_si2quater :: "'b bitvec_ops \<Rightarrow> si2q_bts \<Rightarrow> (int \<times> si2q_bts \<times> 'b) res" where
  "rest_octets_si2quater lib bts =
     (if si2q_count bts < si2q_index bts then Ok (- RO_EINVAL, bts, bv_start lib 20)
      else
        let bv = writes [flag lib False, flag lib True, flag lib False, bv_set_uint lib (si2q_index bts) 4, bv_set_uint lib (si2q_count bts) 4,
                   flag lib False, flag lib False, flag lib False, flag lib False, flag lib False, flag lib False, flag lib False] (bv_start lib 20);
            rc = SI2Q_MAX_LEN - int (bv_cur_bit lib bv + 3)
        in rbind (if rc > 0 \<and> uarfcn_length bts \<noteq> u_offset bts then append_uarfcns lib rc bts bv else Ok (bts, flag lib False bv)) (\<lambda>(bts, bv).
          let bv = writes [flag lib False, flag lib False] bv; rc = SI2Q_MAX_LEN - int (bv_cur_bit lib bv)
          in rbind (if rc > 0 \<and> si2q_earfcn_count (si2quater_neigh_list bts) \<noteq> e_offset bts then append_earfcn lib rc bts bv
                    else Ok (bts, lh lib False bv)) (\<lambda>(bts, bv).
            Ok (20, bts, bv_spare_padding lib (20 * 8 - 1) bv))))"

text \<open>
  The loop over the messages, with at most \<open>n\<close> left, and the list of those generated.  The member
  \<open>si2q_index\<close> is the loop variable.
\<close>

fun si2quaters_from :: "nat \<Rightarrow> 'b bitvec_ops \<Rightarrow> bool \<Rightarrow> si2q_bts \<Rightarrow> 'b list \<Rightarrow> (int \<times> si2q_bts \<times> 'b list) res" where
  "si2quaters_from 0 lib counting bts msgs = Ok (- RO_ENOMEM, bts, msgs)"
| "si2quaters_from (Suc n) lib counting bts msgs =
     (let bts = (if counting \<and> si2q_count bts < si2q_index bts then bts\<lparr> si2q_count := si2q_index bts \<rparr> else bts) in
      rbind (rest_octets_si2quater lib bts) (\<lambda>(rc, bts, bv).
        if rc < 0 then Ok (rc, bts, msgs)
        else if u_offset bts \<ge> uarfcn_length bts \<and> e_offset bts \<ge> si2q_earfcn_count (si2quater_neigh_list bts) then Ok (rc, bts, msgs @ [bv])
        else si2quaters_from n lib counting (bts\<lparr> si2q_index := si2q_index bts + 1 \<rparr>) (msgs @ [bv])))"

definition make_si2quaters :: "'b bitvec_ops \<Rightarrow> bool \<Rightarrow> si2q_bts \<Rightarrow> (int \<times> si2q_bts \<times> 'b list) res" where
  "make_si2quaters lib counting bts = si2quaters_from SI2Q_MAX_NUM lib counting (bts\<lparr> si2q_index := 0 \<rparr>) []"

definition si2q_num :: "'b bitvec_ops \<Rightarrow> si2q_bts \<Rightarrow> (nat \<times> si2q_bts) res" where
  "si2q_num lib bts =
     rbind (make_si2quaters lib True bts) (\<lambda>(rc, bts, msgs).
       Ok (if rc < 0 then 0xFF else si2q_index bts + 1, bts\<lparr> u_offset := 0, e_offset := 0 \<rparr>))"

definition encode_fdd :: "u16 \<Rightarrow> bool \<Rightarrow> u16" where
  "encode_fdd scramble diversity = (if diversity then scramble OR 0x200 else scramble)"

definition SC_BOUND :: u16 where "SC_BOUND = 600"

definition uarfcn_sc_pos :: "si2q_bts \<Rightarrow> u16 \<Rightarrow> u16 \<Rightarrow> nat option" where
  "uarfcn_sc_pos bts uarfcn scramble =
     find (\<lambda>i. uarfcn = uarfcn_list bts ! i \<and>
        (scramble < SC_BOUND \<longrightarrow> encode_fdd scramble False = scramble_list bts ! i \<or> encode_fdd scramble True = scramble_list bts ! i))
      [0..<uarfcn_length bts]"

text \<open>\<^verbatim>\<open>memmove\<close> of \<open>n\<close> elements inside an array; \<open>Abort\<close> when it reads or writes outside of it.\<close>

definition memmove_arr :: "nat \<Rightarrow> nat \<Rightarrow> nat \<Rightarrow> 'a list \<Rightarrow> 'a list res" where
  "memmove_arr dst src n xs =
     (if length xs < src + n \<or> length xs < dst + n then Abort
      else Ok (take dst xs @ take n (drop src xs) @ drop (dst + n) xs))"

definition bts_uarfcn_del :: "u16 \<Rightarrow> u16 \<Rightarrow> si2q_bts \<Rightarrow> (int \<times> si2q_bts) res" where
  "bts_uarfcn_del arfcn scramble bts =
     (let len = uarfcn_length bts in
      case uarfcn_sc_pos bts arfcn scramble of
        None \<Rightarrow> Ok (- RO_EINVAL, bts)
      | Some i \<Rightarrow>
          rbind (if i \<noteq> len - 1
                 then rbind (memmove_arr i (i + 1) (len - i + 1) (uarfcn_list bts)) (\<lambda>ual.
                      rbind (memmove_arr i (i + 1) (len - i + 1) (scramble_list bts)) (\<lambda>scl.
                      Ok (bts\<lparr> uarfcn_list := ual, scramble_list := scl \<rparr>)))
                 else Ok bts) (\<lambda>bts. Ok (0, bts\<lparr> uarfcn_length := uarfcn_length bts - 1 \<rparr>)))"

definition bts_uarfcn_add :: "'b bitvec_ops \<Rightarrow> u16 \<Rightarrow> u16 \<Rightarrow> bool \<Rightarrow> si2q_bts \<Rightarrow> (int \<times> si2q_bts) res" where
  "bts_uarfcn_add lib arfcn scramble diversity bts =
     (let len = uarfcn_length bts; scr = (if diversity then encode_fdd scramble True else encode_fdd scramble False) in
      if len = MAX_EARFCN_LIST then Ok (- RO_ENOMEM, bts)
      else if uarfcn_sc_pos bts arfcn scramble \<noteq> None then Ok (- EADDRINUSE, bts)
      else
        let i = (case uarfcn_sc_pos bts arfcn SC_BOUND of None \<Rightarrow> len | Some i \<Rightarrow> i) in
        rbind (if i < len
               then rbind (memmove_arr (i + 1) i (len - i) (uarfcn_list bts)) (\<lambda>ual.
                    rbind (memmove_arr (i + 1) i (len - i) (scramble_list bts)) (\<lambda>scl.
                    Ok (bts\<lparr> uarfcn_list := ual, scramble_list := scl \<rparr>)))
               else Ok bts) (\<lambda>bts.
        if \<not> i < length (uarfcn_list bts) \<or> \<not> i < length (scramble_list bts) then Abort
        else
          rbind (si2q_num lib (bts\<lparr> uarfcn_list := (uarfcn_list bts)[i := arfcn], scramble_list := (scramble_list bts)[i := scr],
                                   uarfcn_length := uarfcn_length bts + 1 \<rparr>)) (\<lambda>(si2q, bts).
          if si2q \<le> SI2Q_MAX_NUM then Ok (0, bts\<lparr> si2q_count := si2q - 1 \<rparr>)
          else rbind (bts_uarfcn_del arfcn scramble bts) (\<lambda>(rc, bts). Ok (- ENOSPC, bts)))))"

definition EARFCN_PRIO_INVALID :: u8 where "EARFCN_PRIO_INVALID = 8"
definition EARFCN_MEAS_BW_INVALID :: u8 where "EARFCN_MEAS_BW_INVALID = 8"
definition EARFCN_QRXLV_INVALID :: u8 where "EARFCN_QRXLV_INVALID = 32"
definition EARFCN_THRESH_LOW_INVALID :: u8 where "EARFCN_THRESH_LOW_INVALID = 32"

definition bts_earfcn_add :: "(u16 \<Rightarrow> u8 option \<Rightarrow> earfcn_si2q \<Rightarrow> int \<times> earfcn_si2q) \<Rightarrow> u16 \<Rightarrow> u8 \<Rightarrow> u8 \<Rightarrow> u8 \<Rightarrow> u8 \<Rightarrow> u8 \<Rightarrow> si2q_bts \<Rightarrow> int \<times> si2q_bts" where
  "bts_earfcn_add osmo_earfcn_add earfcn thresh_hi thresh_lo prio qrx meas_bw bts =
     (let (r, e) = osmo_earfcn_add earfcn (if meas_bw < EARFCN_MEAS_BW_INVALID then Some meas_bw else None) (si2quater_neigh_list bts) in
      if r < 0 then (r, bts\<lparr> si2quater_neigh_list := e \<rparr>)
      else
        let r = (if e_thresh_hi e \<noteq> 0 \<and> thresh_hi \<noteq> e_thresh_hi e then 1 else r);
            e = e\<lparr> e_thresh_hi := thresh_hi \<rparr>;
            r = (if thresh_lo \<noteq> EARFCN_THRESH_LOW_INVALID \<and> e_thresh_lo_valid e \<and> e_thresh_lo e \<noteq> thresh_lo then uint EARFCN_THRESH_LOW_INVALID else r);
            e = (if thresh_lo \<noteq> EARFCN_THRESH_LOW_INVALID then e\<lparr> e_thresh_lo := thresh_lo, e_thresh_lo_valid := True \<rparr> else e);
            r = (if qrx \<noteq> EARFCN_QRXLV_INVALID \<and> e_qrxlm_valid e \<and> e_qrxlm e \<noteq> qrx then uint EARFCN_QRXLV_INVALID + 1 else r);
            e = (if qrx \<noteq> EARFCN_QRXLV_INVALID then e\<lparr> e_qrxlm := qrx, e_qrxlm_valid := True \<rparr> else e);
            r = (if prio \<noteq> EARFCN_PRIO_INVALID \<and> e_prio_valid e \<and> e_prio e \<noteq> prio then uint EARFCN_PRIO_INVALID else r);
            e = (if prio \<noteq> EARFCN_PRIO_INVALID then e\<lparr> e_prio := prio, e_prio_valid := True \<rparr> else e)
        in (r, bts\<lparr> si2quater_neigh_list := e \<rparr>))"

text \<open>Both lists empty: no SI2quater is needed.\<close>

definition si2quater_not_needed :: "si2q_bts \<Rightarrow> bool" where
  "si2quater_not_needed bts = (uarfcn_length bts = 0 \<and> (\<forall>a \<in> set (e_arfcn (si2quater_neigh_list bts)). a = None))"

definition GSM_MACBLOCK_LEN :: int where "GSM_MACBLOCK_LEN = 23"

text \<open>The result: the length, the BTS, whether SI2quater stays valid, and the messages. \<open>hdr\<close> is the size of the message header.\<close>

definition generate_si2quater :: "'b bitvec_ops \<Rightarrow> int \<Rightarrow> si2q_bts \<Rightarrow> (int \<times> si2q_bts \<times> bool \<times> 'b list) res" where
  "generate_si2quater lib hdr bts =
     (if si2quater_not_needed bts then Ok (GSM_MACBLOCK_LEN, bts, False, [])
      else rbind (si2q_num lib (bts\<lparr> u_offset := 0, e_offset := 0, si2q_index := 0 \<rparr>)) (\<lambda>(num, bts).
        rbind (make_si2quaters lib False (bts\<lparr> si2q_count := num - 1 \<rparr>)) (\<lambda>(rc, bts, msgs).
          if rc < 0 then Ok (rc, bts, True, msgs)
          else if si2q_count bts \<noteq> si2q_index bts then Abort
          else if \<not> si2q_count bts \<le> SI2Q_MAX_NUM then Abort
          else Ok (hdr + rc, bts, True, msgs))))"

end
