(* ===== verification/Rest_Octets_Props.thy ===== *)
theory Rest_Octets_Props
  imports Rest_Octets Arfcn_Range_Proof
begin

unbundle bit_operations_syntax

text \<open>
  The contract of the bit vectors, \<open>bitvec_contract\<close>, with an instance on lists, readers for single elements written after the
  grammar of the standard, and the rest octets of SI3: what they carry can be read back, and when they do not
  fit into their octets.
\<close>

section \<open>The contract of bit vectors\<close>

definition bit_of :: "bool \<Rightarrow> bit_value" where
  "bit_of b = (if b then ONE else ZERO)"

definition uint_bits :: "nat \<Rightarrow> nat \<Rightarrow> bit_value list" where
  "uint_bits n v = map (\<lambda>i. bit_of (bit v (n - 1 - i))) [0..<n]"

text \<open>The bits of the sixteen octets of a frequency list after the format identifier, where the values W(1) to W(16) are.\<close>

definition range1024_bits :: "u8 list \<Rightarrow> bit_value list" where
  "range1024_bits c = map bit_of (bits_from c 6 122)"

text \<open>
  \<open>view\<close> gives the bits before the current position and \<open>cap\<close> the size of the vector in bits.  A write that does not fit
  is not specified.
\<close>

definition bitvec_contract :: "'b bitvec_ops \<Rightarrow> ('b \<Rightarrow> bit_value list) \<Rightarrow> ('b \<Rightarrow> nat) \<Rightarrow> bool" where
  "bitvec_contract lib view cap \<longleftrightarrow>
     (\<forall>n. view (bv_start lib n) = [] \<and> cap (bv_start lib n) = 8 * n) \<and>
     (\<forall>v b. length (view b) < cap b \<longrightarrow> view (bv_set_bit lib v b) = view b @ [v] \<and> cap (bv_set_bit lib v b) = cap b) \<and>
     (\<forall>x n b. length (view b) + n \<le> cap b \<longrightarrow>
        view (bv_set_uint lib x n b) = view b @ uint_bits n x \<and> cap (bv_set_uint lib x n b) = cap b) \<and>
     (\<forall>k b. length (view b) \<le> cap b \<and> k < cap b \<longrightarrow> view (bv_spare_padding lib k b) = view b @ replicate (k + 1 - length (view b)) L) \<and>
     (\<forall>b. bv_cur_bit lib b = length (view b)) \<and>
     (\<forall>k b. k \<le> length (view b) \<longrightarrow> view (bv_set_cur_bit lib k b) = take k (view b) \<and> cap (bv_set_cur_bit lib k b) = cap b) \<and>
     (\<forall>c k b. length c = 16 \<and> k \<le> 122 \<and> length (view b) + k \<le> cap b \<longrightarrow>
        view (bv_set_cur_bit lib (length (view b) + k) (bv_add_range1024 lib c b)) = view b @ take k (range1024_bits c) \<and>
        cap (bv_set_cur_bit lib (length (view b) + k) (bv_add_range1024 lib c b)) = cap b)"

text \<open>A function that appends the bits \<open>bs\<close> when there is room for them.\<close>

definition appends :: "('b \<Rightarrow> bit_value list) \<Rightarrow> ('b \<Rightarrow> nat) \<Rightarrow> ('b \<Rightarrow> 'b) \<Rightarrow> bit_value list \<Rightarrow> bool" where
  "appends view cap f bs \<longleftrightarrow> (\<forall>b. length (view b) + length bs \<le> cap b \<longrightarrow> view (f b) = view b @ bs \<and> cap (f b) = cap b)"

lemma length_uint_bits [simp]: "length (uint_bits n v) = n"
  by (simp add: uint_bits_def)

lemma length_range1024_bits [simp]: "length (range1024_bits c) = 122"
  by (simp add: range1024_bits_def bits_from_def)

lemma appends_set_bit: "bitvec_contract lib view cap \<Longrightarrow> appends view cap (bv_set_bit lib v) [v]"
  by (simp add: bitvec_contract_def appends_def)

lemma appends_lh: "bitvec_contract lib view cap \<Longrightarrow> appends view cap (lh lib v) [if v then H else L]"
  by (simp add: lh_def appends_set_bit)

lemma appends_flag: "bitvec_contract lib view cap \<Longrightarrow> appends view cap (flag lib v) [bit_of v]"
  unfolding flag_def bit_of_def by (rule appends_set_bit)

lemma appends_set_uint: "bitvec_contract lib view cap \<Longrightarrow> appends view cap (bv_set_uint lib x n) (uint_bits n x)"
  by (simp add: bitvec_contract_def appends_def)

lemma appends_Nil: "appends view cap (writes []) []"
  by (simp add: appends_def writes_def)

lemma appends_Cons:
  assumes "appends view cap f bs" "appends view cap (writes fs) cs"
  shows "appends view cap (writes (f # fs)) (bs @ cs)"
  using assms by (simp add: appends_def writes_def)

lemma appends_if:
  assumes "appends view cap f bs" "appends view cap g cs"
  shows "appends view cap (if b then f else g) (if b then bs else cs)"
  using assms by simp

lemmas bit_writers = appends_lh appends_flag appends_set_uint

lemma view_start: "bitvec_contract lib view cap \<Longrightarrow> view (bv_start lib n) = [] \<and> cap (bv_start lib n) = 8 * n"
  by (simp add: bitvec_contract_def)

lemma view_padding:
  "bitvec_contract lib view cap \<Longrightarrow> length (view b) \<le> cap b \<Longrightarrow> k < cap b \<Longrightarrow>
     view (bv_spare_padding lib k b) = view b @ replicate (k + 1 - length (view b)) L"
  by (simp add: bitvec_contract_def)

lemma view_cur: "bitvec_contract lib view cap \<Longrightarrow> bv_cur_bit lib b = length (view b)"
  by (simp add: bitvec_contract_def)

lemma view_set_cur:
  "bitvec_contract lib view cap \<Longrightarrow> k \<le> length (view b) \<Longrightarrow> view (bv_set_cur_bit lib k b) = take k (view b)"
  "bitvec_contract lib view cap \<Longrightarrow> k \<le> length (view b) \<Longrightarrow> cap (bv_set_cur_bit lib k b) = cap b"
  by (simp_all add: bitvec_contract_def)

lemma view_range1024:
  assumes "bitvec_contract lib view cap" "length c = 16" "k \<le> 122" "length (view b) + k \<le> cap b"
  shows "view (bv_set_cur_bit lib (length (view b) + k) (bv_add_range1024 lib c b)) = view b @ take k (range1024_bits c) \<and>
    cap (bv_set_cur_bit lib (length (view b) + k) (bv_add_range1024 lib c b)) = cap b"
  using assms by (simp add: bitvec_contract_def)

lemma appendsD:
  "appends view cap f bs \<Longrightarrow> length (view b) + length bs \<le> cap b \<Longrightarrow> view (f b) = view b @ bs"
  "appends view cap f bs \<Longrightarrow> length (view b) + length bs \<le> cap b \<Longrightarrow> cap (f b) = cap b"
  by (simp_all add: appends_def)

section \<open>Reading bits\<close>

type_synonym 'a reader = "bit_value list \<Rightarrow> ('a \<times> bit_value list) option"

fun dec_lh :: "bool reader" where
  "dec_lh (H # bs) = Some (True, bs)"
| "dec_lh (L # bs) = Some (False, bs)"
| "dec_lh _ = None"

fun dec_flag :: "bool reader" where
  "dec_flag (ONE # bs) = Some (True, bs)"
| "dec_flag (ZERO # bs) = Some (False, bs)"
| "dec_flag _ = None"

text \<open>A number of \<open>n\<close> bits, the most significant one first.\<close>

fun dec_uint :: "nat \<Rightarrow> nat reader" where
  "dec_uint 0 bs = Some (0, bs)"
| "dec_uint (Suc n) bs =
     do { (b, bs) \<leftarrow> dec_flag bs; (v, bs) \<leftarrow> dec_uint n bs; Some ((if b then 2 ^ n else 0) + v, bs) }"

text \<open>An element that is there if the bit in front of it says so.\<close>

definition dec_opt :: "bool reader \<Rightarrow> 'a reader \<Rightarrow> 'a option reader" where
  "dec_opt rd d bs = do { (b, bs) \<leftarrow> rd bs; if b then do { (x, bs) \<leftarrow> d bs; Some (Some x, bs) } else Some (None, bs) }"

lemma dec_lh_bit [simp]: "dec_lh ((if b then H else L) # bs) = Some (b, bs)"
  by simp

lemma dec_flag_bit [simp]: "dec_flag (bit_of b # bs) = Some (b, bs)"
  by (simp add: bit_of_def)

lemma uint_bits_0 [simp]: "uint_bits 0 v = []"
  by (simp add: uint_bits_def)

lemma uint_bits_Suc: "uint_bits (Suc n) v = bit_of (bit v n) # uint_bits n v"
proof -
  have "map (\<lambda>i. bit_of (bit v (Suc n - 1 - i))) [0..<Suc n] = bit_of (bit v n) # map (\<lambda>i. bit_of (bit v (Suc n - 1 - Suc i))) [0..<n]"
    by (simp only: upt_conv_Cons[OF zero_less_Suc] list.map map_Suc_upt[symmetric] map_map comp_def) simp
  then show ?thesis by (simp add: uint_bits_def)
qed

lemma dec_uint_bits: "dec_uint n (uint_bits n v @ bs) = Some (take_bit n v, bs)"
  by (induction n) (auto simp: uint_bits_Suc take_bit_Suc_from_most)

lemma dec_uint_less [simp]: "v < 2 ^ n \<Longrightarrow> dec_uint n (uint_bits n v @ bs) = Some (v, bs)"
  by (simp add: dec_uint_bits take_bit_nat_eq_self)

declare dec_uint.simps(2) [simp del]

section \<open>SI3\<close>

text \<open>What SI3 says; an absent element has no value.\<close>

record si3_content =
  c_selection :: "(bool \<times> nat \<times> nat \<times> nat) option"
  c_power_offset :: "nat option"
  c_si2ter :: bool
  c_early_cm :: bool
  c_where :: "nat option"
  c_gprs :: "(nat \<times> bool) option"
  c_early_3g :: bool
  c_si2quater :: bool

definition si3_content_of :: "gsm48_si_ro_info \<Rightarrow> si3_content" where
  "si3_content_of i = \<lparr>
     c_selection = (let sp = selection_params i in
       if sp_present sp then Some (sp_cbq sp, unat (sp_cell_resel_off sp), unat (sp_temp_offs sp), unat (sp_penalty_time sp)) else None),
     c_power_offset = (if po_present (power_offset i) then Some (unat (po_power_offset (power_offset i))) else None),
     c_si2ter = si2ter_indicator i,
     c_early_cm = early_cm_ctrl i,
     c_where = (if sched_present i then Some (unat (sched_where i)) else None),
     c_gprs = (if gi_present (gprs_ind i) then Some (unat (gi_ra_colour (gprs_ind i)), gi_si13_position (gprs_ind i)) else None),
     c_early_3g = (\<not> early_cm_restrict_3g i),
     c_si2quater = si2quater_indicator i \<rparr>"

text \<open>The grammar of 3GPP TS 44.018, table 10.5.2.34.1.\<close>

definition dec_selection :: "(bool \<times> nat \<times> nat \<times> nat) reader" where
  "dec_selection bs = do { (cbq, bs) \<leftarrow> dec_flag bs; (off, bs) \<leftarrow> dec_uint 6 bs; (tmp, bs) \<leftarrow> dec_uint 3 bs;
     (pen, bs) \<leftarrow> dec_uint 5 bs; Some ((cbq, off, tmp, pen), bs) }"

definition dec_gprs_ind :: "(nat \<times> bool) reader" where
  "dec_gprs_ind bs = do { (col, bs) \<leftarrow> dec_uint 3 bs; (pos, bs) \<leftarrow> dec_flag bs; Some ((col, pos), bs) }"

definition dec_si3 :: "bit_value list \<Rightarrow> si3_content option" where
  "dec_si3 bs = do {
     (sel, bs) \<leftarrow> dec_opt dec_lh dec_selection bs;
     (po, bs) \<leftarrow> dec_opt dec_lh (dec_uint 2) bs;
     (ter, bs) \<leftarrow> dec_lh bs;
     (early, bs) \<leftarrow> dec_lh bs;
     (sched, bs) \<leftarrow> dec_opt dec_lh (dec_uint 3) bs;
     (gprs, bs) \<leftarrow> dec_opt dec_lh dec_gprs_ind bs;
     (e3g, bs) \<leftarrow> dec_lh bs;
     (qua, bs) \<leftarrow> dec_opt dec_lh (dec_uint 1) bs;
     Some \<lparr> c_selection = sel, c_power_offset = po, c_si2ter = ter, c_early_cm = early, c_where = sched, c_gprs = gprs,
            c_early_3g = e3g, c_si2quater = (qua = Some 0) \<rparr> }"

text \<open>The values fit the bit fields of the C structures.\<close>

definition si3_ok :: "gsm48_si_ro_info \<Rightarrow> bool" where
  "si3_ok i \<longleftrightarrow> unat (sp_penalty_time (selection_params i)) < 2 ^ 5 \<and> unat (sp_temp_offs (selection_params i)) < 2 ^ 3 \<and>
     unat (sp_cell_resel_off (selection_params i)) < 2 ^ 6 \<and> unat (po_power_offset (power_offset i)) < 2 ^ 2 \<and>
     unat (gi_ra_colour (gprs_ind i)) < 2 ^ 3 \<and> unat (sched_where i) < 2 ^ 3"

text \<open>The bits before the padding.\<close>

definition sel_bits :: "gsm48_si_selection_params \<Rightarrow> bit_value list" where
  "sel_bits sp = (if sp_present sp then [H] @ [bit_of (sp_cbq sp)] @ uint_bits 6 (unat (sp_cell_resel_off sp)) @
     uint_bits 3 (unat (sp_temp_offs sp)) @ uint_bits 5 (unat (sp_penalty_time sp)) @ [] else [L])"

definition po_bits :: "gsm48_si_power_offset \<Rightarrow> bit_value list" where
  "po_bits po = (if po_present po then [H] @ uint_bits 2 (unat (po_power_offset po)) @ [] else [L])"

definition gi_bits :: "gsm48_si3_gprs_ind \<Rightarrow> bit_value list" where
  "gi_bits gi = (if gi_present gi then [H] @ uint_bits 3 (unat (gi_ra_colour gi)) @ [bit_of (gi_si13_position gi)] @ [] else [L])"

definition si3_bits :: "gsm48_si_ro_info \<Rightarrow> bit_value list" where
  "si3_bits i = sel_bits (selection_params i) @ po_bits (power_offset i) @ [if si2ter_indicator i then H else L] @
     [if early_cm_ctrl i then H else L] @ (if sched_present i then [H] @ uint_bits 3 (unat (sched_where i)) @ [] else [L]) @
     gi_bits (gprs_ind i) @ (if early_cm_restrict_3g i then [L] else [H]) @
     (if si2quater_indicator i then [H] @ uint_bits 1 0 @ [] else []) @ []"

lemma appends_true: "bitvec_contract lib view cap \<Longrightarrow> appends view cap (lh lib True) [H]"
  and appends_false: "bitvec_contract lib view cap \<Longrightarrow> appends view cap (lh lib False) [L]"
  using appends_lh[of lib view cap True] appends_lh[of lib view cap False] by simp_all

lemma append_selection_params_bits: "bitvec_contract lib view cap \<Longrightarrow> appends view cap (append_selection_params lib sp) (sel_bits sp)"
  unfolding append_selection_params_def sel_bits_def
  by (intro appends_if appends_Cons appends_Nil appends_true appends_false bit_writers)

lemma append_power_offset_bits: "bitvec_contract lib view cap \<Longrightarrow> appends view cap (append_power_offset lib po) (po_bits po)"
  unfolding append_power_offset_def po_bits_def
  by (intro appends_if appends_Cons appends_Nil appends_true appends_false bit_writers)

lemma append_gprs_ind_bits: "bitvec_contract lib view cap \<Longrightarrow> appends view cap (append_gprs_ind lib gi) (gi_bits gi)"
  unfolding append_gprs_ind_def gi_bits_def
  by (intro appends_if appends_Cons appends_Nil appends_true appends_false bit_writers)

lemma si3_writes:
  "bitvec_contract lib view cap \<Longrightarrow> appends view cap (writes [
        append_selection_params lib (selection_params i),
        append_power_offset lib (power_offset i),
        lh lib (si2ter_indicator i),
        lh lib (early_cm_ctrl i),
        (if sched_present i then writes [lh lib True, bv_set_uint lib (unat (sched_where i)) 3] else lh lib False),
        append_gprs_ind lib (gprs_ind i),
        (if early_cm_restrict_3g i then lh lib False else lh lib True),
        (if si2quater_indicator i then writes [lh lib True, bv_set_uint lib 0 1] else writes [])]) (si3_bits i)"
  unfolding si3_bits_def
  by (intro appends_if appends_Cons appends_Nil appends_true appends_false append_selection_params_bits append_power_offset_bits
      append_gprs_ind_bits bit_writers)

text \<open>Each element is read back.\<close>

lemma dec_si3_elements:
  assumes "si3_ok i"
  shows "dec_opt dec_lh dec_selection (sel_bits (selection_params i) @ bs) = Some (c_selection (si3_content_of i), bs)"
    and "dec_opt dec_lh (dec_uint 2) (po_bits (power_offset i) @ bs) = Some (c_power_offset (si3_content_of i), bs)"
    and "dec_opt dec_lh dec_gprs_ind (gi_bits (gprs_ind i) @ bs) = Some (c_gprs (si3_content_of i), bs)"
    and "dec_opt dec_lh (dec_uint 3) ((if sched_present i then [H] @ uint_bits 3 (unat (sched_where i)) @ [] else [L]) @ bs) =
      Some (c_where (si3_content_of i), bs)"
  using assms by (simp_all add: si3_ok_def dec_opt_def dec_selection_def dec_gprs_ind_def sel_bits_def po_bits_def gi_bits_def
      si3_content_of_def Let_def)

lemma dec_si3_bits:
  assumes "si3_ok i" "n \<noteq> 0 \<or> si2quater_indicator i"
  shows "dec_si3 (si3_bits i @ replicate n L) = Some (si3_content_of i)"
proof -
  have "\<exists>bs. dec_opt dec_lh (dec_uint 1) ((if si2quater_indicator i then [H] @ uint_bits 1 0 @ [] else []) @ replicate n L) =
      Some (if si2quater_indicator i then Some 0 else None, bs)"
  proof (cases "si2quater_indicator i")
    case True
    then show ?thesis using dec_uint_less[of 0 1 "replicate n L"] by (simp add: dec_opt_def)
  next
    case False
    then show ?thesis using assms(2) by (cases n) (simp_all add: dec_opt_def)
  qed
  then obtain bs' where q: "dec_opt dec_lh (dec_uint 1) ((if si2quater_indicator i then [H] @ uint_bits 1 0 @ [] else []) @ replicate n L) =
      Some (if si2quater_indicator i then Some 0 else None, bs')" by blast
  have e: "dec_lh ((if early_cm_restrict_3g i then [L] else [H]) @ bs) = Some (c_early_3g (si3_content_of i), bs)" for bs
    by (simp add: si3_content_of_def)
  have o: "dec_lh ([if b then H else L] @ bs) = Some (b, bs)" for b bs by simp
  show ?thesis
    unfolding dec_si3_def si3_bits_def append_assoc append_Nil
    by (simp only: dec_si3_elements[OF assms(1)] e o q bind.bind_lunit prod.case) (simp add: si3_content_of_def)
qed

definition si3_full :: "gsm48_si_ro_info \<Rightarrow> bool" where
  "si3_full i \<longleftrightarrow> sp_present (selection_params i) \<and> po_present (power_offset i) \<and> sched_present i \<and> gi_present (gprs_ind i) \<and> si2quater_indicator i"

lemma length_si3_bits: "length (si3_bits i) \<le> 32 \<longleftrightarrow> \<not> si3_full i"
  by (simp add: si3_bits_def sel_bits_def po_bits_def gi_bits_def si3_full_def)

text \<open>
  Property C21.  A mobile reads from the rest octets of SI3 what was to be announced: the generated octets, read by the grammar of
  the standard, give every element that is present with its value and no other, unless all the optional
  elements are present at once; then 33 bits are needed and the four octets have 32.
\<close>

theorem si3_roundtrip:
  assumes "bitvec_contract lib view cap" "si3_ok i"
  shows "(length (si3_bits i) \<le> 32 \<longleftrightarrow> \<not> si3_full i) \<and>
    (\<not> si3_full i \<longrightarrow> length (view (snd (rest_octets_si3 lib i))) = 32 \<and> dec_si3 (view (snd (rest_octets_si3 lib i))) = Some (si3_content_of i))"
proof (intro conjI impI)
  show "length (si3_bits i) \<le> 32 \<longleftrightarrow> \<not> si3_full i" by (rule length_si3_bits)
  assume nf: "\<not> si3_full i"
  note st = view_start[OF assms(1), of 4]
  note w = appendsD[OF si3_writes[OF assms(1), of i], of "bv_start lib 4"]
  have v: "view (snd (rest_octets_si3 lib i)) = si3_bits i @ replicate (32 - length (si3_bits i)) L"
    using nf st w length_si3_bits[of i] by (simp add: rest_octets_si3_def view_padding[OF assms(1)])
  then show "length (view (snd (rest_octets_si3 lib i))) = 32" using length_si3_bits[of i] nf by simp
  have "32 - length (si3_bits i) \<noteq> 0 \<or> si2quater_indicator i"
    using nf by (auto simp: si3_bits_def sel_bits_def po_bits_def gi_bits_def)
  then show "dec_si3 (view (snd (rest_octets_si3 lib i))) = Some (si3_content_of i)"
    unfolding v by (rule dec_si3_bits[OF assms(2)])
qed

text \<open>An instance of the contract: a list of bits and a capacity.\<close>

definition list_bitvec :: "(bit_value list \<times> nat) bitvec_ops" where
  "list_bitvec = \<lparr> bv_start = (\<lambda>n. ([], 8 * n)),
     bv_set_bit = (\<lambda>v (bs, c). (if length bs < c then bs @ [v] else bs, c)),
     bv_set_uint = (\<lambda>x n (bs, c). (if length bs + n \<le> c then bs @ uint_bits n x else bs, c)),
     bv_spare_padding = (\<lambda>k (bs, c). (bs @ replicate (k + 1 - length bs) L, c)),
     bv_add_range1024 = (\<lambda>ch (bs, c). (bs @ range1024_bits ch, c)),
     bv_cur_bit = (\<lambda>(bs, c). length bs),
     bv_set_cur_bit = (\<lambda>k (bs, c). (take k bs, c)) \<rparr>"

lemma list_bitvec_contract: "bitvec_contract list_bitvec fst snd"
  unfolding bitvec_contract_def list_bitvec_def by (auto split: prod.splits)

definition si3_example :: gsm48_si_ro_info where
  "si3_example = \<lparr> selection_params = \<lparr> sp_penalty_time = 3, sp_temp_offs = 2, sp_cell_resel_off = 5, sp_cbq = True, sp_present = True \<rparr>,
        power_offset = \<lparr> po_power_offset = 2, po_present = False \<rparr>, si2ter_indicator = True, early_cm_ctrl = False, sched_where = 3, sched_present = True,
        gprs_ind = \<lparr> gi_si13_position = True, gi_ra_colour = 6, gi_present = True \<rparr>, early_cm_restrict_3g = False, si2quater_indicator = True, break_ind = False \<rparr>"

theorem si3_roundtrip_witness:
  "si3_ok si3_example \<and> length (fst (snd (rest_octets_si3 list_bitvec si3_example))) = 32 \<and>
   dec_si3 (fst (snd (rest_octets_si3 list_bitvec si3_example))) = Some (si3_content_of si3_example)"
proof -
  have i: "si3_ok si3_example" "\<not> si3_full si3_example" by (simp_all add: si3_example_def si3_ok_def si3_full_def)
  show ?thesis using si3_roundtrip[OF list_bitvec_contract i(1)] i by blast
qed

end
