(* ===== verification/Si2quater.thy ===== *)
theory Si2quater
  imports Rest_Octets_Props
begin

unbundle bit_operations_syntax

text \<open>
  The SI2quater messages: what one message carries as a list of bits, that it fits into its 160 bits although a
  UARFCN is counted with one bit too few, a decoder written after the grammar of the standard, and that all
  messages together carry the lists of neighbors.
\<close>

section \<open>The neighbors in one message\<close>

definition valid_earfcns :: "(u16 option \<times> u8 option) list \<Rightarrow> (u16 \<times> u8 option) list" where
  "valid_earfcns es = List.map_filter (\<lambda>(a, bw). map_option (\<lambda>x. (x, bw)) a) es"

definition earfcn_cost :: "u16 \<times> u8 option \<Rightarrow> int" where
  "earfcn_cost x = 17 + (if snd x = None then 1 else 4)"

text \<open>The EARFCNs that fit into the bits left.\<close>

fun earfcns_fit :: "int \<Rightarrow> (u16 \<times> u8 option) list \<Rightarrow> (u16 \<times> u8 option) list" where
  "earfcns_fit rem [] = []"
| "earfcns_fit rem (x # xs) = (if rem - earfcn_cost x < 0 then [] else x # earfcns_fit (rem - earfcn_cost x) xs)"

definition write_earfcn :: "'b bitvec_ops \<Rightarrow> u16 \<times> u8 option \<Rightarrow> 'b \<Rightarrow> 'b" where
  "write_earfcn lib x = writes [flag lib True, bv_set_uint lib (unat (fst x)) 16,
     (case snd x of None \<Rightarrow> flag lib False | Some b \<Rightarrow> writes [flag lib True, bv_set_uint lib (unat b) 3])]"

lemma writes_simps: "writes [] bv = bv" "writes (f # fs) bv = writes fs (f bv)"
  by (simp_all add: writes_def)

lemma eutran_loop_eq:
  "eutran_loop lib es offset skip rem added bv =
     (let t = earfcns_fit rem (drop (offset - skip) (valid_earfcns es)) in (added + length t, writes (map (write_earfcn lib) t) bv))"
proof (induction lib es offset skip rem added bv rule: eutran_loop.induct)
  case (2 lib bw es offset skip rem added bv)
  then show ?case by (simp add: valid_earfcns_def)
next
  case (3 lib arfcn bw es offset skip rem added bv)
  show ?case
  proof (cases "skip < offset")
    case True
    then have "offset - skip = Suc (offset - (skip + 1))" by simp
    then have "drop (offset - skip) (valid_earfcns ((Some arfcn, bw) # es)) = drop (offset - (skip + 1)) (valid_earfcns es)"
      by (simp add: valid_earfcns_def)
    then show ?thesis using 3(1)[OF True] True by simp
  next
    case False
    then have d: "offset - skip = 0" by simp
    have v: "valid_earfcns ((Some arfcn, bw) # es) = (arfcn, bw) # valid_earfcns es" by (simp add: valid_earfcns_def)
    show ?thesis
      using 3(2)[OF False refl] False
      by (cases "rem - earfcn_cost (arfcn, bw) < 0")
        (simp_all add: d v Let_def earfcn_cost_def write_earfcn_def writes_simps cong: option.case_cong)
  qed
qed (simp add: valid_earfcns_def writes_simps)

lemma rbind_assoc: "rbind (rbind m f) g = rbind m (\<lambda>a. rbind (f a) g)"
  by (cases m) simp_all

text \<open>
  The groups of equal UARFCNs that are put into a message: the UARFCN, its scrambling codes and the encoded codes.
\<close>

type_synonym fdd_group = "u16 \<times> int list \<times> u8 list"

fun uarfcns_fit :: "u16 list \<Rightarrow> u16 list \<Rightarrow> nat \<Rightarrow> nat list \<Rightarrow> u16 \<Rightarrow> nat \<Rightarrow> int \<Rightarrow> fdd_group list res" where
  "uarfcns_fit ual scl len [] cu st rem = Ok []"
| "uarfcns_fit ual scl len (i # is) cu st rem =
     (if \<not> i < length ual then Abort
      else if ual ! i = cu then uarfcns_fit ual scl len is cu st rem
      else if rem < 23 then Ok []
      else rbind (copy_codes scl [st..<i]) (\<lambda>a. rbind (f0_helper a (length a)) (\<lambda>(f0, c).
        let rem' = rem - (21 + int (range1024_p (length a))) in
        if f0 < 0 \<or> rem' \<le> 0 then Ok []
        else if i < len then rbind (uarfcns_fit ual scl len is (ual ! i) i rem') (\<lambda>gs. Ok ((cu, a, c) # gs))
        else Ok [(cu, a, c)])))"

definition write_group :: "'b bitvec_ops \<Rightarrow> fdd_group \<Rightarrow> 'b \<Rightarrow> 'b" where
  "write_group lib = (\<lambda>(u, a, c) bv.
     let bv = writes [flag lib True, flag lib False, bv_set_uint lib (unat u) 14, flag lib False, bv_set_uint lib (length a) 5] bv
     in bv_set_cur_bit lib (bv_cur_bit lib bv + range1024_p (length a)) (bv_add_range1024 lib c bv))"

definition codes_of :: "fdd_group list \<Rightarrow> nat" where
  "codes_of gs = sum_list (map (\<lambda>(u, a, c). length a) gs)"

text \<open>The range encoder returns 0 or a negative number, never whether the code 0 is in the set.\<close>

lemma f0_helper_zero: "f0_helper a n = Ok (f0, c) \<Longrightarrow> f0 \<ge> 0 \<Longrightarrow> f0 = 0"
  by (auto simp: f0_helper_def range_encode_def range_encode_switch_def bind_eq_Some_conv split: option.splits if_splits)

lemma uarfcn_loop_eq:
  "uarfcn_loop lib is cu st rem bts bv =
     rbind (uarfcns_fit (uarfcn_list bts) (scramble_list bts) (uarfcn_length bts) is cu st rem) (\<lambda>gs.
       Ok (bts\<lparr> u_offset := u_offset bts + codes_of gs \<rparr>, writes (map (write_group lib) gs) bv))"
proof (induction "is" arbitrary: cu st rem bts bv)
  case (Cons i "is")
  show ?case
  proof (cases "i < length (uarfcn_list bts) \<and> uarfcn_list bts ! i \<noteq> cu \<and> \<not> rem < 23")
    case False
    then show ?thesis using Cons.IH[of cu st rem bts bv] by (auto simp: try_adding_uarfcn_def codes_of_def writes_simps RO_ENOMEM_def)
  next
    case True
    show ?thesis
    proof (cases "copy_codes (scramble_list bts) [st..<i]")
      case (Ok a)
      show ?thesis
      proof (cases "f0_helper a (length a)")
        case f: (Ok x)
        obtain f0 c where x: "x = (f0, c)" by fastforce
        let ?bts = "bts\<lparr> u_offset := u_offset bts + length a \<rparr>"
        let ?rem = "rem - (21 + int (range1024_p (length a)))"
        show ?thesis
        proof (cases "f0 < 0 \<or> ?rem \<le> 0")
          case e: True
          then show ?thesis using True
            by (auto simp: try_adding_uarfcn_def Ok f x append_utran_fdd_length_def codes_of_def writes_simps RO_ENOMEM_def Let_def
                simp del: range1024_p.simps)
        next
          case e: False
          then have "f0 = 0" using f0_helper_zero f x by auto
          then have t: "try_adding_uarfcn lib cu i st rem bts bv = Ok (?rem, ?bts, write_group lib (cu, a, c) bv)"
            using True e
            by (simp add: try_adding_uarfcn_def Ok f x append_utran_fdd_length_def append_utran_fdd_def write_group_def Let_def
                del: range1024_p.simps)
          have "uarfcn_loop lib is (uarfcn_list bts ! i) i ?rem ?bts (write_group lib (cu, a, c) bv) =
            rbind (uarfcns_fit (uarfcn_list bts) (scramble_list bts) (uarfcn_length bts) is (uarfcn_list bts ! i) i ?rem) (\<lambda>gs.
              Ok (bts\<lparr> u_offset := u_offset bts + length a + codes_of gs \<rparr>, writes (map (write_group lib) gs) (write_group lib (cu, a, c) bv)))"
            using Cons.IH[of "uarfcn_list bts ! i" i ?rem ?bts "write_group lib (cu, a, c) bv"] by simp
          then show ?thesis
            using True e t by (simp add: Ok f x Let_def codes_of_def writes_simps add.assoc rbind_assoc del: range1024_p.simps)
        qed
      qed (use True in \<open>simp_all add: try_adding_uarfcn_def Ok append_utran_fdd_length_def\<close>)
    qed (use True in \<open>simp_all add: try_adding_uarfcn_def\<close>)
  qed
qed (simp add: codes_of_def writes_simps)

lemma write_wk_length: "write_wk c oct off wk left = Some (c', oct', off') \<Longrightarrow> length c' = length c"
proof (induction left arbitrary: c oct off rule: less_induct)
  case (less left)
  show ?case
  proof (cases "left = 0 \<or> 8 \<le> off")
    case True
    then show ?thesis using less.prems by (subst (asm) write_wk.simps) (auto split: if_splits)
  next
    case False
    define cur where "cur = min (8 - off) left"
    have "left - cur < left" using False by (auto simp: cur_def)
    then show ?thesis
      using less.prems False by (subst (asm) write_wk.simps)
        (auto simp: Let_def cur_def[symmetric] dest!: less.IH arr_set_length split: if_splits option.splits)
  qed
qed

lemma write_wn_loop_length: "write_wn_loop c oct off ws n lvl lft = Some c' \<Longrightarrow> length c' = length c"
  by (induction c oct off ws n lvl lft rule: write_wn_loop.induct)
    (auto dest: write_wk_length split: option.splits prod.splits if_splits)

lemma f0_helper_length: "f0_helper a n = Ok (f0, c) \<Longrightarrow> length c = 16"
  by (auto simp: f0_helper_def range_encode_def range_encode_switch_def range_enc_range1024_def write_all_wn_def bind_eq_Some_conv
      dest!: arr_set_length write_wn_loop_length split: option.splits if_splits)

lemma range1024_p_le: "range1024_p n \<le> 122"
  by simp

declare range1024_p.simps [simp del]

section \<open>The bits of one message\<close>

definition earfcn_bits :: "u16 \<times> u8 option \<Rightarrow> bit_value list" where
  "earfcn_bits x = [bit_of True] @ uint_bits 16 (unat (fst x)) @
     (case snd x of None \<Rightarrow> [bit_of False] | Some b \<Rightarrow> [bit_of True] @ uint_bits 3 (unat b) @ []) @ []"

definition group_bits :: "fdd_group \<Rightarrow> bit_value list" where
  "group_bits = (\<lambda>(u, a, c). [bit_of True] @ [bit_of False] @ uint_bits 14 (unat u) @ [bit_of False] @ uint_bits 5 (length a) @
     take (range1024_p (length a)) (range1024_bits c))"

lemma length_earfcn_bits: "int (length (earfcn_bits x)) = earfcn_cost x"
  by (simp add: earfcn_bits_def earfcn_cost_def split: option.split)

lemma length_group_bits: "length (group_bits (u, a, c)) = 22 + range1024_p (length a)"
  using range1024_p_le[of "length a"] by (simp add: group_bits_def)

lemma appends_write_earfcn: "bitvec_contract lib view cap \<Longrightarrow> appends view cap (write_earfcn lib x) (earfcn_bits x)"
  unfolding write_earfcn_def earfcn_bits_def
  by (cases "snd x") (simp_all only: option.case, (intro appends_Cons appends_Nil bit_writers, assumption+)+)

lemma appends_write_group:
  assumes "bitvec_contract lib view cap" "length c = 16"
  shows "appends view cap (write_group lib (u, a, c)) (group_bits (u, a, c))"
  unfolding appends_def
proof (intro allI impI)
  fix b assume room: "length (view b) + length (group_bits (u, a, c)) \<le> cap b"
  let ?ws = "[flag lib True, flag lib False, bv_set_uint lib (unat u) 14, flag lib False, bv_set_uint lib (length a) 5]"
  let ?front = "[bit_of True] @ [bit_of False] @ uint_bits 14 (unat u) @ [bit_of False] @ uint_bits 5 (length a) @ []"
  have "appends view cap (writes ?ws) ?front" by (intro appends_Cons appends_Nil bit_writers assms(1))
  moreover have "length (view b) + length ?front \<le> cap b" using room by (simp add: group_bits_def)
  ultimately have v: "view (writes ?ws b) = view b @ ?front" "cap (writes ?ws b) = cap b" by (rule appendsD)+
  have "length (view (writes ?ws b)) + range1024_p (length a) \<le> cap (writes ?ws b)"
    using room unfolding length_group_bits v by simp
  note r = view_range1024[OF assms(1,2) range1024_p_le this]
  show "view (write_group lib (u, a, c) b) = view b @ group_bits (u, a, c) \<and> cap (write_group lib (u, a, c) b) = cap b"
    using r unfolding write_group_def Let_def group_bits_def prod.case view_cur[OF assms(1)] by (simp only: v append_assoc append_Nil)
qed

lemma appends_map:
  assumes "\<And>x. x \<in> set xs \<Longrightarrow> appends view cap (f x) (g x)"
  shows "appends view cap (writes (map f xs)) (concat (map g xs))"
  using assms by (induction xs) (auto intro: appends_Nil appends_Cons)

section \<open>What is put into one message\<close>

definition fdd_cost :: "fdd_group \<Rightarrow> int" where
  "fdd_cost = (\<lambda>(u, a, c). 21 + int (range1024_p (length a)))"

definition group_ok :: "fdd_group \<Rightarrow> bool" where
  "group_ok = (\<lambda>(u, a, c). length c = 16 \<and> 1 \<le> length a \<and> length a \<le> 16 \<and> f0_helper a (length a) = Ok (0, c))"

definition pairs_of :: "fdd_group list \<Rightarrow> (u16 \<times> int) list" where
  "pairs_of gs = concat (map (\<lambda>(u, a, c). map (Pair u) a) gs)"

definition fdd_entry :: "u16 list \<Rightarrow> u16 list \<Rightarrow> nat \<Rightarrow> u16 \<times> int" where
  "fdd_entry ual scl j = (ual ! j, uint (scl ! j))"

lemma copy_codes_Ok: "copy_codes scl is = Ok a \<Longrightarrow> a = map (\<lambda>i. uint (scl ! i)) is"
  by (induction scl "is" arbitrary: a rule: copy_codes.induct) (auto split: if_splits)

definition few_codes :: "u16 list \<Rightarrow> nat \<Rightarrow> bool" where
  "few_codes ual len \<longleftrightarrow> (\<forall>st i. st \<le> i \<and> i \<le> len \<and> (\<forall>j \<in> {st..<i}. ual ! j = ual ! st) \<longrightarrow> i - st \<le> 16)"

text \<open>
  The groups that are put into a message: each has one to sixteen codes, their cost is below the budget, and together they are the
  next entries of the list.
\<close>

lemma uarfcns_fit_facts:
  assumes "uarfcns_fit ual scl len [i..<len + 1] cu st rem = Ok gs" "few_codes ual len"
    and "st \<le> i" "i \<le> len" "\<forall>j \<in> {st..<i}. ual ! j = cu" "ual ! st = cu"
  shows "(\<forall>g \<in> set gs. group_ok g) \<and> (gs \<noteq> [] \<longrightarrow> sum_list (map fdd_cost gs) < rem) \<and>
    pairs_of gs = map (fdd_entry ual scl) [st..<st + codes_of gs] \<and> st + codes_of gs \<le> len"
  using assms(1,3-)
proof (induction "len - i" arbitrary: i cu st rem gs rule: less_induct)
  case less
  have u: "[i..<len + 1] = i # [Suc i..<len + 1]" using less.prems(3) by (simp add: upt_conv_Cons)
  show ?case
  proof (cases "ual ! i = cu \<or> rem < 23")
    case True
    show ?thesis
    proof (cases "ual ! i = cu \<and> i < len")
      case t: True
      then have "uarfcns_fit ual scl len [Suc i..<len + 1] cu st rem = Ok gs" using less.prems(1) unfolding u by (auto split: if_splits)
      moreover have "\<forall>j \<in> {st..<Suc i}. ual ! j = cu" using less.prems(4) t by (auto simp: less_Suc_eq)
      ultimately show ?thesis using t less.prems by (intro less.hyps[of "Suc i"]) auto
    next
      case False
      then have "gs = []" using True less.prems(1,3) unfolding u by (auto split: if_splits)
      then show ?thesis using less.prems(2,3) by (simp add: pairs_of_def codes_of_def)
    qed
  next
    case False
    then have st: "st < i" using less.prems(2,5) by (cases "st = i") auto
    define a where "a = map (\<lambda>j. uint (scl ! j)) [st..<i]"
    let ?rem = "rem - (21 + int (range1024_p (length a)))"
    from False less.prems(1) obtain a' where "copy_codes scl [st..<i] = Ok a'" unfolding u by (auto split: if_splits)
    moreover from this have "a' = a" by (simp add: copy_codes_Ok a_def)
    moreover obtain f0 c where f: "f0_helper a (length a) = Ok (f0, c)"
      using False less.prems(1) calculation unfolding u by (auto split: if_splits)
    ultimately have r: "(if f0 < 0 \<or> ?rem \<le> 0 then Ok []
        else if i < len then rbind (uarfcns_fit ual scl len [Suc i..<len + 1] (ual ! i) i ?rem) (\<lambda>gs. Ok ((cu, a, c) # gs))
        else Ok [(cu, a, c)]) = Ok gs"
      using False less.prems(1) unfolding u by (simp add: Let_def split: if_splits)
    have la: "length a = i - st" by (simp add: a_def)
    have same: "\<forall>j \<in> {st..<i}. ual ! j = ual ! st" using less.prems(4,5) by auto
    have "i - st \<le> 16" using assms(2) same less.prems(2,3) unfolding few_codes_def by blast
    then have g: "group_ok (cu, a, c)" if "\<not> f0 < 0"
      using that st la f f0_helper_zero[OF f] by (auto simp: group_ok_def f0_helper_length)
    have p: "map (Pair cu) a = map (fdd_entry ual scl) [st..<i]" using less.prems(4) by (simp add: a_def fdd_entry_def)
    show ?thesis
    proof (cases "f0 < 0 \<or> ?rem \<le> 0")
      case True
      then show ?thesis using r less.prems(2,3) by (simp add: pairs_of_def codes_of_def)
    next
      case e: False
      then have g': "group_ok (cu, a, c)" using g by simp
      show ?thesis
      proof (cases "i < len")
        case True
        then obtain gs' where r': "uarfcns_fit ual scl len [Suc i..<len + 1] (ual ! i) i ?rem = Ok gs'" "gs = (cu, a, c) # gs'"
          using r e by auto
        have ih: "(\<forall>g \<in> set gs'. group_ok g) \<and> (gs' \<noteq> [] \<longrightarrow> sum_list (map fdd_cost gs') < ?rem) \<and>
            pairs_of gs' = map (fdd_entry ual scl) [i..<i + codes_of gs'] \<and> i + codes_of gs' \<le> len"
          using True by (intro less.hyps[OF _ r'(1)]) auto
        have "[st..<i + codes_of gs'] = [st..<i] @ [i..<i + codes_of gs']" using st upt_add_eq_append[of st i "codes_of gs'"] by simp
        moreover have "pairs_of gs = map (Pair cu) a @ pairs_of gs'" "codes_of gs = i - st + codes_of gs'"
          by (simp_all add: r'(2) pairs_of_def codes_of_def la)
        ultimately show ?thesis using ih p g' e st by (auto simp: r'(2) fdd_cost_def)
      next
        case False
        then have "gs = [(cu, a, c)]" using r e by simp
        then show ?thesis using p g' e st la less.prems(3) by (auto simp: pairs_of_def codes_of_def fdd_cost_def)
      qed
    qed
  qed
qed

section \<open>The groups fit\<close>

text \<open>
  A group takes one bit more than the code counts.  That the groups of a message still fit follows from the table of
  the numbers of bits: no two or three of them use up the budget.
\<close>

definition fdd_costs :: "int list" where
  "fdd_costs = [31, 40, 49, 57, 65, 73, 81, 88, 95, 102, 109, 116, 123, 130, 137, 143]"

lemma fdd_cost_in: "group_ok g \<Longrightarrow> fdd_cost g \<in> set fdd_costs"
proof -
  have "n \<in> set [1..<17] \<Longrightarrow> 21 + int (range1024_p n) \<in> set fdd_costs" for n
    by (simp add: upt_rec range1024_p.simps fdd_costs_def) (elim disjE; simp)
  then show "group_ok g \<Longrightarrow> fdd_cost g \<in> set fdd_costs" by (cases g) (simp add: group_ok_def fdd_cost_def)
qed

lemma three_groups: "\<forall>a \<in> set fdd_costs. \<forall>b \<in> set fdd_costs. \<forall>c \<in> set fdd_costs. a + b + c < 132 \<longrightarrow> a + b + c \<le> 129"
  unfolding fdd_costs_def by code_simp

lemma two_groups: "\<forall>a \<in> set fdd_costs. \<forall>b \<in> set fdd_costs. a + b < 132 \<longrightarrow> a + b \<le> 130"
  unfolding fdd_costs_def by code_simp

lemma groups_fit:
  assumes "\<forall>g \<in> set gs. group_ok g" "sum_list (map fdd_cost gs) < 132"
  shows "sum_list (map fdd_cost gs) + int (length gs) \<le> 132"
proof -
  have c: "fdd_cost g \<in> set fdd_costs" if "g \<in> set gs" for g using assms(1) that fdd_cost_in by blast
  have ge: "fdd_cost g = 31 \<or> 40 \<le> fdd_cost g" if "g \<in> set gs" for g using c[OF that] by (auto simp: fdd_costs_def)
  have "31 * int (length xs) \<le> sum_list (map fdd_cost xs)" if "set xs \<subseteq> set gs" for xs
    using that by (induction xs) (auto dest: ge)
  then have "31 * int (length gs) < 132" using assms(2) by fastforce
  then have "length gs \<le> 4" by linarith
  then consider "length gs \<le> 1" | "length gs = 2" | "length gs = 3" | "length gs = 4" by linarith
  then show ?thesis
  proof cases
    case 2
    then obtain x y where "gs = [x, y]" by (auto simp: numeral_eq_Suc length_Suc_conv)
    then show ?thesis using assms(2) two_groups[rule_format, OF c[of x] c[of y]] by simp
  next
    case 3
    then obtain x y z where "gs = [x, y, z]" by (auto simp: numeral_eq_Suc length_Suc_conv)
    then show ?thesis using assms(2) three_groups[rule_format, OF c[of x] c[of y] c[of z]] by simp
  next
    case 4
    then obtain x y z v where "gs = [x, y, z, v]" by (auto simp: numeral_eq_Suc length_Suc_conv)
    then show ?thesis using assms(2) ge[of x] ge[of y] ge[of z] ge[of v] by auto
  qed (use assms(2) in linarith)
qed

lemma length_groups: "(\<forall>g \<in> set gs. group_ok g) \<Longrightarrow> int (length (concat (map group_bits gs))) = sum_list (map fdd_cost gs) + int (length gs)"
  by (induction gs) (auto simp: fdd_cost_def length_group_bits)

lemma length_earfcns: "0 \<le> rem \<Longrightarrow> int (length (concat (map earfcn_bits (earfcns_fit rem es)))) \<le> rem"
  by (induction rem es rule: earfcns_fit.induct) (auto simp: length_earfcn_bits)

section \<open>One message\<close>

text \<open>The groups and the EARFCNs of the next message; \<open>used\<close> bits are in front of the latter.\<close>

definition msg_groups :: "si2q_bts \<Rightarrow> fdd_group list res" where
  "msg_groups bts =
     (if uarfcn_length bts = u_offset bts then Ok []
      else if \<not> u_offset bts < length (uarfcn_list bts) then Abort
      else uarfcns_fit (uarfcn_list bts) (scramble_list bts) (uarfcn_length bts) [u_offset bts..<uarfcn_length bts + 1]
             (uarfcn_list bts ! u_offset bts) (u_offset bts) 132)"

definition group_part :: "si2q_bts \<Rightarrow> fdd_group list \<Rightarrow> bit_value list" where
  "group_part bts gs =
     (if uarfcn_length bts = u_offset bts then [ZERO]
      else [ONE, ZERO, ZERO, ONE, ZERO] @ concat (map group_bits gs) @ [ZERO, ZERO])"

definition earfcn_room :: "earfcn_si2q \<Rightarrow> int \<Rightarrow> int" where
  "earfcn_room e budget = budget - 6 - (if e_prio_valid e then 4 else 1) - (if e_thresh_lo_valid e then 6 else 1) - (if e_qrxlm_valid e then 6 else 1)"

definition all_earfcns :: "si2q_bts \<Rightarrow> (u16 \<times> u8 option) list" where
  "all_earfcns bts = valid_earfcns (zip (e_arfcn (si2quater_neigh_list bts)) (e_meas_bw (si2quater_neigh_list bts)))"

definition msg_earfcns :: "nat \<Rightarrow> si2q_bts \<Rightarrow> (u16 \<times> u8 option) list option" where
  "msg_earfcns used bts =
     (let budget = 160 - int used - 25; room = earfcn_room (si2quater_neigh_list bts) budget in
      if si2q_earfcn_count (si2quater_neigh_list bts) = e_offset bts \<or> budget \<le> 6 \<or> room < 0 then None
      else Some (earfcns_fit room (drop (e_offset bts) (all_earfcns bts))))"

definition opt_bits :: "bool \<Rightarrow> u8 \<Rightarrow> nat \<Rightarrow> bit_value list" where
  "opt_bits valid v n = (if valid then [ONE] @ uint_bits n (unat v) else [ZERO])"

definition earfcn_tail :: "earfcn_si2q \<Rightarrow> bit_value list" where
  "earfcn_tail e = [ZERO] @ opt_bits (e_prio_valid e) (e_prio e) 3 @ uint_bits 5 (unat (e_thresh_hi e)) @
     opt_bits (e_thresh_lo_valid e) (e_thresh_lo e) 5 @ opt_bits (e_qrxlm_valid e) (e_qrxlm e) 5"

definition earfcn_head :: "bit_value list" where
  "earfcn_head = [H, ZERO, ZERO, H, ZERO, H, ZERO, ZERO, H, ONE, ZERO, ZERO, ONE, ZERO, ONE, ONE, ZERO, ZERO, ONE]"

definition earfcn_part :: "earfcn_si2q \<Rightarrow> (u16 \<times> u8 option) list option \<Rightarrow> bit_value list" where
  "earfcn_part e es = (case es of None \<Rightarrow> []
     | Some es \<Rightarrow> earfcn_head @ concat (map earfcn_bits es) @ earfcn_tail e @ [ZERO, ZERO, ZERO, ZERO, ZERO, L])"

definition msg_front :: "si2q_bts \<Rightarrow> fdd_group list \<Rightarrow> bit_value list" where
  "msg_front bts gs = [ZERO, ONE, ZERO] @ uint_bits 4 (si2q_index bts) @ uint_bits 4 (si2q_count bts) @ replicate 7 ZERO @
     group_part bts gs @ [ZERO, ZERO]"

definition msg_bits :: "si2q_bts \<Rightarrow> fdd_group list \<Rightarrow> bit_value list" where
  "msg_bits bts gs = (let f = msg_front bts gs; m = f @ earfcn_part (si2quater_neigh_list bts) (msg_earfcns (length f) bts)
     in m @ replicate (160 - length m) L)"

definition advance :: "si2q_bts \<Rightarrow> fdd_group list \<Rightarrow> si2q_bts" where
  "advance bts gs = bts\<lparr> u_offset := u_offset bts + codes_of gs,
     e_offset := e_offset bts + (case msg_earfcns (length (msg_front bts gs)) bts of None \<Rightarrow> 0 | Some es \<Rightarrow> length es) \<rparr>"

lemma appends_tail:
  assumes c: "bitvec_contract lib view cap"
  shows "appends view cap (writes [
             flag lib False,
             optional_uint lib (e_prio_valid e) (e_prio e) 3,
             bv_set_uint lib (unat (e_thresh_hi e)) 5,
             optional_uint lib (e_thresh_lo_valid e) (e_thresh_lo e) 5,
             optional_uint lib (e_qrxlm_valid e) (e_qrxlm e) 5]) (earfcn_tail e)"
proof -
  have o: "appends view cap (optional_uint lib b v n) (opt_bits b v n)" for b v n
    using appends_Cons[OF appends_flag[OF c, of True] appends_Cons[OF appends_set_uint[OF c, of "unat v" n] appends_Nil]] appends_flag[OF c, of False]
    by (simp add: optional_uint_def opt_bits_def bit_of_def)
  have "appends view cap (writes [flag lib False, optional_uint lib (e_prio_valid e) (e_prio e) 3, bv_set_uint lib (unat (e_thresh_hi e)) 5,
      optional_uint lib (e_thresh_lo_valid e) (e_thresh_lo e) 5, optional_uint lib (e_qrxlm_valid e) (e_qrxlm e) 5])
    ([bit_of False] @ opt_bits (e_prio_valid e) (e_prio e) 3 @ uint_bits 5 (unat (e_thresh_hi e)) @
      opt_bits (e_thresh_lo_valid e) (e_thresh_lo e) 5 @ opt_bits (e_qrxlm_valid e) (e_qrxlm e) 5 @ [])"
    by (intro appends_Cons appends_Nil o bit_writers c)
  then show ?thesis by (simp add: earfcn_tail_def bit_of_def)
qed

lemma length_tail: "int (length (earfcn_tail e)) = budget - earfcn_room e budget"
  by (simp add: earfcn_tail_def opt_bits_def earfcn_room_def)

lemma appends_head: "bitvec_contract lib view cap \<Longrightarrow> appends view cap (earfcn_prefix lib) earfcn_head"
proof -
  assume c: "bitvec_contract lib view cap"
  have "appends view cap (earfcn_prefix lib) (concat (map (\<lambda>b. [b]) earfcn_head))"
    unfolding earfcn_prefix_def earfcn_head_def list.map concat.simps
    by (intro appends_Cons appends_Nil appends_true[OF c] appends_flag[OF c, of False, unfolded bit_of_def, simplified]
        appends_flag[OF c, of True, unfolded bit_of_def, simplified])
  then show ?thesis by simp
qed

lemma append_earfcn_msg:
  assumes c: "bitvec_contract lib view cap" and "length (view bv) = used" "cap bv = 160" "used < 160"
    and n: "si2q_earfcn_count (si2quater_neigh_list bts) \<noteq> e_offset bts"
  shows "\<exists>bv'. append_earfcn lib (160 - int used) bts bv =
      Ok (bts\<lparr> e_offset := e_offset bts + (case msg_earfcns used bts of None \<Rightarrow> 0 | Some es \<Rightarrow> length es) \<rparr>, bv') \<and>
    view bv' = view bv @ earfcn_part (si2quater_neigh_list bts) (msg_earfcns used bts) \<and> cap bv' = 160 \<and> length (view bv') \<le> 160"
proof -
  let ?e = "si2quater_neigh_list bts" and ?rem = "160 - int used - 25"
  let ?room = "earfcn_room ?e ?rem"
  have h: "view (earfcn_prefix lib bv) = view bv @ earfcn_head" "cap (earfcn_prefix lib bv) = 160" if "?rem > 0"
    using appendsD[OF appends_head[OF c], of bv] that assms by (simp_all add: earfcn_head_def)
  show ?thesis
  proof (cases "?rem \<le> 0")
    case True
    then have "msg_earfcns used bts = None" by (simp add: msg_earfcns_def Let_def)
    then show ?thesis using True assms by (simp add: append_earfcn_def Let_def earfcn_part_def)
  next
    case pos: False
    show ?thesis
    proof (cases "?rem \<le> 6 \<or> ?room < 0")
      case True
      then have m: "msg_earfcns used bts = None" by (auto simp: msg_earfcns_def Let_def)
      have "append_eutran_neib_cell lib ?rem bts (earfcn_prefix lib bv) = Ok (False, bts, earfcn_prefix lib bv)"
        using True by (auto simp: append_eutran_neib_cell_def Let_def earfcn_room_def SI2Q_MAX_LEN_def)
      then have "append_earfcn lib (160 - int used) bts bv = Ok (bts, bv_set_cur_bit lib used (earfcn_prefix lib bv))"
        using pos assms by (simp add: append_earfcn_def Let_def view_cur[OF c] SI2Q_MAX_LEN_def)
      then show ?thesis using h pos assms m by (simp add: view_set_cur[OF c] earfcn_part_def)
    next
      case False
      define t where "t = earfcns_fit ?room (drop (e_offset bts) (all_earfcns bts))"
      have m: "msg_earfcns used bts = Some t" using False n by (simp add: msg_earfcns_def Let_def t_def)
      let ?b = "writes (map (write_earfcn lib) t) (earfcn_prefix lib bv)"
      let ?ws = "[flag lib False, optional_uint lib (e_prio_valid ?e) (e_prio ?e) 3, bv_set_uint lib (unat (e_thresh_hi ?e)) 5,
         optional_uint lib (e_thresh_lo_valid ?e) (e_thresh_lo ?e) 5, optional_uint lib (e_qrxlm_valid ?e) (e_qrxlm ?e) 5]"
      let ?fin = "[flag lib False, flag lib False, flag lib False, flag lib False, flag lib False, lh lib False]"
      have lt: "int (length (concat (map earfcn_bits t))) \<le> ?room" unfolding t_def using False by (intro length_earfcns) simp
      have ll: "int (length (earfcn_tail ?e)) = ?rem - ?room" by (rule length_tail)
      have b1: "view ?b = view bv @ earfcn_head @ concat (map earfcn_bits t)" "cap ?b = 160"
        using appendsD[OF appends_map[of t view cap "write_earfcn lib" earfcn_bits, OF appends_write_earfcn[OF c]], of "earfcn_prefix lib bv"]
          h pos lt ll assms by (simp_all add: earfcn_head_def)
      have b2: "view (writes ?ws ?b) = view ?b @ earfcn_tail ?e" "cap (writes ?ws ?b) = 160"
        using appendsD[OF appends_tail[OF c], of ?b ?e] b1 lt ll assms by (simp_all add: earfcn_head_def)
      have "appends view cap (writes ?fin) ([bit_of False] @ [bit_of False] @ [bit_of False] @ [bit_of False] @ [bit_of False] @ [L] @ [])"
        by (intro appends_Cons appends_Nil bit_writers appends_false c)
      then have b3: "view (writes ?fin (writes ?ws ?b)) = view (writes ?ws ?b) @ [ZERO, ZERO, ZERO, ZERO, ZERO, L]"
          "cap (writes ?fin (writes ?ws ?b)) = 160"
        using appendsD[of view cap "writes ?fin" _ "writes ?ws ?b"] b1 b2 lt ll assms by (auto simp: bit_of_def earfcn_head_def)
      have "append_earfcn lib (160 - int used) bts bv = Ok (bts\<lparr> e_offset := e_offset bts + length t \<rparr>, writes ?fin (writes ?ws ?b))"
        using pos False by (auto simp: append_earfcn_def append_eutran_neib_cell_def eutran_loop_eq Let_def earfcn_room_def SI2Q_MAX_LEN_def
            t_def all_earfcns_def)
      then show ?thesis using b1 b2 b3 m lt ll assms by (simp add: earfcn_part_def earfcn_head_def)
    qed
  qed
qed

text \<open>Lists as the command line builds them: the entry behind the last one can be read, and no UARFCN has more than 16 codes in a row.\<close>

definition si2q_lists_ok :: "si2q_bts \<Rightarrow> bool" where
  "si2q_lists_ok bts \<longleftrightarrow> few_codes (uarfcn_list bts) (uarfcn_length bts) \<and> u_offset bts \<le> uarfcn_length bts"

lemma msg_groups_facts:
  assumes "msg_groups bts = Ok gs" "si2q_lists_ok bts"
  shows "(\<forall>g \<in> set gs. group_ok g) \<and> (gs \<noteq> [] \<longrightarrow> sum_list (map fdd_cost gs) < 132) \<and>
    pairs_of gs = map (fdd_entry (uarfcn_list bts) (scramble_list bts)) [u_offset bts..<u_offset bts + codes_of gs] \<and>
    u_offset bts + codes_of gs \<le> uarfcn_length bts"
proof (cases "uarfcn_length bts = u_offset bts")
  case True
  then show ?thesis using assms by (simp add: msg_groups_def pairs_of_def codes_of_def)
next
  case False
  then show ?thesis
    using assms uarfcns_fit_facts[of "uarfcn_list bts" "scramble_list bts" "uarfcn_length bts" "u_offset bts" "uarfcn_list bts ! u_offset bts" "u_offset bts" 132 gs]
    by (auto simp: msg_groups_def si2q_lists_ok_def split: if_splits)
qed

lemma length_group_part:
  assumes "\<forall>g \<in> set gs. group_ok g" "gs \<noteq> [] \<longrightarrow> sum_list (map fdd_cost gs) < 132"
  shows "length (group_part bts gs) \<le> 139"
  using groups_fit[OF assms(1)] length_groups[OF assms(1)] assms(2) by (cases "gs = []") (auto simp: group_part_def)

lemma append_uarfcns_msg:
  assumes c: "bitvec_contract lib view cap" and "length (view bv) = 18" "cap bv = 160"
    and "msg_groups bts = Ok gs" "si2q_lists_ok bts" "uarfcn_length bts \<noteq> u_offset bts"
  shows "\<exists>bv'. append_uarfcns lib 139 bts bv = Ok (bts\<lparr> u_offset := u_offset bts + codes_of gs \<rparr>, bv') \<and>
    view bv' = view bv @ group_part bts gs \<and> cap bv' = 160"
proof -
  note f = msg_groups_facts[OF assms(4,5)]
  have gp: "length (group_part bts gs) \<le> 139" using f length_group_part by blast
  let ?ws = "[flag lib True, flag lib False, flag lib False, flag lib True, flag lib False]"
  have "appends view cap (writes ?ws) ([bit_of True] @ [bit_of False] @ [bit_of False] @ [bit_of True] @ [bit_of False] @ [])"
    by (intro appends_Cons appends_Nil bit_writers c)
  then have b1: "view (writes ?ws bv) = view bv @ [ONE, ZERO, ZERO, ONE, ZERO]" "cap (writes ?ws bv) = 160"
    using appendsD[of view cap "writes ?ws" _ bv] assms by (auto simp: bit_of_def)
  let ?b = "writes (map (write_group lib) gs) (writes ?ws bv)"
  have "appends view cap (write_group lib g) (group_bits g)" if "g \<in> set gs" for g
    using f that by (cases g) (auto simp: group_ok_def intro!: appends_write_group[OF c])
  then have b2: "view ?b = view (writes ?ws bv) @ concat (map group_bits gs)" "cap ?b = 160"
    using appendsD[OF appends_map[of gs view cap "write_group lib" group_bits], of "writes ?ws bv"] b1 gp assms
    by (simp_all add: group_part_def)
  let ?fin = "[flag lib False, flag lib False]"
  have "appends view cap (writes ?fin) ([bit_of False] @ [bit_of False] @ [])" by (intro appends_Cons appends_Nil bit_writers c)
  then have b3: "view (writes ?fin ?b) = view ?b @ [ZERO, ZERO]" "cap (writes ?fin ?b) = 160"
    using appendsD[of view cap "writes ?fin" _ ?b] b1 b2 gp assms by (auto simp: bit_of_def group_part_def)
  have "append_uarfcns lib 139 bts bv = Ok (bts\<lparr> u_offset := u_offset bts + codes_of gs \<rparr>, writes ?fin ?b)"
    using assms by (auto simp: append_uarfcns_def uarfcn_loop_eq msg_groups_def SI2Q_MAX_LEN_def split: if_splits)
  then show ?thesis using b1 b2 b3 assms by (simp add: group_part_def)
qed

text \<open>The start of a message.\<close>

definition msg_start :: "'b bitvec_ops \<Rightarrow> si2q_bts \<Rightarrow> 'b" where
  "msg_start lib bts = writes [flag lib False, flag lib True, flag lib False, bv_set_uint lib (si2q_index bts) 4, bv_set_uint lib (si2q_count bts) 4,
     flag lib False, flag lib False, flag lib False, flag lib False, flag lib False, flag lib False, flag lib False] (bv_start lib 20)"

lemma view_msg_start:
  assumes c: "bitvec_contract lib view cap"
  shows "view (msg_start lib bts) = [ZERO, ONE, ZERO] @ uint_bits 4 (si2q_index bts) @ uint_bits 4 (si2q_count bts) @ replicate 7 ZERO"
    "cap (msg_start lib bts) = 160"
proof -
  have "appends view cap (writes [flag lib False, flag lib True, flag lib False, bv_set_uint lib (si2q_index bts) 4, bv_set_uint lib (si2q_count bts) 4,
      flag lib False, flag lib False, flag lib False, flag lib False, flag lib False, flag lib False, flag lib False])
    ([bit_of False] @ [bit_of True] @ [bit_of False] @ uint_bits 4 (si2q_index bts) @ uint_bits 4 (si2q_count bts) @
      [bit_of False] @ [bit_of False] @ [bit_of False] @ [bit_of False] @ [bit_of False] @ [bit_of False] @ [bit_of False] @ [])"
    by (intro appends_Cons appends_Nil bit_writers c)
  note this = appendsD[OF this, of "bv_start lib 20"]
  then show "view (msg_start lib bts) = [ZERO, ONE, ZERO] @ uint_bits 4 (si2q_index bts) @ uint_bits 4 (si2q_count bts) @ replicate 7 ZERO"
    "cap (msg_start lib bts) = 160"
    using view_start[OF c, of 20] by (simp_all add: msg_start_def bit_of_def numeral_eq_Suc)
qed

text \<open>One call generates the message \<open>msg_bits\<close> of exactly twenty octets.\<close>

lemma si2quater_msg:
  assumes c: "bitvec_contract lib view cap" and g: "msg_groups bts = Ok gs" and ok: "si2q_lists_ok bts" and "si2q_index bts \<le> si2q_count bts"
  shows "\<exists>bv. rest_octets_si2quater lib bts = Ok (20, advance bts gs, bv) \<and> view bv = msg_bits bts gs \<and> length (msg_bits bts gs) = 160"
proof -
  note f = msg_groups_facts[OF g ok]
  have gp: "length (group_part bts gs) \<le> 139" using f length_group_part by blast
  define b0 where "b0 = msg_start lib bts"
  have b0: "view b0 = [ZERO, ONE, ZERO] @ uint_bits 4 (si2q_index bts) @ uint_bits 4 (si2q_count bts) @ replicate 7 ZERO" "cap b0 = 160"
    using view_msg_start[OF c, of bts] by (simp_all add: b0_def)
  then have l0: "length (view b0) = 18" by simp
  let ?bts = "bts\<lparr> u_offset := u_offset bts + codes_of gs \<rparr>"
  obtain b1 where b1: "(if 139 > (0 :: int) \<and> uarfcn_length bts \<noteq> u_offset bts then append_uarfcns lib 139 bts b0 else Ok (bts, flag lib False b0)) = Ok (?bts, b1)"
    "view b1 = view b0 @ group_part bts gs" "cap b1 = 160"
  proof (cases "uarfcn_length bts = u_offset bts")
    case True
    have "view (flag lib False b0) = view b0 @ [ZERO]" "cap (flag lib False b0) = 160"
      using appendsD[OF appends_flag[OF c, of False], of b0] b0(2) l0 by (simp_all add: bit_of_def)
    moreover have "gs = []" using g True by (simp add: msg_groups_def)
    ultimately show ?thesis using that[of "flag lib False b0"] True by (simp add: group_part_def codes_of_def)
  next
    case False
    then show ?thesis using append_uarfcns_msg[OF c l0 b0(2) g ok] that by fastforce
  qed
  let ?b2 = "writes [flag lib False, flag lib False] b1"
  have "appends view cap (writes [flag lib False, flag lib False]) ([bit_of False] @ [bit_of False] @ [])" by (intro appends_Cons appends_Nil bit_writers c)
  from appendsD[OF this, of b1] have b2: "view ?b2 = msg_front bts gs" "cap ?b2 = 160"
    using b0 b1 gp l0 by (auto simp: bit_of_def msg_front_def)
  have lf: "length (msg_front bts gs) < 160" using gp by (simp add: msg_front_def)
  let ?adv = "advance bts gs" and ?es = "msg_earfcns (length (msg_front bts gs)) bts"
  have me: "msg_earfcns n ?bts = msg_earfcns n bts" for n by (simp add: msg_earfcns_def all_earfcns_def Let_def)
  obtain b3 where b3: "(if 160 - int (length (msg_front bts gs)) > 0 \<and> si2q_earfcn_count (si2quater_neigh_list ?bts) \<noteq> e_offset ?bts
      then append_earfcn lib (160 - int (length (msg_front bts gs))) ?bts ?b2 else Ok (?bts, lh lib False ?b2)) = Ok (?adv, b3)"
    "view (bv_spare_padding lib 159 b3) = msg_bits bts gs" "length (msg_bits bts gs) = 160"
  proof (cases "si2q_earfcn_count (si2quater_neigh_list bts) = e_offset bts")
    case True
    then have n: "?es = None" by (simp add: msg_earfcns_def Let_def)
    have v: "view (lh lib False ?b2) = msg_front bts gs @ [L]" "cap (lh lib False ?b2) = 160"
      using appendsD[OF appends_false[OF c], of ?b2] b2 lf by simp_all
    have "replicate (160 - length (msg_front bts gs)) L = L # replicate (159 - length (msg_front bts gs)) L"
      using lf by (simp add: replicate_Suc[symmetric] Suc_diff_le[symmetric] del: replicate_Suc)
    then have "view (bv_spare_padding lib 159 (lh lib False ?b2)) = msg_bits bts gs"
      using v lf by (simp add: view_padding[OF c] msg_bits_def n earfcn_part_def Let_def)
    moreover have "length (msg_bits bts gs) = 160" using lf by (simp add: msg_bits_def n earfcn_part_def Let_def)
    ultimately show ?thesis using that[of "lh lib False ?b2"] True n by (simp add: advance_def)
  next
    case False
    have "\<exists>bv'. append_earfcn lib (160 - int (length (msg_front bts gs))) ?bts ?b2 =
        Ok (?bts\<lparr> e_offset := e_offset ?bts + (case ?es of None \<Rightarrow> 0 | Some es \<Rightarrow> length es) \<rparr>, bv') \<and>
      view bv' = view ?b2 @ earfcn_part (si2quater_neigh_list bts) ?es \<and> cap bv' = 160 \<and> length (view bv') \<le> 160"
      using append_earfcn_msg[OF c _ b2(2) lf, of ?bts] False b2(1) me by simp
    then obtain bv' where bv': "append_earfcn lib (160 - int (length (msg_front bts gs))) ?bts ?b2 = Ok (?adv, bv')"
      "view bv' = msg_front bts gs @ earfcn_part (si2quater_neigh_list bts) ?es" "cap bv' = 160" "length (view bv') \<le> 160"
      using b2(1) by (auto simp: advance_def)
    then have "view (bv_spare_padding lib 159 bv') = msg_bits bts gs" "length (msg_bits bts gs) = 160"
      by (simp_all add: view_padding[OF c] msg_bits_def Let_def)
    then show ?thesis using that[of bv'] False lf bv'(1) by simp
  qed
  have "rest_octets_si2quater lib bts = Ok (20, ?adv, bv_spare_padding lib 159 b3)"
  proof -
    have e: "(si2q_count bts < si2q_index bts) = False" "160 - int (18 + 3) = 139" "(20 * 8 - 1 :: nat) = 159" using assms(4) by simp_all
    show ?thesis
      unfolding rest_octets_si2quater_def Let_def msg_start_def[symmetric] b0_def[symmetric] SI2Q_MAX_LEN_def view_cur[OF c]
      by (simp only: e if_False l0 b1(1) rbind.simps prod.case b2(1) b3(1))
  qed
  then show ?thesis using b3 by blast
qed

section \<open>Reading SI2quater\<close>






















section \<open>All messages\<close>















section \<open>The counting run and the real one\<close>









lemma few_codes_length: "len \<le> 16 \<Longrightarrow> few_codes ual len"
  unfolding few_codes_def by (intro allI impI) linarith


definition si2q_example :: si2q_bts where
  "si2q_example = \<lparr> si2q_index = 0, si2q_count = 0, e_offset = 0, u_offset = 0, uarfcn_length = 2, uarfcn_list = [1000, 1000, 0, 0], scramble_list = [17, 40, 0, 0],
     si2quater_neigh_list = \<lparr> e_arfcn = [Some 1900, None, Some 300, Some 500, Some 600], e_meas_bw = [Some 3, None, None, None, None], e_thresh_hi = 20, e_thresh_lo = 10, e_thresh_lo_valid = True,
       e_prio = 5, e_prio_valid = True, e_qrxlm = 0, e_qrxlm_valid = False \<rparr> \<rparr>"


section \<open>A deleted UARFCN\<close>

lemma uarfcns_fit_same:
  "\<forall>i \<in> set is. i < length ual \<and> ual ! i = cu \<Longrightarrow> uarfcns_fit ual scl len is cu st rem = Ok []"
  by (induction "is") simp_all

text \<open>An entry of the same UARFCN behind the list: no message takes the group.\<close>

definition stale :: "si2q_bts \<Rightarrow> bool" where
  "stale bts \<longleftrightarrow> u_offset bts < uarfcn_length bts \<and> uarfcn_length bts < length (uarfcn_list bts) \<and>
     (\<exists>u. \<forall>i \<in> {u_offset bts..uarfcn_length bts}. uarfcn_list bts ! i = u)"

lemma stale_no_groups: "stale bts \<Longrightarrow> msg_groups bts = Ok []"
  by (auto simp: msg_groups_def stale_def uarfcns_fit_same simp del: upt_Suc)

lemma stale_run:
  assumes c: "bitvec_contract lib view cap"
  shows "stale bts \<Longrightarrow> si2q_lists_ok bts \<Longrightarrow> counting \<or> si2q_index bts + n \<le> si2q_count bts + 1 \<Longrightarrow>
    \<exists>bts' out. si2quaters_from n lib counting bts msgs = Ok (- RO_ENOMEM, bts', out) \<and>
       (\<exists>e c i. bts' = bts\<lparr> e_offset := e, si2q_count := c, si2q_index := i \<rparr>)"
proof (induction n arbitrary: bts msgs)
  case 0
  have "bts = bts\<lparr> e_offset := e_offset bts, si2q_count := si2q_count bts, si2q_index := si2q_index bts \<rparr>" by simp
  then have "\<exists>e c i. bts = bts\<lparr> e_offset := e, si2q_count := c, si2q_index := i \<rparr>" by blast
  then show ?case by simp
next
  case (Suc n)
  define b where "b = (if counting \<and> si2q_count bts < si2q_index bts then bts\<lparr> si2q_count := si2q_index bts \<rparr> else bts)"
  have st: "stale b" and ok: "si2q_lists_ok b" and i: "si2q_index b \<le> si2q_count b" and i': "counting \<or> si2q_index b + Suc n \<le> si2q_count b + 1"
    using Suc by (auto simp: b_def stale_def si2q_lists_ok_def)
  obtain bv where r: "rest_octets_si2quater lib b = Ok (20, advance b [], bv)" using si2quater_msg[OF c stale_no_groups[OF st] ok i] by blast
  obtain e where e: "advance b [] = b\<lparr> e_offset := e \<rparr>" by (auto simp: advance_def codes_of_def)
  let ?b = "b\<lparr> e_offset := e, si2q_index := si2q_index b + 1 \<rparr>"
  have "stale ?b" "si2q_lists_ok ?b" "counting \<or> si2q_index ?b + n \<le> si2q_count ?b + 1" using st ok i' by (simp_all add: stale_def si2q_lists_ok_def)
  from Suc(1)[OF this, of "msgs @ [bv]"] obtain bts' out e' c' i'' where
    h: "si2quaters_from n lib counting ?b (msgs @ [bv]) = Ok (- RO_ENOMEM, bts', out)" "bts' = ?b\<lparr> e_offset := e', si2q_count := c', si2q_index := i'' \<rparr>" by blast
  have "si2quaters_from (Suc n) lib counting bts msgs = Ok (- RO_ENOMEM, bts', out)"
    using r e h(1) st by (simp add: b_def[symmetric] Let_def stale_def)
  moreover have "bts' = bts\<lparr> e_offset := e', si2q_count := c', si2q_index := i'' \<rparr>" using h(2) by (simp add: b_def)
  ultimately show ?case by blast
qed

lemma stale_generate:
  assumes c: "bitvec_contract lib view cap" and st: "stale (bts\<lparr> u_offset := 0 \<rparr>)" and f: "few_codes (uarfcn_list bts) (uarfcn_length bts)"
  shows "\<exists>bts' out. generate_si2quater lib hdr bts = Ok (- RO_ENOMEM, bts', True, out)"
proof -
  define b0 where "b0 = bts\<lparr> u_offset := 0, e_offset := 0, si2q_index := 0 \<rparr>"
  have b0: "stale b0" "si2q_lists_ok b0" using st f by (simp_all add: b0_def stale_def si2q_lists_ok_def)
  obtain out e k i where
    r1: "si2quaters_from SI2Q_MAX_NUM lib True b0 [] = Ok (- RO_ENOMEM, b0\<lparr> e_offset := e, si2q_count := k, si2q_index := i \<rparr>, out)"
    using stale_run[OF c b0, of True SI2Q_MAX_NUM "[]"] by auto
  define b1 where "b1 = b0\<lparr> e_offset := 0, si2q_count := 254, si2q_index := 0 \<rparr>"
  have b1: "stale b1" "si2q_lists_ok b1" using b0 by (simp_all add: b1_def stale_def si2q_lists_ok_def)
  have "False \<or> si2q_index b1 + SI2Q_MAX_NUM \<le> si2q_count b1 + 1" by (simp add: b1_def SI2Q_MAX_NUM_def)
  then obtain bts' out' where r2: "si2quaters_from SI2Q_MAX_NUM lib False b1 [] = Ok (- RO_ENOMEM, bts', out')"
    using stale_run[OF c b1, of False SI2Q_MAX_NUM "[]"] by auto
  have n: "\<not> si2quater_not_needed bts" using st by (simp add: stale_def si2quater_not_needed_def)
  have "si2q_num lib b0 = Ok (255, b0\<lparr> e_offset := 0, si2q_count := k, si2q_index := i \<rparr>)"
    using r1 by (simp add: si2q_num_def make_si2quaters_def b0_def RO_ENOMEM_def)
  then show ?thesis using r2 n by (simp add: generate_si2quater_def make_si2quaters_def b0_def b1_def RO_ENOMEM_def)
qed

text \<open>
  Property C22. When the list has at least two scrambling codes, all of one UARFCN, and the last one is deleted, the
  deletion succeeds and leaves the entry behind the list; \<^verbatim>\<open>append_uarfcns\<close> compares with it, finds the same
  UARFCN and never adds the group, so that no SI2quater can be generated any more.
\<close>

theorem stale_uarfcn_not_sent:
  assumes "bitvec_contract lib view cap" "2 \<le> uarfcn_length bts" "uarfcn_length bts \<le> length (uarfcn_list bts)" "uarfcn_length bts \<le> 17"
    and "\<forall>i < uarfcn_length bts. uarfcn_list bts ! i = u" "uarfcn_sc_pos bts u sc = Some (uarfcn_length bts - 1)"
  shows "\<exists>bts' bts'' out. bts_uarfcn_del u sc bts = Ok (0, bts') \<and> uarfcn_length bts' = uarfcn_length bts - 1 \<and>
     generate_si2quater lib hdr bts' = Ok (- RO_ENOMEM, bts'', True, out)"
proof -
  let ?b = "bts\<lparr> uarfcn_length := uarfcn_length bts - 1 \<rparr>"
  have "bts_uarfcn_del u sc bts = Ok (0, ?b)" using assms(6) by (simp add: bts_uarfcn_del_def)
  moreover have "stale (?b\<lparr> u_offset := 0 \<rparr>)" using assms(2-5) by (auto simp: stale_def)
  moreover have "few_codes (uarfcn_list ?b) (uarfcn_length ?b)" using assms(4) by (intro few_codes_length) simp
  ultimately show ?thesis using stale_generate[OF assms(1), of ?b hdr] by fastforce
qed

theorem stale_uarfcn_not_sent_witness:
  "uarfcn_sc_pos si2q_example 1000 40 = Some 1 \<and>
   (\<exists>bts' bts'' out. bts_uarfcn_del 1000 40 si2q_example = Ok (0, bts') \<and> uarfcn_length bts' = 2 - 1 \<and>
     generate_si2quater list_bitvec 3 bts' = Ok (- RO_ENOMEM, bts'', True, out))"
proof -
  have p: "uarfcn_sc_pos si2q_example 1000 40 = Some 1" by code_simp
  have l: "uarfcn_length si2q_example = 2" by (simp add: si2q_example_def)
  show ?thesis
    using stale_uarfcn_not_sent[OF list_bitvec_contract, of si2q_example 1000 40 3] p unfolding l
    by (simp add: si2q_example_def less_Suc_eq numeral_2_eq_2)
qed

end
