(* ===== verification/Gscon.thy ===== *)
theory Gscon
  imports Codec_Pref Osmo_Fsm
begin

unbundle bit_operations_syntax

text \<open>
  The connection of a subscriber, \<^verbatim>\<open>bsc_subscr_conn_fsm.c\<close>, and the assignment of a channel to it,
  \<^verbatim>\<open>assignment_fsm.c\<close>.  The machine of the assignment is a child of that of the connection; when it ends the
  connection gets an event, and either may be called from the other's handlers.

  The state is one connection with the part of its lchans it uses; an lchan is named by a number.  An access
  to a connection that was freed, to a null pointer and behind the end of a message is \<open>Abort\<close>, as a failed
  assertion is.  Arguments, in the context \<open>gscon_ctx\<close>, are the machine engine, the functions of libraries and what
  the other components answer: the selection of an lchan, the machines of lchans and handovers, the media
  gateway.  What is sent is recorded in \<open>gc_out\<close>.  A dispatch inside a dispatch takes one of a bounded
  number of levels.
\<close>

section \<open>State\<close>

datatype gscon_fsm_states = ST_INIT | ST_WAIT_CC | ST_ACTIVE | ST_ASSIGNMENT | ST_HANDOVER | ST_CLEARING

fun gscon_st_nr :: "gscon_fsm_states \<Rightarrow> nat" where
  "gscon_st_nr ST_INIT = 0"
| "gscon_st_nr ST_WAIT_CC = 1"
| "gscon_st_nr ST_ACTIVE = 2"
| "gscon_st_nr ST_ASSIGNMENT = 3"
| "gscon_st_nr ST_HANDOVER = 4"
| "gscon_st_nr ST_CLEARING = 5"

datatype assignment_fsm_state =
    ASSIGNMENT_ST_WAIT_LCHAN_ACTIVE | ASSIGNMENT_ST_WAIT_RR_ASS_COMPLETE
  | ASSIGNMENT_ST_WAIT_LCHAN_ESTABLISHED | ASSIGNMENT_ST_WAIT_MGW_ENDPOINT_TO_MSC

fun assignment_st_nr :: "assignment_fsm_state \<Rightarrow> nat" where
  "assignment_st_nr ASSIGNMENT_ST_WAIT_LCHAN_ACTIVE = 0"
| "assignment_st_nr ASSIGNMENT_ST_WAIT_RR_ASS_COMPLETE = 1"
| "assignment_st_nr ASSIGNMENT_ST_WAIT_LCHAN_ESTABLISHED = 2"
| "assignment_st_nr ASSIGNMENT_ST_WAIT_MGW_ENDPOINT_TO_MSC = 3"

type_synonym lchan_ptr = nat

text \<open>A message with its link identifier, \<^verbatim>\<open>OBSC_LINKID_CB\<close>.\<close>

record gscon_msg =
  msg_id :: nat
  msg_link :: nat

record assignment_request =
  ar_aoip :: bool
  ar_cic :: u16
  ar_rtp_addr :: string
  ar_rtp_port :: u16
  ch_mode_rates :: "channel_mode_and_rate list"

text \<open>Events with their data; the cause of a failure is the octet its pointer points to.\<close>

datatype assignment_fsm_event =
    ASSIGNMENT_EV_LCHAN_ACTIVE lchan_ptr
  | ASSIGNMENT_EV_LCHAN_ESTABLISHED lchan_ptr
  | ASSIGNMENT_EV_LCHAN_ERROR lchan_ptr
  | ASSIGNMENT_EV_MSC_MGW_OK
  | ASSIGNMENT_EV_MSC_MGW_FAIL
  | ASSIGNMENT_EV_RR_ASSIGNMENT_COMPLETE
  | ASSIGNMENT_EV_RR_ASSIGNMENT_FAIL "u8 option"
  | ASSIGNMENT_EV_CONN_RELEASING

fun assignment_ev_nr :: "assignment_fsm_event \<Rightarrow> nat" where
  "assignment_ev_nr (ASSIGNMENT_EV_LCHAN_ACTIVE l) = 0"
| "assignment_ev_nr (ASSIGNMENT_EV_LCHAN_ESTABLISHED l) = 1"
| "assignment_ev_nr (ASSIGNMENT_EV_LCHAN_ERROR l) = 2"
| "assignment_ev_nr ASSIGNMENT_EV_MSC_MGW_OK = 3"
| "assignment_ev_nr ASSIGNMENT_EV_MSC_MGW_FAIL = 4"
| "assignment_ev_nr ASSIGNMENT_EV_RR_ASSIGNMENT_COMPLETE = 5"
| "assignment_ev_nr (ASSIGNMENT_EV_RR_ASSIGNMENT_FAIL c) = 6"
| "assignment_ev_nr ASSIGNMENT_EV_CONN_RELEASING = 7"

datatype handover_result =
    HO_RESULT_OK | HO_RESULT_FAIL_NO_CHANNEL | HO_RESULT_FAIL_RR_HO_FAIL | HO_RESULT_FAIL_TIMEOUT
  | HO_RESULT_CONN_RELEASE | HO_RESULT_ERROR

datatype bssmap_msg =
    ASS_COMPLETE u8 lchan_ptr
  | ASS_FAILURE u8
  | CLEAR_RQST u8
  | CLEAR_COMPLETE
  | SAPI_N_REJECT nat
  | DTAP_TO_MSC gscon_msg
  | SCCP_MSG gscon_msg

text \<open>The event of an N-CONNECT carries the octets behind the SCCP header, \<^const>\<open>None\<close> when there are none.\<close>

datatype gscon_fsm_event =
    GSCON_EV_A_CONN_IND "u8 list option"
  | GSCON_EV_A_CONN_REQ gscon_msg
  | GSCON_EV_A_CONN_CFM
  | GSCON_EV_A_CLEAR_CMD bool
  | GSCON_EV_A_DISC_IND
  | GSCON_EV_ASSIGNMENT_START assignment_request
  | GSCON_EV_ASSIGNMENT_END
  | GSCON_EV_HANDOVER_START
  | GSCON_EV_HANDOVER_END "handover_result option"
  | GSCON_EV_RSL_CONN_FAIL "u8 option"
  | GSCON_EV_MO_DTAP gscon_msg
  | GSCON_EV_MT_DTAP gscon_msg
  | GSCON_EV_TX_SCCP bssmap_msg
  | GSCON_EV_MGW_MDCX_RESP_MSC
  | GSCON_EV_LCLS_FAIL
  | GSCON_EV_FORGET_LCHAN
  | GSCON_EV_FORGET_MGW_ENDPOINT

fun gscon_ev_nr :: "gscon_fsm_event \<Rightarrow> nat" where
  "gscon_ev_nr (GSCON_EV_A_CONN_IND m) = 0"
| "gscon_ev_nr (GSCON_EV_A_CONN_REQ m) = 1"
| "gscon_ev_nr GSCON_EV_A_CONN_CFM = 2"
| "gscon_ev_nr (GSCON_EV_A_CLEAR_CMD b) = 3"
| "gscon_ev_nr GSCON_EV_A_DISC_IND = 4"
| "gscon_ev_nr (GSCON_EV_ASSIGNMENT_START r) = 5"
| "gscon_ev_nr GSCON_EV_ASSIGNMENT_END = 6"
| "gscon_ev_nr GSCON_EV_HANDOVER_START = 7"
| "gscon_ev_nr (GSCON_EV_HANDOVER_END r) = 8"
| "gscon_ev_nr (GSCON_EV_RSL_CONN_FAIL c) = 9"
| "gscon_ev_nr (GSCON_EV_MO_DTAP m) = 10"
| "gscon_ev_nr (GSCON_EV_MT_DTAP m) = 11"
| "gscon_ev_nr (GSCON_EV_TX_SCCP m) = 12"
| "gscon_ev_nr GSCON_EV_MGW_MDCX_RESP_MSC = 13"
| "gscon_ev_nr GSCON_EV_LCLS_FAIL = 14"
| "gscon_ev_nr GSCON_EV_FORGET_LCHAN = 15"
| "gscon_ev_nr GSCON_EV_FORGET_MGW_ENDPOINT = 16"

datatype assignment_ctr =
    BSC_CTR_ASSIGNMENT_ATTEMPTED | BSC_CTR_ASSIGNMENT_COMPLETED | BSC_CTR_ASSIGNMENT_STOPPED | BSC_CTR_ASSIGNMENT_NO_CHANNEL
  | BSC_CTR_ASSIGNMENT_TIMEOUT | BSC_CTR_ASSIGNMENT_FAILED | BSC_CTR_ASSIGNMENT_ERROR

datatype mgcp_verb = MGCP_VERB_CRCX | MGCP_VERB_MDCX

text \<open>What leaves the connection: messages to the MSC with the result of sending them, requests to the BTS, to lchans and to the media gateway.\<close>

datatype gscon_effect =
    SCCP_TX bssmap_msg int
  | SCCP_CONN_RESP
  | SCCP_DISCONN
  | LCHAN_RELEASE lchan_ptr bool bool nat
  | LCHAN_ACTIVATE lchan_ptr channel_mode_and_rate bool u16 lchan_ptr
  | RTP_ESTABLISHED lchan_ptr
  | RR_ASS_CMD lchan_ptr lchan_ptr
  | CI_DLCX nat
  | CI_REQUEST nat mgcp_verb string u16
  | EP_CLEAR nat
  | RSL_DATA_REQUEST gscon_msg nat lchan_ptr
  | RLL_ESTABLISH gscon_msg nat lchan_ptr
  | CTR assignment_ctr
  | CTR_HANDOVER_ATTEMPTED
  | LCLS_APPLY_CONFIG
  | LCLS_TERM
  | A_RESET_CONN_FAIL
  | SUBSCR_PUT

text \<open>The part of an lchan that is used: \<open>cl_conn\<close> says that it points to this connection.\<close>

record conn_lchan =
  cl_type :: gsm_chan_t
  cl_tch_mode :: gsm48_chan_mode
  cl_ch_mode_rate :: channel_mode_and_rate
  cl_established :: bool
  cl_conn :: bool
  cl_for_conn :: bool
  cl_rtp :: bool
  cl_ci_bts :: "nat option"
  cl_sapi_used :: "nat list"
  cl_error_cause :: u8
  cl_is_csfb :: bool
  cl_in_error :: bool
  cl_rsl_error_cause :: u8

text \<open>The instance of the assignment machine: its state and its timer.\<close>

record assignment_inst =
  as_state :: assignment_fsm_state
  as_timer :: "nat option"

record assignment_fsm_data =
  as_req :: assignment_request
  as_requires_voice :: bool
  as_fi :: "assignment_inst option"
  as_new_lchan :: "lchan_ptr option"
  as_created_ci :: "nat option"
  as_failure_cause :: u8
  as_ctr_done :: bool

datatype asp_proto = ASP_PROT_NONE | ASP_PROT_SUA | ASP_PROT_M3UA | ASP_PROT_IPA

record gscon =
  gc_freed :: bool
  gc_state :: gscon_fsm_states
  gc_timer :: "nat option"
  gc_lchan :: "lchan_ptr option"
  gc_lchans :: "lchan_ptr \<Rightarrow> conn_lchan"
  gc_assignment :: assignment_fsm_data
  gc_ho_fi :: bool
  gc_ho_new_lchan :: "lchan_ptr option"
  gc_ho_ci :: "nat option"
  gc_ho_inter_bsc_in :: bool
  gc_dtap_queue :: "(gscon_msg \<times> nat \<times> bool) list"
  gc_dtap_queue_len :: nat
  gc_msc :: "asp_proto option"
  gc_conn_id :: int
  gc_sccp_connected :: bool
  gc_bsub :: bool
  gc_lcls_fi :: bool
  gc_cic :: u16
  gc_rtp_addr :: string
  gc_rtp_port :: u16
  gc_mgw_endpoint :: "nat option"
  gc_ci_msc :: "nat option"
  gc_out :: "gscon_effect list"

text \<open>The calls that can be made inside a handler.\<close>

datatype gscon_call =
    Conn_dispatch gscon_fsm_event
  | Assignment_dispatch assignment_fsm_event

record gscon_ctx =
  cx_engine :: "gscon fsm_engine"
  cx_call :: "gscon_call \<Rightarrow> gscon \<Rightarrow> gscon res"
  cx_sigtran_send :: "bssmap_msg \<Rightarrow> gscon \<Rightarrow> int"
  cx_reset_ready :: "gscon \<Rightarrow> bool"
  cx_pick_conn_id :: "gscon \<Rightarrow> int"
  cx_open_conn :: "gscon \<Rightarrow> int"
  cx_lchan_select :: "gsm48_chan_mode \<Rightarrow> channel_rate \<Rightarrow> gscon \<Rightarrow> lchan_ptr option"
  cx_activate_fails :: "lchan_ptr \<Rightarrow> gscon \<Rightarrow> bool"
  cx_release_fails :: "lchan_ptr \<Rightarrow> gscon \<Rightarrow> bool"
  cx_chosen_channel :: "gsm_chan_t \<Rightarrow> gsm48_chan_mode \<Rightarrow> u8"
  cx_crcx_sockaddr :: "nat option \<Rightarrow> gscon \<Rightarrow> bool"
  cx_rtp_info :: "nat option \<Rightarrow> gscon \<Rightarrow> (string \<times> u16 \<times> int) option"
  cx_rr_ass_cmd :: "gscon \<Rightarrow> int"
  cx_ep_alloc :: "gscon \<Rightarrow> nat option"
  cx_ci_add :: "nat \<Rightarrow> gscon \<Rightarrow> nat option"
  cx_rll_establish :: "lchan_ptr \<Rightarrow> nat \<Rightarrow> gscon \<Rightarrow> int"
  cx_rsl_data_request :: "gscon_msg \<Rightarrow> gscon \<Rightarrow> int"
  cx_handover_start :: "gscon \<Rightarrow> gscon res"
  cx_handover_end :: "gscon \<Rightarrow> gscon res"
  cx_handover_in :: "u8 list \<Rightarrow> gscon \<Rightarrow> gscon res"

definition gc_emit :: "gscon_effect \<Rightarrow> gscon \<Rightarrow> gscon" where
  "gc_emit o' w = w\<lparr> gc_out := gc_out w @ [o'] \<rparr>"

definition upd_cl :: "lchan_ptr \<Rightarrow> (conn_lchan \<Rightarrow> conn_lchan) \<Rightarrow> gscon \<Rightarrow> gscon" where
  "upd_cl l f w = w\<lparr> gc_lchans := (gc_lchans w)(l := f (gc_lchans w l)) \<rparr>"

definition upd_as :: "(assignment_fsm_data \<Rightarrow> assignment_fsm_data) \<Rightarrow> gscon \<Rightarrow> gscon" where
  "upd_as f w = w\<lparr> gc_assignment := f (gc_assignment w) \<rparr>"

definition CAUSE_EQUIPMENT_FAILURE :: u8 where "CAUSE_EQUIPMENT_FAILURE = 0x20"
definition CAUSE_RADIO_INTERFACE_FAILURE :: u8 where "CAUSE_RADIO_INTERFACE_FAILURE = 0x01"
definition CAUSE_NO_RADIO_RESOURCE :: u8 where "CAUSE_NO_RADIO_RESOURCE = 0x21"
definition CAUSE_CODEC_NOT_SUPP :: u8 where "CAUSE_CODEC_NOT_SUPP = 0x37"
definition RR_ERR_EQUIPMENT_FAIL :: nat where "RR_ERR_EQUIPMENT_FAIL = 0x20"
definition RR_ERR_INTERWORKING :: nat where "RR_ERR_INTERWORKING = 0x7f"
definition RR_ERR_IE_ERROR :: u8 where "RR_ERR_IE_ERROR = 0x61"
definition GC_EINVAL :: int where "GC_EINVAL = 22"
definition GC_ENODEV :: int where "GC_ENODEV = 19"

section \<open>State tables\<close>

fun gscon_in_events :: "gscon_fsm_states \<Rightarrow> nat list" where
  "gscon_in_events ST_INIT = [1, 0, 8]"
| "gscon_in_events ST_WAIT_CC = [2]"
| "gscon_in_events ST_ACTIVE = [12, 10, 11, 5, 7]"
| "gscon_in_events ST_ASSIGNMENT = [12, 10, 11, 6]"
| "gscon_in_events ST_HANDOVER = [12, 10, 11, 8]"
| "gscon_in_events ST_CLEARING = []"

fun gscon_out_states :: "gscon_fsm_states \<Rightarrow> gscon_fsm_states list" where
  "gscon_out_states ST_INIT = [ST_WAIT_CC, ST_ACTIVE, ST_CLEARING]"
| "gscon_out_states ST_WAIT_CC = [ST_ACTIVE]"
| "gscon_out_states ST_ACTIVE = [ST_CLEARING, ST_ASSIGNMENT, ST_HANDOVER]"
| "gscon_out_states ST_ASSIGNMENT = [ST_ACTIVE, ST_CLEARING]"
| "gscon_out_states ST_HANDOVER = [ST_ACTIVE, ST_CLEARING]"
| "gscon_out_states ST_CLEARING = []"

definition gscon_allstate_events :: "nat list" where
  "gscon_allstate_events = [4, 3, 9, 14, 15, 16]"

fun assignment_in_events :: "assignment_fsm_state \<Rightarrow> nat list" where
  "assignment_in_events ASSIGNMENT_ST_WAIT_LCHAN_ACTIVE = [0]"
| "assignment_in_events ASSIGNMENT_ST_WAIT_RR_ASS_COMPLETE = [5, 6, 1]"
| "assignment_in_events ASSIGNMENT_ST_WAIT_LCHAN_ESTABLISHED = [1]"
| "assignment_in_events ASSIGNMENT_ST_WAIT_MGW_ENDPOINT_TO_MSC = [3, 4]"

fun assignment_out_states :: "assignment_fsm_state \<Rightarrow> assignment_fsm_state list" where
  "assignment_out_states ASSIGNMENT_ST_WAIT_LCHAN_ACTIVE = [ASSIGNMENT_ST_WAIT_LCHAN_ACTIVE, ASSIGNMENT_ST_WAIT_RR_ASS_COMPLETE]"
| "assignment_out_states ASSIGNMENT_ST_WAIT_RR_ASS_COMPLETE = [ASSIGNMENT_ST_WAIT_LCHAN_ESTABLISHED]"
| "assignment_out_states ASSIGNMENT_ST_WAIT_LCHAN_ESTABLISHED = [ASSIGNMENT_ST_WAIT_MGW_ENDPOINT_TO_MSC]"
| "assignment_out_states ASSIGNMENT_ST_WAIT_MGW_ENDPOINT_TO_MSC = []"

definition assignment_allstate_events :: "nat list" where
  "assignment_allstate_events = [7, 2]"

text \<open>\<^verbatim>\<open>assignment_fsm_timeouts\<close>: the timer to start, \<^const>\<open>None\<close> for one that keeps the running timer.\<close>

fun assignment_fsm_timeouts :: "assignment_fsm_state \<Rightarrow> nat option" where
  "assignment_fsm_timeouts ASSIGNMENT_ST_WAIT_LCHAN_ACTIVE = Some 10"
| "assignment_fsm_timeouts ASSIGNMENT_ST_WAIT_RR_ASS_COMPLETE = None"
| "assignment_fsm_timeouts ASSIGNMENT_ST_WAIT_LCHAN_ESTABLISHED = None"
| "assignment_fsm_timeouts ASSIGNMENT_ST_WAIT_MGW_ENDPOINT_TO_MSC = Some 23042"

text \<open>\<^verbatim>\<open>conn_fsm_timeouts\<close>\<close>

fun conn_fsm_timeouts :: "gscon_fsm_states \<Rightarrow> nat option" where
  "conn_fsm_timeouts ST_WAIT_CC = Some 993210"
| "conn_fsm_timeouts ST_CLEARING = Some 999"
| "conn_fsm_timeouts _ = None"


section \<open>Messages to the MSC\<close>

definition gscon_is_aoip :: "gscon \<Rightarrow> bool" where
  "gscon_is_aoip w = (gc_msc w = Some ASP_PROT_SUA \<or> gc_msc w = Some ASP_PROT_M3UA)"

definition gscon_is_sccplite :: "gscon \<Rightarrow> bool" where
  "gscon_is_sccplite w = (gc_msc w = Some ASP_PROT_IPA)"

definition osmo_bsc_sigtran_send :: "gscon_ctx \<Rightarrow> bssmap_msg \<Rightarrow> gscon \<Rightarrow> int \<times> gscon" where
  "osmo_bsc_sigtran_send x m w =
     (let rc = (if gc_msc w = None \<or> \<not> cx_reset_ready x w then - GC_EINVAL else cx_sigtran_send x m w) in (rc, gc_emit (SCCP_TX m rc) w))"

definition gscon_sigtran_send :: "gscon_ctx \<Rightarrow> bssmap_msg \<Rightarrow> gscon \<Rightarrow> int \<times> gscon" where
  "gscon_sigtran_send x m w =
     (if gc_state w = ST_INIT \<or> gc_state w = ST_WAIT_CC then (- GC_ENODEV, w) else osmo_bsc_sigtran_send x m w)"

definition gscon_bssmap_clear :: "gscon_ctx \<Rightarrow> u8 \<Rightarrow> gscon \<Rightarrow> gscon" where
  "gscon_bssmap_clear x cause w = snd (osmo_bsc_sigtran_send x (CLEAR_RQST cause) w)"

definition gscon_fsm_active_onenter :: "gscon_ctx \<Rightarrow> gscon \<Rightarrow> gscon" where
  "gscon_fsm_active_onenter x w = (if gc_lchan w = None then gscon_bssmap_clear x CAUSE_EQUIPMENT_FAILURE w else w)"

text \<open>A transition of the connection, with the timer to start.\<close>

definition gscon_chg :: "gscon_ctx \<Rightarrow> gscon_fsm_states \<Rightarrow> nat option \<Rightarrow> gscon \<Rightarrow> gscon res" where
  "gscon_chg x st T w =
     fsm_state_chg (cx_engine x) (S_mask (map gscon_st_nr (gscon_out_states (gc_state w)))) (gscon_st_nr st)
       (\<lambda>w. let w = w\<lparr> gc_state := st, gc_timer := T \<rparr> in Ok (if st = ST_ACTIVE then gscon_fsm_active_onenter x w else w)) w"

definition conn_fsm_state_chg :: "gscon_ctx \<Rightarrow> gscon_fsm_states \<Rightarrow> gscon \<Rightarrow> gscon res" where
  "conn_fsm_state_chg x st = gscon_chg x st (conn_fsm_timeouts st)"

section \<open>Lchans and endpoints\<close>

definition cl_forget_conn :: "lchan_ptr option \<Rightarrow> gscon \<Rightarrow> gscon" where
  "cl_forget_conn l w =
     (case l of None \<Rightarrow> w | Some l \<Rightarrow> upd_cl l (\<lambda>c. c\<lparr> cl_for_conn := False, cl_ci_bts := None, cl_conn := False \<rparr>) w)"

text \<open>
  The release of an lchan, by its own machine.  It reports a failure to the assignment when the lchan was activated for
  this connection and giving its RTP stream back fails.
\<close>

definition cl_release :: "gscon_ctx \<Rightarrow> lchan_ptr \<Rightarrow> bool \<Rightarrow> bool \<Rightarrow> nat \<Rightarrow> gscon \<Rightarrow> gscon res" where
  "cl_release x l do_rr err cause_rr w =
     (let w' = gc_emit (LCHAN_RELEASE l do_rr err cause_rr) w in
      if cx_release_fails x l w \<and> cl_for_conn (gc_lchans w l) \<and> as_fi (gc_assignment w) \<noteq> None
      then cx_call x (Assignment_dispatch (ASSIGNMENT_EV_LCHAN_ERROR l)) w' else Ok w')"

definition gscon_release_lchan :: "gscon_ctx \<Rightarrow> lchan_ptr option \<Rightarrow> bool \<Rightarrow> bool \<Rightarrow> nat \<Rightarrow> gscon \<Rightarrow> gscon res" where
  "gscon_release_lchan x lo do_rr err cause_rr w =
     (case lo of
        None \<Rightarrow> Ok w
      | Some l \<Rightarrow>
          let w = (if cl_conn (gc_lchans w l) then cl_forget_conn (Some l) w else w);
              w = (if gc_lchan w = Some l then w\<lparr> gc_lchan := None \<rparr> else w);
              w = (if gc_ho_fi w \<and> gc_ho_new_lchan w = Some l then w\<lparr> gc_ho_new_lchan := None \<rparr> else w);
              w = (if as_new_lchan (gc_assignment w) = Some l then upd_as (\<lambda>a. a\<lparr> as_new_lchan := None \<rparr>) w else w)
          in cl_release x l do_rr err cause_rr w)"

definition gscon_change_primary_lchan :: "gscon_ctx \<Rightarrow> lchan_ptr option \<Rightarrow> gscon \<Rightarrow> gscon res" where
  "gscon_change_primary_lchan x new_lchan w =
     (case new_lchan of
        None \<Rightarrow> Abort
      | Some l \<Rightarrow>
          let old_lchan = gc_lchan w;
              w = upd_cl l (\<lambda>c. c\<lparr> cl_conn := True \<rparr>) (w\<lparr> gc_lchan := Some l \<rparr>);
              w = (if cl_rtp (gc_lchans w l) then gc_emit (RTP_ESTABLISHED l) w else w)
          in if old_lchan \<noteq> None \<and> old_lchan \<noteq> new_lchan then gscon_release_lchan x old_lchan False False 0 w else Ok w)"

definition gscon_forget_mgw_endpoint_ci :: "nat \<Rightarrow> gscon \<Rightarrow> gscon" where
  "gscon_forget_mgw_endpoint_ci ci w =
     (let w = (if gc_ho_ci w = Some ci then w\<lparr> gc_ho_ci := None \<rparr> else w)
      in if gc_ci_msc w = Some ci then w\<lparr> gc_ci_msc := None \<rparr> else w)"

definition cl_forget_mgw_endpoint :: "lchan_ptr option \<Rightarrow> gscon \<Rightarrow> gscon" where
  "cl_forget_mgw_endpoint l w = (case l of None \<Rightarrow> w | Some l \<Rightarrow> upd_cl l (\<lambda>c. c\<lparr> cl_ci_bts := None \<rparr>) w)"

definition gscon_forget_mgw_endpoint :: "gscon \<Rightarrow> gscon" where
  "gscon_forget_mgw_endpoint w =
     (let w = w\<lparr> gc_mgw_endpoint := None, gc_ci_msc := None, gc_ho_ci := None \<rparr>
      in cl_forget_mgw_endpoint (gc_ho_new_lchan w) (cl_forget_mgw_endpoint (as_new_lchan (gc_assignment w))
           (cl_forget_mgw_endpoint (gc_lchan w) w)))"

definition gscon_ensure_mgw_endpoint :: "gscon_ctx \<Rightarrow> gscon \<Rightarrow> nat option \<times> gscon" where
  "gscon_ensure_mgw_endpoint x w =
     (if gc_mgw_endpoint w \<noteq> None then (gc_mgw_endpoint w, w)
      else if gscon_is_sccplite w \<or> gscon_is_aoip w
      then let ep = cx_ep_alloc x w in (ep, w\<lparr> gc_mgw_endpoint := ep \<rparr>)
      else (None, w))"

definition same_mgw_info :: "(string \<times> u16 \<times> int) \<Rightarrow> (string \<times> u16 \<times> int) option \<Rightarrow> bool" where
  "same_mgw_info a b = (b = Some a)"

text \<open>The size of an address, \<^verbatim>\<open>INET_ADDRSTRLEN\<close>.  The codec needs the lchan, and with AMR its connection and the MSC.\<close>

definition INET_ADDRSTRLEN :: nat where "INET_ADDRSTRLEN = 16"

definition pick_codec_ok :: "lchan_ptr option \<Rightarrow> gscon \<Rightarrow> bool" where
  "pick_codec_ok lo w =
     (case lo of None \<Rightarrow> False
      | Some l \<Rightarrow> cl_tch_mode (gc_lchans w l) = GSM48_CMODE_SPEECH_AMR \<longrightarrow> cl_conn (gc_lchans w l) \<and> gc_msc w \<noteq> None)"

text \<open>The caller is the assignment, which is notified; the result is whether it worked.\<close>

definition gscon_connect_mgw_to_msc :: "gscon_ctx \<Rightarrow> lchan_ptr option \<Rightarrow> string \<Rightarrow> u16 \<Rightarrow> gscon \<Rightarrow> (bool \<times> gscon) res" where
  "gscon_connect_mgw_to_msc x for_lchan addr port w =
     (let w = upd_as (\<lambda>a. a\<lparr> as_created_ci := None \<rparr>) w in
      if gscon_is_sccplite w
      then rbind (cx_call x (Assignment_dispatch ASSIGNMENT_EV_MSC_MGW_OK) w) (\<lambda>w. Ok (True, w))
      else if \<not> pick_codec_ok for_lchan w then Abort
      else if addr = [] \<or> length addr \<ge> INET_ADDRSTRLEN then Ok (False, w)
      else
        let request = (\<lambda>verb w. case gc_ci_msc w of
              None \<Rightarrow> Ok (False, w)
            | Some ci \<Rightarrow> Ok (True, gc_emit (CI_REQUEST ci verb addr port) w))
        in case gc_ci_msc w of
          Some ci \<Rightarrow>
            if gc_mgw_endpoint w = None then Ok (False, w)
            else if cx_rtp_info x (Some ci) w = None then Ok (False, w)
            else if same_mgw_info (addr, port, gc_conn_id w) (cx_rtp_info x (Some ci) w) then Ok (True, w)
            else request MGCP_VERB_MDCX w
        | None \<Rightarrow>
            (case gscon_ensure_mgw_endpoint x w of
               (None, w) \<Rightarrow> Ok (False, w)
             | (Some ep, w) \<Rightarrow>
                 let ci = cx_ci_add x ep w
                 in request MGCP_VERB_CRCX (upd_as (\<lambda>a. a\<lparr> as_created_ci := ci \<rparr>) (w\<lparr> gc_ci_msc := ci \<rparr>))))"

section \<open>Assignment\<close>

definition no_request :: assignment_request where
  "no_request = \<lparr> ar_aoip = False, ar_cic = 0, ar_rtp_addr = [], ar_rtp_port = 0, ch_mode_rates = [] \<rparr>"

definition no_assignment :: assignment_fsm_data where
  "no_assignment = \<lparr> as_req = no_request, as_requires_voice = False, as_fi = None, as_new_lchan = None, as_created_ci = None,
     as_failure_cause = 0, as_ctr_done = False \<rparr>"

definition assignment_count :: "assignment_ctr \<Rightarrow> gscon \<Rightarrow> gscon" where
  "assignment_count c w = gc_emit (CTR c) w"

definition assignment_count_result :: "assignment_ctr \<Rightarrow> gscon \<Rightarrow> gscon" where
  "assignment_count_result c w =
     (if as_ctr_done (gc_assignment w) then w else upd_as (\<lambda>a. a\<lparr> as_ctr_done := True \<rparr>) (assignment_count c w))"

definition assignment_reset :: "gscon_ctx \<Rightarrow> gscon \<Rightarrow> gscon res" where
  "assignment_reset x = steps [
     \<lambda>w. case as_new_lchan (gc_assignment w) of
           None \<Rightarrow> Ok w
         | Some l \<Rightarrow> cl_release x l False True RR_ERR_EQUIPMENT_FAIL (upd_as (\<lambda>a. a\<lparr> as_new_lchan := None \<rparr>) w),
     \<lambda>w. case as_created_ci (gc_assignment w) of
           None \<Rightarrow> Ok w
         | Some ci \<Rightarrow> Ok (gc_emit (CI_DLCX ci) (gscon_forget_mgw_endpoint_ci ci w)),
     \<lambda>w. Ok (upd_as (\<lambda>a. no_assignment\<lparr> as_fi := as_fi a \<rparr>) w)]"

definition assignment_fsm_cleanup :: "gscon_ctx \<Rightarrow> gscon \<Rightarrow> gscon res" where
  "assignment_fsm_cleanup x = steps [assignment_reset x, \<lambda>w. Ok (upd_as (\<lambda>a. a\<lparr> as_fi := None \<rparr>) w)]"

definition assignment_term :: "gscon_ctx \<Rightarrow> gscon \<Rightarrow> gscon res" where
  "assignment_term x w =
     (if as_fi (gc_assignment w) = None then Abort
      else fsm_term (cx_engine x) (assignment_fsm_cleanup x) (cx_call x (Conn_dispatch GSCON_EV_ASSIGNMENT_END)) w)"

definition on_assignment_failure :: "gscon_ctx \<Rightarrow> gscon \<Rightarrow> gscon res" where
  "on_assignment_failure x w =
     (let (rc, w) = gscon_sigtran_send x (ASS_FAILURE (as_failure_cause (gc_assignment w))) w
      in if as_fi (gc_assignment w) \<noteq> None then assignment_term x w else Ok w)"

definition assignment_fail :: "gscon_ctx \<Rightarrow> u8 \<Rightarrow> gscon \<Rightarrow> gscon res" where
  "assignment_fail x cause w =
     on_assignment_failure x (assignment_count_result BSC_CTR_ASSIGNMENT_ERROR (upd_as (\<lambda>a. a\<lparr> as_failure_cause := cause \<rparr>) w))"

definition send_assignment_complete :: "gscon_ctx \<Rightarrow> gscon \<Rightarrow> gscon res" where
  "send_assignment_complete x w =
     (case gc_lchan w of
        None \<Rightarrow> Abort
      | Some l \<Rightarrow>
          let chosen_channel = cx_chosen_channel x (cl_type (gc_lchans w l)) (cl_tch_mode (gc_lchans w l)) in
          if chosen_channel = 0 then assignment_fail x CAUSE_EQUIPMENT_FAILURE w
          else if as_requires_voice (gc_assignment w) \<and> gscon_is_aoip w \<and> \<not> cx_crcx_sockaddr x (gc_ci_msc w) w
          then assignment_fail x CAUSE_EQUIPMENT_FAILURE w
          else
            let (rc, w) = gscon_sigtran_send x (ASS_COMPLETE chosen_channel l) w
            in if rc \<noteq> 0 then assignment_fail x CAUSE_EQUIPMENT_FAILURE w else Ok w)"

definition assignment_success :: "gscon_ctx \<Rightarrow> gscon \<Rightarrow> gscon res" where
  "assignment_success x = steps [
     \<lambda>w. gscon_change_primary_lchan x (as_new_lchan (gc_assignment w)) w,
     \<lambda>w. Ok (gc_emit LCLS_APPLY_CONFIG (upd_as (\<lambda>a. a\<lparr> as_new_lchan := None \<rparr>) w)),
     send_assignment_complete x,
     \<lambda>w. if as_fi (gc_assignment w) = None
         then (case gc_lchan w of None \<Rightarrow> Ok w | Some l \<Rightarrow> cl_release x l True True RR_ERR_EQUIPMENT_FAIL w)
         else rbind (assignment_term x (upd_as (\<lambda>a. a\<lparr> as_created_ci := None \<rparr>)
                (let req = as_req (gc_assignment w) in
                 w\<lparr> gc_cic := ar_cic req, gc_rtp_addr := ar_rtp_addr req, gc_rtp_port := ar_rtp_port req \<rparr>)))
              (\<lambda>w. Ok (assignment_count_result BSC_CTR_ASSIGNMENT_COMPLETED w))]"

fun lchan_type_compat_with_mode :: "gsm_chan_t \<Rightarrow> channel_mode_and_rate \<Rightarrow> bool" where
  "lchan_type_compat_with_mode type mr =
     (case chan_mode mr of
        GSM48_CMODE_SIGN \<Rightarrow>
          (case type of GSM_LCHAN_TCH_F \<Rightarrow> chan_rate mr = CH_RATE_FULL | GSM_LCHAN_TCH_H \<Rightarrow> chan_rate mr = CH_RATE_HALF
           | GSM_LCHAN_SDCCH \<Rightarrow> chan_rate mr = CH_RATE_SDCCH | _ \<Rightarrow> False)
      | GSM48_CMODE_DATA_12k0 \<Rightarrow> type = GSM_LCHAN_TCH_F
      | GSM48_CMODE_DATA_14k5 \<Rightarrow> type = GSM_LCHAN_TCH_F
      | GSM48_CMODE_SPEECH_EFR \<Rightarrow> type = GSM_LCHAN_TCH_F
      | _ \<Rightarrow> (case type of GSM_LCHAN_TCH_F \<Rightarrow> chan_rate mr = CH_RATE_FULL | GSM_LCHAN_TCH_H \<Rightarrow> chan_rate mr = CH_RATE_HALF | _ \<Rightarrow> False))"

text \<open>\<^const>\<open>None\<close> is the error -EINVAL.\<close>

fun check_requires_voice :: "gsm48_chan_mode \<Rightarrow> bool option" where
  "check_requires_voice GSM48_CMODE_SPEECH_V1 = Some True"
| "check_requires_voice GSM48_CMODE_SPEECH_EFR = Some True"
| "check_requires_voice GSM48_CMODE_SPEECH_AMR = Some True"
| "check_requires_voice GSM48_CMODE_SIGN = Some False"
| "check_requires_voice _ = None"

text \<open>The loop over the modes; \<open>pref\<close> is what the first one requires.\<close>

fun requires_voice_of :: "bool option \<Rightarrow> channel_mode_and_rate list \<Rightarrow> bool option" where
  "requires_voice_of pref [] = (case pref of None \<Rightarrow> Some False | Some b \<Rightarrow> Some b)"
| "requires_voice_of pref (m # ms) =
     (case check_requires_voice (chan_mode m) of
        None \<Rightarrow> None
      | Some v \<Rightarrow> (case pref of None \<Rightarrow> requires_voice_of (Some v) ms
                   | Some p \<Rightarrow> if v \<noteq> p then None else requires_voice_of pref ms))"

definition check_requires_voice_stream :: "gscon_ctx \<Rightarrow> gscon \<Rightarrow> (int \<times> gscon) res" where
  "check_requires_voice_stream x w =
     (case requires_voice_of None (ch_mode_rates (as_req (gc_assignment w))) of
        None \<Rightarrow> rbind (assignment_fail x CAUSE_CODEC_NOT_SUPP w) (\<lambda>w. Ok (- GC_EINVAL, w))
      | Some v \<Rightarrow> Ok (0, upd_as (\<lambda>a. a\<lparr> as_requires_voice := v \<rparr>) w))"

definition reuse_existing_lchan :: "gscon \<Rightarrow> bool \<times> gscon" where
  "reuse_existing_lchan w =
     (case gc_lchan w of
        None \<Rightarrow> (False, w)
      | Some l \<Rightarrow>
          (case find (lchan_type_compat_with_mode (cl_type (gc_lchans w l))) (ch_mode_rates (as_req (gc_assignment w))) of
             None \<Rightarrow> (False, w)
           | Some mr \<Rightarrow>
               let w = upd_cl l (\<lambda>c. c\<lparr> cl_ch_mode_rate := mr \<rparr>) w
               in (cl_tch_mode (gc_lchans w l) = chan_mode mr, w)))"

text \<open>The loop that allocates a new lchan, in order of preference.\<close>

fun select_new_lchan :: "gscon_ctx \<Rightarrow> channel_mode_and_rate list \<Rightarrow> gscon \<Rightarrow> gscon res" where
  "select_new_lchan x [] w = Ok w"
| "select_new_lchan x (m # ms) w =
     (case gc_lchan w of
        None \<Rightarrow> Abort
      | Some l \<Rightarrow>
          let new_lchan = cx_lchan_select x (chan_mode m) (chan_rate m) w;
              w = upd_cl l (\<lambda>c. c\<lparr> cl_ch_mode_rate := m \<rparr>) (upd_as (\<lambda>a. a\<lparr> as_new_lchan := new_lchan \<rparr>) w)
          in if new_lchan \<noteq> None then Ok w else select_new_lchan x ms w)"

text \<open>A transition of the assignment with what entering the state does.\<close>

definition assignment_chg :: "gscon_ctx \<Rightarrow> assignment_fsm_state \<Rightarrow> (gscon \<Rightarrow> gscon res) \<Rightarrow> gscon \<Rightarrow> gscon res" where
  "assignment_chg x st onenter w =
     (case as_fi (gc_assignment w) of
        None \<Rightarrow> Abort
      | Some fi \<Rightarrow>
          fsm_state_chg (cx_engine x) (S_mask (map assignment_st_nr (assignment_out_states (as_state fi)))) (assignment_st_nr st)
            (\<lambda>w. onenter (upd_as (\<lambda>a. a\<lparr> as_fi := Some \<lparr> as_state = st,
                   as_timer = (case assignment_fsm_timeouts st of None \<Rightarrow> as_timer fi | Some T \<Rightarrow> Some T) \<rparr> \<rparr>) w)) w)"

text \<open>The activation of an lchan, by its own machine; when it refuses it reports an error to the assignment.\<close>

definition cl_activate :: "gscon_ctx \<Rightarrow> lchan_ptr \<Rightarrow> gscon \<Rightarrow> gscon res" where
  "cl_activate x l w =
     (case gc_lchan w of
        None \<Rightarrow> Abort
      | Some old \<Rightarrow>
          let a = gc_assignment w;
              w' = gc_emit (LCHAN_ACTIVATE l (cl_ch_mode_rate (gc_lchans w old)) (as_requires_voice a) (ar_cic (as_req a)) old) w
          in if cx_activate_fails x l w then cx_call x (Assignment_dispatch (ASSIGNMENT_EV_LCHAN_ERROR l)) w'
             else Ok (upd_cl l (\<lambda>c. c\<lparr> cl_conn := True, cl_for_conn := True \<rparr>) w'))"

definition assignment_fsm_start :: "gscon_ctx \<Rightarrow> assignment_request \<Rightarrow> gscon \<Rightarrow> gscon res" where
  "assignment_fsm_start x req w =
     (if as_fi (gc_assignment w) \<noteq> None \<or> as_new_lchan (gc_assignment w) \<noteq> None then Abort
      else
        rbind (check_requires_voice_stream x
          (upd_as (\<lambda>a. a\<lparr> as_fi := Some \<lparr> as_state = ASSIGNMENT_ST_WAIT_LCHAN_ACTIVE, as_timer = None \<rparr>, as_req := req \<rparr>)
            (assignment_count BSC_CTR_ASSIGNMENT_ATTEMPTED w))) (\<lambda>(rc, w).
        if rc < 0 then Ok w
        else
          let (reuse, w) = reuse_existing_lchan w in
          if reuse
          then rbind (send_assignment_complete x w) (\<lambda>w.
            if as_fi (gc_assignment w) \<noteq> None then assignment_term x (assignment_count_result BSC_CTR_ASSIGNMENT_COMPLETED w) else Ok w)
          else
            rbind (select_new_lchan x (ch_mode_rates req) w) (\<lambda>w.
              case as_new_lchan (gc_assignment w) of
                None \<Rightarrow> assignment_fail x CAUSE_NO_RADIO_RESOURCE (assignment_count_result BSC_CTR_ASSIGNMENT_NO_CHANNEL w)
              | Some l \<Rightarrow> rbind (assignment_chg x ASSIGNMENT_ST_WAIT_LCHAN_ACTIVE Ok w) (cl_activate x l))))"

definition assignment_fsm_wait_mgw_endpoint_to_msc_onenter :: "gscon_ctx \<Rightarrow> gscon \<Rightarrow> gscon res" where
  "assignment_fsm_wait_mgw_endpoint_to_msc_onenter x w =
     (let a = gc_assignment w in
      if \<not> as_requires_voice a then Abort
      else rbind (gscon_connect_mgw_to_msc x (as_new_lchan a) (ar_rtp_addr (as_req a)) (ar_rtp_port (as_req a)) w) (\<lambda>(ok, w).
        if \<not> ok then assignment_fail x CAUSE_EQUIPMENT_FAILURE w else Ok w))"

definition assignment_fsm_post_lchan_established :: "gscon_ctx \<Rightarrow> gscon \<Rightarrow> gscon res" where
  "assignment_fsm_post_lchan_established x w =
     (if as_requires_voice (gc_assignment w)
      then assignment_chg x ASSIGNMENT_ST_WAIT_MGW_ENDPOINT_TO_MSC (assignment_fsm_wait_mgw_endpoint_to_msc_onenter x) w
      else assignment_success x w)"

definition assignment_fsm_wait_lchan_established_onenter :: "gscon_ctx \<Rightarrow> gscon \<Rightarrow> gscon res" where
  "assignment_fsm_wait_lchan_established_onenter x w =
     (case as_new_lchan (gc_assignment w) of
        None \<Rightarrow> Abort
      | Some l \<Rightarrow> if cl_established (gc_lchans w l) then assignment_fsm_post_lchan_established x w else Ok w)"

definition assignment_fsm_wait_rr_ass_complete_onenter :: "gscon_ctx \<Rightarrow> gscon \<Rightarrow> gscon res" where
  "assignment_fsm_wait_rr_ass_complete_onenter x w =
     (case (gc_lchan w, as_new_lchan (gc_assignment w)) of
        (Some old, Some new) \<Rightarrow>
          if cx_rr_ass_cmd x w \<noteq> 0 then assignment_fail x CAUSE_EQUIPMENT_FAILURE w else Ok (gc_emit (RR_ASS_CMD old new) w)
      | _ \<Rightarrow> Abort)"

definition get_cause :: "u8 option \<Rightarrow> u8" where
  "get_cause data = (case data of None \<Rightarrow> CAUSE_EQUIPMENT_FAILURE | Some c \<Rightarrow> c)"

fun assignment_fsm_wait_lchan :: "gscon_ctx \<Rightarrow> assignment_fsm_event \<Rightarrow> gscon \<Rightarrow> gscon res" where
  "assignment_fsm_wait_lchan x (ASSIGNMENT_EV_LCHAN_ACTIVE l) w =
     (if as_new_lchan (gc_assignment w) \<noteq> Some l then Ok w
      else assignment_chg x ASSIGNMENT_ST_WAIT_RR_ASS_COMPLETE (assignment_fsm_wait_rr_ass_complete_onenter x) w)"
| "assignment_fsm_wait_lchan x _ w = Abort"

fun assignment_fsm_wait_rr_ass_complete :: "gscon_ctx \<Rightarrow> assignment_fsm_event \<Rightarrow> gscon \<Rightarrow> gscon res" where
  "assignment_fsm_wait_rr_ass_complete x ASSIGNMENT_EV_RR_ASSIGNMENT_COMPLETE w =
     assignment_chg x ASSIGNMENT_ST_WAIT_LCHAN_ESTABLISHED (assignment_fsm_wait_lchan_established_onenter x) w"
| "assignment_fsm_wait_rr_ass_complete x (ASSIGNMENT_EV_LCHAN_ESTABLISHED l) w = Ok w"
| "assignment_fsm_wait_rr_ass_complete x (ASSIGNMENT_EV_RR_ASSIGNMENT_FAIL c) w =
     assignment_fail x (get_cause c) (assignment_count_result BSC_CTR_ASSIGNMENT_FAILED w)"
| "assignment_fsm_wait_rr_ass_complete x _ w = Abort"

fun assignment_fsm_wait_lchan_established :: "gscon_ctx \<Rightarrow> assignment_fsm_event \<Rightarrow> gscon \<Rightarrow> gscon res" where
  "assignment_fsm_wait_lchan_established x (ASSIGNMENT_EV_LCHAN_ESTABLISHED l) w = assignment_fsm_post_lchan_established x w"
| "assignment_fsm_wait_lchan_established x _ w = Abort"

fun assignment_fsm_wait_mgw_endpoint_to_msc :: "gscon_ctx \<Rightarrow> assignment_fsm_event \<Rightarrow> gscon \<Rightarrow> gscon res" where
  "assignment_fsm_wait_mgw_endpoint_to_msc x ASSIGNMENT_EV_MSC_MGW_OK w =
     (if gscon_is_aoip w \<and> cx_rtp_info x (gc_ci_msc w) w = None then assignment_fail x CAUSE_EQUIPMENT_FAILURE w
      else assignment_success x w)"
| "assignment_fsm_wait_mgw_endpoint_to_msc x ASSIGNMENT_EV_MSC_MGW_FAIL w = assignment_fail x CAUSE_EQUIPMENT_FAILURE w"
| "assignment_fsm_wait_mgw_endpoint_to_msc x _ w = Abort"

fun assignment_action :: "gscon_ctx \<Rightarrow> assignment_fsm_state \<Rightarrow> assignment_fsm_event \<Rightarrow> gscon \<Rightarrow> gscon res" where
  "assignment_action x ASSIGNMENT_ST_WAIT_LCHAN_ACTIVE ev w = assignment_fsm_wait_lchan x ev w"
| "assignment_action x ASSIGNMENT_ST_WAIT_RR_ASS_COMPLETE ev w = assignment_fsm_wait_rr_ass_complete x ev w"
| "assignment_action x ASSIGNMENT_ST_WAIT_LCHAN_ESTABLISHED ev w = assignment_fsm_wait_lchan_established x ev w"
| "assignment_action x ASSIGNMENT_ST_WAIT_MGW_ENDPOINT_TO_MSC ev w = assignment_fsm_wait_mgw_endpoint_to_msc x ev w"

fun assignment_fsm_allstate_action :: "gscon_ctx \<Rightarrow> assignment_fsm_event \<Rightarrow> gscon \<Rightarrow> gscon res" where
  "assignment_fsm_allstate_action x ASSIGNMENT_EV_CONN_RELEASING w =
     assignment_term x (assignment_count_result BSC_CTR_ASSIGNMENT_STOPPED w)"
| "assignment_fsm_allstate_action x (ASSIGNMENT_EV_LCHAN_ERROR l) w =
     (if as_new_lchan (gc_assignment w) \<noteq> Some l then Ok w else assignment_fail x (cl_error_cause (gc_lchans w l)) w)"
| "assignment_fsm_allstate_action x _ w = Ok w"

definition assignment_fsm_timer_cb :: "gscon_ctx \<Rightarrow> gscon \<Rightarrow> gscon res" where
  "assignment_fsm_timer_cb x w = assignment_fail x CAUSE_EQUIPMENT_FAILURE (assignment_count_result BSC_CTR_ASSIGNMENT_TIMEOUT w)"

text \<open>A dispatch to the assignment; without an instance nothing happens.\<close>

definition assignment_dispatch :: "gscon_ctx \<Rightarrow> assignment_fsm_event \<Rightarrow> gscon \<Rightarrow> gscon res" where
  "assignment_dispatch x ev w =
     (case as_fi (gc_assignment w) of
        None \<Rightarrow> Ok w
      | Some fi \<Rightarrow>
          rbind (fsm_dispatch (cx_engine x) (S_mask assignment_allstate_events) (S_mask (assignment_in_events (as_state fi)))
                  (assignment_ev_nr ev) (assignment_fsm_allstate_action x ev) (assignment_action x (as_state fi) ev) w)
            (\<lambda>(rc, w). Ok w))"

section \<open>Signalling messages to the mobile\<close>

definition bsc_sapi_n_reject :: "gscon_ctx \<Rightarrow> nat \<Rightarrow> gscon \<Rightarrow> gscon res" where
  "bsc_sapi_n_reject x dlci w =
     (if gc_msc w = None then Ok w else cx_call x (Conn_dispatch (GSCON_EV_TX_SCCP (SAPI_N_REJECT dlci))) w)"

definition dtap_failed :: "gscon_ctx \<Rightarrow> gscon \<Rightarrow> gscon res" where
  "dtap_failed x w = gscon_chg x ST_ACTIVE None (snd (gscon_sigtran_send x (CLEAR_RQST CAUSE_EQUIPMENT_FAILURE) w))"

definition gsm0808_send_rsl_dtap :: "gscon_ctx \<Rightarrow> gscon_msg \<Rightarrow> nat \<Rightarrow> bool \<Rightarrow> gscon \<Rightarrow> gscon res" where
  "gsm0808_send_rsl_dtap x msg link_id allow_sacch w =
     (case gc_lchan w of
        None \<Rightarrow> dtap_failed x w
      | Some l \<Rightarrow>
          let sapi = link_id AND 0x7;
              c = gc_lchans w l;
              link_id = (if allow_sacch \<and> sapi \<noteq> 0 \<and> (cl_type c = GSM_LCHAN_TCH_F \<or> cl_type c = GSM_LCHAN_TCH_H) then link_id OR 0x40 else link_id)
          in if sapi \<notin> set (cl_sapi_used c)
             then if cx_rll_establish x l sapi w \<noteq> 0
                  then rbind (bsc_sapi_n_reject x link_id w) (dtap_failed x)
                  else Ok (gc_emit (RLL_ESTABLISH msg link_id l) w)
             else if cx_rsl_data_request x msg w \<noteq> 0 then dtap_failed x w
             else Ok (gc_emit (RSL_DATA_REQUEST msg link_id l) w))"

definition DTAP_QUEUE_MAX :: nat where "DTAP_QUEUE_MAX = 8"

definition gscon_dtap_queue_add :: "gscon_msg \<Rightarrow> nat \<Rightarrow> bool \<Rightarrow> gscon \<Rightarrow> gscon" where
  "gscon_dtap_queue_add msg link_id allow_sacch w =
     (if gc_dtap_queue_len w \<ge> DTAP_QUEUE_MAX then w
      else w\<lparr> gc_dtap_queue_len := gc_dtap_queue_len w + 1, gc_dtap_queue := gc_dtap_queue w @ [(msg, link_id, allow_sacch)] \<rparr>)"

text \<open>The loop that empties the queue, with the number of messages in it as a bound.\<close>

fun dtap_flush_loop :: "nat \<Rightarrow> gscon_ctx \<Rightarrow> bool \<Rightarrow> gscon \<Rightarrow> gscon res" where
  "dtap_flush_loop 0 x send w = (if gc_dtap_queue w = [] then Ok w else Deep)"
| "dtap_flush_loop (Suc n) x send w =
     (case gc_dtap_queue w of
        [] \<Rightarrow> Ok w
      | (msg, link_id, allow_sacch) # ms \<Rightarrow>
          let w = w\<lparr> gc_dtap_queue := ms, gc_dtap_queue_len := gc_dtap_queue_len w - 1 \<rparr>
          in if send then rbind (gsm0808_send_rsl_dtap x msg link_id allow_sacch w) (dtap_flush_loop n x send)
             else dtap_flush_loop n x send w)"

definition gscon_dtap_queue_flush :: "gscon_ctx \<Rightarrow> bool \<Rightarrow> gscon \<Rightarrow> gscon res" where
  "gscon_dtap_queue_flush x send w = dtap_flush_loop (length (gc_dtap_queue w)) x send w"

definition gscon_submit_rsl_dtap :: "gscon_ctx \<Rightarrow> gscon_msg \<Rightarrow> nat \<Rightarrow> bool \<Rightarrow> gscon \<Rightarrow> gscon res" where
  "gscon_submit_rsl_dtap x msg link_id allow_sacch w =
     (if gc_state w \<noteq> ST_ACTIVE then Ok (gscon_dtap_queue_add msg link_id allow_sacch w)
      else gsm0808_send_rsl_dtap x msg link_id allow_sacch w)"

datatype bsc_rllr_ind = BSC_RLLR_IND_EST_CONF | BSC_RLLR_IND_REL_IND | BSC_RLLR_IND_ERR_IND | BSC_RLLR_IND_TIMEOUT

text \<open>The answer to a request for a link; the link identifier of the message is the one it was requested with.\<close>

definition rll_ind_cb :: "gscon_ctx \<Rightarrow> lchan_ptr \<Rightarrow> gscon_msg \<Rightarrow> bsc_rllr_ind \<Rightarrow> gscon \<Rightarrow> gscon res" where
  "rll_ind_cb x l msg rllr_ind w =
     (if \<not> cl_conn (gc_lchans w l) then Ok w
      else case rllr_ind of
        BSC_RLLR_IND_EST_CONF \<Rightarrow> Ok (gc_emit (RSL_DATA_REQUEST msg (msg_link msg) l) w)
      | _ \<Rightarrow> bsc_sapi_n_reject x (msg_link msg) w)"

definition submit_dtap :: "gscon_ctx \<Rightarrow> gscon_msg \<Rightarrow> gscon \<Rightarrow> gscon res" where
  "submit_dtap x msg w = gscon_submit_rsl_dtap x msg (msg_link msg) True w"

definition forward_dtap :: "gscon_ctx \<Rightarrow> gscon_msg \<Rightarrow> gscon \<Rightarrow> gscon" where
  "forward_dtap x msg w = snd (gscon_sigtran_send x (DTAP_TO_MSC msg) w)"

section \<open>The connection\<close>

definition gscon_release_lchans :: "gscon_ctx \<Rightarrow> bool \<Rightarrow> gscon \<Rightarrow> gscon res" where
  "gscon_release_lchans x do_rr = steps [
     \<lambda>w. if gc_ho_fi w then cx_handover_end x w else Ok w,
     assignment_reset x,
     \<lambda>w. gscon_release_lchan x (gc_lchan w) do_rr False 0 w]"

text \<open>The penalty timers that are freed here too are part of the decision to hand over.\<close>

definition gscon_fsm_pre_term :: "gscon_ctx \<Rightarrow> gscon \<Rightarrow> gscon res" where
  "gscon_fsm_pre_term x = steps [
     \<lambda>w. Ok (case gc_mgw_endpoint w of None \<Rightarrow> w | Some ep \<Rightarrow> gc_emit (EP_CLEAR ep) w),
     \<lambda>w. Ok (if gc_lcls_fi w then (gc_emit LCLS_TERM w)\<lparr> gc_lcls_fi := False \<rparr> else w),
     gscon_release_lchans x True,
     gscon_dtap_queue_flush x False]"

definition gscon_fsm_cleanup :: "gscon_ctx \<Rightarrow> gscon \<Rightarrow> gscon res" where
  "gscon_fsm_cleanup x w =
     (let w = cl_forget_conn (gc_ho_new_lchan w) (cl_forget_conn (as_new_lchan (gc_assignment w)) (cl_forget_conn (gc_lchan w) w)) in
      if gc_sccp_connected w \<and> gc_msc w = None then Abort
      else
        let w = (if gc_sccp_connected w then (gc_emit SCCP_DISCONN w)\<lparr> gc_sccp_connected := False \<rparr> else w);
            w = (if gc_bsub w then (gc_emit SUBSCR_PUT w)\<lparr> gc_bsub := False \<rparr> else w)
        in Ok (w\<lparr> gc_freed := True \<rparr>))"

text \<open>The termination of the machine: \<^verbatim>\<open>pre_term\<close>, its children, and \<^verbatim>\<open>cleanup\<close>, which frees the connection.\<close>

definition gscon_fsm_term :: "gscon_ctx \<Rightarrow> gscon \<Rightarrow> gscon res" where
  "gscon_fsm_term x w =
     fsm_term (cx_engine x)
       (steps [gscon_fsm_pre_term x,
               \<lambda>w. if as_fi (gc_assignment w) \<noteq> None then assignment_fsm_cleanup x w else Ok w,
               gscon_fsm_cleanup x]) Ok w"

definition gscon_update_id :: "gscon \<Rightarrow> gscon res" where
  "gscon_update_id w = (if gc_freed w then Abort else Ok w)"

text \<open>The result, and the state of the SCCP connection when it is being opened.\<close>

definition osmo_bsc_sigtran_open_conn :: "gscon_ctx \<Rightarrow> gscon \<Rightarrow> (int \<times> gscon) res" where
  "osmo_bsc_sigtran_open_conn x w =
     (if gc_msc w = None \<or> gc_conn_id w \<noteq> -1 then Abort
      else if \<not> cx_reset_ready x w then Ok (- GC_EINVAL, w)
      else
        let w = w\<lparr> gc_conn_id := cx_pick_conn_id x w \<rparr> in
        if gc_conn_id w < 0 then Ok (-1, w)
        else let rc = cx_open_conn x w in Ok (rc, if rc \<ge> 0 then w\<lparr> gc_sccp_connected := True \<rparr> else w))"

definition BSSAP_MSG_BSS_MANAGEMENT :: u8 where "BSSAP_MSG_BSS_MANAGEMENT = 0"
definition BSS_MAP_MSG_HANDOVER_RQST :: u8 where "BSS_MAP_MSG_HANDOVER_RQST = 0x10"

definition n_connect_refuse :: "gscon_ctx \<Rightarrow> gscon \<Rightarrow> gscon res" where
  "n_connect_refuse x w = gscon_fsm_term x (gc_emit SCCP_DISCONN w)"

definition handle_bssap_n_connect :: "gscon_ctx \<Rightarrow> u8 list option \<Rightarrow> gscon \<Rightarrow> gscon res" where
  "handle_bssap_n_connect x l3 w =
     (case l3 of
        None \<Rightarrow> n_connect_refuse x w
      | Some m \<Rightarrow>
          if length m < 2 then n_connect_refuse x w
          else if length m < unat (m ! 1) + 2 then n_connect_refuse x w
          else if m ! 0 \<noteq> BSSAP_MSG_BSS_MANAGEMENT then n_connect_refuse x w
          else if length m \<le> 2 then Abort
          else if m ! 2 = BSS_MAP_MSG_HANDOVER_RQST
          then cx_handover_in x m ((gc_emit SCCP_CONN_RESP w)\<lparr> gc_sccp_connected := True \<rparr>)
          else n_connect_refuse x w)"

definition gscon_clear_timer :: nat where "gscon_clear_timer = 999"

definition gscon_enter_clearing :: "gscon_ctx \<Rightarrow> gscon \<Rightarrow> gscon res" where
  "gscon_enter_clearing x w = (if gc_state w \<noteq> ST_CLEARING then gscon_chg x ST_CLEARING (Some gscon_clear_timer) w else Ok w)"

fun gscon_fsm_init :: "gscon_ctx \<Rightarrow> gscon_fsm_event \<Rightarrow> gscon \<Rightarrow> gscon res" where
  "gscon_fsm_init x (GSCON_EV_A_CONN_REQ msg) w =
     rbind (osmo_bsc_sigtran_open_conn x w) (\<lambda>(rc, w).
       rbind (if rc < 0 then gscon_fsm_term x w else conn_fsm_state_chg x ST_WAIT_CC w) gscon_update_id)"
| "gscon_fsm_init x (GSCON_EV_A_CONN_IND l3) w =
     rbind (gscon_update_id w) (\<lambda>w. if gc_msc w = None then gscon_fsm_term x w else handle_bssap_n_connect x l3 w)"
| "gscon_fsm_init x (GSCON_EV_HANDOVER_END data) w =
     (let ho_result = (case data of None \<Rightarrow> HO_RESULT_ERROR | Some r \<Rightarrow> r) in
      if ho_result = HO_RESULT_OK \<and> gc_ho_inter_bsc_in w
      then rbind (gscon_chg x ST_ACTIVE None w) (gscon_dtap_queue_flush x True)
      else gscon_enter_clearing x (gscon_bssmap_clear x CAUSE_EQUIPMENT_FAILURE w))"
| "gscon_fsm_init x _ w = Abort"

fun gscon_fsm_wait_cc :: "gscon_ctx \<Rightarrow> gscon_fsm_event \<Rightarrow> gscon \<Rightarrow> gscon res" where
  "gscon_fsm_wait_cc x GSCON_EV_A_CONN_CFM w = conn_fsm_state_chg x ST_ACTIVE w"
| "gscon_fsm_wait_cc x _ w = Abort"

text \<open>What the states with traffic have in common.\<close>

fun gscon_transparent :: "gscon_ctx \<Rightarrow> gscon_fsm_event \<Rightarrow> gscon \<Rightarrow> gscon res" where
  "gscon_transparent x (GSCON_EV_MO_DTAP m) w = Ok (forward_dtap x m w)"
| "gscon_transparent x (GSCON_EV_MT_DTAP m) w = submit_dtap x m w"
| "gscon_transparent x (GSCON_EV_TX_SCCP m) w = Ok (snd (gscon_sigtran_send x m w))"
| "gscon_transparent x _ w = Abort"

fun gscon_fsm_active :: "gscon_ctx \<Rightarrow> gscon_fsm_event \<Rightarrow> gscon \<Rightarrow> gscon res" where
  "gscon_fsm_active x (GSCON_EV_ASSIGNMENT_START req) w =
     (if gc_lchan w = None then Ok w else rbind (gscon_chg x ST_ASSIGNMENT None w) (assignment_fsm_start x req))"
| "gscon_fsm_active x GSCON_EV_HANDOVER_START w =
     rbind (gscon_chg x ST_HANDOVER None (gc_emit CTR_HANDOVER_ATTEMPTED w)) (\<lambda>w.
       if gc_state w \<noteq> ST_HANDOVER then Ok w else cx_handover_start x w)"
| "gscon_fsm_active x ev w = gscon_transparent x ev w"

fun gscon_fsm_assignment :: "gscon_ctx \<Rightarrow> gscon_fsm_event \<Rightarrow> gscon \<Rightarrow> gscon res" where
  "gscon_fsm_assignment x GSCON_EV_ASSIGNMENT_END w = rbind (gscon_chg x ST_ACTIVE None w) (gscon_dtap_queue_flush x True)"
| "gscon_fsm_assignment x ev w = gscon_transparent x ev w"

fun gscon_fsm_handover :: "gscon_ctx \<Rightarrow> gscon_fsm_event \<Rightarrow> gscon \<Rightarrow> gscon res" where
  "gscon_fsm_handover x (GSCON_EV_HANDOVER_END r) w = rbind (gscon_chg x ST_ACTIVE None w) (gscon_dtap_queue_flush x True)"
| "gscon_fsm_handover x ev w = gscon_transparent x ev w"

fun gscon_action :: "gscon_ctx \<Rightarrow> gscon_fsm_states \<Rightarrow> gscon_fsm_event \<Rightarrow> gscon \<Rightarrow> gscon res" where
  "gscon_action x ST_INIT ev w = gscon_fsm_init x ev w"
| "gscon_action x ST_WAIT_CC ev w = gscon_fsm_wait_cc x ev w"
| "gscon_action x ST_ACTIVE ev w = gscon_fsm_active x ev w"
| "gscon_action x ST_ASSIGNMENT ev w = gscon_fsm_assignment x ev w"
| "gscon_action x ST_HANDOVER ev w = gscon_fsm_handover x ev w"
| "gscon_action x ST_CLEARING ev w = Ok w"

fun gscon_fsm_allstate :: "gscon_ctx \<Rightarrow> gscon_fsm_event \<Rightarrow> gscon \<Rightarrow> gscon res" where
  "gscon_fsm_allstate x (GSCON_EV_A_CLEAR_CMD csfb) w = steps [
     \<lambda>w. Ok (case gc_lchan w of None \<Rightarrow> w | Some l \<Rightarrow> upd_cl l (\<lambda>c. c\<lparr> cl_is_csfb := csfb \<rparr>) w),
     gscon_enter_clearing x,
     gscon_release_lchans x True,
     \<lambda>w. Ok (case gc_mgw_endpoint w of None \<Rightarrow> w | Some ep \<Rightarrow> gc_emit (EP_CLEAR ep) w),
     \<lambda>w. Ok (snd (gscon_sigtran_send x CLEAR_COMPLETE w))] w"
| "gscon_fsm_allstate x GSCON_EV_A_DISC_IND w = gscon_fsm_term x w"
| "gscon_fsm_allstate x GSCON_EV_FORGET_MGW_ENDPOINT w = Ok (gscon_forget_mgw_endpoint w)"
| "gscon_fsm_allstate x (GSCON_EV_RSL_CONN_FAIL data) w =
     (let w = (case gc_lchan w of None \<Rightarrow> w
               | Some l \<Rightarrow> upd_cl l (\<lambda>c. c\<lparr> cl_in_error := True,
                   cl_rsl_error_cause := (case data of None \<Rightarrow> RR_ERR_IE_ERROR | Some e \<Rightarrow> e) \<rparr>) w)
      in Ok (gscon_bssmap_clear x CAUSE_RADIO_INTERFACE_FAILURE w))"
| "gscon_fsm_allstate x GSCON_EV_MGW_MDCX_RESP_MSC w = Ok w"
| "gscon_fsm_allstate x GSCON_EV_LCLS_FAIL w = Ok w"
| "gscon_fsm_allstate x _ w = Abort"

definition gscon_dispatch :: "gscon_ctx \<Rightarrow> gscon_fsm_event \<Rightarrow> gscon \<Rightarrow> gscon res" where
  "gscon_dispatch x ev w =
     (if gc_freed w then Abort
      else rbind (fsm_dispatch (cx_engine x) (S_mask gscon_allstate_events) (S_mask (gscon_in_events (gc_state w)))
                   (gscon_ev_nr ev) (gscon_fsm_allstate x ev) (gscon_action x (gc_state w) ev) w) (\<lambda>(rc, w). Ok w))"

definition gscon_timer_cb :: "gscon_ctx \<Rightarrow> gscon \<Rightarrow> gscon res" where
  "gscon_timer_cb x w =
     (if gc_msc w = None then Abort
      else if gc_timer w = Some 993210
      then rbind (gscon_release_lchan x (gc_lchan w) True True RR_ERR_INTERWORKING w) (\<lambda>w. gscon_fsm_term x (gc_emit A_RESET_CONN_FAIL w))
      else if gc_timer w = Some 999 then gscon_fsm_term x (gc_emit A_RESET_CONN_FAIL w)
      else Abort)"

text \<open>
  Called by the machine of an lchan of the connection; \<open>ho\<close> is what the machine of the handover does when the lchan
  is its new one.
\<close>

definition gscon_lchan_releasing :: "gscon_ctx \<Rightarrow> (gscon \<Rightarrow> gscon res) \<Rightarrow> lchan_ptr option \<Rightarrow> gscon \<Rightarrow> gscon res" where
  "gscon_lchan_releasing x ho lo w =
     (case lo of
        None \<Rightarrow> Ok w
      | Some l \<Rightarrow> steps [
          \<lambda>w. if as_new_lchan (gc_assignment w) = Some l
              then rbind (assignment_dispatch x (ASSIGNMENT_EV_LCHAN_ERROR l) w) (\<lambda>w.
                Ok (upd_as (\<lambda>a. a\<lparr> as_new_lchan := None \<rparr>) (cl_forget_conn (as_new_lchan (gc_assignment w)) w)))
              else Ok w,
          \<lambda>w. if gc_ho_new_lchan w = Some l \<and> gc_ho_fi w then ho w else Ok w,
          \<lambda>w. Ok (if gc_lchan w = Some l then (cl_forget_conn (gc_lchan w) w)\<lparr> gc_lchan := None \<rparr> else w),
          \<lambda>w. if gc_lchan w = None
              then rbind (gscon_enter_clearing x w) (\<lambda>w. Ok (gscon_bssmap_clear x CAUSE_EQUIPMENT_FAILURE w))
              else Ok w] w)"

definition gscon_forget_lchan :: "gscon_ctx \<Rightarrow> lchan_ptr option \<Rightarrow> gscon \<Rightarrow> gscon" where
  "gscon_forget_lchan x lo w =
     (case lo of
        None \<Rightarrow> w
      | Some l \<Rightarrow>
          let w = (if as_new_lchan (gc_assignment w) = Some l then upd_as (\<lambda>a. a\<lparr> as_new_lchan := None \<rparr>) w else w);
              w = (if gc_ho_new_lchan w = Some l then w\<lparr> gc_ho_new_lchan := None \<rparr> else w);
              w = (if gc_lchan w = Some l then w\<lparr> gc_lchan := None \<rparr> else w)
          in if gc_state w \<noteq> ST_CLEARING \<and> gc_lchan w = None \<and> gc_ho_new_lchan w = None \<and> as_new_lchan (gc_assignment w) = None
             then gscon_bssmap_clear x CAUSE_EQUIPMENT_FAILURE w else w)"

definition bsc_subscr_con_allocate :: "(lchan_ptr \<Rightarrow> conn_lchan) \<Rightarrow> gscon" where
  "bsc_subscr_con_allocate ls = \<lparr> gc_freed = False, gc_state = ST_INIT, gc_timer = None, gc_lchan = None, gc_lchans = ls,
     gc_assignment = no_assignment, gc_ho_fi = False, gc_ho_new_lchan = None, gc_ho_ci = None, gc_ho_inter_bsc_in = False,
     gc_dtap_queue = [], gc_dtap_queue_len = 0, gc_msc = None, gc_conn_id = -1, gc_sccp_connected = False, gc_bsub = False, gc_lcls_fi = True,
     gc_cic = 0, gc_rtp_addr = [], gc_rtp_port = 0, gc_mgw_endpoint = None, gc_ci_msc = None, gc_out = [] \<rparr>"

section \<open>Nested calls\<close>

text \<open>A call inside a handler, with \<open>n\<close> levels left.\<close>

fun gscon_nested :: "nat \<Rightarrow> gscon_ctx \<Rightarrow> gscon_call \<Rightarrow> gscon \<Rightarrow> gscon res" where
  "gscon_nested 0 x c w = Deep"
| "gscon_nested (Suc n) x c w =
     (let y = x\<lparr> cx_call := gscon_nested n x \<rparr> in
      case c of Conn_dispatch ev \<Rightarrow> gscon_dispatch y ev w | Assignment_dispatch ev \<Rightarrow> assignment_dispatch y ev w)"

definition GSCON_NEST :: nat where "GSCON_NEST = 4"

definition with_calls :: "gscon_ctx \<Rightarrow> gscon_ctx" where
  "with_calls x = x\<lparr> cx_call := gscon_nested GSCON_NEST x \<rparr>"

end
