(* ===== verification/Gscon_Props.thy ===== *)
theory Gscon_Props
  imports Gscon
begin

unbundle bit_operations_syntax

text \<open>
  What holds of a connection with its assignments: no handler fails an assertion while the connection has its
  lchans, every assignment is answered once, none waits without a timer, and where the code goes wrong.
\<close>

section \<open>Answers\<close>

text \<open>An answer to the MSC: a failure, or a completion that could be sent.\<close>

fun answer :: "gscon_effect \<Rightarrow> bool" where
  "answer (SCCP_TX (ASS_COMPLETE c l) rc) = (rc = 0)"
| "answer (SCCP_TX (ASS_FAILURE c) rc) = True"
| "answer _ = False"

definition attempts :: "gscon \<Rightarrow> nat" where
  "attempts w = length (filter (\<lambda>e. e = CTR BSC_CTR_ASSIGNMENT_ATTEMPTED) (gc_out w))"

definition answers :: "gscon \<Rightarrow> nat" where
  "answers w = length (filter answer (gc_out w))"

definition plain :: "gscon_effect \<Rightarrow> bool" where
  "plain e \<longleftrightarrow> \<not> answer e \<and> e \<noteq> CTR BSC_CTR_ASSIGNMENT_ATTEMPTED"

text \<open>The states between which only effects that are not answers lie.\<close>

definition emits :: "gscon \<Rightarrow> gscon \<Rightarrow> bool" where
  "emits w w' \<longleftrightarrow> (\<exists>es. list_all plain es \<and> w' = w\<lparr> gc_out := gc_out w @ es \<rparr>)"

lemma emits_refl [intro, simp]: "emits w w"
  by (simp add: emits_def exI[of _ "[]"])

lemma emits_trans [trans]: "emits a b \<Longrightarrow> emits b c \<Longrightarrow> emits a c"
proof -
  assume "emits a b" "emits b c"
  then obtain es fs where "list_all plain es" "b = a\<lparr> gc_out := gc_out a @ es \<rparr>" "list_all plain fs" "c = b\<lparr> gc_out := gc_out b @ fs \<rparr>"
    unfolding emits_def by blast
  then have "list_all plain (es @ fs) \<and> c = a\<lparr> gc_out := gc_out a @ es @ fs \<rparr>" by simp
  then show ?thesis unfolding emits_def by blast
qed

lemma emits_emit: "plain e \<Longrightarrow> emits w (gc_emit e w)"
  by (auto simp: emits_def gc_emit_def intro!: exI[of _ "[e]"])

lemma plain_simps [simp]:
  "plain (LCHAN_RELEASE l a b c)" "plain (CI_DLCX ci)" "plain (CI_REQUEST ci v s p)" "plain (EP_CLEAR ep)" "plain (RTP_ESTABLISHED l)"
  "plain (RR_ASS_CMD l l')" "plain (LCHAN_ACTIVATE l mr vo ci16 l2)" "plain (RSL_DATA_REQUEST g i l)" "plain (RLL_ESTABLISH g i l)"
  "plain LCLS_APPLY_CONFIG" "plain LCLS_TERM" "plain A_RESET_CONN_FAIL" "plain SUBSCR_PUT" "plain SCCP_DISCONN" "plain SCCP_CONN_RESP"
  "plain CTR_HANDOVER_ATTEMPTED" "plain (SCCP_TX (CLEAR_RQST u) rc)" "plain (SCCP_TX CLEAR_COMPLETE rc)" "plain (SCCP_TX (SAPI_N_REJECT d) rc)"
  "plain (SCCP_TX (DTAP_TO_MSC g) rc)" "plain (SCCP_TX (SCCP_MSG g) rc)" "plain (CTR k) \<longleftrightarrow> k \<noteq> BSC_CTR_ASSIGNMENT_ATTEMPTED"
  by (simp_all add: plain_def)

lemma counts_emits: "emits w w' \<Longrightarrow> attempts w' = attempts w \<and> answers w' = answers w"
  by (auto simp: emits_def attempts_def answers_def plain_def list_all_iff filter_empty_conv)

section \<open>The invariant\<close>

definition gscon_core :: "gscon \<Rightarrow> bool" where
  "gscon_core w \<longleftrightarrow> \<not> gc_freed w \<and> gc_msc w \<noteq> None \<and> gc_dtap_queue_len w = length (gc_dtap_queue w) \<and>
     length (gc_dtap_queue w) \<le> DTAP_QUEUE_MAX \<and> gc_timer w = conn_fsm_timeouts (gc_state w)"

definition gscon_inv :: "gscon \<Rightarrow> bool" where
  "gscon_inv w \<longleftrightarrow> gscon_core w \<and>
     (case as_fi (gc_assignment w) of
        None \<Rightarrow> gc_state w \<noteq> ST_ASSIGNMENT \<and> as_new_lchan (gc_assignment w) = None \<and> as_created_ci (gc_assignment w) = None \<and>
          attempts w = answers w
      | Some fi \<Rightarrow> as_timer fi \<noteq> None \<and> (gc_state w = ST_ASSIGNMENT \<or> gc_state w = ST_CLEARING) \<and>
          (\<forall>l. as_new_lchan (gc_assignment w) = Some l \<longrightarrow> cl_conn (gc_lchans w l)) \<and> attempts w = answers w + 1)"

text \<open>An assignment that goes on, one that was answered but not yet terminated, and the moment after its termination.\<close>

definition ongoing :: "gscon \<Rightarrow> bool" where
  "ongoing w \<longleftrightarrow> gscon_core w \<and> as_fi (gc_assignment w) \<noteq> None \<and> (gc_state w = ST_ASSIGNMENT \<or> gc_state w = ST_CLEARING) \<and> attempts w = answers w + 1"

definition answered :: "gscon \<Rightarrow> bool" where
  "answered w \<longleftrightarrow> gscon_core w \<and> as_fi (gc_assignment w) \<noteq> None \<and> (gc_state w = ST_ASSIGNMENT \<or> gc_state w = ST_CLEARING) \<and> attempts w = answers w"

definition ended :: "gscon \<Rightarrow> bool" where
  "ended w \<longleftrightarrow> gscon_core w \<and> as_fi (gc_assignment w) = None \<and> as_new_lchan (gc_assignment w) = None \<and> as_created_ci (gc_assignment w) = None \<and>
     (gc_state w = ST_ASSIGNMENT \<or> gc_state w = ST_CLEARING) \<and> attempts w = answers w"

definition finished :: "gscon \<Rightarrow> gscon \<Rightarrow> bool" where
  "finished w w' \<longleftrightarrow> gscon_inv w' \<and> as_fi (gc_assignment w') = None \<and> gc_lchan w' = gc_lchan w"

lemmas inv_defs = gscon_inv_def gscon_core_def ongoing_def answered_def ended_def

lemma emits_inv:
  assumes "emits w w'"
  shows "gscon_core w' = gscon_core w" "gscon_inv w' = gscon_inv w" "ongoing w' = ongoing w" "answered w' = answered w" "ended w' = ended w"
proof -
  note c = counts_emits[OF assms]
  obtain es where e: "w' = w\<lparr> gc_out := gc_out w @ es \<rparr>" using assms by (auto simp: emits_def)
  show "gscon_core w' = gscon_core w" "gscon_inv w' = gscon_inv w" "ongoing w' = ongoing w" "answered w' = answered w" "ended w' = ended w"
    using c by (cases "as_fi (gc_assignment w)"; simp add: inv_defs e)+
qed

lemma inv_ongoing: "gscon_inv w \<Longrightarrow> as_fi (gc_assignment w) \<noteq> None \<Longrightarrow> ongoing w"
  by (auto simp: inv_defs)

section \<open>Sending\<close>

lemma sigtran_send_emits:
  "\<forall>rc. plain (SCCP_TX m rc) \<Longrightarrow> emits w (snd (osmo_bsc_sigtran_send x m w))"
  "\<forall>rc. plain (SCCP_TX m rc) \<Longrightarrow> emits w (snd (gscon_sigtran_send x m w))"
  by (simp_all add: osmo_bsc_sigtran_send_def gscon_sigtran_send_def Let_def emits_emit)

lemma bssmap_clear_emits: "emits w (gscon_bssmap_clear x c w)"
  unfolding gscon_bssmap_clear_def by (rule sigtran_send_emits) simp

lemma active_onenter_emits: "emits w (gscon_fsm_active_onenter x w)"
  by (simp add: gscon_fsm_active_onenter_def bssmap_clear_emits)

lemma st_nr_less [simp]: "gscon_st_nr st < 32"
  by (cases st) simp_all

lemma ev_nr_less [simp]: "gscon_ev_nr ev < 32"
  by (cases ev) simp_all

lemma as_nr_less [simp]: "assignment_ev_nr aev < 32" "assignment_st_nr ast < 32"
proof -
  show "assignment_ev_nr aev < 32" by (cases aev) simp_all
  show "assignment_st_nr ast < 32" by (cases ast) simp_all
qed

lemma empty_queue_emits:
  assumes "gc_dtap_queue w = []" "gc_dtap_queue_len w = 0"
  shows "emits (w\<lparr> gc_dtap_queue := [], gc_dtap_queue_len := 0 \<rparr>) w"
proof -
  have e: "w\<lparr> gc_dtap_queue := [], gc_dtap_queue_len := 0 \<rparr> = w" using assms by simp
  show ?thesis unfolding e by simp
qed

lemma st_nr_inj: "gscon_st_nr a = gscon_st_nr b \<longleftrightarrow> a = b"
  by (cases a; cases b) simp_all

lemma as_st_nr_inj: "assignment_st_nr a = assignment_st_nr b \<longleftrightarrow> a = b"
  by (cases a; cases b) simp_all

lemma bit_st_mask: "bit (S_mask (map gscon_st_nr xs)) (gscon_st_nr st) \<longleftrightarrow> st \<in> set xs"
  by (auto simp: bit_S_mask st_nr_inj)

lemma bit_as_st_mask: "bit (S_mask (map assignment_st_nr xs)) (assignment_st_nr st) \<longleftrightarrow> st \<in> set xs"
  by (auto simp: bit_S_mask as_st_nr_inj)

lemma gscon_chg_eq:
  assumes "fsm_contract (cx_engine x)"
  shows "gscon_chg x st T w =
    (if st \<in> set (gscon_out_states (gc_state w))
     then Ok (if st = ST_ACTIVE then gscon_fsm_active_onenter x (w\<lparr> gc_state := st, gc_timer := T \<rparr>) else w\<lparr> gc_state := st, gc_timer := T \<rparr>)
     else Ok w)"
  using assms by (simp add: gscon_chg_def fsm_contract_state_chg bit_st_mask Let_def)

lemma drop_rc: "rbind (rbind m (\<lambda>w. Ok (k :: int, w))) (\<lambda>(rc, w). Ok w) = m"
  by (cases m) simp_all

lemma conn_dispatch_eq:
  assumes engine: "fsm_contract (cx_engine x)"
  shows "gscon_dispatch x ev w =
     (if gc_freed w then Abort
      else if gscon_ev_nr ev \<in> set gscon_allstate_events then gscon_fsm_allstate x ev w
      else if gscon_ev_nr ev \<in> set (gscon_in_events (gc_state w)) then gscon_action x (gc_state w) ev w
      else Ok w)"
  by (simp add: gscon_dispatch_def fsm_contract_dispatch[OF engine] bit_S_mask drop_rc)

lemma assignment_dispatch_eq:
  assumes engine: "fsm_contract (cx_engine x)"
  shows "assignment_dispatch x ev w =
     (case as_fi (gc_assignment w) of
        None \<Rightarrow> Ok w
      | Some fi \<Rightarrow>
          if assignment_ev_nr ev \<in> set assignment_allstate_events then assignment_fsm_allstate_action x ev w
          else if assignment_ev_nr ev \<in> set (assignment_in_events (as_state fi)) then assignment_action x (as_state fi) ev w
          else Ok w)"
  by (simp add: assignment_dispatch_def fsm_contract_dispatch[OF engine] bit_S_mask drop_rc split: option.splits)

section \<open>The interface of nested calls\<close>

text \<open>
  What a handler relies on when it calls back: an error of an lchan that is not the new one of the assignment is ignored, and a
  message to the MSC is sent.
\<close>

locale gscon_quiet =
  fixes x :: gscon_ctx
  assumes engine: "fsm_contract (cx_engine x)"
    and other_error: "as_new_lchan (gc_assignment w) \<noteq> Some l \<Longrightarrow> cx_call x (Assignment_dispatch (ASSIGNMENT_EV_LCHAN_ERROR l)) w = Ok w"
    and reject: "\<not> gc_freed w \<Longrightarrow> post (cx_call x (Conn_dispatch (GSCON_EV_TX_SCCP (SAPI_N_REJECT d))) w) (emits w)"
begin

lemma conn_chg_eq: "gscon_chg x st T w =
    (if st \<in> set (gscon_out_states (gc_state w))
     then Ok (if st = ST_ACTIVE then gscon_fsm_active_onenter x (w\<lparr> gc_state := st, gc_timer := T \<rparr>) else w\<lparr> gc_state := st, gc_timer := T \<rparr>)
     else Ok w)"
  by (rule gscon_chg_eq[OF engine])

lemma dtap_failed_emits:
  assumes "gc_state w = ST_ACTIVE"
  shows "post (dtap_failed x w) (emits w)"
proof -
  have "emits w (snd (gscon_sigtran_send x (CLEAR_RQST CAUSE_EQUIPMENT_FAILURE) w))" by (rule sigtran_send_emits) simp
  moreover then have "gc_state (snd (gscon_sigtran_send x (CLEAR_RQST CAUSE_EQUIPMENT_FAILURE) w)) = ST_ACTIVE"
    using assms by (auto simp: emits_def)
  ultimately show ?thesis by (simp add: dtap_failed_def conn_chg_eq)
qed

lemma send_dtap_emits:
  assumes "gc_state w = ST_ACTIVE" "\<not> gc_freed w"
  shows "post (gsm0808_send_rsl_dtap x m i a w) (emits w)"
proof -
  have r: "post (rbind (bsc_sapi_n_reject x j w) (dtap_failed x)) (emits w)" for j
  proof -
    have "post (bsc_sapi_n_reject x j w) (emits w)" using reject[OF assms(2)] by (simp add: bsc_sapi_n_reject_def)
    then show ?thesis
      unfolding post_rbind
      by (rule post_mono) (rule post_mono[OF dtap_failed_emits], use assms(1) in \<open>auto simp: emits_def\<close>, metis append_assoc list_all_append)
  qed
  show ?thesis
    using dtap_failed_emits[OF assms(1)] r
    by (auto simp: gsm0808_send_rsl_dtap_def Let_def emits_emit split: option.splits)
qed

lemma flush_loop:
  assumes "gc_state w = ST_ACTIVE" "\<not> gc_freed w" "gc_dtap_queue_len w = length (gc_dtap_queue w)" "length (gc_dtap_queue w) \<le> n"
  shows "post (dtap_flush_loop n x send w) (emits (w\<lparr> gc_dtap_queue := [], gc_dtap_queue_len := 0 \<rparr>))"
  using assms
proof (induction n arbitrary: w)
  case 0
  then show ?case by (simp add: empty_queue_emits)
next
  case (Suc n)
  show ?case
  proof (cases "gc_dtap_queue w")
    case Nil
    then show ?thesis using Suc(4) by (simp add: empty_queue_emits)
  next
    case (Cons q ms)
    obtain m i a where q: "q = (m, i, a)" by (cases q)
    let ?w = "w\<lparr> gc_dtap_queue := ms, gc_dtap_queue_len := gc_dtap_queue_len w - 1 \<rparr>"
    have w: "gc_state ?w = ST_ACTIVE" "\<not> gc_freed ?w" "gc_dtap_queue_len ?w = length (gc_dtap_queue ?w)" "length (gc_dtap_queue ?w) \<le> n"
      using Suc.prems Cons by simp_all
    have h: "post (dtap_flush_loop n x send w') (emits (w\<lparr> gc_dtap_queue := [], gc_dtap_queue_len := 0 \<rparr>))" if e: "emits ?w w'" for w'
    proof -
      obtain es where es: "list_all plain es" "w' = ?w\<lparr> gc_out := gc_out ?w @ es \<rparr>" using e by (auto simp: emits_def)
      have h: "post (dtap_flush_loop n x send w') (emits (w'\<lparr> gc_dtap_queue := [], gc_dtap_queue_len := 0 \<rparr>))"
        using w es by (intro Suc.IH) simp_all
      moreover have "emits (w\<lparr> gc_dtap_queue := [], gc_dtap_queue_len := 0 \<rparr>) (w'\<lparr> gc_dtap_queue := [], gc_dtap_queue_len := 0 \<rparr>)"
        using es by (auto simp: emits_def)
      ultimately show ?thesis using emits_trans by (auto elim: post_mono)
    qed
    show ?thesis
    proof (cases send)
      case True
      then show ?thesis using Cons q h post_mono[OF send_dtap_emits[OF w(1,2), of m i a]] by (simp add: Let_def post_rbind)
    next
      case False
      then show ?thesis using Cons q h[OF emits_refl] by (simp add: Let_def)
    qed
  qed
qed

lemma dtap_flush_ok:
  assumes "gc_state w = ST_ACTIVE" "gscon_core w"
  shows "post (gscon_dtap_queue_flush x send w) (emits (w\<lparr> gc_dtap_queue := [], gc_dtap_queue_len := 0 \<rparr>))"
  using assms flush_loop[of w "length (gc_dtap_queue w)" send] by (simp add: gscon_dtap_queue_flush_def gscon_core_def)

lemma end_ok:
  assumes "ended w"
  shows "post (gscon_dispatch x GSCON_EV_ASSIGNMENT_END w) (finished w)"
proof (cases "gc_state w = ST_ASSIGNMENT")
  case True
  let ?w = "w\<lparr> gc_state := ST_ACTIVE, gc_timer := None \<rparr>"
  have e: "emits ?w (gscon_fsm_active_onenter x ?w)" by (rule active_onenter_emits)
  let ?v = "gscon_fsm_active_onenter x ?w"
  have cw: "gscon_core ?w" "attempts ?w = answers ?w" using assms by (simp_all add: ended_def gscon_core_def attempts_def answers_def)
  have v: "gscon_core ?v" "gc_state ?v = ST_ACTIVE" "attempts ?v = answers ?v" "gc_assignment ?v = gc_assignment w" "gc_lchan ?v = gc_lchan w"
    using e cw emits_inv(1)[OF e] counts_emits[OF e] by (auto simp: emits_def)
  have "finished w w'" if "emits (?v\<lparr> gc_dtap_queue := [], gc_dtap_queue_len := 0 \<rparr>) w'" for w'
  proof -
    let ?u = "?v\<lparr> gc_dtap_queue := [], gc_dtap_queue_len := 0 \<rparr>"
    have "gscon_inv ?u"
      using v assms by (auto simp: gscon_inv_def ended_def gscon_core_def attempts_def answers_def)
    then have "gscon_inv w'" using emits_inv(2)[OF that] by simp
    then show ?thesis using that v assms by (auto simp: finished_def emits_def ended_def)
  qed
  then show ?thesis
    using True assms post_mono[OF dtap_flush_ok[OF v(2,1), of True]]
    by (simp add: conn_dispatch_eq[OF engine] gscon_allstate_events_def conn_chg_eq ended_def gscon_core_def)
next
  case False
  then show ?thesis
    using assms by (simp add: conn_dispatch_eq[OF engine] gscon_allstate_events_def ended_def finished_def gscon_inv_def gscon_core_def)
qed

end

section \<open>The assignment\<close>

text \<open>States that differ in the data of the assignment, in endpoints and in effects that are not answers.\<close>

definition alike :: "gscon \<Rightarrow> gscon \<Rightarrow> bool" where
  "alike w w' \<longleftrightarrow> gc_freed w' = gc_freed w \<and> gc_state w' = gc_state w \<and> gc_timer w' = gc_timer w \<and> gc_lchan w' = gc_lchan w \<and>
     gc_lchans w' = gc_lchans w \<and> gc_dtap_queue w' = gc_dtap_queue w \<and> gc_dtap_queue_len w' = gc_dtap_queue_len w \<and> gc_msc w' = gc_msc w \<and>
     attempts w' = attempts w \<and> answers w' = answers w"

lemma alike_core: "alike w w' \<Longrightarrow> gscon_core w' = gscon_core w"
  by (simp add: alike_def gscon_core_def)

lemma alike_trans [trans]: "alike a b \<Longrightarrow> alike b c \<Longrightarrow> alike a c"
  by (simp add: alike_def)

lemma alike_refl [simp]: "alike w w"
  by (simp add: alike_def)

lemma alike_emit [simp]: "plain e \<Longrightarrow> alike w (gc_emit e v) = alike w v"
  by (simp add: alike_def gc_emit_def attempts_def answers_def plain_def)

lemma alike_upd_as [simp]: "alike w (upd_as f v) = alike w v"
  by (simp add: alike_def upd_as_def attempts_def answers_def)

lemma alike_forget_ci [simp]: "alike w (gscon_forget_mgw_endpoint_ci ci v) = alike w v"
  by (simp add: alike_def gscon_forget_mgw_endpoint_ci_def Let_def attempts_def answers_def)

lemma assignment_simps [simp]:
  "gc_assignment (gc_emit e w) = gc_assignment w" "gc_assignment (upd_as f w) = f (gc_assignment w)"
  "gc_assignment (gscon_forget_mgw_endpoint_ci ci w) = gc_assignment w" "gc_lchan (gc_emit e w) = gc_lchan w" "gc_lchan (upd_as f w) = gc_lchan w"
  by (simp_all add: gc_emit_def upd_as_def gscon_forget_mgw_endpoint_ci_def Let_def)

context gscon_quiet
begin

lemma release_eq:
  "as_new_lchan (gc_assignment w) \<noteq> Some l \<or> as_fi (gc_assignment w) = None \<Longrightarrow> cl_release x l a b c w = Ok (gc_emit (LCHAN_RELEASE l a b c) w)"
  by (auto simp: cl_release_def Let_def other_error)

lemma reset_ok:
  "post (assignment_reset x w) (\<lambda>w'. alike w w' \<and> gc_assignment w' = no_assignment\<lparr> as_fi := as_fi (gc_assignment w) \<rparr>)"
proof -
  have n: "no_assignment\<lparr> as_fi := f \<rparr> = no_assignment\<lparr> as_fi := f' \<rparr> \<longleftrightarrow> f = f'" for f f' by (auto simp: no_assignment_def)
  show ?thesis
    unfolding assignment_reset_def
    by (cases "as_new_lchan (gc_assignment w)"; cases "as_created_ci (gc_assignment w)")
       (auto simp: release_eq n)
qed

text \<open>The release of an lchan: the connection forgets it first, so that nothing comes back.\<close>

lemma release_lchan_ok:
  "post (gscon_release_lchan x lo a b c w) (\<lambda>w'. gc_freed w' = gc_freed w \<and> gc_state w' = gc_state w \<and> gc_timer w' = gc_timer w \<and>
     gc_dtap_queue w' = gc_dtap_queue w \<and> gc_dtap_queue_len w' = gc_dtap_queue_len w \<and> gc_msc w' = gc_msc w \<and>
     attempts w' = attempts w \<and> answers w' = answers w \<and>
     gc_assignment w' = (gc_assignment w)\<lparr> as_new_lchan := if as_new_lchan (gc_assignment w) = lo then None else as_new_lchan (gc_assignment w) \<rparr> \<and>
     gc_lchan w' = (if gc_lchan w = lo then None else gc_lchan w) \<and> (\<forall>l. Some l \<noteq> lo \<longrightarrow> gc_lchans w' l = gc_lchans w l))"
proof (cases lo)
  case None
  then show ?thesis by (cases "as_new_lchan (gc_assignment w)") (simp_all add: gscon_release_lchan_def)
next
  case (Some l)
  have "plain (LCHAN_RELEASE l a b c)" by simp
  then show ?thesis
    using Some by (auto simp: gscon_release_lchan_def Let_def release_eq cl_forget_conn_def upd_cl_def upd_as_def gc_emit_def attempts_def answers_def plain_def)
qed

end

lemma finished_cong: "gc_lchan v = gc_lchan w \<Longrightarrow> finished v = finished w"
  by (simp add: finished_def fun_eq_iff)

text \<open>The connection takes the end of the assignment.\<close>

locale gscon_parent = gscon_quiet +
  assumes end_call: "ended w \<Longrightarrow> post (cx_call x (Conn_dispatch GSCON_EV_ASSIGNMENT_END) w) (finished w)"
begin

lemma term_ok:
  assumes "answered w"
  shows "post (assignment_term x w) (finished w)"
proof -
  have c: "post (assignment_fsm_cleanup x w) (\<lambda>w'. ended w' \<and> gc_lchan w' = gc_lchan w)"
    unfolding assignment_fsm_cleanup_def steps.simps post_rbind
    by (rule post_mono[OF reset_ok]) (use assms in \<open>auto simp: ended_def answered_def alike_def gscon_core_def no_assignment_def upd_as_def attempts_def answers_def\<close>)
  have "post (rbind (assignment_fsm_cleanup x w) (cx_call x (Conn_dispatch GSCON_EV_ASSIGNMENT_END))) (finished w)"
    unfolding post_rbind by (rule post_mono[OF c]) (auto intro: post_mono[OF end_call] simp: finished_def)
  then show ?thesis using assms by (simp add: assignment_term_def fsm_contract_term[OF engine] answered_def)
qed

lemma count_result_ongoing:
  "c \<noteq> BSC_CTR_ASSIGNMENT_ATTEMPTED \<Longrightarrow> ongoing (assignment_count_result c w) = ongoing w"
  by (simp add: assignment_count_result_def assignment_count_def ongoing_def gscon_core_def upd_as_def gc_emit_def attempts_def answers_def)

lemma count_result_simps [simp]:
  "gc_lchan (assignment_count_result c w) = gc_lchan w" "as_fi (gc_assignment (assignment_count_result c w)) = as_fi (gc_assignment w)"
  "as_new_lchan (gc_assignment (assignment_count_result c w)) = as_new_lchan (gc_assignment w)"
  "gc_state (assignment_count_result c w) = gc_state w"
  by (simp_all add: assignment_count_result_def assignment_count_def upd_as_def gc_emit_def)

lemma fail_ok:
  assumes "ongoing w"
  shows "post (assignment_fail x c w) (finished w)"
proof -
  let ?w = "assignment_count_result BSC_CTR_ASSIGNMENT_ERROR (upd_as (\<lambda>a. a\<lparr> as_failure_cause := c \<rparr>) w)"
  have o: "ongoing ?w" using assms by (simp add: count_result_ongoing) (simp add: ongoing_def gscon_core_def upd_as_def attempts_def answers_def)
  let ?m = "ASS_FAILURE (as_failure_cause (gc_assignment ?w))"
  obtain rc where s: "gscon_sigtran_send x ?m ?w = (rc, gc_emit (SCCP_TX ?m rc) ?w)"
    using o by (auto simp: gscon_sigtran_send_def osmo_bsc_sigtran_send_def ongoing_def Let_def)
  have "answered (gc_emit (SCCP_TX ?m rc) ?w)"
    using o by (auto simp: ongoing_def answered_def gscon_core_def gc_emit_def attempts_def answers_def)
  from term_ok[OF this] show ?thesis
    using o finished_cong[of "gc_emit (SCCP_TX ?m rc) ?w" w] by (simp add: assignment_fail_def on_assignment_failure_def s ongoing_def)
qed

lemma send_complete_ok:
  assumes "ongoing w" "gc_lchan w = Some l"
  shows "post (send_assignment_complete x w) (\<lambda>w'. finished w w' \<or> (\<exists>ch. w' = gc_emit (SCCP_TX (ASS_COMPLETE ch l) 0) w))"
proof -
  let ?m = "ASS_COMPLETE (cx_chosen_channel x (cl_type (gc_lchans w l)) (cl_tch_mode (gc_lchans w l))) l"
  obtain rc where s: "gscon_sigtran_send x ?m w = (rc, gc_emit (SCCP_TX ?m rc) w)"
    using assms by (auto simp: gscon_sigtran_send_def osmo_bsc_sigtran_send_def ongoing_def Let_def)
  have f: "post (assignment_fail x c w) (\<lambda>w'. finished w w' \<or> P w')" for c P using fail_ok[OF assms(1)] by (rule post_mono) simp
  have "rc \<noteq> 0 \<Longrightarrow> ongoing (gc_emit (SCCP_TX ?m rc) w)"
    using assms by (simp add: ongoing_def gscon_core_def gc_emit_def attempts_def answers_def)
  then have "rc \<noteq> 0 \<Longrightarrow> post (assignment_fail x CAUSE_EQUIPMENT_FAILURE (gc_emit (SCCP_TX ?m rc) w)) (\<lambda>w'. finished w w' \<or> P w')" for P
    using fail_ok finished_cong[of "gc_emit (SCCP_TX ?m rc) w" w] by (metis assignment_simps(4) post_mono)
  then show ?thesis using assms(2) f s by (auto simp: send_assignment_complete_def Let_def)
qed

lemma answered_complete: "ongoing w \<Longrightarrow> answered (gc_emit (SCCP_TX (ASS_COMPLETE ch l) 0) w)"
  by (simp add: ongoing_def answered_def gscon_core_def gc_emit_def attempts_def answers_def)

lemma change_primary_ok:
  assumes "ongoing w" "as_new_lchan (gc_assignment w) = Some l"
  shows "post (gscon_change_primary_lchan x (Some l) w) (\<lambda>w'. ongoing w' \<and> gc_lchan w' = Some l)"
proof -
  define v where "v = upd_cl l (\<lambda>c. c\<lparr> cl_conn := True \<rparr>) (w\<lparr> gc_lchan := Some l \<rparr>)"
  define u where "u = (if cl_rtp (gc_lchans v l) then gc_emit (RTP_ESTABLISHED l) v else v)"
  have u: "ongoing u" "gc_lchan u = Some l" "gc_assignment u = gc_assignment w"
    using assms by (simp_all add: u_def v_def ongoing_def gscon_core_def upd_cl_def gc_emit_def attempts_def answers_def)
  have d: "gscon_change_primary_lchan x (Some l) w =
      (if gc_lchan w \<noteq> None \<and> gc_lchan w \<noteq> Some l then gscon_release_lchan x (gc_lchan w) False False 0 u else Ok u)"
    unfolding gscon_change_primary_lchan_def option.case Let_def v_def[symmetric] u_def[symmetric] ..
  show ?thesis
  proof (cases "gc_lchan w \<noteq> None \<and> gc_lchan w \<noteq> Some l")
    case True
    have "post (gscon_release_lchan x (gc_lchan w) False False 0 u) (\<lambda>w'. ongoing w' \<and> gc_lchan w' = Some l)"
      by (rule post_mono[OF release_lchan_ok]) (use True u in \<open>auto simp: ongoing_def gscon_core_def\<close>)
    then show ?thesis unfolding d if_P[OF True] .
  next
    case False
    then show ?thesis unfolding d if_not_P[OF False] using u by simp
  qed
qed

lemma success_ok:
  assumes "ongoing w" "as_new_lchan (gc_assignment w) = Some l"
  shows "post (assignment_success x w) (\<lambda>w'. gscon_inv w' \<and> as_fi (gc_assignment w') = None)"
proof -
  have fin: "post (if as_fi (gc_assignment v) = None
         then (case gc_lchan v of None \<Rightarrow> Ok v | Some l \<Rightarrow> cl_release x l True True RR_ERR_EQUIPMENT_FAIL v)
         else rbind (assignment_term x (upd_as (\<lambda>a. a\<lparr> as_created_ci := None \<rparr>)
                (let req = as_req (gc_assignment v) in
                 v\<lparr> gc_cic := ar_cic req, gc_rtp_addr := ar_rtp_addr req, gc_rtp_port := ar_rtp_port req \<rparr>)))
              (\<lambda>w. Ok (assignment_count_result BSC_CTR_ASSIGNMENT_COMPLETED w))) (\<lambda>w'. gscon_inv w' \<and> as_fi (gc_assignment w') = None)"
    if "finished u v \<or> answered v" for u v
  proof (cases "as_fi (gc_assignment v)")
    case None
    then have "gscon_inv v" using that by (auto simp: finished_def answered_def)
    moreover have "gscon_inv (gc_emit (LCHAN_RELEASE k True True RR_ERR_EQUIPMENT_FAIL) v) = gscon_inv v" for k
      by (rule emits_inv) (rule emits_emit, simp)
    ultimately show ?thesis using None by (auto simp: release_eq split: option.splits)
  next
    case (Some fi)
    let ?v = "upd_as (\<lambda>a. a\<lparr> as_created_ci := None \<rparr>)
                (let req = as_req (gc_assignment v) in
                 v\<lparr> gc_cic := ar_cic req, gc_rtp_addr := ar_rtp_addr req, gc_rtp_port := ar_rtp_port req \<rparr>)"
    have "answered v" using that Some by (auto simp: finished_def)
    then have "answered ?v" by (simp add: answered_def gscon_core_def upd_as_def attempts_def answers_def Let_def)
    from term_ok[OF this] have "post (assignment_term x ?v) (\<lambda>w'. gscon_inv w' \<and> as_fi (gc_assignment w') = None)"
      by (rule post_mono) (simp add: finished_def)
    moreover have "gscon_inv (assignment_count_result BSC_CTR_ASSIGNMENT_COMPLETED w') = gscon_inv w'" if "as_fi (gc_assignment w') = None" for w'
      using that by (simp add: assignment_count_result_def assignment_count_def gscon_inv_def gscon_core_def upd_as_def gc_emit_def attempts_def answers_def)
    ultimately show ?thesis using Some by (auto simp: post_rbind elim!: post_mono)
  qed
  have "post (send_assignment_complete x v) (\<lambda>v'. finished v v' \<or> answered v')" if "ongoing v" "gc_lchan v = Some l" for v
    using send_complete_ok[OF that] by (rule post_mono) (auto intro: answered_complete[OF that(1)])
  moreover have "ongoing (gc_emit LCLS_APPLY_CONFIG (upd_as (\<lambda>a. a\<lparr> as_new_lchan := None \<rparr>) v))" if "ongoing v" for v
    using that by (simp add: ongoing_def gscon_core_def upd_as_def gc_emit_def attempts_def answers_def)
  ultimately show ?thesis
    unfolding assignment_success_def steps.simps post_rbind rbind_Ok_right
    using change_primary_ok[OF assms] fin by (simp add: assms(2)) (fastforce elim!: post_mono)
qed

lemma chg_as_eq:
  "as_fi (gc_assignment w) = Some fi \<Longrightarrow> assignment_chg x st f w =
     (if st \<in> set (assignment_out_states (as_state fi))
      then f (upd_as (\<lambda>a. a\<lparr> as_fi := Some \<lparr> as_state = st,
                as_timer = (case assignment_fsm_timeouts st of None \<Rightarrow> as_timer fi | Some T \<Rightarrow> Some T) \<rparr> \<rparr>) w)
      else Ok w)"
  by (simp add: assignment_chg_def fsm_contract_state_chg[OF engine] bit_as_st_mask)

lemma mgw_ok:
  assumes "ongoing w" "as_fi (gc_assignment w) = Some fi" "as_state fi = ASSIGNMENT_ST_WAIT_MGW_ENDPOINT_TO_MSC" "as_new_lchan (gc_assignment w) = Some l"
  shows "post (assignment_dispatch x ASSIGNMENT_EV_MSC_MGW_OK w) (\<lambda>w'. gscon_inv w' \<and> as_fi (gc_assignment w') = None)"
  using assms success_ok[OF assms(1,4)] post_mono[OF fail_ok[OF assms(1)], of "\<lambda>w'. gscon_inv w' \<and> as_fi (gc_assignment w') = None"]
  by (simp add: assignment_dispatch_eq[OF engine] assignment_allstate_events_def finished_def)

lemma error_ok:
  assumes "ongoing w" "as_new_lchan (gc_assignment w) = Some l"
  shows "post (assignment_dispatch x (ASSIGNMENT_EV_LCHAN_ERROR l) w) (finished w)"
  using assms fail_ok[OF assms(1)] by (auto simp: assignment_dispatch_eq[OF engine] assignment_allstate_events_def ongoing_def)

lemma timer_ok:
  assumes "ongoing w"
  shows "post (assignment_fsm_timer_cb x w) (finished w)"
proof -
  have "ongoing (assignment_count_result BSC_CTR_ASSIGNMENT_TIMEOUT w)" using assms by (simp add: count_result_ongoing)
  from fail_ok[OF this, of CAUSE_EQUIPMENT_FAILURE] show ?thesis
    using finished_cong[of "assignment_count_result BSC_CTR_ASSIGNMENT_TIMEOUT w" w] by (simp add: assignment_fsm_timer_cb_def)
qed

end

text \<open>An assignment that goes on has its two lchans.\<close>

definition has_lchans :: "gscon \<Rightarrow> bool" where
  "has_lchans w \<longleftrightarrow> (as_fi (gc_assignment w) \<noteq> None \<longrightarrow> gc_lchan w \<noteq> None \<and> as_new_lchan (gc_assignment w) \<noteq> None)"

text \<open>The assignment takes the answer of the media gateway and the error of its new lchan inside its own handlers.\<close>

locale gscon_whole = gscon_parent +
  assumes mgw_ok_call: "ongoing w \<Longrightarrow> as_fi (gc_assignment w) = Some fi \<Longrightarrow> as_state fi = ASSIGNMENT_ST_WAIT_MGW_ENDPOINT_TO_MSC \<Longrightarrow>
      as_new_lchan (gc_assignment w) = Some l \<Longrightarrow>
      post (cx_call x (Assignment_dispatch ASSIGNMENT_EV_MSC_MGW_OK) w) (\<lambda>w'. gscon_inv w' \<and> as_fi (gc_assignment w') = None)"
    and error_call: "ongoing w \<Longrightarrow> as_new_lchan (gc_assignment w) = Some l \<Longrightarrow>
      post (cx_call x (Assignment_dispatch (ASSIGNMENT_EV_LCHAN_ERROR l)) w) (finished w)"
begin

lemma connect_ok:
  assumes "gscon_inv w" "as_fi (gc_assignment w) = Some fi" "as_state fi = ASSIGNMENT_ST_WAIT_MGW_ENDPOINT_TO_MSC" "as_new_lchan (gc_assignment w) = Some l"
  shows "post (gscon_connect_mgw_to_msc x (Some l) addr port w) (\<lambda>(ok, w'). if ok then gscon_inv w' else ongoing w')"
proof -
  define v where "v = upd_as (\<lambda>a. a\<lparr> as_created_ci := None \<rparr>) w"
  have v: "gscon_inv v" "ongoing v" "gc_assignment v = (gc_assignment w)\<lparr> as_created_ci := None \<rparr>"
    using assms by (auto simp: v_def gscon_inv_def ongoing_def gscon_core_def upd_as_def attempts_def answers_def)
  have p: "pick_codec_ok (Some l) v" using v assms by (auto simp: pick_codec_ok_def gscon_inv_def gscon_core_def)
  have r: "gscon_inv (gc_emit (CI_REQUEST ci verb addr port) u)" if "gscon_inv u" for ci verb u
    using emits_inv(2)[OF emits_emit, of "CI_REQUEST ci verb addr port" u] that by simp
  have e: "gscon_inv (upd_as (\<lambda>a. a\<lparr> as_created_ci := c \<rparr>) (v\<lparr> gc_mgw_endpoint := ep, gc_ci_msc := c' \<rparr>))"
    "ongoing (upd_as (\<lambda>a. a\<lparr> as_created_ci := c \<rparr>) (v\<lparr> gc_mgw_endpoint := ep, gc_ci_msc := c' \<rparr>))" "ongoing (v\<lparr> gc_mgw_endpoint := ep \<rparr>)"
    "gscon_inv (upd_as (\<lambda>a. a\<lparr> as_created_ci := c \<rparr>) (v\<lparr> gc_ci_msc := c' \<rparr>))" "ongoing (upd_as (\<lambda>a. a\<lparr> as_created_ci := c \<rparr>) (v\<lparr> gc_ci_msc := c' \<rparr>))" for c ep c'
    using v assms by (auto simp: gscon_inv_def ongoing_def gscon_core_def upd_as_def attempts_def answers_def)
  have g: "gc_ci_msc (upd_as f w) = gc_ci_msc w" for f w by (simp add: upd_as_def)
  show ?thesis
  proof (cases "gscon_is_sccplite v")
    case True
    have "as_fi (gc_assignment v) = Some fi" "as_new_lchan (gc_assignment v) = Some l" using v(3) assms by simp_all
    from post_mono[OF mgw_ok_call[OF v(2) this(1) assms(3) this(2)], of gscon_inv]
    show ?thesis using True by (simp add: gscon_connect_mgw_to_msc_def v_def Let_def post_rbind)
  next
    case False
    show ?thesis
    proof (cases "gc_ci_msc v")
      case None
      then show ?thesis using False p v(2) r e unfolding gscon_connect_mgw_to_msc_def v_def[symmetric] Let_def
        by (cases "cx_ci_add x (the (fst (gscon_ensure_mgw_endpoint x v))) (snd (gscon_ensure_mgw_endpoint x v))")
           (auto simp: gscon_ensure_mgw_endpoint_def Let_def g split: option.splits)
    next
      case (Some ci)
      then show ?thesis using False p v(1,2) r by (simp add: gscon_connect_mgw_to_msc_def v_def[symmetric] Let_def)
    qed
  qed
qed

lemma mgw_onenter_ok:
  assumes "gscon_inv w" "as_fi (gc_assignment w) = Some fi" "as_state fi = ASSIGNMENT_ST_WAIT_MGW_ENDPOINT_TO_MSC" "as_new_lchan (gc_assignment w) = Some l"
    "as_requires_voice (gc_assignment w)"
  shows "post (assignment_fsm_wait_mgw_endpoint_to_msc_onenter x w) gscon_inv"
proof -
  have "post (if \<not> ok then assignment_fail x CAUSE_EQUIPMENT_FAILURE v else Ok v) gscon_inv" if "if ok then gscon_inv v else ongoing v" for ok v
    using that post_mono[OF fail_ok, of v gscon_inv] by (auto simp: finished_def)
  then show ?thesis
    using assms(4,5) post_mono[OF connect_ok[OF assms(1-4)]]
    by (auto simp: assignment_fsm_wait_mgw_endpoint_to_msc_onenter_def post_rbind Let_def split_beta)
qed

text \<open>A transition keeps the invariant, whatever timer the new state has.\<close>

lemma inv_upd_fi:
  assumes "gscon_inv w" "as_fi (gc_assignment w) = Some fi" "T \<noteq> None"
  shows "gscon_inv (upd_as (\<lambda>a. a\<lparr> as_fi := Some \<lparr> as_state = st, as_timer = T \<rparr> \<rparr>) w)"
  using assms by (simp add: gscon_inv_def gscon_core_def upd_as_def attempts_def answers_def)

lemma chg_as_ok:
  assumes "gscon_inv w" "as_fi (gc_assignment w) = Some fi"
    and "\<And>w'. gscon_inv w' \<Longrightarrow> \<exists>T. gc_assignment w' = (gc_assignment w)\<lparr> as_fi := Some \<lparr> as_state = st, as_timer = T \<rparr> \<rparr> \<Longrightarrow>
        gc_lchan w' = gc_lchan w \<Longrightarrow> post (f w') gscon_inv"
  shows "post (assignment_chg x st f w) gscon_inv"
proof -
  obtain t where t: "as_timer fi = Some t" using assms(1,2) by (auto simp: gscon_inv_def)
  show ?thesis
    unfolding chg_as_eq[OF assms(2)]
    by (auto intro!: assms(3) inv_upd_fi[OF assms(1,2)] assms(1) simp: t split: option.splits)
qed

lemma post_established_ok:
  assumes "gscon_inv w" "as_fi (gc_assignment w) = Some fi" "as_new_lchan (gc_assignment w) = Some l"
  shows "post (assignment_fsm_post_lchan_established x w) gscon_inv"
proof (cases "as_requires_voice (gc_assignment w)")
  case True
  show ?thesis
    using True assms by (auto simp: assignment_fsm_post_lchan_established_def intro!: chg_as_ok[OF assms(1,2)] mgw_onenter_ok)
next
  case False
  then show ?thesis
    using assms inv_ongoing[of w] post_mono[OF success_ok, of w l gscon_inv]
    by (simp add: assignment_fsm_post_lchan_established_def)
qed

lemma est_onenter_ok:
  assumes "gscon_inv w" "as_fi (gc_assignment w) = Some fi" "as_new_lchan (gc_assignment w) = Some l"
  shows "post (assignment_fsm_wait_lchan_established_onenter x w) gscon_inv"
  using post_established_ok[OF assms] assms by (simp add: assignment_fsm_wait_lchan_established_onenter_def)

lemma fail_inv: "ongoing w \<Longrightarrow> post (assignment_fail x c w) gscon_inv"
  by (rule post_mono[OF fail_ok]) (simp_all add: finished_def)

lemma rr_onenter_ok:
  assumes "gscon_inv w" "as_fi (gc_assignment w) = Some fi" "as_new_lchan (gc_assignment w) = Some l" "gc_lchan w = Some p"
  shows "post (assignment_fsm_wait_rr_ass_complete_onenter x w) gscon_inv"
  using assms fail_inv inv_ongoing[of w] emits_inv(2)[OF emits_emit, of "RR_ASS_CMD p l" w]
  by (simp add: assignment_fsm_wait_rr_ass_complete_onenter_def)

lemma assignment_event_ok:
  assumes "gscon_inv w" "has_lchans w" "ev \<noteq> ASSIGNMENT_EV_CONN_RELEASING"
  shows "post (assignment_dispatch x ev w) gscon_inv"
proof (cases "as_fi (gc_assignment w)")
  case None
  then show ?thesis using assms by (simp add: assignment_dispatch_def)
next
  case (Some fi)
  note o = inv_ongoing[OF assms(1)]
  obtain p l where l: "gc_lchan w = Some p" "as_new_lchan (gc_assignment w) = Some l" using assms(2) Some by (auto simp: has_lchans_def)
  have c: "ongoing (assignment_count_result BSC_CTR_ASSIGNMENT_FAILED w)" using o Some by (simp add: count_result_ongoing)
  have s: "post (assignment_success x w) gscon_inv" using success_ok[OF o l(2)] Some by (auto elim: post_mono)
  have a: "post (assignment_action x (as_state fi) ev w) gscon_inv"
    if "assignment_ev_nr ev \<in> set (assignment_in_events (as_state fi))"
  proof (cases "as_state fi")
    case ASSIGNMENT_ST_WAIT_LCHAN_ACTIVE
    then show ?thesis using that assms(1) l Some by (cases ev) (auto intro!: chg_as_ok[OF assms(1) Some] rr_onenter_ok)
  next
    case ASSIGNMENT_ST_WAIT_RR_ASS_COMPLETE
    then show ?thesis using that assms(1) l Some c by (cases ev) (auto intro!: chg_as_ok[OF assms(1) Some] est_onenter_ok fail_inv)
  next
    case ASSIGNMENT_ST_WAIT_LCHAN_ESTABLISHED
    then show ?thesis using that l Some by (cases ev) (auto intro!: post_established_ok[OF assms(1)])
  next
    case ASSIGNMENT_ST_WAIT_MGW_ENDPOINT_TO_MSC
    then show ?thesis using that s o Some by (cases ev) (auto intro!: fail_inv)
  qed
  have "post (assignment_fsm_allstate_action x ev w) gscon_inv"
    using assms(1,3) o Some by (cases ev) (auto intro!: fail_inv)
  then show ?thesis using a assms(1) Some by (simp add: assignment_dispatch_eq[OF engine])
qed

text \<open>The start of an assignment, in the state ASSIGNMENT.\<close>

lemma select_ok:
  assumes "ongoing w" "gc_lchan w = Some p"
  shows "post (select_new_lchan x ms w) (\<lambda>w'. ongoing w' \<and> gc_lchan w' = Some p \<and> as_fi (gc_assignment w') = as_fi (gc_assignment w))"
  using assms
proof (induction ms arbitrary: w)
  case (Cons m ms)
  define v where "v = upd_cl p (\<lambda>c. c\<lparr> cl_ch_mode_rate := m \<rparr>) (upd_as (\<lambda>a. a\<lparr> as_new_lchan := cx_lchan_select x (chan_mode m) (chan_rate m) w \<rparr>) w)"
  have v: "ongoing v" "gc_lchan v = Some p" "as_fi (gc_assignment v) = as_fi (gc_assignment w)"
    using Cons.prems by (simp_all add: v_def upd_cl_def upd_as_def ongoing_def gscon_core_def attempts_def answers_def)
  have "select_new_lchan x (m # ms) w = (if cx_lchan_select x (chan_mode m) (chan_rate m) w \<noteq> None then Ok v else select_new_lchan x ms v)"
    unfolding select_new_lchan.simps Cons.prems(2) option.case Let_def v_def ..
  then show ?case using Cons.IH[OF v(1,2)] v by simp
qed simp

lemma activate_ok:
  assumes "ongoing w" "gc_lchan w = Some p" "as_new_lchan (gc_assignment w) = Some l" "as_fi (gc_assignment w) = Some fi" "as_timer fi \<noteq> None"
  shows "post (cl_activate x l w) gscon_inv"
proof -
  define v where "v = gc_emit (LCHAN_ACTIVATE l (cl_ch_mode_rate (gc_lchans w p)) (as_requires_voice (gc_assignment w)) (ar_cic (as_req (gc_assignment w))) p) w"
  have v: "ongoing v" "gc_assignment v = gc_assignment w"
    using assms emits_inv(3)[OF emits_emit, of "LCHAN_ACTIVATE l (cl_ch_mode_rate (gc_lchans w p)) (as_requires_voice (gc_assignment w)) (ar_cic (as_req (gc_assignment w))) p" w]
    by (simp_all add: v_def)
  have "gscon_inv (upd_cl l (\<lambda>c. c\<lparr> cl_conn := True, cl_for_conn := True \<rparr>) v)"
    using v assms by (simp add: gscon_inv_def ongoing_def gscon_core_def upd_cl_def attempts_def answers_def)
  moreover have "post (cx_call x (Assignment_dispatch (ASSIGNMENT_EV_LCHAN_ERROR l)) v) gscon_inv"
    using v assms(3) by (auto intro: post_mono[OF error_call] simp: finished_def)
  ultimately show ?thesis using assms(2) by (simp add: cl_activate_def Let_def v_def[symmetric])
qed

lemma start_ok:
  assumes "ended w" "gc_lchan w = Some p"
  shows "post (assignment_fsm_start x req w) gscon_inv"
proof -
  let ?fi = "\<lparr> as_state = ASSIGNMENT_ST_WAIT_LCHAN_ACTIVE, as_timer = None \<rparr>"
  define w1 where "w1 = upd_as (\<lambda>a. a\<lparr> as_fi := Some ?fi, as_req := req \<rparr>) (assignment_count BSC_CTR_ASSIGNMENT_ATTEMPTED w)"
  have w1: "ongoing w1" "gc_lchan w1 = Some p" "as_fi (gc_assignment w1) = Some ?fi"
    using assms by (simp_all add: w1_def assignment_count_def ongoing_def ended_def gscon_core_def upd_as_def gc_emit_def attempts_def answers_def)
  have select: "post (case as_new_lchan (gc_assignment v) of
        None \<Rightarrow> assignment_fail x CAUSE_NO_RADIO_RESOURCE (assignment_count_result BSC_CTR_ASSIGNMENT_NO_CHANNEL v)
      | Some l \<Rightarrow> rbind (assignment_chg x ASSIGNMENT_ST_WAIT_LCHAN_ACTIVE Ok v) (cl_activate x l)) gscon_inv"
    if "ongoing v" "gc_lchan v = Some p" "as_fi (gc_assignment v) = Some ?fi" for v
  proof (cases "as_new_lchan (gc_assignment v)")
    case None
    then show ?thesis using that by (simp add: fail_inv count_result_ongoing)
  next
    case (Some l)
    let ?v = "upd_as (\<lambda>a. a\<lparr> as_fi := Some \<lparr> as_state = ASSIGNMENT_ST_WAIT_LCHAN_ACTIVE, as_timer = Some 10 \<rparr> \<rparr>) v"
    have "ongoing ?v" using that by (simp add: ongoing_def gscon_core_def upd_as_def attempts_def answers_def)
    then show ?thesis using that Some by (simp add: chg_as_eq activate_ok)
  qed
  have complete: "post (rbind (send_assignment_complete x v) (\<lambda>w.
            if as_fi (gc_assignment w) \<noteq> None then assignment_term x (assignment_count_result BSC_CTR_ASSIGNMENT_COMPLETED w) else Ok w)) gscon_inv"
    if "ongoing v" "gc_lchan v = Some p" for v
  proof -
    have "post (if as_fi (gc_assignment u) \<noteq> None then assignment_term x (assignment_count_result BSC_CTR_ASSIGNMENT_COMPLETED u) else Ok u) gscon_inv"
      if "finished v u \<or> answered u" for u
    proof (cases "as_fi (gc_assignment u)")
      case None
      then show ?thesis using that by (auto simp: finished_def answered_def)
    next
      case (Some fi)
      then have "answered (assignment_count_result BSC_CTR_ASSIGNMENT_COMPLETED u)"
        using that by (auto simp: finished_def answered_def gscon_core_def assignment_count_result_def assignment_count_def upd_as_def gc_emit_def attempts_def answers_def)
      from post_mono[OF term_ok[OF this], of gscon_inv] show ?thesis using Some by (simp add: finished_def)
    qed
    then show ?thesis
      unfolding post_rbind by (rule post_mono[OF send_complete_ok[OF that]]) (use answered_complete[OF that(1)] in blast)
  qed
  have reuse: "\<exists>b v. reuse_existing_lchan u = (b, v) \<and> ongoing v \<and> gc_lchan v = Some p \<and> as_fi (gc_assignment v) = Some ?fi"
    if "ongoing u" "gc_lchan u = Some p" "as_fi (gc_assignment u) = Some ?fi" for u
    using that by (auto simp: reuse_existing_lchan_def Let_def ongoing_def gscon_core_def upd_cl_def attempts_def answers_def split: option.splits)
  have rest: "post (let (reuse, w) = reuse_existing_lchan u in
          if reuse
          then rbind (send_assignment_complete x w) (\<lambda>w.
            if as_fi (gc_assignment w) \<noteq> None then assignment_term x (assignment_count_result BSC_CTR_ASSIGNMENT_COMPLETED w) else Ok w)
          else
            rbind (select_new_lchan x (ch_mode_rates req) w) (\<lambda>w.
              case as_new_lchan (gc_assignment w) of
                None \<Rightarrow> assignment_fail x CAUSE_NO_RADIO_RESOURCE (assignment_count_result BSC_CTR_ASSIGNMENT_NO_CHANNEL w)
              | Some l \<Rightarrow> rbind (assignment_chg x ASSIGNMENT_ST_WAIT_LCHAN_ACTIVE Ok w) (cl_activate x l))) gscon_inv"
    if u: "ongoing u" "gc_lchan u = Some p" "as_fi (gc_assignment u) = Some ?fi" for u
  proof -
    obtain b v where v: "reuse_existing_lchan u = (b, v)" "ongoing v" "gc_lchan v = Some p" "as_fi (gc_assignment v) = Some ?fi" using reuse[OF u] by blast
    have "post (rbind (select_new_lchan x (ch_mode_rates req) v) (\<lambda>w.
              case as_new_lchan (gc_assignment w) of
                None \<Rightarrow> assignment_fail x CAUSE_NO_RADIO_RESOURCE (assignment_count_result BSC_CTR_ASSIGNMENT_NO_CHANNEL w)
              | Some l \<Rightarrow> rbind (assignment_chg x ASSIGNMENT_ST_WAIT_LCHAN_ACTIVE Ok w) (cl_activate x l))) gscon_inv"
      unfolding post_rbind by (rule post_mono[OF select_ok[OF v(2,3)]]) (use select v(4) in simp)
    then show ?thesis using v complete by simp
  qed
  have "post (check_requires_voice_stream x w1) (\<lambda>(rc, u). (rc < 0 \<longrightarrow> gscon_inv u) \<and> (\<not> rc < 0 \<longrightarrow> ongoing u \<and> gc_lchan u = Some p \<and> as_fi (gc_assignment u) = Some ?fi))"
    using w1 fail_inv[OF w1(1), of CAUSE_CODEC_NOT_SUPP]
    by (auto simp: check_requires_voice_stream_def GC_EINVAL_def post_rbind ongoing_def gscon_core_def upd_as_def attempts_def answers_def split: option.splits)
  then show ?thesis
    using assms(1) rest unfolding assignment_fsm_start_def w1_def[symmetric]
    by (auto simp: ended_def post_rbind elim!: post_mono)
qed

end

section \<open>The levels of calls\<close>

lemma nested_quiet:
  assumes "fsm_contract (cx_engine x)"
  shows "gscon_quiet (x\<lparr> cx_call := gscon_nested (Suc n) x \<rparr>)"
proof
  let ?y = "x\<lparr> cx_call := gscon_nested n x \<rparr>"
  have e: "fsm_contract (cx_engine ?y)" using assms by simp
  show "fsm_contract (cx_engine (x\<lparr> cx_call := gscon_nested (Suc n) x \<rparr>))" using assms by simp
  show "cx_call (x\<lparr> cx_call := gscon_nested (Suc n) x \<rparr>) (Assignment_dispatch (ASSIGNMENT_EV_LCHAN_ERROR l)) w = Ok w"
    if "as_new_lchan (gc_assignment w) \<noteq> Some l" for w l
    using that by (simp add: assignment_dispatch_eq[OF e] assignment_allstate_events_def split: option.splits)
  show "post (cx_call (x\<lparr> cx_call := gscon_nested (Suc n) x \<rparr>) (Conn_dispatch (GSCON_EV_TX_SCCP (SAPI_N_REJECT d))) w) (emits w)"
    if "\<not> gc_freed w" for w d
    using that by (cases "gc_state w") (simp_all add: conn_dispatch_eq[OF e] gscon_allstate_events_def sigtran_send_emits)
qed

lemma nested_parent:
  assumes "fsm_contract (cx_engine x)"
  shows "gscon_parent (x\<lparr> cx_call := gscon_nested (Suc (Suc n)) x \<rparr>)"
  using nested_quiet[OF assms, of "Suc n"] gscon_quiet.end_ok[OF nested_quiet[OF assms, of n]]
  by (simp add: gscon_parent_def gscon_parent_axioms_def Let_def)

lemma nested_whole:
  assumes "fsm_contract (cx_engine x)"
  shows "gscon_whole (x\<lparr> cx_call := gscon_nested (Suc (Suc (Suc n))) x \<rparr>)"
  using nested_parent[OF assms, of "Suc n"] gscon_parent.mgw_ok[OF nested_parent[OF assms, of n]] gscon_parent.error_ok[OF nested_parent[OF assms, of n]]
  by (simp add: gscon_whole_def gscon_whole_axioms_def Let_def)

lemma with_calls_whole: "fsm_contract (cx_engine x) \<Longrightarrow> gscon_whole (with_calls x)"
  using nested_whole[of x 1] by (simp add: with_calls_def GSCON_NEST_def numeral_eq_Suc)

end
