(* ===== verification/Gscon_Run.thy ===== *)
theory Gscon_Run
  imports Gscon_Props
begin

unbundle bit_operations_syntax

text \<open>
  Runs of a connection: the inputs it gets, that it never fails on an input a caller may give it, and the properties of the
  states it reaches.
\<close>

section \<open>The connection\<close>

text \<open>
  What the machine of a handover does to the connection: it may end itself, by which the connection gets active or clears; it
  leaves the assignment alone.
\<close>

definition ho_frame :: "gscon \<Rightarrow> gscon \<Rightarrow> bool" where
  "ho_frame w w' \<longleftrightarrow> gc_freed w' = gc_freed w \<and> gc_msc w' = gc_msc w \<and> gc_assignment w' = gc_assignment w \<and>
     attempts w' = attempts w \<and> answers w' = answers w \<and>
     (\<forall>l. as_new_lchan (gc_assignment w) = Some l \<longrightarrow> cl_conn (gc_lchans w' l) = cl_conn (gc_lchans w l)) \<and>
     ((gc_dtap_queue w', gc_dtap_queue_len w') = (gc_dtap_queue w, gc_dtap_queue_len w) \<or> (gc_dtap_queue w', gc_dtap_queue_len w') = ([], 0)) \<and>
     ((gc_state w', gc_timer w') = (gc_state w, gc_timer w) \<or>
      (gc_state w = ST_INIT \<or> gc_state w = ST_HANDOVER) \<and> (gc_state w' = ST_ACTIVE \<or> gc_state w' = ST_CLEARING) \<and>
        gc_timer w' = conn_fsm_timeouts (gc_state w'))"

definition ho_contract :: "gscon_ctx \<Rightarrow> (gscon \<Rightarrow> gscon res) \<Rightarrow> bool" where
  "ho_contract x ho \<longleftrightarrow>
     (\<forall>w. post (cx_handover_start x w) (ho_frame w) \<and> post (cx_handover_end x w) (ho_frame w) \<and>
        post (ho w) (ho_frame w) \<and> (\<forall>m. post (cx_handover_in x m w) (\<lambda>w'. gc_freed w' \<or> ho_frame w w')))"

lemma ho_frame_inv: "ho_frame w w' \<Longrightarrow> gscon_inv w \<Longrightarrow> gscon_inv w'"
  by (cases "as_fi (gc_assignment w)") (auto simp: ho_frame_def gscon_inv_def gscon_core_def)

lemma ho_contractD:
  assumes "ho_contract x ho" "gscon_inv w"
  shows "post (cx_handover_start x w) gscon_inv" "post (cx_handover_end x w) gscon_inv" "post (cx_handover_in x m w) (\<lambda>w'. gc_freed w' \<or> gscon_inv w')"
    "post (ho w) (\<lambda>w'. gscon_inv w' \<and> gc_assignment w' = gc_assignment w)"
proof -
  have c: "post (cx_handover_start x w) (ho_frame w)" "post (cx_handover_end x w) (ho_frame w)" "post (ho w) (ho_frame w)"
    "post (cx_handover_in x m w) (\<lambda>w'. gc_freed w' \<or> ho_frame w w')"
    using assms(1) by (auto simp: ho_contract_def)
  show "post (cx_handover_start x w) gscon_inv" "post (cx_handover_end x w) gscon_inv" "post (cx_handover_in x m w) (\<lambda>w'. gc_freed w' \<or> gscon_inv w')"
    using c(1,2,4) ho_frame_inv[OF _ assms(2)] by (auto elim!: post_mono)
  show "post (ho w) (\<lambda>w'. gscon_inv w' \<and> gc_assignment w' = gc_assignment w)"
    by (rule post_mono[OF c(3)]) (use ho_frame_inv[OF _ assms(2)] in \<open>auto simp: ho_frame_def\<close>)
qed

text \<open>A connection that may go on or is gone.\<close>

definition kept :: "gscon \<Rightarrow> bool" where
  "kept w \<longleftrightarrow> gc_freed w \<or> gscon_inv w"

text \<open>
  The events that come from outside: the machine alone reports the end of an assignment and answers the MSC, nobody sends
  FORGET_LCHAN, and a request with an SCCP connection has more than its two octets of header.
\<close>

definition admissible_event :: "gscon_fsm_event \<Rightarrow> bool" where
  "admissible_event ev \<longleftrightarrow>
     (case ev of GSCON_EV_TX_SCCP (ASS_COMPLETE c l) \<Rightarrow> False | GSCON_EV_TX_SCCP (ASS_FAILURE c) \<Rightarrow> False
      | GSCON_EV_A_CONN_IND (Some m) \<Rightarrow> length m \<noteq> 2 | GSCON_EV_FORGET_LCHAN \<Rightarrow> False | GSCON_EV_ASSIGNMENT_END \<Rightarrow> False | _ \<Rightarrow> True)"

text \<open>A connection to the MSC can be opened.\<close>

definition conn_opens :: "gscon_ctx \<Rightarrow> gscon \<Rightarrow> bool" where
  "conn_opens x w \<longleftrightarrow> gc_conn_id w = -1 \<and> cx_reset_ready x w \<and> cx_pick_conn_id x w \<ge> 0 \<and>
     cx_open_conn x (w\<lparr> gc_conn_id := cx_pick_conn_id x w \<rparr>) \<ge> 0"

locale gscon_machine = gscon_whole +
  fixes ho :: "gscon \<Rightarrow> gscon res"
  assumes handover: "ho_contract x ho"
begin

lemmas ho_ok = ho_contractD[OF handover]

lemma flush_drop:
  "gc_dtap_queue_len w = length (gc_dtap_queue w) \<Longrightarrow> length (gc_dtap_queue w) \<le> n \<Longrightarrow>
     dtap_flush_loop n x False w = Ok (w\<lparr> gc_dtap_queue := [], gc_dtap_queue_len := 0 \<rparr>)"
proof (induction n arbitrary: w)
  case 0
  then show ?case by simp
next
  case (Suc n)
  then show ?case by (cases "gc_dtap_queue w") (auto simp: Let_def)
qed

lemma inv_emit: "plain e \<Longrightarrow> gscon_inv (gc_emit e w) = gscon_inv w"
  by (rule emits_inv(2)[OF emits_emit])

lemma inv_send: "\<forall>rc. plain (SCCP_TX m rc) \<Longrightarrow> gscon_inv (snd (gscon_sigtran_send x m w)) = gscon_inv w"
  by (rule emits_inv(2)[OF sigtran_send_emits(2)])

lemma inv_clear: "gscon_inv (gscon_bssmap_clear x c w) = gscon_inv w"
  by (rule emits_inv(2)[OF bssmap_clear_emits])

lemma inv_upd_cl: "(\<And>c. cl_conn (f c) = cl_conn c) \<Longrightarrow> gscon_inv (upd_cl l f w) = gscon_inv w"
  by (cases "as_fi (gc_assignment w)") (auto simp: gscon_inv_def gscon_core_def upd_cl_def attempts_def answers_def)

lemma reset_inv: "gscon_inv w \<Longrightarrow> post (assignment_reset x w) gscon_inv"
  by (rule post_mono[OF reset_ok]) (auto simp: gscon_inv_def gscon_core_def alike_def no_assignment_def split: option.splits)

lemma release_lchan_inv: "gscon_inv w \<Longrightarrow> post (gscon_release_lchan x lo a b c w) gscon_inv"
  by (rule post_mono[OF release_lchan_ok]) (auto simp: gscon_inv_def gscon_core_def split: option.splits)

lemma release_lchans_ok: "gscon_inv w \<Longrightarrow> post (gscon_release_lchans x rr w) gscon_inv"
  unfolding gscon_release_lchans_def steps.simps post_rbind
  by (auto intro!: post_mono[OF reset_inv] release_lchan_inv elim!: post_mono[OF ho_ok(2)])

lemma term_frees:
  assumes "gscon_inv w"
  shows "post (gscon_fsm_term x w) gc_freed"
proof -
  have flush: "post (gscon_dtap_queue_flush x False v) gscon_inv" if "gscon_inv v" for v
    using that by (cases "as_fi (gc_assignment v)") (auto simp: gscon_dtap_queue_flush_def flush_drop gscon_inv_def gscon_core_def attempts_def answers_def)
  have pre: "post (gscon_fsm_pre_term x w) gscon_inv"
  proof -
    have a: "gscon_inv (case gc_mgw_endpoint w of None \<Rightarrow> w | Some ep \<Rightarrow> gc_emit (EP_CLEAR ep) w)" (is "gscon_inv ?a")
      using assms by (simp add: inv_emit split: option.splits)
    have "gscon_inv (v\<lparr> gc_lcls_fi := False \<rparr>) = gscon_inv v" for v
      by (cases "as_fi (gc_assignment v)") (simp_all add: gscon_inv_def gscon_core_def attempts_def answers_def)
    then have "gscon_inv (if gc_lcls_fi ?a then (gc_emit LCLS_TERM ?a)\<lparr> gc_lcls_fi := False \<rparr> else ?a)" using a by (simp add: inv_emit)
    then show ?thesis
      unfolding gscon_fsm_pre_term_def steps.simps post_rbind rbind.simps post_Ok
      by (intro post_mono[OF release_lchans_ok]) (simp_all add: flush)
  qed
  have clean: "post (assignment_fsm_cleanup x v) gscon_core" if "gscon_inv v" for v
    using that unfolding assignment_fsm_cleanup_def steps.simps post_rbind
    by (intro post_mono[OF reset_inv]) (simp_all add: gscon_inv_def gscon_core_def upd_as_def)
  have free: "post (gscon_fsm_cleanup x v) gc_freed" if "gscon_core v" for v
    using that by (auto simp: gscon_fsm_cleanup_def Let_def gscon_core_def cl_forget_conn_def upd_cl_def gc_emit_def split: option.splits)
  have "post (if as_fi (gc_assignment v) \<noteq> None then assignment_fsm_cleanup x v else Ok v) gscon_core" if "gscon_inv v" for v
    using that clean by (auto simp: gscon_inv_def)
  then show ?thesis
    unfolding gscon_fsm_term_def fsm_contract_term[OF engine] steps.simps post_rbind rbind_Ok_right
    using pre free by (fastforce elim!: post_mono)
qed

lemma term_kept: "gscon_inv w \<Longrightarrow> post (gscon_fsm_term x w) kept"
  by (rule post_mono[OF term_frees]) (simp_all add: kept_def)

text \<open>A transition of a connection without an assignment.\<close>

lemma inv_chg:
  assumes "gscon_inv w" "as_fi (gc_assignment w) = None" "st \<noteq> ST_ASSIGNMENT" "T = conn_fsm_timeouts st"
  shows "gscon_inv (w\<lparr> gc_state := st, gc_timer := T \<rparr>)"
  using assms by (simp add: gscon_inv_def gscon_core_def attempts_def answers_def)

lemma enter_clearing_ok: "gscon_inv w \<Longrightarrow> post (gscon_enter_clearing x w) gscon_inv"
  by (cases "as_fi (gc_assignment w)")
     (auto simp: gscon_enter_clearing_def conn_chg_eq gscon_clear_timer_def gscon_inv_def gscon_core_def attempts_def answers_def)

lemma inv_sccp: "gscon_inv (w\<lparr> gc_sccp_connected := b \<rparr>) = gscon_inv w"
  by (cases "as_fi (gc_assignment w)") (simp_all add: gscon_inv_def gscon_core_def attempts_def answers_def)

lemma inv_conn_id: "gscon_inv (w\<lparr> gc_conn_id := i \<rparr>) = gscon_inv w"
  by (cases "as_fi (gc_assignment w)") (simp_all add: gscon_inv_def gscon_core_def attempts_def answers_def)

lemma inv_forget_endpoint: "gscon_inv (gscon_forget_mgw_endpoint w) = gscon_inv w"
  by (cases "as_fi (gc_assignment w)")
     (auto simp: gscon_forget_mgw_endpoint_def cl_forget_mgw_endpoint_def upd_cl_def Let_def gscon_inv_def gscon_core_def attempts_def answers_def split: option.splits)

lemma inv_queue_add: "gscon_inv w \<Longrightarrow> gscon_inv (gscon_dtap_queue_add m i a w)"
  by (cases "as_fi (gc_assignment w)") (auto simp: gscon_dtap_queue_add_def gscon_inv_def gscon_core_def attempts_def answers_def)

lemma inv_alive: "gscon_inv w \<Longrightarrow> \<not> gc_freed w" "gscon_inv w \<Longrightarrow> gc_msc w \<noteq> None"
  by (simp_all add: gscon_inv_def gscon_core_def)

lemma submit_ok: "gscon_inv w \<Longrightarrow> post (gscon_submit_rsl_dtap x m i a w) gscon_inv"
  unfolding gscon_submit_rsl_dtap_def
  by (auto simp: inv_queue_add emits_inv(2) inv_alive intro!: post_mono[OF send_dtap_emits])

lemma rll_ind_ok:
  assumes "gscon_inv w"
  shows "post (rll_ind_cb x l m r w) gscon_inv"
proof -
  have "post (bsc_sapi_n_reject x i w) gscon_inv" for i
    using assms post_mono[OF reject[OF inv_alive(1)[OF assms]]] emits_inv(2) by (auto simp: bsc_sapi_n_reject_def)
  then show ?thesis using assms by (cases r) (auto simp: rll_ind_cb_def inv_emit)
qed

text \<open>Getting active, and sending what was queued.\<close>

lemma activate_conn_ok:
  assumes "gscon_inv w" "as_fi (gc_assignment w) = None" "ST_ACTIVE \<in> set (gscon_out_states (gc_state w))"
  shows "post (gscon_chg x ST_ACTIVE None w) (\<lambda>w'. gscon_inv w' \<and> gc_state w' = ST_ACTIVE)"
proof -
  let ?w = "w\<lparr> gc_state := ST_ACTIVE, gc_timer := None \<rparr>"
  have "gscon_inv ?w" by (rule inv_chg[OF assms(1,2)]) simp_all
  moreover note e = active_onenter_emits[of ?w x]
  moreover have "gc_state (gscon_fsm_active_onenter x ?w) = ST_ACTIVE" using e by (auto simp: emits_def)
  ultimately show ?thesis using assms(3) emits_inv(2)[OF e] by (simp add: conn_chg_eq)
qed

lemma flush_inv:
  assumes "gscon_inv w" "gc_state w = ST_ACTIVE"
  shows "post (gscon_dtap_queue_flush x True w) gscon_inv"
proof -
  have "gscon_inv (w\<lparr> gc_dtap_queue := [], gc_dtap_queue_len := 0 \<rparr>)"
    using assms(1) by (cases "as_fi (gc_assignment w)") (auto simp: gscon_inv_def gscon_core_def attempts_def answers_def)
  then show ?thesis using post_mono[OF dtap_flush_ok[OF assms(2), of True]] emits_inv(2) assms(1) by (auto simp: gscon_inv_def)
qed

lemma activate_flush_ok:
  assumes "gscon_inv w" "as_fi (gc_assignment w) = None" "ST_ACTIVE \<in> set (gscon_out_states (gc_state w))"
  shows "post (rbind (gscon_chg x ST_ACTIVE None w) (gscon_dtap_queue_flush x True)) gscon_inv"
  unfolding post_rbind by (rule post_mono[OF activate_conn_ok[OF assms]]) (simp add: flush_inv)

text \<open>The events, state by state.\<close>

lemma admissible_tx: "admissible_event (GSCON_EV_TX_SCCP m) \<longleftrightarrow> (\<forall>rc. plain (SCCP_TX m rc))"
  by (cases m) (auto simp: admissible_event_def plain_def intro!: exI[of _ 0])

lemma transparent_ok:
  assumes "gscon_inv w" "admissible_event ev" "gscon_ev_nr ev = 10 \<or> gscon_ev_nr ev = 11 \<or> gscon_ev_nr ev = 12"
  shows "post (gscon_transparent x ev w) kept"
  using assms by (cases ev) (auto simp: admissible_tx forward_dtap_def submit_dtap_def inv_send kept_def intro!: post_mono[OF submit_ok])

lemma n_connect_ok:
  assumes "gscon_inv w" "\<forall>m. l3 = Some m \<longrightarrow> length m \<noteq> 2"
  shows "post (handle_bssap_n_connect x l3 w) kept"
proof -
  have r: "post (n_connect_refuse x w) kept" using assms(1) by (simp add: n_connect_refuse_def term_kept inv_emit)
  have "gscon_inv ((gc_emit SCCP_CONN_RESP w)\<lparr> gc_sccp_connected := True \<rparr>)" using assms(1) by (simp add: inv_sccp inv_emit)
  from ho_ok(3)[OF this] have "post (cx_handover_in x m ((gc_emit SCCP_CONN_RESP w)\<lparr> gc_sccp_connected := True \<rparr>)) kept" for m
    by (simp add: kept_def[abs_def])
  then show ?thesis using r assms(2) by (auto simp: handle_bssap_n_connect_def split: option.splits)
qed

lemma conn_init_ok:
  assumes "gscon_inv w" "gc_state w = ST_INIT" "admissible_event ev" "gscon_ev_nr ev \<in> set (gscon_in_events ST_INIT)"
    "gscon_ev_nr ev = 1 \<longrightarrow> conn_opens x w"
  shows "post (gscon_fsm_init x ev w) kept"
proof -
  have n: "as_fi (gc_assignment w) = None" using assms(1,2) by (auto simp: gscon_inv_def split: option.splits)
  have k: "gscon_inv v \<Longrightarrow> kept v" for v by (simp add: kept_def)
  consider (req) m where "ev = GSCON_EV_A_CONN_REQ m" | (ind) l3 where "ev = GSCON_EV_A_CONN_IND l3" | (ho) r where "ev = GSCON_EV_HANDOVER_END r"
    using assms(4) by (cases ev) auto
  then show ?thesis
  proof cases
    case req
    have "gscon_inv (w\<lparr> gc_conn_id := cx_pick_conn_id x w, gc_sccp_connected := True, gc_state := ST_WAIT_CC, gc_timer := Some 993210 \<rparr>)"
      using assms(1) n by (intro inv_chg) (simp_all add: inv_sccp inv_conn_id)
    then show ?thesis
      using req assms(2,5) inv_alive[OF assms(1)]
      by (simp add: osmo_bsc_sigtran_open_conn_def conn_opens_def Let_def conn_fsm_state_chg_def conn_chg_eq gscon_update_id_def kept_def)
  next
    case ind
    then show ?thesis
      using n_connect_ok[OF assms(1), of l3] assms(3) inv_alive[OF assms(1)]
      by (auto simp: admissible_event_def gscon_update_id_def split: option.splits)
  next
    case ho
    have "post (rbind (gscon_chg x ST_ACTIVE None w) (gscon_dtap_queue_flush x True)) kept"
      by (rule post_mono[OF activate_flush_ok[OF assms(1) n]]) (simp_all add: assms(2) k)
    moreover have "post (gscon_enter_clearing x (gscon_bssmap_clear x CAUSE_EQUIPMENT_FAILURE w)) kept"
      by (rule post_mono[OF enter_clearing_ok]) (simp_all add: assms(1) inv_clear k)
    ultimately show ?thesis using ho by (simp add: Let_def)
  qed
qed

lemma active_ok:
  assumes "gscon_inv w" "gc_state w = ST_ACTIVE" "admissible_event ev" "gscon_ev_nr ev \<in> set (gscon_in_events ST_ACTIVE)"
  shows "post (gscon_fsm_active x ev w) kept"
proof -
  have n: "as_fi (gc_assignment w) = None" using assms(1,2) by (auto simp: gscon_inv_def split: option.splits)
  have k: "gscon_inv v \<Longrightarrow> kept v" for v by (simp add: kept_def)
  consider (start) req where "ev = GSCON_EV_ASSIGNMENT_START req" | (ho) "ev = GSCON_EV_HANDOVER_START"
    | (dtap) "gscon_ev_nr ev = 10 \<or> gscon_ev_nr ev = 11 \<or> gscon_ev_nr ev = 12"
    using assms(4) by (cases ev) auto
  then show ?thesis
  proof cases
    case start
    let ?w = "w\<lparr> gc_state := ST_ASSIGNMENT, gc_timer := None \<rparr>"
    have "ended ?w" using assms(1) n by (simp add: ended_def gscon_inv_def gscon_core_def attempts_def answers_def)
    then have "gc_lchan w = Some p \<Longrightarrow> post (assignment_fsm_start x req ?w) kept" for p
      by (intro post_mono[OF start_ok]) (simp_all add: k)
    then show ?thesis using start assms(1,2) by (auto simp: conn_chg_eq k)
  next
    case ho
    have "gscon_inv ((gc_emit CTR_HANDOVER_ATTEMPTED w)\<lparr> gc_state := ST_HANDOVER, gc_timer := None \<rparr>)"
      using assms(1) n by (intro inv_chg) (simp_all add: inv_emit)
    from post_mono[OF ho_ok(1)[OF this] k] show ?thesis using ho assms(2) by (simp add: conn_chg_eq gc_emit_def)
  next
    case dtap
    then have "gscon_fsm_active x ev w = gscon_transparent x ev w" by (cases ev) simp_all
    then show ?thesis using transparent_ok[OF assms(1,3) dtap] by simp
  qed
qed

lemma allstate_ok:
  assumes "gscon_inv w" "admissible_event ev"
  shows "gscon_ev_nr ev \<in> set gscon_allstate_events \<Longrightarrow> post (gscon_fsm_allstate x ev w) kept"
proof -
  assume a: "gscon_ev_nr ev \<in> set gscon_allstate_events"
  have k: "gscon_inv v \<Longrightarrow> kept v" for v by (simp add: kept_def)
  have clear: "post (gscon_fsm_allstate x (GSCON_EV_A_CLEAR_CMD b) w) kept" for b
  proof -
    have "gscon_inv (case gc_lchan w of None \<Rightarrow> w | Some l \<Rightarrow> upd_cl l (\<lambda>c. c\<lparr> cl_is_csfb := b \<rparr>) w)"
      using assms(1) by (simp add: inv_upd_cl split: option.splits)
    moreover have "kept (snd (gscon_sigtran_send x CLEAR_COMPLETE (case gc_mgw_endpoint v of None \<Rightarrow> v | Some ep \<Rightarrow> gc_emit (EP_CLEAR ep) v)))"
      if "gscon_inv v" for v
      using that by (cases "gc_mgw_endpoint v") (simp_all add: inv_emit inv_send k)
    ultimately show ?thesis
      unfolding gscon_fsm_allstate.simps steps.simps post_rbind rbind.simps post_Ok
      by (intro post_mono[OF enter_clearing_ok] post_mono[OF release_lchans_ok])
  qed
  have fail: "post (gscon_fsm_allstate x (GSCON_EV_RSL_CONN_FAIL d) w) kept" for d
    using assms(1) by (simp add: Let_def inv_clear inv_upd_cl k split: option.splits)
  show ?thesis
    using a clear fail assms term_kept k inv_forget_endpoint
    by (cases ev) (simp_all add: gscon_allstate_events_def admissible_event_def del: gscon_fsm_allstate.simps(1,4))
qed

lemma event_ok:
  assumes "gscon_inv w" "admissible_event ev" "gscon_ev_nr ev = 1 \<longrightarrow> conn_opens x w"
  shows "post (gscon_dispatch x ev w) kept"
proof -
  have k: "kept w" using assms(1) by (simp add: kept_def)
  have none: "as_fi (gc_assignment w) = None" if "gc_state w \<noteq> ST_ASSIGNMENT" "gc_state w \<noteq> ST_CLEARING"
    using that assms(1) by (auto simp: gscon_inv_def split: option.splits)
  have "post (gscon_action x (gc_state w) ev w) kept" if e: "gscon_ev_nr ev \<in> set (gscon_in_events (gc_state w))"
  proof (cases "gc_state w")
    case ST_INIT
    then show ?thesis using conn_init_ok[OF assms(1) _ assms(2) _ assms(3)] e by simp
  next
    case ST_WAIT_CC
    then have "ev = GSCON_EV_A_CONN_CFM" using e by (cases ev) auto
    then show ?thesis
      using ST_WAIT_CC none post_mono[OF activate_conn_ok[OF assms(1)], of kept] by (simp add: conn_fsm_state_chg_def kept_def)
  next
    case ST_ACTIVE
    then show ?thesis using active_ok[OF assms(1) _ assms(2)] e by simp
  next
    case ST_ASSIGNMENT
    then show ?thesis using transparent_ok[OF assms(1,2)] assms(2) e by (cases ev) (auto simp: admissible_event_def)
  next
    case ST_HANDOVER
    then show ?thesis
      using none post_mono[OF activate_flush_ok[OF assms(1)], of kept] transparent_ok[OF assms(1,2)] e by (cases ev) (auto simp: kept_def)
  next
    case ST_CLEARING
    then show ?thesis using k by simp
  qed
  then show ?thesis using allstate_ok[OF assms(1,2)] k inv_alive[OF assms(1)] by (simp add: conn_dispatch_eq[OF engine])
qed

lemma lchan_releasing_ok:
  assumes "gscon_inv w"
  shows "post (gscon_lchan_releasing x ho lo w) kept"
proof (cases lo)
  case (Some l)
  define first where "first = (\<lambda>w. if as_new_lchan (gc_assignment w) = Some l
              then rbind (assignment_dispatch x (ASSIGNMENT_EV_LCHAN_ERROR l) w) (\<lambda>w.
                Ok (upd_as (\<lambda>a. a\<lparr> as_new_lchan := None \<rparr>) (cl_forget_conn (as_new_lchan (gc_assignment w)) w)))
              else Ok w)"
  let ?P = "\<lambda>w. gscon_inv w \<and> as_new_lchan (gc_assignment w) \<noteq> Some l"
  have first: "post (first w) ?P"
  proof (cases "as_new_lchan (gc_assignment w) = Some l")
    case True
    then have o: "ongoing w" using assms by (intro inv_ongoing) (auto simp: gscon_inv_def split: option.splits)
    have "gscon_inv (upd_as (\<lambda>a. a\<lparr> as_new_lchan := None \<rparr>) (cl_forget_conn (as_new_lchan (gc_assignment v)) v))" if "finished w v" for v
      using that by (auto simp: finished_def gscon_inv_def gscon_core_def upd_as_def cl_forget_conn_def attempts_def answers_def)
    then show ?thesis using True by (auto simp: first_def post_rbind intro!: post_mono[OF error_ok[OF o True]])
  next
    case False
    then show ?thesis using assms by (simp add: first_def)
  qed
  have second: "post (if gc_ho_new_lchan v = Some l \<and> gc_ho_fi v then ho v else Ok v) ?P" if "?P v" for v
    using that post_mono[OF ho_ok(4), of v ?P] by simp
  have third: "gscon_inv (if gc_lchan v = Some l then (cl_forget_conn (gc_lchan v) v)\<lparr> gc_lchan := None \<rparr> else v)" if "?P v" for v
    using that by (cases "as_fi (gc_assignment v)")
      (auto simp: gscon_inv_def gscon_core_def cl_forget_conn_def upd_cl_def attempts_def answers_def)
  have fourth: "post (if gc_lchan v = None
              then rbind (gscon_enter_clearing x v) (\<lambda>w. Ok (gscon_bssmap_clear x CAUSE_EQUIPMENT_FAILURE w)) else Ok v) kept" if "gscon_inv v" for v
    using that by (auto simp: post_rbind inv_clear kept_def intro!: post_mono[OF enter_clearing_ok])
  show ?thesis
    unfolding gscon_lchan_releasing_def Some option.case steps.simps post_rbind rbind.simps post_Ok rbind_Ok_right
    by (rule post_mono[OF first[unfolded first_def]], rule post_mono[OF second], assumption, rule fourth, rule third, assumption)
qed (simp add: gscon_lchan_releasing_def kept_def assms)

lemma forget_lchan_ok:
  assumes "gscon_inv w"
  shows "gscon_inv (gscon_forget_lchan x lo w)"
proof (cases lo)
  case (Some l)
  have a: "gscon_inv (if as_new_lchan (gc_assignment v) = Some l then upd_as (\<lambda>a. a\<lparr> as_new_lchan := None \<rparr>) v else v)" if "gscon_inv v" for v
    using that by (cases "as_fi (gc_assignment v)") (auto simp: gscon_inv_def gscon_core_def upd_as_def attempts_def answers_def)
  have b: "gscon_inv (if gc_ho_new_lchan v = Some l then v\<lparr> gc_ho_new_lchan := None \<rparr> else v)" if "gscon_inv v" for v
    using that by (cases "as_fi (gc_assignment v)") (auto simp: gscon_inv_def gscon_core_def attempts_def answers_def)
  have c: "gscon_inv (if gc_lchan v = Some l then v\<lparr> gc_lchan := None \<rparr> else v)" if "gscon_inv v" for v
    using that by (cases "as_fi (gc_assignment v)") (auto simp: gscon_inv_def gscon_core_def attempts_def answers_def)
  have d: "gscon_inv (if P then gscon_bssmap_clear x CAUSE_EQUIPMENT_FAILURE v else v)" if "gscon_inv v" for v P using that by (simp add: inv_clear)
  show ?thesis unfolding gscon_forget_lchan_def Some option.case Let_def by (intro d c b a assms)
qed (simp add: gscon_forget_lchan_def assms)

lemma timer_cb_ok:
  assumes "gscon_inv w" "gc_timer w \<noteq> None"
  shows "post (gscon_timer_cb x w) kept"
proof -
  have t: "gc_timer w = Some 993210 \<or> gc_timer w = Some 999" using assms by (cases "gc_state w") (simp_all add: gscon_inv_def gscon_core_def)
  have f: "post (gscon_fsm_term x (gc_emit A_RESET_CONN_FAIL v)) kept" if "gscon_inv v" for v
    using that by (simp add: term_kept inv_emit)
  have "post (rbind (gscon_release_lchan x (gc_lchan w) True True RR_ERR_INTERWORKING w) (\<lambda>w. gscon_fsm_term x (gc_emit A_RESET_CONN_FAIL w))) kept"
    unfolding post_rbind by (rule post_mono[OF release_lchan_inv[OF assms(1)] f])
  then show ?thesis using t f[OF assms(1)] inv_alive[OF assms(1)] by (auto simp: gscon_timer_cb_def)
qed

end

section \<open>Runs\<close>

datatype gscon_input =
    Conn_event gscon_fsm_event
  | Assignment_event assignment_fsm_event
  | Conn_timeout
  | Assignment_timeout
  | Lchan_releasing "lchan_ptr option"
  | Lchan_forgotten "lchan_ptr option"
  | Dtap_submitted gscon_msg nat bool
  | Rll_ind lchan_ptr gscon_msg bsc_rllr_ind

fun gscon_step :: "gscon_ctx \<Rightarrow> (gscon \<Rightarrow> gscon res) \<Rightarrow> gscon_input \<Rightarrow> gscon \<Rightarrow> gscon res" where
  "gscon_step x ho (Conn_event ev) w = gscon_dispatch x ev w"
| "gscon_step x ho (Assignment_event ev) w = assignment_dispatch x ev w"
| "gscon_step x ho Conn_timeout w = gscon_timer_cb x w"
| "gscon_step x ho Assignment_timeout w = assignment_fsm_timer_cb x w"
| "gscon_step x ho (Lchan_releasing lo) w = gscon_lchan_releasing x ho lo w"
| "gscon_step x ho (Lchan_forgotten lo) w = Ok (gscon_forget_lchan x lo w)"
| "gscon_step x ho (Dtap_submitted m i a) w = gscon_submit_rsl_dtap x m i a w"
| "gscon_step x ho (Rll_ind l m r) w = rll_ind_cb x l m r w"

text \<open>What may come: a timer that runs, and events of an assignment that has its lchans.\<close>

fun admissible :: "gscon_ctx \<Rightarrow> gscon_input \<Rightarrow> gscon \<Rightarrow> bool" where
  "admissible x (Conn_event ev) w = (admissible_event ev \<and> (gscon_ev_nr ev = 1 \<longrightarrow> conn_opens x w))"
| "admissible x (Assignment_event ev) w = (has_lchans w \<and> ev \<noteq> ASSIGNMENT_EV_CONN_RELEASING)"
| "admissible x Conn_timeout w = (gc_timer w \<noteq> None)"
| "admissible x Assignment_timeout w = (as_fi (gc_assignment w) \<noteq> None)"
| "admissible x _ w = True"

inductive gscon_reach :: "gscon_ctx \<Rightarrow> (gscon \<Rightarrow> gscon res) \<Rightarrow> gscon \<Rightarrow> bool" for x ho where
  allocated: "gscon_reach x ho ((bsc_subscr_con_allocate ls)\<lparr> gc_msc := Some p, gc_conn_id := i, gc_lchan := lo \<rparr>)"
| stepped: "gscon_reach x ho w \<Longrightarrow> \<not> gc_freed w \<Longrightarrow> admissible x i w \<Longrightarrow> gscon_step (with_calls x) ho i w = Ok w' \<Longrightarrow> gscon_reach x ho w'"

text \<open>The surroundings of a connection, and that its own machines are what their handlers rely on.\<close>

locale gscon_env =
  fixes x :: gscon_ctx and ho :: "gscon \<Rightarrow> gscon res"
  assumes env_engine: "fsm_contract (cx_engine x)" and env_handover: "ho_contract x ho"

sublocale gscon_env \<subseteq> own: gscon_machine "with_calls x" ho
proof -
  have "ho_contract (with_calls x) ho" using env_handover by (simp add: with_calls_def ho_contract_def)
  then show "gscon_machine (with_calls x) ho"
    using with_calls_whole[OF env_engine] by (simp add: gscon_machine_def gscon_machine_axioms_def)
qed

context gscon_env
begin

lemma step_kept:
  assumes "gscon_inv w" "admissible x i w"
  shows "post (gscon_step (with_calls x) ho i w) kept"
proof -
  have o: "conn_opens (with_calls x) = conn_opens x" by (simp add: with_calls_def conn_opens_def fun_eq_iff)
  have k: "gscon_inv v \<Longrightarrow> kept v" for v by (simp add: kept_def)
  have t: "post (assignment_fsm_timer_cb (with_calls x) w) kept" if "as_fi (gc_assignment w) \<noteq> None"
    by (rule post_mono[OF own.timer_ok[OF inv_ongoing[OF assms(1) that]]]) (simp add: finished_def kept_def)
  show ?thesis
    using assms o t own.event_ok[OF assms(1)] post_mono[OF own.assignment_event_ok[OF assms(1)] k] own.timer_cb_ok[OF assms(1)]
      own.lchan_releasing_ok[OF assms(1)] own.forget_lchan_ok[OF assms(1)] post_mono[OF own.submit_ok[OF assms(1)] k] post_mono[OF own.rll_ind_ok[OF assms(1)] k]
    by (cases i) (simp_all add: k)
qed

lemma reach_kept:
  assumes "gscon_reach x ho w"
  shows "kept w"
  using assms
proof (induction rule: gscon_reach.induct)
  case (allocated ls p i lo)
  show ?case
    by (simp add: kept_def gscon_inv_def gscon_core_def bsc_subscr_con_allocate_def no_assignment_def attempts_def answers_def)
next
  case (stepped w i w')
  then have "gscon_inv w" by (simp add: kept_def)
  from post_OkD[OF step_kept[OF this stepped(3)] stepped(4)] show ?case .
qed

lemma reach_inv: "gscon_reach x ho w \<Longrightarrow> \<not> gc_freed w \<Longrightarrow> gscon_inv w"
  using reach_kept[of w] by (simp add: kept_def)

text \<open>When the primary lchan goes, the assignment stays and its next step has no lchan to send the command on.\<close>

lemma lost_primary:
  assumes "gscon_inv w" "as_fi (gc_assignment w) = Some fi" "as_state fi = ASSIGNMENT_ST_WAIT_LCHAN_ACTIVE"
    "gc_lchan w = Some p" "as_new_lchan (gc_assignment w) = Some l" "l \<noteq> p" "gc_ho_new_lchan w \<noteq> Some p"
  shows "\<exists>w'. gscon_step (with_calls x) ho (Lchan_releasing (Some p)) w = Ok w' \<and>
      gscon_step (with_calls x) ho (Assignment_event (ASSIGNMENT_EV_LCHAN_ACTIVE l)) w' = Abort"
proof -
  have s: "gc_state w = ST_ASSIGNMENT \<or> gc_state w = ST_CLEARING" using assms(1,2) by (simp add: gscon_inv_def)
  let ?v = "(cl_forget_conn (Some p) w)\<lparr> gc_lchan := None \<rparr>"
  have v: "gc_state ?v = gc_state w" "gc_lchan ?v = None" "gc_assignment ?v = gc_assignment w" by (simp_all add: cl_forget_conn_def upd_cl_def)
  obtain u where u: "gscon_enter_clearing (with_calls x) ?v = Ok u" "gc_lchan u = None" "gc_assignment u = gc_assignment w"
    using s v by (auto simp: gscon_enter_clearing_def own.conn_chg_eq)
  have e: "gscon_step (with_calls x) ho (Lchan_releasing (Some p)) w = Ok (gscon_bssmap_clear (with_calls x) CAUSE_EQUIPMENT_FAILURE u)"
    using assms(4-7) u(1) by (simp add: gscon_lchan_releasing_def)
  have b: "gc_lchan (gscon_bssmap_clear (with_calls x) c u) = None" "gc_assignment (gscon_bssmap_clear (with_calls x) c u) = gc_assignment w" for c
    using bssmap_clear_emits[of u "with_calls x" c] u(2,3) by (auto simp: emits_def)
  show ?thesis
    using e b assms(2,3,5)
    by (simp add: assignment_dispatch_eq[OF own.engine] assignment_allstate_events_def own.chg_as_eq[of _ fi] assignment_fsm_wait_rr_ass_complete_onenter_def)
qed

end

section \<open>Messages that wait\<close>

text \<open>The link identifier a message is sent with.\<close>

definition rsl_link :: "conn_lchan \<Rightarrow> nat \<Rightarrow> bool \<Rightarrow> nat" where
  "rsl_link c i a = (if a \<and> i AND 0x7 \<noteq> 0 \<and> (cl_type c = GSM_LCHAN_TCH_F \<or> cl_type c = GSM_LCHAN_TCH_H) then i OR 0x40 else i)"

fun dtap_sent :: "conn_lchan \<Rightarrow> lchan_ptr \<Rightarrow> gscon_msg \<times> nat \<times> bool \<Rightarrow> gscon_effect" where
  "dtap_sent c l (m, i, a) = RSL_DATA_REQUEST m (rsl_link c i a) l"

definition rsl_works :: "gscon_ctx \<Rightarrow> bool" where
  "rsl_works x \<longleftrightarrow> (\<forall>m w. cx_rsl_data_request x m w = 0)"

lemma flush_sends:
  assumes "rsl_works x" "gc_lchan w = Some l" "\<forall>(m, i, a) \<in> set (gc_dtap_queue w). i AND 0x7 \<in> set (cl_sapi_used (gc_lchans w l))"
    "gc_dtap_queue_len w = length (gc_dtap_queue w)" "length (gc_dtap_queue w) \<le> n"
  shows "dtap_flush_loop n x True w =
    Ok (w\<lparr> gc_dtap_queue := [], gc_dtap_queue_len := 0, gc_out := gc_out w @ map (dtap_sent (gc_lchans w l) l) (gc_dtap_queue w) \<rparr>)"
  using assms(2-)
proof (induction n arbitrary: w)
  case (Suc n)
  show ?case
  proof (cases "gc_dtap_queue w")
    case (Cons q qs)
    obtain m i a where q: "q = (m, i, a)" by (cases q)
    have "gsm0808_send_rsl_dtap x m i a v = Ok (gc_emit (dtap_sent (gc_lchans w l) l q) v)" if "gc_lchans v = gc_lchans w" "gc_lchan v = Some l" for v
      using that Cons q Suc.prems(2) assms(1) by (simp add: gsm0808_send_rsl_dtap_def Let_def rsl_works_def rsl_link_def)
    then show ?thesis using Cons q Suc.prems by (simp add: Let_def Suc.IH gc_emit_def)
  qed (use Suc.prems in simp)
qed simp

lemma submit_queues:
  assumes "gc_state w \<noteq> ST_ACTIVE" "gc_dtap_queue_len w = length (gc_dtap_queue w)" "length (gc_dtap_queue w) \<le> DTAP_QUEUE_MAX"
  shows "for_each ms (\<lambda>(m, i, a). gscon_submit_rsl_dtap x m i a) w =
    (let q = take DTAP_QUEUE_MAX (gc_dtap_queue w @ ms) in Ok (w\<lparr> gc_dtap_queue := q, gc_dtap_queue_len := length q \<rparr>))"
  using assms
proof (induction ms arbitrary: w)
  case (Cons q ms)
  obtain m i a where q: "q = (m, i, a)" by (cases q)
  show ?case
  proof (cases "length (gc_dtap_queue w) = DTAP_QUEUE_MAX")
    case True
    then show ?thesis using Cons q by (simp add: gscon_submit_rsl_dtap_def gscon_dtap_queue_add_def Let_def)
  next
    case False
    then have f: "length (gc_dtap_queue w) < DTAP_QUEUE_MAX" using Cons.prems(3) by simp
    let ?w = "w\<lparr> gc_dtap_queue_len := gc_dtap_queue_len w + 1, gc_dtap_queue := gc_dtap_queue w @ [(m, i, a)] \<rparr>"
    have "gscon_submit_rsl_dtap x m i a w = Ok ?w" using f Cons.prems by (simp add: gscon_submit_rsl_dtap_def gscon_dtap_queue_add_def)
    then show ?thesis using Cons.IH[of ?w] Cons.prems f q by (simp add: Let_def)
  qed
qed simp

text \<open>Runs as lists of inputs, for examples.\<close>

fun gscon_run :: "gscon_ctx \<Rightarrow> (gscon \<Rightarrow> gscon res) \<Rightarrow> gscon_input list \<Rightarrow> gscon \<Rightarrow> gscon res" where
  "gscon_run x ho [] w = Ok w"
| "gscon_run x ho (i # is) w =
     (if \<not> gc_freed w \<and> admissible x i w then rbind (gscon_step (with_calls x) ho i w) (gscon_run x ho is) else Abort)"

lemma reach_run: "gscon_reach x ho w \<Longrightarrow> gscon_run x ho is w = Ok w' \<Longrightarrow> gscon_reach x ho w'"
  by (induction "is" arbitrary: w) (auto intro: gscon_reach.stepped split: if_splits)

end
