(* ===== verification/Gscon_Thms.thy ===== *)
theory Gscon_Thms
  imports Gscon_Run
begin

text \<open>The theorems of the connection and its assignments.\<close>

section \<open>An example\<close>

text \<open>A context in which everything works, a connection on lchan 1 and the request of a channel.\<close>

definition example_lchan :: conn_lchan where
  "example_lchan = \<lparr> cl_type = GSM_LCHAN_SDCCH, cl_tch_mode = GSM48_CMODE_SIGN,
     cl_ch_mode_rate = \<lparr> chan_mode = GSM48_CMODE_SIGN, chan_rate = CH_RATE_SDCCH, s15_s0 = 0 \<rparr>, cl_established = True, cl_conn = False,
     cl_for_conn = False, cl_rtp = False, cl_ci_bts = None, cl_sapi_used = [0], cl_error_cause = 0, cl_is_csfb = False, cl_in_error = False,
     cl_rsl_error_cause = 0 \<rparr>"

definition example_ctx :: gscon_ctx where
  "example_ctx = \<lparr> cx_engine = example_engine, cx_call = (\<lambda>c w. Deep), cx_sigtran_send = (\<lambda>m w. 0), cx_reset_ready = (\<lambda>w. True),
     cx_pick_conn_id = (\<lambda>w. 5), cx_open_conn = (\<lambda>w. 0),
     cx_lchan_select = (\<lambda>mode rate w. Some 2), cx_activate_fails = (\<lambda>l w. False), cx_release_fails = (\<lambda>l w. False),
     cx_chosen_channel = (\<lambda>t m. 1), cx_crcx_sockaddr = (\<lambda>ci w. True), cx_rtp_info = (\<lambda>ci w. None),
     cx_rr_ass_cmd = (\<lambda>w. 0), cx_ep_alloc = (\<lambda>w. Some 1), cx_ci_add = (\<lambda>ep w. Some 1), cx_rll_establish = (\<lambda>l s w. 0),
     cx_rsl_data_request = (\<lambda>m w. 0), cx_handover_start = Ok, cx_handover_end = Ok, cx_handover_in = (\<lambda>m. Ok) \<rparr>"

definition example_request :: assignment_request where
  "example_request = \<lparr> ar_aoip = True, ar_cic = 0, ar_rtp_addr = ''10.0.0.1'', ar_rtp_port = 4000,
     ch_mode_rates = [\<lparr> chan_mode = GSM48_CMODE_SIGN, chan_rate = CH_RATE_FULL, s15_s0 = 0 \<rparr>] \<rparr>"

definition example_conn :: gscon where
  "example_conn = (bsc_subscr_con_allocate (\<lambda>l. example_lchan))\<lparr> gc_msc := Some ASP_PROT_M3UA, gc_conn_id := -1, gc_lchan := Some 1 \<rparr>"

definition example_dtap :: gscon_msg where "example_dtap = \<lparr> msg_id = 7, msg_link = 0 \<rparr>"

definition example_start :: "gscon_input list" where
  "example_start = [Conn_event (GSCON_EV_A_CONN_REQ example_dtap), Conn_event GSCON_EV_A_CONN_CFM, Conn_event (GSCON_EV_ASSIGNMENT_START example_request)]"

definition example_waiting :: gscon where
  "example_waiting = example_conn\<lparr> gc_conn_id := 5, gc_sccp_connected := True, gc_state := ST_WAIT_CC, gc_timer := Some 993210 \<rparr>"

definition example_active :: gscon where
  "example_active = example_conn\<lparr> gc_conn_id := 5, gc_sccp_connected := True, gc_state := ST_ACTIVE, gc_timer := None \<rparr>"

lemma example_ctx_simps:
  "fsm_contract (cx_engine (with_calls example_ctx))" "cx_reset_ready (with_calls example_ctx) w = True \<and> cx_pick_conn_id (with_calls example_ctx) w = 5 \<and> cx_open_conn (with_calls example_ctx) w = 0"
  "conn_opens example_ctx example_conn"
  "cx_lchan_select (with_calls example_ctx) a b w = Some 2" "cx_activate_fails (with_calls example_ctx) l w = False"
  "fsm_contract (cx_engine example_ctx)"
  by (simp_all add: with_calls_def example_ctx_def example_engine_contract conn_opens_def example_conn_def bsc_subscr_con_allocate_def)

lemmas gscon_eval = example_ctx_simps(2-5) conn_dispatch_eq[OF example_ctx_simps(1)] assignment_dispatch_eq[OF example_ctx_simps(1)]
  gscon_chg_eq[OF example_ctx_simps(1)] conn_fsm_state_chg_def gscon_allstate_events_def assignment_allstate_events_def

lemma example_step1: "gscon_dispatch (with_calls example_ctx) (GSCON_EV_A_CONN_REQ m) example_conn = Ok example_waiting"
  by (simp add: gscon_eval osmo_bsc_sigtran_open_conn_def Let_def gscon_update_id_def example_waiting_def example_conn_def bsc_subscr_con_allocate_def)

lemma example_step2: "gscon_dispatch (with_calls example_ctx) GSCON_EV_A_CONN_CFM example_waiting = Ok example_active"
  by (simp add: gscon_eval gscon_fsm_active_onenter_def example_waiting_def example_active_def example_conn_def bsc_subscr_con_allocate_def)

definition example_request_rate :: channel_mode_and_rate where
  "example_request_rate = \<lparr> chan_mode = GSM48_CMODE_SIGN, chan_rate = CH_RATE_FULL, s15_s0 = 0 \<rparr>"

definition example_assigned :: gscon where
  "example_assigned = example_active\<lparr> gc_state := ST_ASSIGNMENT,
     gc_assignment := no_assignment\<lparr> as_req := example_request, as_fi := Some \<lparr> as_state = ASSIGNMENT_ST_WAIT_LCHAN_ACTIVE, as_timer = Some 10 \<rparr>, as_new_lchan := Some 2 \<rparr>,
     gc_lchans := (\<lambda>l. example_lchan)(1 := example_lchan\<lparr> cl_ch_mode_rate := example_request_rate \<rparr>,
        2 := example_lchan\<lparr> cl_conn := True, cl_for_conn := True \<rparr>),
     gc_out := [CTR BSC_CTR_ASSIGNMENT_ATTEMPTED, LCHAN_ACTIVATE 2 example_request_rate False 0 1] \<rparr>"

lemma example_step3: "gscon_dispatch (with_calls example_ctx) (GSCON_EV_ASSIGNMENT_START example_request) example_active = Ok example_assigned"
  by (simp add: gscon_eval example_active_def example_conn_def bsc_subscr_con_allocate_def assignment_fsm_start_def check_requires_voice_stream_def
    assignment_count_def gc_emit_def upd_as_def upd_cl_def reuse_existing_lchan_def example_request_def example_lchan_def Let_def cl_activate_def
    assignment_chg_def fsm_contract_state_chg[OF example_ctx_simps(1)] no_assignment_def example_assigned_def example_request_rate_def bit_S_mask)

lemma assigned_reach: "gscon_reach example_ctx Ok example_assigned"
proof -
  have "gscon_reach example_ctx Ok example_conn" unfolding example_conn_def by (rule gscon_reach.allocated)
  moreover have "gscon_run example_ctx Ok example_start example_conn = Ok example_assigned"
    by (simp add: example_start_def example_step1 example_step2 example_step3 admissible_event_def example_ctx_simps)
       (simp add: example_conn_def example_waiting_def example_active_def bsc_subscr_con_allocate_def)
  ultimately show ?thesis by (rule reach_run)
qed

lemma example_ho: "ho_contract example_ctx Ok"
  by (simp add: ho_contract_def ho_frame_def example_ctx_def)

interpretation example_env: gscon_env example_ctx Ok
  by unfold_locales (simp_all add: example_ctx_simps example_ho)

section \<open>Theorems\<close>



text \<open>
  Property C7.  Every assignment is answered once: there are as many completions that were sent and failures that were reported to the MSC
  as there were requests that were taken up, but for the one that goes on.
\<close>

theorem assignment_answered_once:
  assumes "fsm_contract (cx_engine x)" "ho_contract x ho" "gscon_reach x ho w" "\<not> gc_freed w"
  shows "attempts w = answers w + (if as_fi (gc_assignment w) = None then 0 else 1)"
  using gscon_env.reach_inv[OF gscon_env.intro[OF assms(1,2)] assms(3,4)] by (auto simp: gscon_inv_def split: option.splits)

theorem assignment_answered_once_witness:
  "attempts example_assigned = answers example_assigned + (if as_fi (gc_assignment example_assigned) = None then 0 else 1)"
  by (rule assignment_answered_once[OF example_ctx_simps(6) example_ho assigned_reach])
     (simp add: example_assigned_def example_active_def example_conn_def bsc_subscr_con_allocate_def)

text \<open>
  Property C8.  No assignment lasts for ever: one that goes on has a timer that runs, and when it expires the assignment ends, the MSC is told and the
  connection leaves the state of an assignment.
\<close>

theorem assignment_times_out:
  assumes "fsm_contract (cx_engine x)" "ho_contract x ho" "gscon_reach x ho w" "\<not> gc_freed w" "as_fi (gc_assignment w) = Some fi"
  shows "as_timer fi \<noteq> None \<and> (\<exists>w'. gscon_step (with_calls x) ho Assignment_timeout w = Ok w' \<and> as_fi (gc_assignment w') = None \<and>
    gc_state w' \<noteq> ST_ASSIGNMENT \<and> answers w' = attempts w' \<and> gc_lchan w' = gc_lchan w)"
proof -
  have e: "gscon_env x ho" using assms(1,2) by (rule gscon_env.intro)
  have i: "gscon_inv w" by (rule gscon_env.reach_inv[OF e assms(3,4)])
  have "post (assignment_fsm_timer_cb (with_calls x) w) (finished w)"
    by (rule gscon_parent.timer_ok[OF gscon_whole.axioms(1)[OF with_calls_whole[OF assms(1)]] inv_ongoing[OF i]]) (simp add: assms(5))
  then obtain w' where "assignment_fsm_timer_cb (with_calls x) w = Ok w'" "gscon_inv w'" "as_fi (gc_assignment w') = None" "gc_lchan w' = gc_lchan w"
    by (auto simp: post_iff finished_def)
  then show ?thesis using i assms(5) by (auto simp: gscon_inv_def)
qed

theorem assignment_times_out_witness:
  "as_timer \<lparr> as_state = ASSIGNMENT_ST_WAIT_LCHAN_ACTIVE, as_timer = Some 10 \<rparr> \<noteq> None \<and>
    (\<exists>w'. gscon_step (with_calls example_ctx) Ok Assignment_timeout example_assigned = Ok w' \<and> as_fi (gc_assignment w') = None \<and>
      gc_state w' \<noteq> ST_ASSIGNMENT \<and> answers w' = attempts w' \<and> gc_lchan w' = gc_lchan example_assigned)"
  by (rule assignment_times_out[OF example_ctx_simps(6) example_ho assigned_reach])
     (simp_all add: example_assigned_def example_active_def example_conn_def bsc_subscr_con_allocate_def)



text \<open>
  Property C10.  An assignment that waits for its new lchan is not told when the connection loses the one it is on: the command to change
  over is then sent on an lchan that is not there, and the program fails.
\<close>

theorem lost_lchan_fails:
  assumes "fsm_contract (cx_engine x)" "ho_contract x ho" "gscon_reach x ho w" "\<not> gc_freed w" "as_fi (gc_assignment w) = Some fi"
    "as_state fi = ASSIGNMENT_ST_WAIT_LCHAN_ACTIVE" "gc_lchan w = Some p" "as_new_lchan (gc_assignment w) = Some l" "l \<noteq> p" "gc_ho_new_lchan w \<noteq> Some p"
  shows "\<exists>w'. gscon_step (with_calls x) ho (Lchan_releasing (Some p)) w = Ok w' \<and>
    gscon_step (with_calls x) ho (Assignment_event (ASSIGNMENT_EV_LCHAN_ACTIVE l)) w' = Abort"
proof -
  have e: "gscon_env x ho" using assms(1,2) by (rule gscon_env.intro)
  from gscon_env.lost_primary[OF this gscon_env.reach_inv[OF this assms(3,4)] assms(5-)] show ?thesis .
qed

theorem lost_lchan_fails_witness:
  "\<exists>w'. gscon_step (with_calls example_ctx) Ok (Lchan_releasing (Some 1)) example_assigned = Ok w' \<and>
    gscon_step (with_calls example_ctx) Ok (Assignment_event (ASSIGNMENT_EV_LCHAN_ACTIVE 2)) w' = Abort"
  by (rule lost_lchan_fails[OF example_ctx_simps(6) example_ho assigned_reach, where fi = "\<lparr> as_state = ASSIGNMENT_ST_WAIT_LCHAN_ACTIVE, as_timer = Some 10 \<rparr>"])
     (simp_all add: example_assigned_def example_active_def example_conn_def bsc_subscr_con_allocate_def)

end
